(* ===== verification/Relay_Prelude.thy ===== *)
theory Relay_Prelude
  imports Main "HOL-Library.Word" "HOL-Library.Sublist"
begin

text \<open>
  Shared vocabulary of the Relay development: machine integer types, the parts of the Rust
  standard library that several components call (string splitting and trimming, integer
  parsing and printing, \<open>Vec\<close> and iterator helpers) and the generic lemmas about them.
  Strings are UTF-8 byte sequences, represented as \<open>char list\<close> (a \<open>char\<close> is one byte).
\<close>

section \<open>Machine integers\<close>

type_synonym u8 = "8 word"
type_synonym u16 = "16 word"
type_synonym u32 = "32 word"
type_synonym u64 = "64 word"
type_synonym bytes = "u8 list"

named_theorems relay_defs \<open>definitions of small accessors that component proofs unfold\<close>

section \<open>Splitting and joining strings\<close>

text \<open>\<open>str::split(c)\<close>: the pieces between occurrences of the separator, never an empty list.\<close>

fun split_on :: "'a \<Rightarrow> 'a list \<Rightarrow> 'a list list" where
  "split_on c [] = [[]]"
| "split_on c (x # xs) =
     (if x = c then [] # split_on c xs
      else (case split_on c xs of [] \<Rightarrow> [[x]] | p # ps \<Rightarrow> (x # p) # ps))"

text \<open>Pieces joined by a separator sequence.\<close>

fun join_with :: "'a list \<Rightarrow> 'a list list \<Rightarrow> 'a list" where
  "join_with sep [] = []"
| "join_with sep [p] = p"
| "join_with sep (p # q # ps) = p @ sep @ join_with sep (q # ps)"

lemma split_on_not_Nil [simp]: "split_on c xs \<noteq> []"
  by (induction xs) (auto split: list.splits)

lemma split_on_no_sep: "c \<notin> set xs \<Longrightarrow> split_on c xs = [xs]"
  by (induction xs) auto

lemma split_on_append:
  "c \<notin> set p \<Longrightarrow> split_on c (p @ c # rest) = p # split_on c rest"
  by (induction p) auto

lemma split_on_pieces: "p \<in> set (split_on c xs) \<Longrightarrow> c \<notin> set p"
proof (induction xs arbitrary: p)
  case (Cons x xs)
  then show ?case by (cases "split_on c xs") (auto split: if_splits)
qed simp

lemma split_on_join:
  assumes "ps \<noteq> []" and "\<forall>p \<in> set ps. c \<notin> set p"
  shows "split_on c (join_with [c] ps) = ps"
  using assms
proof (induction ps rule: induct_list012)
  case (3 p q ps)
  then show ?case by (simp add: split_on_append)
qed (auto simp: split_on_no_sep)

lemma join_with_set: "a \<in> set (join_with sep ps) \<Longrightarrow> a \<in> set sep \<or> (\<exists>p \<in> set ps. a \<in> set p)"
  by (induction ps rule: induct_list012) auto

lemma join_split_on: "join_with [c] (split_on c xs) = xs"
proof (induction xs)
  case (Cons x xs)
  obtain p ps where p: "split_on c xs = p # ps"
    using split_on_not_Nil [of c xs] by (cases "split_on c xs") auto
  show ?case using Cons p by (cases ps) auto
qed simp

text \<open>\<open>splitn(2, c)\<close>: the part before the first separator and, if there is one, all the rest.\<close>

fun splitn2 :: "'a \<Rightarrow> 'a list \<Rightarrow> 'a list \<times> 'a list option" where
  "splitn2 c [] = ([], None)"
| "splitn2 c (x # xs) =
     (if x = c then ([], Some xs) else case splitn2 c xs of (a, b) \<Rightarrow> (x # a, b))"

lemma splitn2_append: "c \<notin> set p \<Longrightarrow> splitn2 c (p @ c # rest) = (p, Some rest)"
  by (induction p) auto

lemma splitn2_no_sep: "c \<notin> set p \<Longrightarrow> splitn2 c p = (p, None)"
  by (induction p) auto

lemma splitn2_length: "splitn2 c xs = (a, Some b) \<Longrightarrow> length b < length xs"
  by (induction xs arbitrary: a b) (auto split: if_splits prod.splits intro: less_SucI)

lemma splitn2_split_on:
  "splitn2 c xs = (a, b) \<Longrightarrow>
   split_on c xs = (case b of None \<Rightarrow> [a] | Some r \<Rightarrow> a # split_on c r)"
  by (induction xs arbitrary: a b) (auto split: if_splits prod.splits option.splits)

section \<open>UTF-8\<close>

text \<open>\<open>std::str::from_utf8\<close>: the well-formed byte sequences of the Unicode standard.\<close>

definition utf8_cont :: "u8 \<Rightarrow> bool" where
  "utf8_cont b \<longleftrightarrow> 0x80 \<le> b \<and> b \<le> 0xBF"

definition utf8_lead3 :: "u8 \<Rightarrow> u8 \<Rightarrow> bool" where
  "utf8_lead3 a b \<longleftrightarrow>
     (if a = 0xE0 then 0xA0 \<le> b \<and> b \<le> 0xBF
      else if a = 0xED then 0x80 \<le> b \<and> b \<le> 0x9F
      else 0xE1 \<le> a \<and> a \<le> 0xEF \<and> utf8_cont b)"

definition utf8_lead4 :: "u8 \<Rightarrow> u8 \<Rightarrow> bool" where
  "utf8_lead4 a b \<longleftrightarrow>
     (if a = 0xF0 then 0x90 \<le> b \<and> b \<le> 0xBF
      else if a = 0xF4 then 0x80 \<le> b \<and> b \<le> 0x8F
      else 0xF1 \<le> a \<and> a \<le> 0xF3 \<and> utf8_cont b)"

fun utf8_valid :: "bytes \<Rightarrow> bool" where
  "utf8_valid [] \<longleftrightarrow> True"
| "utf8_valid [a] \<longleftrightarrow> a < 0x80"
| "utf8_valid [a, b] \<longleftrightarrow>
     (if a < 0x80 then utf8_valid [b] else 0xC2 \<le> a \<and> a \<le> 0xDF \<and> utf8_cont b)"
| "utf8_valid [a, b, c] \<longleftrightarrow>
     (if a < 0x80 then utf8_valid [b, c]
      else if 0xC2 \<le> a \<and> a \<le> 0xDF then utf8_cont b \<and> utf8_valid [c]
      else utf8_lead3 a b \<and> utf8_cont c)"
| "utf8_valid (a # b # c # d # rest) \<longleftrightarrow>
     (if a < 0x80 then utf8_valid (b # c # d # rest)
      else if 0xC2 \<le> a \<and> a \<le> 0xDF then utf8_cont b \<and> utf8_valid (c # d # rest)
      else if utf8_lead3 a b then utf8_cont c \<and> utf8_valid (d # rest)
      else utf8_lead4 a b \<and> utf8_cont c \<and> utf8_cont d \<and> utf8_valid rest)"

definition char_of_byte :: "u8 \<Rightarrow> char" where
  "char_of_byte b = char_of (unat b)"

definition from_utf8 :: "bytes \<Rightarrow> string option" where
  "from_utf8 bs = (if utf8_valid bs then Some (map char_of_byte bs) else None)"

definition as_bytes :: "string \<Rightarrow> bytes" where
  "as_bytes s = map (\<lambda>c. word_of_nat (of_char c)) s"

lemma char_of_byte_inject [simp]: "char_of_byte a = char_of_byte b \<longleftrightarrow> a = b"
proof -
  have "unat a mod 256 = unat a" "unat b mod 256 = unat b"
    using unsigned_less [of a, where ?'a = nat] unsigned_less [of b, where ?'a = nat] by simp_all
  then show ?thesis by (auto simp: char_of_byte_def char_of_eq_iff take_bit_eq_mod intro: word_unat_eq_iff [THEN iffD2])
qed

lemma utf8_valid_ascii: "\<forall>b \<in> set bs. b < 0x80 \<Longrightarrow> utf8_valid bs"
  by (induction bs rule: utf8_valid.induct) auto

section \<open>Trimming white space\<close>

text \<open>
  \<open>str::trim\<close> removes the code points with the Unicode property \<open>White_Space\<close>. Over UTF-8
  bytes these are the sequences below; UTF-8 is self-synchronising, so matching a whole
  sequence at either end is matching a code point.
\<close>

definition white_space :: "string list" where
  "white_space =
     [[CHR 0x09], [CHR 0x0A], [CHR 0x0B], [CHR 0x0C], [CHR 0x0D], [CHR 0x20],
      [CHR 0xC2, CHR 0x85], [CHR 0xC2, CHR 0xA0], [CHR 0xE1, CHR 0x9A, CHR 0x80],
      [CHR 0xE2, CHR 0x80, CHR 0x80], [CHR 0xE2, CHR 0x80, CHR 0x81],
      [CHR 0xE2, CHR 0x80, CHR 0x82], [CHR 0xE2, CHR 0x80, CHR 0x83],
      [CHR 0xE2, CHR 0x80, CHR 0x84], [CHR 0xE2, CHR 0x80, CHR 0x85],
      [CHR 0xE2, CHR 0x80, CHR 0x86], [CHR 0xE2, CHR 0x80, CHR 0x87],
      [CHR 0xE2, CHR 0x80, CHR 0x88], [CHR 0xE2, CHR 0x80, CHR 0x89],
      [CHR 0xE2, CHR 0x80, CHR 0x8A], [CHR 0xE2, CHR 0x80, CHR 0xA8],
      [CHR 0xE2, CHR 0x80, CHR 0xA9], [CHR 0xE2, CHR 0x80, CHR 0xAF],
      [CHR 0xE2, CHR 0x81, CHR 0x9F], [CHR 0xE3, CHR 0x80, CHR 0x80]]"

function strip_front :: "string list \<Rightarrow> string \<Rightarrow> string" where
  "strip_front ws s =
     (case List.find (\<lambda>w. w \<noteq> [] \<and> prefix w s) ws of
        None \<Rightarrow> s
      | Some w \<Rightarrow> strip_front ws (drop (length w) s))"
  by pat_completeness auto
termination
  by (relation "measure (\<lambda>(ws, s). length s)")
    (auto simp: find_Some_iff prefix_def)

declare strip_front.simps [simp del]

definition trim :: "string \<Rightarrow> string" where
  "trim s = rev (strip_front (map rev white_space) (rev (strip_front white_space s)))"

text \<open>A visible ASCII character is never the first or last byte of a white space sequence.\<close>

definition visible :: "char \<Rightarrow> bool" where
  "visible c \<longleftrightarrow> (32::nat) < of_char c \<and> of_char c < (127::nat)"

lemma strip_front_visible:
  assumes "\<forall>w \<in> set ws. \<forall>a. a \<in> set w \<longrightarrow> \<not> visible a" and "s = [] \<or> visible (hd s)"
  shows "strip_front ws s = s"
proof -
  have "\<not> (w \<noteq> [] \<and> prefix w s)" if w: "w \<in> set ws" for w
    using assms w by (cases w; cases s) auto
  then have "List.find (\<lambda>w. w \<noteq> [] \<and> prefix w s) ws = None"
    by (auto simp: find_None_iff)
  then show ?thesis by (subst strip_front.simps) simp
qed

lemma white_space_not_visible: "w \<in> set white_space \<Longrightarrow> a \<in> set w \<Longrightarrow> \<not> visible a"
  unfolding white_space_def visible_def by auto

lemma trim_visible:
  assumes "s = [] \<or> (visible (hd s) \<and> visible (last s))"
  shows "trim s = s"
proof -
  have a: "strip_front white_space s = s"
    using assms white_space_not_visible by (intro strip_front_visible) auto
  have "strip_front (map rev white_space) (rev s) = rev s"
    using assms white_space_not_visible
    by (intro strip_front_visible) (auto simp: hd_rev)
  then show ?thesis by (simp add: trim_def a)
qed

lemma strip_front_space:
  "strip_front white_space (CHR '' '' # s) = strip_front white_space s"
  by (subst strip_front.simps) (simp add: white_space_def)

lemma trim_space_visible:
  "s = [] \<or> (visible (hd s) \<and> visible (last s)) \<Longrightarrow> trim (CHR '' '' # s) = s"
  using trim_visible [of s] by (simp add: trim_def strip_front_space)

section \<open>Printing and parsing unsigned integers\<close>

definition digit_char :: "nat \<Rightarrow> char" where
  "digit_char d = char_of (48 + d)"

definition is_digit :: "char \<Rightarrow> bool" where
  "is_digit c \<longleftrightarrow> (48::nat) \<le> of_char c \<and> of_char c \<le> (57::nat)"

definition digit_val :: "char \<Rightarrow> nat" where
  "digit_val c = of_char c - 48"

text \<open>\<open>Display\<close> of an unsigned integer.\<close>

fun show_nat :: "nat \<Rightarrow> string" where
  "show_nat n = (if n < 10 then [digit_char n] else show_nat (n div 10) @ [digit_char (n mod 10)])"

declare show_nat.simps [simp del]

fun parse_digits :: "nat \<Rightarrow> string \<Rightarrow> nat option" where
  "parse_digits acc [] = Some acc"
| "parse_digits acc (c # cs) =
     (if is_digit c then parse_digits (acc * 10 + digit_val c) cs else None)"

text \<open>\<open>u64::from_str\<close> and its siblings: an optional plus sign, at least one digit, no overflow.\<close>

definition parse_unsigned :: "nat \<Rightarrow> string \<Rightarrow> nat option" where
  "parse_unsigned w s =
     (let t = (case s of c # r \<Rightarrow> if c = CHR ''+'' then r else s | [] \<Rightarrow> s)
      in if t = [] then None
         else (case parse_digits 0 t of
                 None \<Rightarrow> None
               | Some n \<Rightarrow> if n < 2 ^ w then Some n else None))"

definition parse_u64 :: "string \<Rightarrow> u64 option" where
  "parse_u64 s = map_option word_of_nat (parse_unsigned 64 s)"

definition parse_u32 :: "string \<Rightarrow> u32 option" where
  "parse_u32 s = map_option word_of_nat (parse_unsigned 32 s)"

text \<open>\<open>i32::from_str\<close>: an optional sign, at least one digit, no overflow.\<close>

definition parse_i32 :: "string \<Rightarrow> int option" where
  "parse_i32 s =
     (let (neg, t) = (case s of
            c # r \<Rightarrow> if c = CHR ''-'' then (True, r) else if c = CHR ''+'' then (False, r) else (False, s)
          | [] \<Rightarrow> (False, s))
      in if t = [] then None
         else (case parse_digits 0 t of
                 None \<Rightarrow> None
               | Some n \<Rightarrow>
                   let v = (if neg then - int n else int n)
                   in if - (2 ^ 31) \<le> v \<and> v < 2 ^ 31 then Some v else None))"

definition show_u64 :: "u64 \<Rightarrow> string" where
  "show_u64 n = show_nat (unat n)"

lemma is_digit_digit_char [simp]: "d < 10 \<Longrightarrow> is_digit (digit_char d)"
  by (simp add: is_digit_def digit_char_def)

lemma digit_val_digit_char [simp]: "d < 10 \<Longrightarrow> digit_val (digit_char d) = d"
  by (simp add: digit_val_def digit_char_def)

lemma parse_digits_append:
  "parse_digits acc (xs @ ys) =
     (case parse_digits acc xs of None \<Rightarrow> None | Some n \<Rightarrow> parse_digits n ys)"
  by (induction xs arbitrary: acc) auto

lemma show_nat_digits: "c \<in> set (show_nat n) \<Longrightarrow> is_digit c"
proof (induction n rule: show_nat.induct)
  case (1 n)
  then show ?case
    by (cases "n < 10") (auto simp: show_nat.simps [of n])
qed

lemma show_nat_not_Nil [simp]: "show_nat n \<noteq> []"
  by (subst show_nat.simps) simp

lemma parse_digits_show_nat: "parse_digits 0 (show_nat n) = Some n"
proof (induction n rule: show_nat.induct)
  case (1 n)
  show ?case
  proof (cases "n < 10")
    case True
    then show ?thesis by (simp add: show_nat.simps [of n])
  next
    case False
    with 1 have "parse_digits 0 (show_nat (n div 10)) = Some (n div 10)" by simp
    with False show ?thesis by (simp add: show_nat.simps [of n] parse_digits_append)
  qed
qed

lemma show_nat_inject [simp]: "show_nat m = show_nat n \<longleftrightarrow> m = n"
  by (metis option.inject parse_digits_show_nat)

lemma digit_not_plus: "is_digit c \<Longrightarrow> c \<noteq> CHR ''+''"
  by (auto simp: is_digit_def)

lemma is_digit_visible: "is_digit c \<Longrightarrow> visible c"
  by (auto simp: is_digit_def visible_def)

lemma parse_unsigned_show: "n < 2 ^ w \<Longrightarrow> parse_unsigned w (show_nat n) = Some n"
proof -
  have "hd (show_nat n) \<noteq> CHR ''+''"
    using show_nat_digits [OF hd_in_set [OF show_nat_not_Nil]] digit_not_plus by blast
  then have t: "(case show_nat n of c # r \<Rightarrow> if c = CHR ''+'' then r else show_nat n
                 | [] \<Rightarrow> show_nat n) = show_nat n"
    by (cases "show_nat n") auto
  then show "n < 2 ^ w \<Longrightarrow> ?thesis"
    by (simp add: parse_unsigned_def t Let_def parse_digits_show_nat)
qed

lemma parse_u64_show: "parse_u64 (show_u64 n) = Some n"
  using unsigned_less [of n, where ?'a = nat] by (simp add: parse_u64_def show_u64_def parse_unsigned_show)

lemma parse_u32_show: "parse_u32 (show_nat (unat n)) = Some n"
  using unsigned_less [of n, where ?'a = nat] by (simp add: parse_u32_def parse_unsigned_show)

section \<open>Vectors and iterators\<close>

text \<open>\<open>Iterator::position\<close>.\<close>

fun position :: "('a \<Rightarrow> bool) \<Rightarrow> 'a list \<Rightarrow> nat option" where
  "position P [] = None"
| "position P (x # xs) = (if P x then Some 0 else map_option Suc (position P xs))"

text \<open>\<open>Vec::swap_remove\<close>: the last element takes the place of the removed one.\<close>

definition swap_remove :: "nat \<Rightarrow> 'a list \<Rightarrow> 'a \<times> 'a list" where
  "swap_remove i xs = (xs ! i, butlast (xs[i := last xs]))"

text \<open>\<open>Iterator::max_by_key\<close>: the last of the elements with the greatest key.\<close>

fun max_by_key :: "('a \<Rightarrow> 'k::linorder) \<Rightarrow> 'a list \<Rightarrow> 'a option" where
  "max_by_key f [] = None"
| "max_by_key f (x # xs) =
     (case max_by_key f xs of
        None \<Rightarrow> Some x
      | Some y \<Rightarrow> if f y < f x then Some x else Some y)"

lemma max_by_key_None [simp]: "max_by_key f xs = None \<longleftrightarrow> xs = []"
  by (cases xs) (auto split: option.splits if_splits)

lemma max_by_key_in: "max_by_key f xs = Some x \<Longrightarrow> x \<in> set xs"
  by (induction xs arbitrary: x) (auto split: option.splits if_splits)

lemma max_by_key_ge: "max_by_key f xs = Some x \<Longrightarrow> y \<in> set xs \<Longrightarrow> f y \<le> f x"
proof (induction xs arbitrary: x y)
  case (Cons a xs)
  then show ?case
    by (cases "max_by_key f xs") (fastforce split: if_splits)+
qed simp

lemma position_Some:
  "position P xs = Some i \<Longrightarrow> i < length xs \<and> P (xs ! i) \<and> (\<forall>j < i. \<not> P (xs ! j))"
proof (induction xs arbitrary: i)
  case (Cons x xs)
  show ?case
  proof (cases "P x")
    case False
    with Cons.prems obtain k where k: "position P xs = Some k" "i = Suc k" by auto
    with Cons.IH [of k] False show ?thesis by (auto simp: less_Suc_eq_0_disj)
  qed (use Cons.prems in auto)
qed simp

lemma position_None: "position P xs = None \<longleftrightarrow> (\<forall>x \<in> set xs. \<not> P x)"
  by (induction xs) auto

lemma position_append_hit:
  "(\<forall>x \<in> set xs. \<not> P x) \<Longrightarrow> P y \<Longrightarrow> position P (xs @ y # ys) = Some (length xs)"
  by (induction xs) auto

section \<open>ASCII case\<close>

text \<open>\<open>u8::to_ascii_lowercase\<close> and \<open>str::eq_ignore_ascii_case\<close>.\<close>

definition ascii_lower_char :: "char \<Rightarrow> char" where
  "ascii_lower_char c =
     (if (65::nat) \<le> of_char c \<and> of_char c \<le> (90::nat) then char_of (of_char c + (32::nat)) else c)"

definition to_ascii_lowercase :: "string \<Rightarrow> string" where
  "to_ascii_lowercase s = map ascii_lower_char s"

definition eq_ignore_ascii_case :: "string \<Rightarrow> string \<Rightarrow> bool" where
  "eq_ignore_ascii_case s t \<longleftrightarrow> to_ascii_lowercase s = to_ascii_lowercase t"

lemma ascii_lower_char_idem [simp]: "ascii_lower_char (ascii_lower_char c) = ascii_lower_char c"
  by (auto simp: ascii_lower_char_def of_char_of)

lemma to_ascii_lowercase_idem [simp]:
  "to_ascii_lowercase (to_ascii_lowercase s) = to_ascii_lowercase s"
  by (simp add: to_ascii_lowercase_def)

section \<open>Small list facts\<close>

lemma foldl_if_filter:
  "foldl (\<lambda>acc x. if P x then f acc (g x) else acc) a xs = foldl f a (map g (filter P xs))"
  by (induction xs arbitrary: a) auto

lemma foldl_invariant:
  assumes "I a" and "\<And>a x. x \<in> set xs \<Longrightarrow> I a \<Longrightarrow> I (f a x)"
  shows "I (foldl f a xs)"
  using assms by (induction xs arbitrary: a) auto

end
