(* ===== verification/Relay_Common.thy ===== *)
theory Relay_Common
  imports Relay_Prelude
begin

text \<open>
  The crate \<open>relay-common\<close>: event types, data categories and span statuses
  (\<open>constants.rs\<close>), project keys (\<open>project.rs\<close>), UNIX timestamps and monotonic instants
  (\<open>time.rs\<close>). The textual enums share one interface, the locale \<open>str_enum\<close>: a canonical
  name for every variant which the parser reads back.
\<close>

section \<open>Textual enums\<close>

locale str_enum =
  fixes to_name :: "'a \<Rightarrow> string"
    and from_name :: "string \<Rightarrow> 'a option"
  assumes from_to_name: "from_name (to_name x) = Some x"
begin

lemma to_name_inject: "to_name x = to_name y \<longleftrightarrow> x = y"
  by (metis from_to_name option.inject)

lemma from_name_surj: "\<exists>s. from_name s = Some x"
  using from_to_name by blast

lemma to_name_hit: "from_name s = Some x \<Longrightarrow> from_name (to_name x) = from_name s"
  by (simp add: from_to_name)

end

section \<open>Event types\<close>

datatype event_type =
    ET_Error | ET_Csp | ET_Hpkp | ET_ExpectCt | ET_ExpectStaple | ET_Transaction | ET_Default

definition event_type_default :: event_type where
  "event_type_default = ET_Default"

definition event_type_from_str :: "string \<Rightarrow> event_type option" where
  "event_type_from_str s =
     (if s = ''default'' then Some ET_Default
      else if s = ''error'' then Some ET_Error
      else if s = ''csp'' then Some ET_Csp
      else if s = ''hpkp'' then Some ET_Hpkp
      else if s = ''expectct'' then Some ET_ExpectCt
      else if s = ''expectstaple'' then Some ET_ExpectStaple
      else if s = ''transaction'' then Some ET_Transaction
      else None)"

fun event_type_display :: "event_type \<Rightarrow> string" where
  "event_type_display ET_Default = ''default''"
| "event_type_display ET_Error = ''error''"
| "event_type_display ET_Csp = ''csp''"
| "event_type_display ET_Hpkp = ''hpkp''"
| "event_type_display ET_ExpectCt = ''expectct''"
| "event_type_display ET_ExpectStaple = ''expectstaple''"
| "event_type_display ET_Transaction = ''transaction''"

interpretation event_type: str_enum event_type_display event_type_from_str
proof
  show "event_type_from_str (event_type_display x) = Some x" for x
    by (cases x) (simp_all add: event_type_from_str_def)
qed

section \<open>Data categories\<close>

datatype data_category =
    DC_Default | DC_Error | DC_Transaction | DC_Security | DC_Attachment | DC_Session | DC_Unknown

text \<open>The \<open>repr(i8)\<close> discriminants, which also give the derived order.\<close>

fun data_category_discriminant :: "data_category \<Rightarrow> int" where
  "data_category_discriminant DC_Default = 0"
| "data_category_discriminant DC_Error = 1"
| "data_category_discriminant DC_Transaction = 2"
| "data_category_discriminant DC_Security = 3"
| "data_category_discriminant DC_Attachment = 4"
| "data_category_discriminant DC_Session = 5"
| "data_category_discriminant DC_Unknown = - 1"

lemma data_category_discriminant_inject [simp]:
  "data_category_discriminant a = data_category_discriminant b \<longleftrightarrow> a = b"
  by (cases a; cases b) simp_all

instantiation data_category :: linorder
begin

definition less_eq_data_category :: "data_category \<Rightarrow> data_category \<Rightarrow> bool" where
  "less_eq_data_category a b \<longleftrightarrow> data_category_discriminant a \<le> data_category_discriminant b"

definition less_data_category :: "data_category \<Rightarrow> data_category \<Rightarrow> bool" where
  "less_data_category a b \<longleftrightarrow> data_category_discriminant a < data_category_discriminant b"

instance
  by standard (auto simp: less_eq_data_category_def less_data_category_def)

end

definition data_category_from_name :: "string \<Rightarrow> data_category" where
  "data_category_from_name s =
     (if s = ''default'' then DC_Default
      else if s = ''error'' then DC_Error
      else if s = ''transaction'' then DC_Transaction
      else if s = ''security'' then DC_Security
      else if s = ''attachment'' then DC_Attachment
      else if s = ''session'' then DC_Session
      else DC_Unknown)"

fun data_category_name :: "data_category \<Rightarrow> string" where
  "data_category_name DC_Default = ''default''"
| "data_category_name DC_Error = ''error''"
| "data_category_name DC_Transaction = ''transaction''"
| "data_category_name DC_Security = ''security''"
| "data_category_name DC_Attachment = ''attachment''"
| "data_category_name DC_Session = ''session''"
| "data_category_name DC_Unknown = ''unknown''"

definition data_category_is_error :: "data_category \<Rightarrow> bool" where
  "data_category_is_error c \<longleftrightarrow> c = DC_Error \<or> c = DC_Default \<or> c = DC_Security"

text \<open>\<open>(self as i8).try_into().ok()\<close>: the negative discriminant does not fit a \<open>u8\<close>.\<close>

definition data_category_value :: "data_category \<Rightarrow> u8 option" where
  "data_category_value c =
     (let i = data_category_discriminant c in if 0 \<le> i then Some (word_of_int i) else None)"

definition data_category_from_str :: "string \<Rightarrow> data_category option" where
  "data_category_from_str s = Some (data_category_from_name s)"

fun data_category_from_event_type :: "event_type \<Rightarrow> data_category" where
  "data_category_from_event_type ET_Default = DC_Error"
| "data_category_from_event_type ET_Error = DC_Error"
| "data_category_from_event_type ET_Transaction = DC_Transaction"
| "data_category_from_event_type ET_Csp = DC_Security"
| "data_category_from_event_type ET_Hpkp = DC_Security"
| "data_category_from_event_type ET_ExpectCt = DC_Security"
| "data_category_from_event_type ET_ExpectStaple = DC_Security"

interpretation data_category: str_enum data_category_name data_category_from_str
proof
  show "data_category_from_str (data_category_name x) = Some x" for x
    by (cases x) (simp_all add: data_category_from_str_def data_category_from_name_def)
qed

lemma data_category_from_name_name [simp]: "data_category_from_name (data_category_name c) = c"
  using data_category.from_to_name [of c] by (simp add: data_category_from_str_def)

lemma data_category_name_chars:
  "a \<in> set (data_category_name c) \<Longrightarrow> visible a \<and> a \<noteq> CHR '':'' \<and> a \<noteq> CHR '';'' \<and> a \<noteq> CHR '',''"
  by (cases c) (auto simp: visible_def)

lemma data_category_name_not_Nil [simp]: "data_category_name c \<noteq> []"
  by (cases c) simp_all

section \<open>Span status\<close>

datatype span_status =
    SS_Ok | SS_Cancelled | SS_Unknown | SS_InvalidArgument | SS_DeadlineExceeded | SS_NotFound
  | SS_AlreadyExists | SS_PermissionDenied | SS_ResourceExhausted | SS_FailedPrecondition
  | SS_Aborted | SS_OutOfRange | SS_Unimplemented | SS_InternalError | SS_Unavailable
  | SS_DataLoss | SS_Unauthenticated

definition span_status_from_str :: "string \<Rightarrow> span_status option" where
  "span_status_from_str s =
     (if s = ''ok'' then Some SS_Ok
      else if s = ''success'' then Some SS_Ok
      else if s = ''deadline_exceeded'' then Some SS_DeadlineExceeded
      else if s = ''unauthenticated'' then Some SS_Unauthenticated
      else if s = ''permission_denied'' then Some SS_PermissionDenied
      else if s = ''not_found'' then Some SS_NotFound
      else if s = ''resource_exhausted'' then Some SS_ResourceExhausted
      else if s = ''invalid_argument'' then Some SS_InvalidArgument
      else if s = ''unimplemented'' then Some SS_Unimplemented
      else if s = ''unavailable'' then Some SS_Unavailable
      else if s = ''internal_error'' then Some SS_InternalError
      else if s = ''failure'' then Some SS_InternalError
      else if s = ''unknown'' \<or> s = ''unknown_error'' then Some SS_Unknown
      else if s = ''cancelled'' then Some SS_Cancelled
      else if s = ''already_exists'' then Some SS_AlreadyExists
      else if s = ''failed_precondition'' then Some SS_FailedPrecondition
      else if s = ''aborted'' then Some SS_Aborted
      else if s = ''out_of_range'' then Some SS_OutOfRange
      else if s = ''data_loss'' then Some SS_DataLoss
      else None)"

fun span_status_display :: "span_status \<Rightarrow> string" where
  "span_status_display SS_Ok = ''ok''"
| "span_status_display SS_DeadlineExceeded = ''deadline_exceeded''"
| "span_status_display SS_Unauthenticated = ''unauthenticated''"
| "span_status_display SS_PermissionDenied = ''permission_denied''"
| "span_status_display SS_NotFound = ''not_found''"
| "span_status_display SS_ResourceExhausted = ''resource_exhausted''"
| "span_status_display SS_InvalidArgument = ''invalid_argument''"
| "span_status_display SS_Unimplemented = ''unimplemented''"
| "span_status_display SS_Unavailable = ''unavailable''"
| "span_status_display SS_InternalError = ''internal_error''"
| "span_status_display SS_Unknown = ''unknown''"
| "span_status_display SS_Cancelled = ''cancelled''"
| "span_status_display SS_AlreadyExists = ''already_exists''"
| "span_status_display SS_FailedPrecondition = ''failed_precondition''"
| "span_status_display SS_Aborted = ''aborted''"
| "span_status_display SS_OutOfRange = ''out_of_range''"
| "span_status_display SS_DataLoss = ''data_loss''"

interpretation span_status: str_enum span_status_display span_status_from_str
proof
  show "span_status_from_str (span_status_display x) = Some x" for x
    by (cases x) (simp_all add: span_status_from_str_def)
qed

section \<open>Project identifiers and keys\<close>

text \<open>\<open>ProjectId\<close> comes from \<open>sentry-types\<close>; Relay reads its numeric value only.\<close>

type_synonym project_id = u64

datatype project_key = ProjectKey (key_bytes: string)

definition is_ascii :: "string \<Rightarrow> bool" where
  "is_ascii s \<longleftrightarrow> list_all (\<lambda>c. of_char c < (128::nat)) s"

datatype parse_project_key_error = ParseProjectKeyError

definition project_key_parse :: "string \<Rightarrow> parse_project_key_error + project_key" where
  "project_key_parse key =
     (if length key \<noteq> 32 \<or> \<not> is_ascii key then Inl ParseProjectKeyError
      else Inr (ProjectKey key))"

definition project_key_parse_with_flags ::
  "string \<Rightarrow> parse_project_key_error + project_key \<times> string list" where
  "project_key_parse_with_flags s =
     (case split_on CHR ''.'' s of
        [] \<Rightarrow> Inl ParseProjectKeyError
      | key # flags \<Rightarrow>
          (case project_key_parse key of
             Inl e \<Rightarrow> Inl e
           | Inr k \<Rightarrow> Inr (k, flags)))"

definition project_key_as_str :: "project_key \<Rightarrow> string" where
  "project_key_as_str k = key_bytes k"

text \<open>The representation invariant that \<open>as_str\<close> relies on.\<close>

definition project_key_inv :: "project_key \<Rightarrow> bool" where
  "project_key_inv k \<longleftrightarrow> length (key_bytes k) = 32 \<and> is_ascii (key_bytes k)"

lemma project_key_parse_inv: "project_key_parse s = Inr k \<Longrightarrow> project_key_inv k"
  by (auto simp: project_key_parse_def project_key_inv_def split: if_splits)

lemma project_key_parse_as_str:
  "project_key_inv k \<Longrightarrow> project_key_parse (project_key_as_str k) = Inr k"
  by (cases k) (auto simp: project_key_parse_def project_key_inv_def project_key_as_str_def)

section \<open>Time\<close>

text \<open>
  \<open>Instant\<close> and \<open>SystemTime\<close> are seconds and nanoseconds with a signed 64-bit second field;
  both are modelled as a number of nanoseconds (from an arbitrary origin for \<open>Instant\<close>,
  from the UNIX epoch for \<open>SystemTime\<close>), and an instant is representable while its seconds
  fit an \<open>i64\<close>. A \<open>Duration\<close> is a number of nanoseconds. Every read of a clock is an
  argument of the operation that reads it.
\<close>

type_synonym instant = int
type_synonym system_time = int
type_synonym duration = nat

definition nanos_per_sec :: nat where
  "nanos_per_sec = 10 ^ 9"

definition duration_from_secs :: "u64 \<Rightarrow> duration" where
  "duration_from_secs s = unat s * nanos_per_sec"

definition duration_as_secs :: "duration \<Rightarrow> nat" where
  "duration_as_secs d = d div nanos_per_sec"

definition duration_subsec_nanos :: "duration \<Rightarrow> nat" where
  "duration_subsec_nanos d = d mod nanos_per_sec"

definition instant_representable :: "instant \<Rightarrow> bool" where
  "instant_representable i \<longleftrightarrow>
     - (2 ^ 63) \<le> i div int nanos_per_sec \<and> i div int nanos_per_sec < 2 ^ 63"

definition instant_checked_add :: "instant \<Rightarrow> duration \<Rightarrow> instant option" where
  "instant_checked_add i d = (if instant_representable (i + int d) then Some (i + int d) else None)"

definition instant_checked_sub :: "instant \<Rightarrow> duration \<Rightarrow> instant option" where
  "instant_checked_sub i d = (if instant_representable (i - int d) then Some (i - int d) else None)"

text \<open>\<open>UnixTimestamp\<close> wraps a \<open>u64\<close> number of seconds.\<close>

type_synonym unix_timestamp = u64

definition unix_from_system :: "system_time \<Rightarrow> unix_timestamp" where
  "unix_from_system t =
     (if t < 0 then 0 else word_of_nat (duration_as_secs (nat t)))"

definition unix_from_datetime :: "int \<Rightarrow> unix_timestamp option" where
  "unix_from_datetime timestamp = (if 0 \<le> timestamp then Some (word_of_int timestamp) else None)"

text \<open>\<open>instant.elapsed()\<close> for an instant that is not in the future.\<close>

definition instant_to_system_time :: "instant \<Rightarrow> system_time \<Rightarrow> instant \<Rightarrow> system_time" where
  "instant_to_system_time instant_now system_now i = system_now - max 0 (instant_now - i)"

datatype monotonic_result = MR_Past | MR_Instant instant | MR_Future

text \<open>\<open>UnixTimestamp - UnixTimestamp\<close> on \<open>u64\<close>; the release build wraps.\<close>

definition unix_sub :: "unix_timestamp \<Rightarrow> unix_timestamp \<Rightarrow> duration" where
  "unix_sub a b = duration_from_secs (a - b)"

definition unix_to_instant ::
  "system_time \<Rightarrow> instant \<Rightarrow> unix_timestamp \<Rightarrow> monotonic_result" where
  "unix_to_instant system_now instant_now ts =
     (let now = unix_from_system system_now
      in if now < ts then
           (case instant_checked_add instant_now (unix_sub ts now) of
              Some i \<Rightarrow> MR_Instant i
            | None \<Rightarrow> MR_Future)
         else
           (case instant_checked_sub instant_now (unix_sub now ts) of
              Some i \<Rightarrow> MR_Instant i
            | None \<Rightarrow> MR_Past))"

definition unix_from_str :: "string \<Rightarrow> unix_timestamp option" where
  "unix_from_str s = parse_u64 s"

lemma unix_sub_le: "b \<le> a \<Longrightarrow> unix_sub a b = (unat a - unat b) * nanos_per_sec"
  by (simp add: unix_sub_def duration_from_secs_def unat_sub)

lemma nanos_per_sec_pos [simp]: "0 < nanos_per_sec"
  by (simp add: nanos_per_sec_def)

text \<open>
  The monotonic translation keeps the distance to the current time: one second of UNIX time
  is one second of monotonic time.
\<close>

lemma unix_to_instant_offset:
  assumes "unix_to_instant system_now instant_now ts = MR_Instant i"
  shows "i = instant_now
           + (int (unat ts) - int (unat (unix_from_system system_now))) * int nanos_per_sec"
proof (cases "unix_from_system system_now < ts")
  case True
  then have d: "unix_sub ts (unix_from_system system_now)
      = (unat ts - unat (unix_from_system system_now)) * nanos_per_sec"
    and le: "unat (unix_from_system system_now) \<le> unat ts"
    by (simp_all add: unix_sub_le word_less_nat_alt word_le_nat_alt)
  from assms True show ?thesis
    by (auto simp: unix_to_instant_def Let_def instant_checked_add_def d of_nat_diff [OF le]
        split: if_splits option.splits)
next
  case False
  then have d: "unix_sub (unix_from_system system_now) ts
      = (unat (unix_from_system system_now) - unat ts) * nanos_per_sec"
    and le: "unat ts \<le> unat (unix_from_system system_now)"
    by (simp_all add: unix_sub_le word_le_nat_alt not_less)
  from assms False show ?thesis
    by (auto simp: unix_to_instant_def Let_def instant_checked_sub_def d of_nat_diff [OF le]
        left_diff_distrib split: if_splits option.splits)
qed

end
