(* ===== verification/Ordered_Map.thy ===== *)
theory Ordered_Map
  imports Relay_Prelude "HOL-Library.List_Lexorder" "HOL-Library.Char_ord"
begin

text \<open>
  \<open>BTreeMap\<close> as an association list in key order. The order is a parameter, so that the
  same operations serve string keys (byte-wise lexicographic order) and keys whose order
  comes from a third-party wrapper; the locale \<open>key_order\<close> states what the map needs of it.
\<close>

section \<open>Operations\<close>

type_synonym ('k, 'v) btree_map = "('k \<times> 'v) list"

fun bt_upsert ::
  "('k \<Rightarrow> 'k \<Rightarrow> bool) \<Rightarrow> 'k \<Rightarrow> ('v \<Rightarrow> 'v) \<Rightarrow> 'v \<Rightarrow> ('k, 'v) btree_map \<Rightarrow> ('k, 'v) btree_map" where
  "bt_upsert le k f d [] = [(k, d)]"
| "bt_upsert le k f d ((k', v') # xs) =
     (if k = k' then (k', f v') # xs
      else if le k k' then (k, d) # (k', v') # xs
      else (k', v') # bt_upsert le k f d xs)"

definition bt_insert ::
  "('k \<Rightarrow> 'k \<Rightarrow> bool) \<Rightarrow> 'k \<Rightarrow> 'v \<Rightarrow> ('k, 'v) btree_map \<Rightarrow> ('k, 'v) btree_map" where
  "bt_insert le k v xs = bt_upsert le k (\<lambda>_. v) v xs"

definition bt_get :: "('k, 'v) btree_map \<Rightarrow> 'k \<Rightarrow> 'v option" where
  "bt_get xs k = map_of xs k"

definition bt_inv :: "('k \<Rightarrow> 'k \<Rightarrow> bool) \<Rightarrow> ('k, 'v) btree_map \<Rightarrow> bool" where
  "bt_inv le xs \<longleftrightarrow> sorted_wrt (\<lambda>a b. le a b \<and> a \<noteq> b) (map fst xs)"

abbreviation str_le :: "string \<Rightarrow> string \<Rightarrow> bool" where
  "str_le \<equiv> (\<le>)"

lemma bt_inv_Nil [simp]: "bt_inv le []"
  by (simp add: bt_inv_def)

lemma bt_upsert_keys: "fst ` set (bt_upsert le k f d xs) = insert k (fst ` set xs)"
proof (induction xs)
  case (Cons p xs)
  then show ?case by (cases p) (simp add: insert_commute)
qed simp

section \<open>The order interface\<close>

locale key_order =
  fixes le :: "'k \<Rightarrow> 'k \<Rightarrow> bool"
  assumes le_total: "le a b \<or> le b a"
    and le_trans: "le a b \<Longrightarrow> le b c \<Longrightarrow> le a c"
    and le_antisym: "le a b \<Longrightarrow> le b a \<Longrightarrow> a = b"
begin

lemma bt_inv_ConsD: "bt_inv le ((k, v) # xs) \<Longrightarrow> bt_inv le xs \<and> (\<forall>a \<in> fst ` set xs. le k a \<and> k \<noteq> a)"
  by (auto simp: bt_inv_def)

lemma bt_inv_distinct: "bt_inv le xs \<Longrightarrow> distinct (map fst xs)"
  by (induction xs) (auto simp: bt_inv_def)

lemma bt_upsert_inv: "bt_inv le xs \<Longrightarrow> bt_inv le (bt_upsert le k f d xs)"
proof (induction xs)
  case (Cons p xs)
  obtain k' v' where p: "p = (k', v')" by (cases p)
  have tl: "bt_inv le xs" and hd: "\<forall>a \<in> fst ` set xs. le k' a \<and> k' \<noteq> a"
    using bt_inv_ConsD [of k' v' xs] Cons.prems by (simp_all add: p)
  consider (eq) "k = k'" | (before) "k \<noteq> k'" "le k k'" | (after) "k \<noteq> k'" "\<not> le k k'" by blast
  then show ?case
  proof cases
    case eq
    with Cons.prems show ?thesis by (simp add: p bt_inv_def)
  next
    case before
    have "\<forall>a \<in> fst ` set xs. le k a \<and> k \<noteq> a"
      using before hd le_trans le_antisym by blast
    with before Cons.prems show ?thesis by (auto simp: p bt_inv_def)
  next
    case after
    then have "le k' k" using le_total by blast
    then have "\<forall>a \<in> fst ` set (bt_upsert le k f d xs). le k' a \<and> k' \<noteq> a"
      using after hd by (auto simp: bt_upsert_keys)
    with after Cons.IH [OF tl] show ?thesis by (simp add: p bt_inv_def)
  qed
qed (simp add: bt_inv_def)

lemma bt_upsert_get:
  assumes "bt_inv le xs"
  shows "bt_get (bt_upsert le k f d xs) a =
           (if a = k then Some (case bt_get xs k of Some v \<Rightarrow> f v | None \<Rightarrow> d) else bt_get xs a)"
  using assms
proof (induction xs)
  case (Cons p xs)
  obtain k' v' where p: "p = (k', v')" by (cases p)
  have tl: "bt_inv le xs" and hd: "\<forall>b \<in> fst ` set xs. le k' b \<and> k' \<noteq> b"
    using bt_inv_ConsD [of k' v' xs] Cons.prems by (simp_all add: p)
  show ?case
  proof (cases "k \<noteq> k' \<and> le k k'")
    case True
    then have "k \<notin> fst ` set xs" using hd le_antisym le_trans by blast
    then have "map_of xs k = None" by (simp add: map_of_eq_None_iff)
    with True show ?thesis by (simp add: p bt_get_def)
  next
    case False
    with Cons.IH [OF tl] show ?thesis by (auto simp: p bt_get_def)
  qed
qed (simp add: bt_get_def)

lemma bt_insert_inv: "bt_inv le xs \<Longrightarrow> bt_inv le (bt_insert le k v xs)"
  by (simp add: bt_insert_def bt_upsert_inv)

lemma bt_insert_get:
  "bt_inv le xs \<Longrightarrow> bt_get (bt_insert le k v xs) a = (if a = k then Some v else bt_get xs a)"
  by (simp add: bt_insert_def bt_upsert_get split: option.splits)

text \<open>Inserting the entries of a map in order rebuilds it.\<close>

lemma bt_insert_last: "bt_inv le (xs @ [(k, v)]) \<Longrightarrow> bt_insert le k v xs = xs @ [(k, v)]"
  unfolding bt_insert_def
proof (induction xs)
  case (Cons p xs)
  obtain k' v' where p: "p = (k', v')" by (cases p)
  have "le k' k \<and> k' \<noteq> k" and tl: "bt_inv le (xs @ [(k, v)])"
    using bt_inv_ConsD [of k' v' "xs @ [(k, v)]"] Cons.prems by (simp_all add: p)
  then have "k \<noteq> k'" and "\<not> le k k'" using le_antisym by auto
  with Cons.IH [OF tl] show ?case by (simp add: p)
qed simp

lemma bt_inv_append1: "bt_inv le (xs @ ys) \<Longrightarrow> bt_inv le xs"
  by (simp add: bt_inv_def sorted_wrt_append)

lemma bt_insert_all:
  "bt_inv le (xs @ ys) \<Longrightarrow> foldl (\<lambda>m (k, v). bt_insert le k v m) xs ys = xs @ ys"
proof (induction ys arbitrary: xs)
  case (Cons p ys)
  obtain k v where p: "p = (k, v)" by (cases p)
  have "bt_inv le (xs @ [(k, v)])" using Cons.prems bt_inv_append1 [of "xs @ [(k, v)]" ys] by (simp add: p)
  then have "bt_insert le k v xs = xs @ [(k, v)]" by (rule bt_insert_last)
  with Cons.IH [of "xs @ [(k, v)]"] Cons.prems show ?case by (simp add: p)
qed simp

text \<open>Two maps in key order with the same contents are the same list.\<close>

lemma bt_canonical:
  assumes "bt_inv le xs" and "bt_inv le ys" and "bt_get xs = bt_get ys"
  shows "xs = ys"
  using assms
proof (induction xs arbitrary: ys)
  case Nil
  show ?case
  proof (cases ys)
    case (Cons p ys')
    then show ?thesis
      using fun_cong [OF Nil.prems(3), of "fst p"] by (cases p) (simp add: bt_get_def)
  qed simp
next
  case (Cons p xs)
  obtain k v where p: "p = (k, v)" by (cases p)
  have dx: "dom (map_of ((k, v) # xs)) = dom (map_of ys)"
    using Cons.prems(3) by (simp add: bt_get_def [abs_def] p fun_eq_iff dom_def)
  then obtain k' v' ys' where ys: "ys = (k', v') # ys'"
    by (cases ys) auto
  have keys: "insert k (fst ` set xs) = insert k' (fst ` set ys')"
    using dx by (simp add: ys dom_map_of_conv_image_fst)
  have x: "bt_inv le xs" "\<forall>a \<in> fst ` set xs. le k a \<and> k \<noteq> a"
    and y: "bt_inv le ys'" "\<forall>a \<in> fst ` set ys'. le k' a \<and> k' \<noteq> a"
    using bt_inv_ConsD [of k v xs] bt_inv_ConsD [of k' v' ys'] Cons.prems by (simp_all add: p ys)
  have k: "k = k'"
  proof (rule ccontr)
    assume "k \<noteq> k'"
    then have "k \<in> fst ` set ys'" and "k' \<in> fst ` set xs" using keys by (metis insertE insertI1)+
    then have "le k' k" and "le k k'" using x(2) y(2) by blast+
    then show False using le_antisym \<open>k \<noteq> k'\<close> by simp
  qed
  have v: "v = v'" using Cons.prems(3) k by (auto simp: bt_get_def fun_eq_iff p ys split: if_splits)
  have "bt_get xs a = bt_get ys' a" for a
  proof (cases "a = k")
    case True
    then have "a \<notin> fst ` set xs" and "a \<notin> fst ` set ys'" using x(2) y(2) k by blast+
    then have "map_of xs a = None" and "map_of ys' a = None" by (simp_all add: map_of_eq_None_iff)
    then show ?thesis by (simp add: bt_get_def)
  next
    case False
    then show ?thesis
      using fun_cong [OF Cons.prems(3), of a] k by (simp add: bt_get_def p ys)
  qed
  then have "xs = ys'" using Cons.IH [OF x(1) y(1)] by blast
  then show ?case by (simp add: p ys k v)
qed

end

interpretation str_keys: key_order str_le
  by unfold_locales auto

end
