(* ===== verification/Float64.thy ===== *)
theory Float64
  imports Relay_Prelude
begin

text \<open>
  Rust's \<open>f64\<close>: IEEE 754 binary64 numbers with exact integer arithmetic underneath. A finite
  number is a sign, a significand below \<open>2 ^ 53\<close> and a binary exponent; \<open>f64_round\<close> rounds
  to nearest, ties to even. NaN payloads are not distinguished. The operations are those
  Relay calls: addition, division, comparison, \<open>max\<close>, \<open>min\<close>, \<open>ceil\<close>, \<open>as u64\<close> and \<open>parse\<close>.
\<close>

section \<open>Representation and rounding\<close>

datatype f64 = F64_NaN | F64_Inf bool | F64_Fin bool nat int

fun bit_length :: "nat \<Rightarrow> nat" where
  "bit_length n = (if n = 0 then 0 else Suc (bit_length (n div 2)))"

declare bit_length.simps [simp del]

text \<open>The quotient by \<open>2 ^ d\<close>, rounded to nearest with ties to even.\<close>

definition div_round_even :: "nat \<Rightarrow> nat \<Rightarrow> nat" where
  "div_round_even m d =
     (let q = m div 2 ^ d; r = 2 * (m mod 2 ^ d)
      in if 2 ^ d < r \<or> (r = 2 ^ d \<and> odd q) then q + 1 else q)"

definition f64_round :: "bool \<Rightarrow> nat \<Rightarrow> int \<Rightarrow> f64" where
  "f64_round s m e =
     (if m = 0 then F64_Fin s 0 (- 1074)
      else let e' = max (e + int (bit_length m) - 53) (- 1074);
               m' = (if e' \<le> e then m * 2 ^ nat (e - e') else div_round_even m (nat (e' - e)));
               m'' = (if m' = 2 ^ 53 then 2 ^ 52 else m');
               e'' = (if m' = 2 ^ 53 then e' + 1 else e')
           in if 971 < e'' then F64_Inf s else F64_Fin s m'' e'')"

definition f64_zero :: f64 where
  "f64_zero = F64_Fin False 0 (- 1074)"

definition f64_of_nat :: "nat \<Rightarrow> f64" where
  "f64_of_nat n = f64_round False n 0"

section \<open>Arithmetic and comparison\<close>

text \<open>The signed significand of a finite number at a smaller exponent.\<close>

definition scaled :: "bool \<Rightarrow> nat \<Rightarrow> int \<Rightarrow> int \<Rightarrow> int" where
  "scaled s m e e0 = (if s then - 1 else 1) * int m * 2 ^ nat (e - e0)"

fun f64_add :: "f64 \<Rightarrow> f64 \<Rightarrow> f64" where
  "f64_add (F64_Fin s m e) (F64_Fin t n f) =
     (let e0 = min e f; z = scaled s m e e0 + scaled t n f e0
      in if z = 0 then F64_Fin (s \<and> t) 0 (- 1074) else f64_round (z < 0) (nat \<bar>z\<bar>) e0)"
| "f64_add (F64_Inf s) (F64_Inf t) = (if s = t then F64_Inf s else F64_NaN)"
| "f64_add (F64_Inf s) (F64_Fin _ _ _) = F64_Inf s"
| "f64_add (F64_Fin _ _ _) (F64_Inf t) = F64_Inf t"
| "f64_add _ _ = F64_NaN"

text \<open>Division; a sticky bit makes the truncated quotient round correctly.\<close>

fun f64_div :: "f64 \<Rightarrow> f64 \<Rightarrow> f64" where
  "f64_div (F64_Fin s m e) (F64_Fin t n f) =
     (if n = 0 then (if m = 0 then F64_NaN else F64_Inf (s \<noteq> t))
      else let k = 66 + bit_length n; q = m * 2 ^ k div n
           in f64_round (s \<noteq> t) (2 * q + (if m * 2 ^ k mod n = 0 then 0 else 1)) (e - f - int k - 1))"
| "f64_div (F64_Inf s) (F64_Fin t _ _) = F64_Inf (s \<noteq> t)"
| "f64_div (F64_Fin s _ _) (F64_Inf t) = F64_Fin (s \<noteq> t) 0 (- 1074)"
| "f64_div _ _ = F64_NaN"

fun f64_less :: "f64 \<Rightarrow> f64 \<Rightarrow> bool" where
  "f64_less (F64_Fin s m e) (F64_Fin t n f) =
     (let e0 = min e f in scaled s m e e0 < scaled t n f e0)"
| "f64_less (F64_Inf s) (F64_Inf t) = (s \<and> \<not> t)"
| "f64_less (F64_Inf s) (F64_Fin _ _ _) = s"
| "f64_less (F64_Fin _ _ _) (F64_Inf t) = (\<not> t)"
| "f64_less _ _ = False"

text \<open>\<open>f64::max\<close> and \<open>f64::min\<close>: a NaN argument is ignored.\<close>

definition f64_max :: "f64 \<Rightarrow> f64 \<Rightarrow> f64" where
  "f64_max a b = (if a = F64_NaN then b else if b = F64_NaN then a else if f64_less a b then b else a)"

definition f64_min :: "f64 \<Rightarrow> f64 \<Rightarrow> f64" where
  "f64_min a b = (if a = F64_NaN then b else if b = F64_NaN then a else if f64_less b a then b else a)"

fun f64_ceil :: "f64 \<Rightarrow> f64" where
  "f64_ceil (F64_Fin s m e) =
     (if 0 \<le> e then F64_Fin s m e
      else if s then f64_round True (m div 2 ^ nat (- e)) 0
      else f64_round False ((m + 2 ^ nat (- e) - 1) div 2 ^ nat (- e)) 0)"
| "f64_ceil x = x"

text \<open>The saturating cast \<open>as u64\<close>.\<close>

fun f64_to_u64 :: "f64 \<Rightarrow> u64" where
  "f64_to_u64 F64_NaN = 0"
| "f64_to_u64 (F64_Inf s) = (if s then 0 else - 1)"
| "f64_to_u64 (F64_Fin s m e) =
     (if s then 0
      else let v = (if 0 \<le> e then m * 2 ^ nat e else m div 2 ^ nat (- e))
           in if v < 2 ^ 64 then word_of_nat v else - 1)"

section \<open>Parsing\<close>

text \<open>The decimal \<open>n * 10 ^ k\<close>; a sticky bit makes the truncated quotient round correctly.\<close>

definition f64_of_decimal :: "bool \<Rightarrow> nat \<Rightarrow> int \<Rightarrow> f64" where
  "f64_of_decimal s n k =
     (if 0 \<le> k then f64_round s (n * 10 ^ nat k) 0
      else let d = 10 ^ nat (- k); t = bit_length d + 66; q = n * 2 ^ t div d
           in f64_round s (2 * q + (if n * 2 ^ t mod d = 0 then 0 else 1)) (- int t - 1))"

definition strip_sign :: "string \<Rightarrow> bool \<times> string" where
  "strip_sign s =
     (case s of
        c # r \<Rightarrow> if c = CHR ''-'' then (True, r) else if c = CHR ''+'' then (False, r) else (False, s)
      | [] \<Rightarrow> (False, s))"

definition parse_exponent :: "string \<Rightarrow> int option" where
  "parse_exponent s =
     (case s of
        [] \<Rightarrow> Some 0
      | c # r \<Rightarrow>
          if c = CHR ''e'' \<or> c = CHR ''E'' then
            (case strip_sign r of
               (neg, d) \<Rightarrow>
                 if d = [] then None
                 else map_option (\<lambda>n. if neg then - int n else int n) (parse_digits 0 d))
          else None)"

definition parse_f64 :: "string \<Rightarrow> f64 option" where
  "parse_f64 s =
     (case strip_sign s of
        (neg, t) \<Rightarrow>
          let l = to_ascii_lowercase t in
          if l = ''inf'' \<or> l = ''infinity'' then Some (F64_Inf neg)
          else if l = ''nan'' then Some F64_NaN
          else
            let ip = takeWhile is_digit t; r = dropWhile is_digit t;
                fp = (case r of c # r' \<Rightarrow> if c = CHR ''.'' then takeWhile is_digit r' else [] | [] \<Rightarrow> []);
                r2 = (case r of c # r' \<Rightarrow> if c = CHR ''.'' then dropWhile is_digit r' else r | [] \<Rightarrow> [])
            in if ip = [] \<and> fp = [] then None
               else (case parse_exponent r2 of
                       None \<Rightarrow> None
                     | Some x \<Rightarrow>
                         map_option (\<lambda>n. f64_of_decimal neg n (x - int (length fp)))
                           (parse_digits 0 (ip @ fp))))"

section \<open>Exactness on small integers\<close>

lemma bit_length_upper: "n < 2 ^ bit_length n"
proof (induction n rule: bit_length.induct)
  case (1 n)
  then show ?case by (cases "n = 0") (simp_all add: bit_length.simps [of n])
qed

lemma bit_length_le: "n < 2 ^ k \<Longrightarrow> bit_length n \<le> k"
proof (induction k arbitrary: n)
  case 0
  then show ?case by (simp add: bit_length.simps)
next
  case (Suc k)
  then have "n div 2 < 2 ^ k" by simp
  with Suc.IH show ?case by (simp add: bit_length.simps [of n])
qed

lemma f64_round_small_nat:
  assumes "0 < n" and "n < 2 ^ 53"
  shows "\<exists>d \<le> 53. f64_round s n 0 = F64_Fin s (n * 2 ^ d) (- int d)"
proof -
  define d where "d = 53 - bit_length n"
  have b: "bit_length n \<le> 53" using assms(2) by (rule bit_length_le)
  have "n * 2 ^ d < 2 ^ bit_length n * 2 ^ d"
    using bit_length_upper [of n] by simp
  also have "\<dots> = 2 ^ 53"
    using b by (simp add: d_def flip: power_add)
  finally have lt: "n * 2 ^ d < 2 ^ 53" .
  have e: "max (0 + int (bit_length n) - 53) (- 1074) = - int d"
    using b by (simp add: d_def)
  have "f64_round s n 0 = F64_Fin s (n * 2 ^ d) (- int d)"
    using assms(1) lt unfolding f64_round_def e by (simp add: Let_def)
  moreover have "d \<le> 53" by (simp add: d_def)
  ultimately show ?thesis by blast
qed

lemma f64_zero_round: "f64_round s 0 e = F64_Fin s 0 (- 1074)"
  by (simp add: f64_round_def)

lemma f64_to_u64_round_small:
  assumes "n < 2 ^ 53"
  shows "f64_to_u64 (f64_round False n 0) = word_of_nat n"
proof (cases "n = 0")
  case True
  then show ?thesis by (simp add: f64_zero_round)
next
  case False
  then obtain d where "f64_round False n 0 = F64_Fin False (n * 2 ^ d) (- int d)"
    using f64_round_small_nat [of n False] assms by auto
  moreover have "n < 2 ^ 64" using assms by simp
  ultimately show ?thesis by (auto simp: Let_def)
qed

lemma f64_ceil_round_small:
  assumes "n < 2 ^ 53"
  shows "f64_ceil (f64_round False n 0) = f64_round False n 0"
proof (cases "n = 0")
  case True
  then show ?thesis by (simp add: f64_zero_round)
next
  case False
  then obtain d where d: "f64_round False n 0 = F64_Fin False (n * 2 ^ d) (- int d)"
    using f64_round_small_nat [of n False] assms by auto
  have "((2 ^ d - 1) + n * 2 ^ d) div 2 ^ d = n + (2 ^ d - 1) div 2 ^ d"
    by (rule div_mult_self1) simp
  then have "((2 ^ d - 1) + n * 2 ^ d) div 2 ^ d = n" by (simp add: div_less)
  moreover have "n * 2 ^ d + 2 ^ d - 1 = 2 ^ d - 1 + n * 2 ^ d"
    using one_le_power [of "2 :: nat" d] by linarith
  ultimately have q: "(n * 2 ^ d + 2 ^ d - 1) div 2 ^ d = n" by simp
  show ?thesis
    by (cases "d = 0") (simp_all add: d q [unfolded One_nat_def])
qed

lemma f64_round_cases:
  obtains m' e' where "f64_round s m e = F64_Fin s m' e'" | "f64_round s m e = F64_Inf s"
  by (cases "f64_round s m e") (auto simp: f64_round_def Let_def split: if_splits)

lemma scaled_nonneg [simp]: "\<not> scaled False m e e0 < 0"
  by (simp add: scaled_def not_less)

lemma scaled_zero [simp]: "scaled s 0 e e0 = 0"
  by (simp add: scaled_def)

lemma f64_max_zero_round: "f64_max (f64_round False n 0) f64_zero = f64_round False n 0"
  by (rule f64_round_cases [of False n 0])
    (simp_all add: f64_max_def f64_zero_def Let_def)

lemma parse_f64_show_nat: "parse_f64 (show_nat n) = Some (f64_round False n 0)"
proof -
  have dig: "\<forall>c \<in> set (show_nat n). is_digit c" using show_nat_digits by blast
  have hd: "is_digit (hd (show_nat n))" using dig by simp
  have sign: "strip_sign (show_nat n) = (False, show_nat n)"
    using hd by (cases "show_nat n") (auto simp: strip_sign_def is_digit_def)
  have low: "to_ascii_lowercase (show_nat n) = show_nat n"
    using dig by (auto simp: to_ascii_lowercase_def ascii_lower_char_def is_digit_def
        intro!: map_idI)
  have word: "show_nat n \<noteq> ''inf''" "show_nat n \<noteq> ''infinity''" "show_nat n \<noteq> ''nan''"
    using hd by (auto simp: is_digit_def)
  have tw: "takeWhile is_digit (show_nat n) = show_nat n" "dropWhile is_digit (show_nat n) = []"
    using dig by (simp_all add: dropWhile_eq_Nil_conv)
  show ?thesis
    unfolding parse_f64_def
    by (simp add: sign low word tw parse_exponent_def parse_digits_show_nat f64_of_decimal_def)
qed

section \<open>Order\<close>

lemma scaled_shift:
  assumes "e1 \<le> e0" and "e0 \<le> e"
  shows "scaled s m e e1 = scaled s m e e0 * 2 ^ nat (e0 - e1)"
proof -
  have "nat (e - e1) = nat (e - e0) + nat (e0 - e1)" using assms by simp
  then show ?thesis by (simp add: scaled_def power_add)
qed

text \<open>Finite numbers may be compared at any small enough exponent.\<close>

lemma f64_less_fin:
  assumes "k \<le> e" and "k \<le> f"
  shows "f64_less (F64_Fin s m e) (F64_Fin t n f) \<longleftrightarrow> scaled s m e k < scaled t n f k"
proof -
  have "k \<le> min e f" using assms by simp
  then show ?thesis
    using scaled_shift [of k "min e f" e s m] scaled_shift [of k "min e f" f t n] by (simp add: Let_def)
qed

lemma f64_less_trans_not:
  assumes "f64_less a b" and "\<not> f64_less c b" and "c \<noteq> F64_NaN"
  shows "f64_less a c"
proof -
  have fin: "f64_less a c" if abc: "a = F64_Fin s m e" "b = F64_Fin t n f" "c = F64_Fin u p g"
    for s m e t n f u p g
  proof -
    define k where "k = min e (min f g)"
    have "k \<le> e" "k \<le> f" "k \<le> g" by (simp_all add: k_def)
    then show ?thesis
      using assms(1,2) unfolding abc by (simp add: f64_less_fin del: f64_less.simps(1))
  qed
  show ?thesis
    using assms fin by (cases a; cases b; cases c) auto
qed

lemma f64_not_less_trans:
  assumes "\<not> f64_less a b" and "\<not> f64_less b c" and "b \<noteq> F64_NaN"
  shows "\<not> f64_less a c"
proof
  assume "f64_less a c"
  then have "f64_less a b" using f64_less_trans_not assms(2,3) by blast
  with assms(1) show False by simp
qed

end
