(* ===== verification/Envelope.thy ===== *)
theory Envelope
  imports Relay_Common Ordered_Map Float64 "HOL-Library.Multiset"
begin

text \<open>
  Envelopes (\<open>relay-server/src/envelope.rs\<close>): item types and headers, the envelope and its
  item operations, and the byte format with its parser and serializer. The JSON library is
  a parameter of the parser and the serializer: a streaming deserializer that yields a
  header and the offset behind it, and a serializer of headers.
\<close>

section \<open>Item types\<close>

datatype item_type =
    IT_Event | IT_Transaction | IT_Security | IT_Attachment | IT_FormData | IT_RawSecurity
  | IT_UnrealReport | IT_UserReport | IT_Session | IT_Sessions | IT_Metrics | IT_MetricBuckets

fun item_type_from_event_type :: "event_type \<Rightarrow> item_type" where
  "item_type_from_event_type ET_Default = IT_Event"
| "item_type_from_event_type ET_Error = IT_Event"
| "item_type_from_event_type ET_Transaction = IT_Transaction"
| "item_type_from_event_type ET_Csp = IT_Security"
| "item_type_from_event_type ET_Hpkp = IT_Security"
| "item_type_from_event_type ET_ExpectCt = IT_Security"
| "item_type_from_event_type ET_ExpectStaple = IT_Security"

fun item_type_display :: "item_type \<Rightarrow> string" where
  "item_type_display IT_Event = ''event''"
| "item_type_display IT_Transaction = ''transaction''"
| "item_type_display IT_Security = ''security report''"
| "item_type_display IT_Attachment = ''attachment''"
| "item_type_display IT_FormData = ''form data''"
| "item_type_display IT_RawSecurity = ''raw security report''"
| "item_type_display IT_UnrealReport = ''unreal report''"
| "item_type_display IT_UserReport = ''user feedback''"
| "item_type_display IT_Session = ''session''"
| "item_type_display IT_Sessions = ''aggregated sessions''"
| "item_type_display IT_Metrics = ''metrics''"
| "item_type_display IT_MetricBuckets = ''metric buckets''"

section \<open>Content types\<close>

datatype content_type =
    CT_Text | CT_Json | CT_MsgPack | CT_OctetStream | CT_Minidump | CT_Xml | CT_Envelope
  | CT_Other string

fun content_type_as_str :: "content_type \<Rightarrow> string" where
  "content_type_as_str CT_Text = ''text/plain''"
| "content_type_as_str CT_Json = ''application/json''"
| "content_type_as_str CT_MsgPack = ''application/x-msgpack''"
| "content_type_as_str CT_OctetStream = ''application/octet-stream''"
| "content_type_as_str CT_Minidump = ''application/x-dmp''"
| "content_type_as_str CT_Xml = ''text/xml''"
| "content_type_as_str CT_Envelope = ''application/x-sentry-envelope''"
| "content_type_as_str (CT_Other other) = other"

definition content_type_from_str :: "string \<Rightarrow> content_type option" where
  "content_type_from_str ct =
     (if eq_ignore_ascii_case ct (content_type_as_str CT_Text) then Some CT_Text
      else if eq_ignore_ascii_case ct (content_type_as_str CT_Json) then Some CT_Json
      else if eq_ignore_ascii_case ct (content_type_as_str CT_MsgPack) then Some CT_MsgPack
      else if eq_ignore_ascii_case ct (content_type_as_str CT_OctetStream) then Some CT_OctetStream
      else if eq_ignore_ascii_case ct (content_type_as_str CT_Minidump) then Some CT_Minidump
      else if eq_ignore_ascii_case ct (content_type_as_str CT_Xml)
            \<or> eq_ignore_ascii_case ct ''application/xml'' then Some CT_Xml
      else if eq_ignore_ascii_case ct (content_type_as_str CT_Envelope) then Some CT_Envelope
      else None)"

definition content_type_from_string :: "string \<Rightarrow> content_type" where
  "content_type_from_string s =
     (case content_type_from_str s of
        Some ct \<Rightarrow> ct
      | None \<Rightarrow> CT_Other (to_ascii_lowercase s))"

definition content_type_eq_str :: "content_type \<Rightarrow> string \<Rightarrow> bool" where
  "content_type_eq_str self other =
     (case content_type_from_str other of
        Some ct \<Rightarrow> ct = self
      | None \<Rightarrow> eq_ignore_ascii_case other (content_type_as_str self))"

datatype attachment_type =
    AT_Attachment | AT_Minidump | AT_AppleCrashReport | AT_EventPayload | AT_Breadcrumbs
  | AT_UnrealContext | AT_UnrealLogs

definition attachment_type_default :: attachment_type where
  "attachment_type_default = AT_Attachment"

section \<open>Items\<close>

text \<open>
  Header values are \<open>relay_general::types::Value\<close>; the metadata trees of annotated values
  inside arrays and objects are not modelled.
\<close>

datatype relay_value =
    V_Bool bool
  | V_I64 "64 word"
  | V_U64 u64
  | V_F64 f64
  | V_String string
  | V_Array "relay_value option list"
  | V_Object "(string \<times> relay_value option) list"

record item_headers =
  ih_ty :: item_type
  ih_length :: "u32 option"
  ih_attachment_type :: "attachment_type option"
  ih_content_type :: "content_type option"
  ih_filename :: "string option"
  ih_rate_limited :: bool
  ih_sample_rates :: "relay_value option"
  ih_timestamp :: "unix_timestamp option"
  ih_other :: "(string, relay_value) btree_map"

record item =
  item_headers :: item_headers
  item_payload :: bytes

definition item_new :: "item_type \<Rightarrow> item" where
  "item_new ty =
     \<lparr>item_headers =
        \<lparr>ih_ty = ty, ih_length = Some 0, ih_attachment_type = None, ih_content_type = None,
         ih_filename = None, ih_rate_limited = False, ih_sample_rates = None,
         ih_timestamp = None, ih_other = []\<rparr>,
      item_payload = []\<rparr>"

definition item_ty :: "item \<Rightarrow> item_type" where
  [relay_defs]: "item_ty it = ih_ty (item_headers it)"

definition item_len :: "item \<Rightarrow> nat" where
  [relay_defs]: "item_len it = length (item_payload it)"

definition item_attachment_type :: "item \<Rightarrow> attachment_type option" where
  [relay_defs]: "item_attachment_type it = ih_attachment_type (item_headers it)"

definition set_attachment_type :: "attachment_type \<Rightarrow> item \<Rightarrow> item" where
  [relay_defs]: "set_attachment_type a it =
     it\<lparr>item_headers := (item_headers it)\<lparr>ih_attachment_type := Some a\<rparr>\<rparr>"

definition set_payload :: "content_type \<Rightarrow> bytes \<Rightarrow> item \<Rightarrow> item" where
  "set_payload ct payload it =
     (let len = min (2 ^ 32 - 1) (length payload);
          payload' = take len payload
      in it\<lparr>item_headers := (item_headers it)\<lparr>ih_length := Some (word_of_nat len),
                                              ih_content_type := Some ct\<rparr>,
            item_payload := payload'\<rparr>)"

definition set_filename :: "string \<Rightarrow> item \<Rightarrow> item" where
  [relay_defs]: "set_filename f it = it\<lparr>item_headers := (item_headers it)\<lparr>ih_filename := Some f\<rparr>\<rparr>"

definition item_rate_limited :: "item \<Rightarrow> bool" where
  [relay_defs]: "item_rate_limited it = ih_rate_limited (item_headers it)"

definition set_rate_limited :: "bool \<Rightarrow> item \<Rightarrow> item" where
  [relay_defs]: "set_rate_limited b it = it\<lparr>item_headers := (item_headers it)\<lparr>ih_rate_limited := b\<rparr>\<rparr>"

definition take_sample_rates :: "item \<Rightarrow> relay_value option \<times> item" where
  [relay_defs]: "take_sample_rates it =
     (ih_sample_rates (item_headers it),
      it\<lparr>item_headers := (item_headers it)\<lparr>ih_sample_rates := None\<rparr>\<rparr>)"

definition set_sample_rates :: "relay_value \<Rightarrow> item \<Rightarrow> item" where
  [relay_defs]: "set_sample_rates v it =
     (case v of
        V_Array a \<Rightarrow>
          if a \<noteq> [] then it\<lparr>item_headers := (item_headers it)\<lparr>ih_sample_rates := Some v\<rparr>\<rparr> else it
      | _ \<Rightarrow> it)"

definition item_get_header :: "string \<Rightarrow> item \<Rightarrow> relay_value option" where
  [relay_defs]: "item_get_header name it = bt_get (ih_other (item_headers it)) name"

definition item_set_header :: "string \<Rightarrow> relay_value \<Rightarrow> item \<Rightarrow> relay_value option \<times> item" where
  [relay_defs]: "item_set_header name v it =
     (bt_get (ih_other (item_headers it)) name,
      it\<lparr>item_headers := (item_headers it)\<lparr>ih_other := bt_insert str_le name v (ih_other (item_headers it))\<rparr>\<rparr>)"

definition creates_event :: "item \<Rightarrow> bool" where
  "creates_event it =
     (case item_ty it of
        IT_Event \<Rightarrow> True
      | IT_Transaction \<Rightarrow> True
      | IT_Security \<Rightarrow> True
      | IT_RawSecurity \<Rightarrow> True
      | IT_UnrealReport \<Rightarrow> True
      | IT_Attachment \<Rightarrow>
          (case (case item_attachment_type it of Some a \<Rightarrow> a | None \<Rightarrow> attachment_type_default) of
             AT_AppleCrashReport \<Rightarrow> True
           | AT_Minidump \<Rightarrow> True
           | AT_EventPayload \<Rightarrow> True
           | AT_Breadcrumbs \<Rightarrow> True
           | AT_Attachment \<Rightarrow> False
           | AT_UnrealContext \<Rightarrow> False
           | AT_UnrealLogs \<Rightarrow> False)
      | IT_FormData \<Rightarrow> False
      | IT_UserReport \<Rightarrow> False
      | IT_Session \<Rightarrow> False
      | IT_Sessions \<Rightarrow> False
      | IT_Metrics \<Rightarrow> False
      | IT_MetricBuckets \<Rightarrow> False)"

definition requires_event :: "item \<Rightarrow> bool" where
  "requires_event it =
     (case item_ty it of
        IT_Event \<Rightarrow> True
      | IT_Transaction \<Rightarrow> True
      | IT_Security \<Rightarrow> True
      | IT_Attachment \<Rightarrow> True
      | IT_FormData \<Rightarrow> True
      | IT_RawSecurity \<Rightarrow> True
      | IT_UnrealReport \<Rightarrow> True
      | IT_UserReport \<Rightarrow> True
      | IT_Session \<Rightarrow> False
      | IT_Sessions \<Rightarrow> False
      | IT_Metrics \<Rightarrow> False
      | IT_MetricBuckets \<Rightarrow> False)"

lemma creates_requires_event: "creates_event it \<Longrightarrow> requires_event it"
  by (auto simp: creates_event_def requires_event_def split: item_type.splits)

section \<open>Request metadata\<close>

text \<open>URLs and addresses are opaque to the envelope code and kept as their text.\<close>

record partial_dsn =
  dsn_scheme :: string
  dsn_public_key :: project_key
  dsn_host :: string
  dsn_port :: u16
  dsn_path :: string
  dsn_project_id :: "project_id option"

record 'd request_meta =
  rm_dsn :: 'd
  rm_client :: "string option"
  rm_version :: u16
  rm_origin :: "string option"
  rm_remote_addr :: "string option"
  rm_forwarded_for :: string
  rm_user_agent :: "string option"
  rm_no_cache :: bool
  rm_start_time :: instant

type_synonym full_meta = "partial_dsn request_meta"
type_synonym partial_meta = "partial_dsn option request_meta"

text \<open>The default protocol version is a constant of \<open>sentry-types\<close> and an argument here.\<close>

definition copy_to :: "u16 \<Rightarrow> partial_meta \<Rightarrow> full_meta \<Rightarrow> full_meta" where
  "copy_to default_version self c0 =
     (let c1 = (if rm_client self \<noteq> None then c0\<lparr>rm_client := rm_client self\<rparr> else c0);
          c2 = (if rm_version self \<noteq> default_version then c1\<lparr>rm_version := rm_version self\<rparr> else c1);
          c3 = (if rm_origin self \<noteq> None then c2\<lparr>rm_origin := rm_origin self\<rparr> else c2);
          c4 = (if rm_remote_addr self \<noteq> None then c3\<lparr>rm_remote_addr := rm_remote_addr self\<rparr> else c3);
          c5 = (if rm_forwarded_for self \<noteq> [] then c4\<lparr>rm_forwarded_for := rm_forwarded_for self\<rparr> else c4);
          c6 = (if rm_user_agent self \<noteq> None then c5\<lparr>rm_user_agent := rm_user_agent self\<rparr> else c5)
      in if rm_no_cache self then c6\<lparr>rm_no_cache := True\<rparr> else c6)"

lemma copy_to_dsn: "rm_dsn (copy_to v self c) = rm_dsn c"
  by (simp add: copy_to_def Let_def)

lemma copy_to_origin:
  "rm_origin (copy_to v self c) = (if rm_origin self \<noteq> None then rm_origin self else rm_origin c)"
  by (simp add: copy_to_def Let_def)

section \<open>Envelopes\<close>

text \<open>
  Event ids, timestamps and trace contexts are opaque to the envelope (type parameters
  \<open>'id\<close>, \<open>'time\<close>, \<open>'trace\<close>); \<open>'m\<close> is the request metadata, complete or partial.
\<close>

datatype ('j, 'a) error_boundary = EB_Err 'j | EB_Ok 'a

record ('m, 'id, 'time, 'j, 'trace) envelope_headers =
  eh_event_id :: "'id option"
  eh_meta :: 'm
  eh_retention :: "u16 option"
  eh_sent_at :: "'time option"
  eh_trace :: "('j, 'trace) error_boundary option"
  eh_other :: "(string, relay_value) btree_map"

record ('id, 'time, 'j, 'trace) envelope =
  env_headers :: "(full_meta, 'id, 'time, 'j, 'trace) envelope_headers"
  env_items :: "item list"

datatype 'j envelope_error =
    UnexpectedEof
  | MissingHeader
  | MissingNewline
  | InvalidHeader 'j
  | HeaderMismatch string
  | InvalidItemHeader 'j
  | HeaderIoFailed 'j
  | PayloadIoFailed 'j

definition complete ::
  "u16 \<Rightarrow> (partial_meta, 'id, 'time, 'j, 'trace) envelope_headers \<Rightarrow> full_meta \<Rightarrow>
   'e envelope_error + (full_meta, 'id, 'time, 'j, 'trace) envelope_headers" where
  "complete v self request =
     (let meta = eh_meta self in
      if rm_origin meta \<noteq> None \<and> rm_origin meta \<noteq> rm_origin request
      then Inl (HeaderMismatch ''origin'')
      else
        (case (case rm_dsn meta of
                 Some dsn \<Rightarrow>
                   if dsn_project_id dsn \<noteq> dsn_project_id (rm_dsn request)
                   then Some (HeaderMismatch ''project id'')
                   else if dsn_public_key dsn \<noteq> dsn_public_key (rm_dsn request)
                   then Some (HeaderMismatch ''public key'')
                   else None
               | None \<Rightarrow> None) of
           Some e \<Rightarrow> Inl e
         | None \<Rightarrow>
             Inr \<lparr>eh_event_id = eh_event_id self, eh_meta = copy_to v meta request,
                  eh_retention = eh_retention self, eh_sent_at = eh_sent_at self,
                  eh_trace = eh_trace self, eh_other = eh_other self\<rparr>))"

definition from_request :: "'id option \<Rightarrow> full_meta \<Rightarrow> ('id, 'time, 'j, 'trace) envelope" where
  "from_request event_id meta =
     \<lparr>env_headers = \<lparr>eh_event_id = event_id, eh_meta = meta, eh_retention = None,
                     eh_sent_at = None, eh_trace = None, eh_other = []\<rparr>,
      env_items = []\<rparr>"

definition DEFAULT_EVENT_RETENTION :: u16 where
  "DEFAULT_EVENT_RETENTION = 90"

definition envelope_len :: "('id, 'time, 'j, 'trace) envelope \<Rightarrow> nat" where
  "envelope_len e = length (env_items e)"

definition retention :: "('id, 'time, 'j, 'trace) envelope \<Rightarrow> u16" where
  "retention e =
     (case eh_retention (env_headers e) of Some r \<Rightarrow> r | None \<Rightarrow> DEFAULT_EVENT_RETENTION)"

definition set_sent_at :: "'time \<Rightarrow> ('id, 'time, 'j, 'trace) envelope \<Rightarrow> ('id, 'time, 'j, 'trace) envelope" where
  "set_sent_at t e = e\<lparr>env_headers := (env_headers e)\<lparr>eh_sent_at := Some t\<rparr>\<rparr>"

definition set_retention :: "u16 \<Rightarrow> ('id, 'time, 'j, 'trace) envelope \<Rightarrow> ('id, 'time, 'j, 'trace) envelope" where
  "set_retention r e = e\<lparr>env_headers := (env_headers e)\<lparr>eh_retention := Some r\<rparr>\<rparr>"

definition envelope_get_header :: "string \<Rightarrow> ('id, 'time, 'j, 'trace) envelope \<Rightarrow> relay_value option" where
  "envelope_get_header name e = bt_get (eh_other (env_headers e)) name"

definition envelope_set_header ::
  "string \<Rightarrow> relay_value \<Rightarrow> ('id, 'time, 'j, 'trace) envelope \<Rightarrow>
   relay_value option \<times> ('id, 'time, 'j, 'trace) envelope" where
  "envelope_set_header name v e =
     (bt_get (eh_other (env_headers e)) name,
      e\<lparr>env_headers := (env_headers e)\<lparr>eh_other := bt_insert str_le name v (eh_other (env_headers e))\<rparr>\<rparr>)"

definition get_item_by :: "(item \<Rightarrow> bool) \<Rightarrow> ('id, 'time, 'j, 'trace) envelope \<Rightarrow> item option" where
  "get_item_by pred e = List.find pred (env_items e)"

definition take_item_by ::
  "(item \<Rightarrow> bool) \<Rightarrow> ('id, 'time, 'j, 'trace) envelope \<Rightarrow>
   item option \<times> ('id, 'time, 'j, 'trace) envelope" where
  "take_item_by cond e =
     (case position cond (env_items e) of
        None \<Rightarrow> (None, e)
      | Some index \<Rightarrow>
          (case swap_remove index (env_items e) of
             (it, items) \<Rightarrow> (Some it, e\<lparr>env_items := items\<rparr>)))"

definition add_item :: "item \<Rightarrow> ('id, 'time, 'j, 'trace) envelope \<Rightarrow> ('id, 'time, 'j, 'trace) envelope" where
  "add_item it e = e\<lparr>env_items := env_items e @ [it]\<rparr>"

definition split_by ::
  "(item \<Rightarrow> bool) \<Rightarrow> ('id, 'time, 'j, 'trace) envelope \<Rightarrow>
   ('id, 'time, 'j, 'trace) envelope option \<times> ('id, 'time, 'j, 'trace) envelope" where
  "split_by f e =
     (let split_count = length (filter f (env_items e)) in
      if split_count = envelope_len e \<or> split_count = 0 then (None, e)
      else (case partition f (env_items e) of
              (split_items, own_items) \<Rightarrow>
                (Some \<lparr>env_headers = env_headers e, env_items = split_items\<rparr>,
                 e\<lparr>env_items := own_items\<rparr>)))"

definition trace_context :: "('id, 'time, 'j, 'trace) envelope \<Rightarrow> 'trace option" where
  "trace_context e =
     (case eh_trace (env_headers e) of
        None \<Rightarrow> None
      | Some (EB_Err _) \<Rightarrow> None
      | Some (EB_Ok t) \<Rightarrow> Some t)"

text \<open>\<open>retain\<close> with a predicate that may also modify the item.\<close>

fun retain_mut :: "('a \<Rightarrow> bool \<times> 'a) \<Rightarrow> 'a list \<Rightarrow> 'a list" where
  "retain_mut f [] = []"
| "retain_mut f (x # xs) =
     (case f x of (keep, x') \<Rightarrow> if keep then x' # retain_mut f xs else retain_mut f xs)"

lemma retain_mut_map_filter:
  "retain_mut f xs = map (\<lambda>x. snd (f x)) (filter (\<lambda>x. fst (f x)) xs)"
  by (induction xs) (auto split: prod.splits)

definition retain_items ::
  "(item \<Rightarrow> bool \<times> item) \<Rightarrow> ('id, 'time, 'j, 'trace) envelope \<Rightarrow> ('id, 'time, 'j, 'trace) envelope" where
  "retain_items f e = e\<lparr>env_items := retain_mut f (env_items e)\<rparr>"

section \<open>The byte format\<close>

definition newline :: u8 where
  "newline = 10"

text \<open>What the streaming deserializer yields: end of input, an error, or a value and the offset
  behind it.\<close>

datatype ('j, 'a) json_next = JsonEnd | JsonErr 'j | JsonOk 'a nat

definition require_termination :: "bytes \<Rightarrow> nat \<Rightarrow> 'j envelope_error + unit" where
  "require_termination buf offset =
     (if offset < length buf
      then (if buf ! offset = newline then Inr () else Inl MissingNewline)
      else Inr ())"

definition parse_headers ::
  "(bytes \<Rightarrow> ('j, 'h) json_next) \<Rightarrow> bytes \<Rightarrow> 'j envelope_error + 'h \<times> nat" where
  "parse_headers de buf =
     (case de buf of
        JsonEnd \<Rightarrow> Inl MissingHeader
      | JsonErr e \<Rightarrow> Inl (InvalidHeader e)
      | JsonOk headers offset \<Rightarrow>
          (case require_termination buf offset of
             Inl e \<Rightarrow> Inl e
           | Inr _ \<Rightarrow> Inr (headers, offset + 1)))"

definition parse_item ::
  "(bytes \<Rightarrow> ('j, item_headers) json_next) \<Rightarrow> bytes \<Rightarrow> 'j envelope_error + item \<times> nat" where
  "parse_item de bytes =
     (case de bytes of
        JsonEnd \<Rightarrow> Inl UnexpectedEof
      | JsonErr e \<Rightarrow> Inl (InvalidItemHeader e)
      | JsonOk headers headers_end \<Rightarrow>
          (case require_termination bytes headers_end of
             Inl e \<Rightarrow> Inl e
           | Inr _ \<Rightarrow>
               let payload_start = min (headers_end + 1) (length bytes) in
               (case (case ih_length headers of
                        Some len \<Rightarrow>
                          let payload_end = payload_start + unat len in
                          if length bytes < payload_end then Inl UnexpectedEof
                          else (case require_termination bytes payload_end of
                                  Inl e \<Rightarrow> Inl e
                                | Inr _ \<Rightarrow> Inr payload_end)
                      | None \<Rightarrow>
                          (case position (\<lambda>b. b = newline) (drop payload_start bytes) of
                             Some relative_end \<Rightarrow> Inr (payload_start + relative_end)
                           | None \<Rightarrow> Inr (length bytes))) of
                  Inl e \<Rightarrow> Inl e
                | Inr payload_end \<Rightarrow>
                    Inr (\<lparr>item_headers = headers,
                          item_payload = take (payload_end - payload_start) (drop payload_start bytes)\<rparr>,
                         payload_end + 1))))"

lemma parse_item_size: "parse_item de bytes = Inr (it, n) \<Longrightarrow> 0 < n"
  by (auto simp: parse_item_def Let_def split: json_next.splits sum.splits option.splits if_splits)

function parse_items ::
  "(bytes \<Rightarrow> ('j, item_headers) json_next) \<Rightarrow> bytes \<Rightarrow> nat \<Rightarrow> 'j envelope_error + item list" where
  "parse_items de bytes offset =
     (if offset < length bytes then
        (case parse_item de (drop offset bytes) of
           Inl e \<Rightarrow> Inl e
         | Inr (it, item_size) \<Rightarrow>
             (case parse_items de bytes (offset + item_size) of
                Inl e \<Rightarrow> Inl e
              | Inr its \<Rightarrow> Inr (it # its)))
      else Inr [])"
  by pat_completeness auto
termination
  by (relation "measure (\<lambda>(de, bytes, offset). length bytes - offset)")
    (auto dest: parse_item_size)

declare parse_items.simps [simp del]

definition parse_bytes ::
  "(bytes \<Rightarrow> ('j, (full_meta, 'id, 'time, 'j, 'trace) envelope_headers) json_next) \<Rightarrow>
   (bytes \<Rightarrow> ('j, item_headers) json_next) \<Rightarrow> bytes \<Rightarrow>
   'j envelope_error + ('id, 'time, 'j, 'trace) envelope" where
  "parse_bytes de_headers de_item bytes =
     (case parse_headers de_headers bytes of
        Inl e \<Rightarrow> Inl e
      | Inr (headers, offset) \<Rightarrow>
          (case parse_items de_item bytes offset of
             Inl e \<Rightarrow> Inl e
           | Inr items \<Rightarrow> Inr \<lparr>env_headers = headers, env_items = items\<rparr>))"

text \<open>\<open>new_id\<close> is the freshly generated event id.\<close>

definition parse_request ::
  "u16 \<Rightarrow> 'id \<Rightarrow> (bytes \<Rightarrow> ('j, (partial_meta, 'id, 'time, 'j, 'trace) envelope_headers) json_next) \<Rightarrow>
   (bytes \<Rightarrow> ('j, item_headers) json_next) \<Rightarrow> bytes \<Rightarrow> full_meta \<Rightarrow>
   'j envelope_error + ('id, 'time, 'j, 'trace) envelope" where
  "parse_request v new_id de_headers de_item bytes request_meta =
     (case parse_headers de_headers bytes of
        Inl e \<Rightarrow> Inl e
      | Inr (partial_headers, offset) \<Rightarrow>
          (case complete v partial_headers request_meta of
             Inl e \<Rightarrow> Inl e
           | Inr headers \<Rightarrow>
               (case parse_items de_item bytes offset of
                  Inl e \<Rightarrow> Inl e
                | Inr items \<Rightarrow>
                    let headers' =
                      (if list_ex requires_event items
                       then (case eh_event_id headers of
                               Some _ \<Rightarrow> headers
                             | None \<Rightarrow> headers\<lparr>eh_event_id := Some new_id\<rparr>)
                       else headers)
                    in Inr \<lparr>env_headers = headers', env_items = items\<rparr>)))"

text \<open>Serialization into a buffer, where writing itself cannot fail.\<close>

fun serialize_items ::
  "(item_headers \<Rightarrow> 'j + bytes) \<Rightarrow> item list \<Rightarrow> 'j envelope_error + bytes" where
  "serialize_items se [] = Inr []"
| "serialize_items se (it # its) =
     (case se (item_headers it) of
        Inl e \<Rightarrow> Inl (HeaderIoFailed e)
      | Inr h \<Rightarrow>
          (case serialize_items se its of
             Inl e \<Rightarrow> Inl e
           | Inr rest \<Rightarrow> Inr (h @ [newline] @ item_payload it @ [newline] @ rest)))"

definition envelope_to_vec ::
  "((full_meta, 'id, 'time, 'j, 'trace) envelope_headers \<Rightarrow> 'j + bytes) \<Rightarrow>
   (item_headers \<Rightarrow> 'j + bytes) \<Rightarrow> ('id, 'time, 'j, 'trace) envelope \<Rightarrow>
   'j envelope_error + bytes" where
  "envelope_to_vec se_headers se_item e =
     (case se_headers (env_headers e) of
        Inl err \<Rightarrow> Inl (HeaderIoFailed err)
      | Inr h \<Rightarrow>
          (case serialize_items se_item (env_items e) of
             Inl err \<Rightarrow> Inl err
           | Inr rest \<Rightarrow> Inr (h @ [newline] @ rest)))"

section \<open>Framing\<close>

text \<open>
  An item is framed when its length header, if any, is the length of its payload, and a
  payload without a length header contains no newline. The parser only yields framed items
  and the item operations keep them framed.
\<close>

definition item_framed :: "item \<Rightarrow> bool" where
  "item_framed it \<longleftrightarrow>
     (case ih_length (item_headers it) of
        Some n \<Rightarrow> unat n = length (item_payload it)
      | None \<Rightarrow> newline \<notin> set (item_payload it))"

lemma item_new_framed: "item_framed (item_new ty)"
  by (simp add: item_framed_def item_new_def)

lemma set_payload_framed: "item_framed (set_payload ct p it)"
proof -
  define n where "n = min (2 ^ 32 - 1) (length p)"
  have "n < 2 ^ 32" and "length (take n p) = n" by (simp_all add: n_def)
  then show ?thesis
    by (simp add: item_framed_def set_payload_def Let_def n_def [symmetric] unat_of_nat)
qed

lemma set_header_fields_framed [simp]:
  "item_framed (set_attachment_type a it) = item_framed it"
  "item_framed (set_filename f it) = item_framed it"
  "item_framed (set_rate_limited b it) = item_framed it"
  "item_framed (set_sample_rates v it) = item_framed it"
  "item_framed (snd (take_sample_rates it)) = item_framed it"
  "item_framed (snd (item_set_header name w it)) = item_framed it"
  by (auto simp: item_framed_def relay_defs split: relay_value.splits option.splits)

lemma position_take_no_hit: "position P xs = Some i \<Longrightarrow> \<forall>x \<in> set (take i xs). \<not> P x"
  using position_Some [of P xs i] by (auto simp: in_set_conv_nth)

lemma parse_item_framed:
  assumes "parse_item de buf = Inr (it, n)"
  shows "item_framed it"
proof -
  obtain h he where de: "de buf = JsonOk h he"
    using assms by (auto simp: parse_item_def split: json_next.splits)
  define ps where "ps = min (he + 1) (length buf)"
  show ?thesis
  proof (cases "ih_length h")
    case (Some len)
    with assms show ?thesis
      by (auto simp: parse_item_def de Let_def item_framed_def split: sum.splits if_splits)
  next
    case None
    have pos: "item_payload it =
        (case position (\<lambda>b. b = newline) (drop ps buf) of
           Some r \<Rightarrow> take r (drop ps buf) | None \<Rightarrow> drop ps buf)"
      and hd: "item_headers it = h"
      using assms None
      by (auto simp: parse_item_def de Let_def ps_def split: sum.splits option.splits)
    show ?thesis
    proof (cases "position (\<lambda>b. b = newline) (drop ps buf)")
      case (Some r)
      then show ?thesis
        using pos hd None position_take_no_hit [OF Some] by (auto simp: item_framed_def)
    next
      case none: None
      then have "newline \<notin> set (drop ps buf)" by (auto simp: position_None)
      with none pos hd None show ?thesis by (simp add: item_framed_def)
    qed
  qed
qed

lemma parse_items_framed:
  "parse_items de buf offset = Inr its \<Longrightarrow> it \<in> set its \<Longrightarrow> item_framed it"
proof (induction de buf offset arbitrary: its rule: parse_items.induct)
  case (1 de buf offset)
  show ?case
  proof (cases "offset < length buf")
    case True
    with "1.prems" obtain it' n its' where
      p: "parse_item de (drop offset buf) = Inr (it', n)"
        "parse_items de buf (offset + n) = Inr its'" "its = it' # its'"
      by (subst (asm) parse_items.simps) (auto split: sum.splits prod.splits)
    then show ?thesis
      using "1.prems"(2) "1.IH" [OF True p(1) refl p(2)] parse_item_framed [OF p(1)] by auto
  next
    case False
    with "1.prems" show ?thesis by (subst (asm) parse_items.simps) simp
  qed
qed

section \<open>Round trip\<close>

text \<open>
  What the round trip needs of the JSON library: the text of an item header, followed by a
  newline, is read back up to its end. The rate limited flag is skipped by the serializer.
\<close>

definition json_item_ok ::
  "(bytes \<Rightarrow> ('j, item_headers) json_next) \<Rightarrow> (item_headers \<Rightarrow> 'j + bytes) \<Rightarrow> item_headers \<Rightarrow> bool" where
  "json_item_ok de se h \<longleftrightarrow>
     (\<exists>b. se h = Inr b \<and>
          (\<forall>rest. de (b @ newline # rest) = JsonOk (h\<lparr>ih_rate_limited := False\<rparr>) (length b)))"

definition serialized_item :: "item \<Rightarrow> item" where
  "serialized_item it = set_rate_limited False it"

lemma parse_item_serialized:
  fixes de :: "bytes \<Rightarrow> ('j, item_headers) json_next"
  assumes "item_framed it"
    and de: "\<And>rest. de (b @ newline # rest)
               = JsonOk ((item_headers it)\<lparr>ih_rate_limited := False\<rparr>) (length b)"
  shows "parse_item de (b @ newline # item_payload it @ newline # rest)
           = Inr (serialized_item it, length b + length (item_payload it) + 2)"
proof -
  let ?buf = "b @ newline # item_payload it @ newline # rest"
  have t1: "require_termination ?buf (length b) = (Inr () :: 'j envelope_error + unit)"
    by (simp add: require_termination_def nth_append)
  have ps: "min (length b + 1) (length ?buf) = length b + 1" by simp
  have dr: "drop (length b + 1) ?buf = item_payload it @ newline # rest" by simp
  have t2: "require_termination ?buf (length b + 1 + length (item_payload it))
      = (Inr () :: 'j envelope_error + unit)"
    by (simp add: require_termination_def nth_append)
  show ?thesis
  proof (cases "ih_length (item_headers it)")
    case (Some n)
    with assms(1) have n: "unat n = length (item_payload it)" by (simp add: item_framed_def)
    show ?thesis
      unfolding parse_item_def de using Some n t1 t2 ps dr
      by (simp add: Let_def serialized_item_def set_rate_limited_def)
  next
    case None
    with assms(1) have "\<forall>x \<in> set (item_payload it). x \<noteq> newline" by (auto simp: item_framed_def)
    then have "position (\<lambda>x. x = newline) (item_payload it @ newline # rest)
        = Some (length (item_payload it))"
      by (simp add: position_append_hit)
    then show ?thesis
      unfolding parse_item_def de using None t1 ps dr
      by (simp add: Let_def serialized_item_def set_rate_limited_def)
  qed
qed

lemma serialize_items_ok:
  "\<forall>it \<in> set its. json_item_ok de se (item_headers it) \<Longrightarrow> \<exists>buf. serialize_items se its = Inr buf"
  by (induction its) (auto simp: json_item_ok_def)

lemma parse_items_serialized:
  assumes "\<forall>it \<in> set its. item_framed it \<and> json_item_ok de se (item_headers it)"
    and "serialize_items se its = Inr buf"
  shows "parse_items de (pre @ buf) (length pre) = Inr (map serialized_item its)"
  using assms
proof (induction its arbitrary: pre buf)
  case Nil
  then show ?case by (simp add: parse_items.simps)
next
  case (Cons it its)
  obtain b where b: "se (item_headers it) = Inr b"
    and de: "\<And>rest. de (b @ newline # rest)
               = JsonOk ((item_headers it)\<lparr>ih_rate_limited := False\<rparr>) (length b)"
    using Cons.prems(1) by (auto simp: json_item_ok_def)
  obtain rest where rest: "serialize_items se its = Inr rest"
    and buf: "buf = b @ newline # item_payload it @ newline # rest"
    using Cons.prems(2) b by (auto split: sum.splits)
  let ?chunk = "b @ newline # item_payload it @ [newline]"
  have fr: "item_framed it" using Cons.prems(1) by simp
  have one: "parse_item de buf = Inr (serialized_item it, length ?chunk)"
    unfolding buf using parse_item_serialized [of it de b rest, OF fr de] by simp
  have "parse_items de ((pre @ ?chunk) @ rest) (length (pre @ ?chunk)) = Inr (map serialized_item its)"
    using Cons.IH [OF _ rest, of "pre @ ?chunk"] Cons.prems(1) by simp
  then have "parse_items de (pre @ buf) (length pre + length ?chunk) = Inr (map serialized_item its)"
    by (simp add: buf)
  then show ?case
    using one by (subst parse_items.simps) (simp add: buf)
qed

section \<open>Splitting and taking items\<close>

lemma swap_remove_mset:
  assumes "i < length xs"
  shows "add_mset (fst (swap_remove i xs)) (mset (snd (swap_remove i xs))) = mset xs"
proof -
  obtain ys z where xs: "xs = ys @ [z]" using assms by (cases xs rule: rev_cases) auto
  show ?thesis
  proof (cases "i < length ys")
    case True
    then show ?thesis
      by (simp add: swap_remove_def xs list_update_append nth_append butlast_append mset_update)
  next
    case False
    with assms xs have "i = length ys" by simp
    then show ?thesis by (simp add: swap_remove_def xs)
  qed
qed

lemma length_filter_all: "length (filter f xs) = length xs \<longleftrightarrow> (\<forall>x \<in> set xs. f x)"
  using length_filter_less [of _ xs f] by (metis filter_True less_irrefl)

section \<open>Properties\<close>

text \<open>C9: an envelope of framed items survives serialization and parsing. Headers come back as
  the JSON library reads them, payloads byte for byte, items in order; only the internal
  rate limited flag is reset. A payload containing newlines is no exception, because its
  length header frames it.\<close>

theorem envelope_roundtrip:
  assumes framed: "\<forall>it \<in> set (env_items e). item_framed it"
    and items: "\<forall>it \<in> set (env_items e). json_item_ok de_item se_item (item_headers it)"
    and headers: "se_headers (env_headers e) = Inr h"
      "\<forall>rest. de_headers (h @ newline # rest) = JsonOk headers' (length h)"
  shows "\<exists>buf. envelope_to_vec se_headers se_item e = Inr buf \<and>
           parse_bytes de_headers de_item buf =
             Inr \<lparr>env_headers = headers', env_items = map serialized_item (env_items e)\<rparr>"
proof -
  obtain rest where rest: "serialize_items se_item (env_items e) = Inr rest"
    using serialize_items_ok [OF items] by blast
  let ?buf = "h @ newline # rest"
  have vec: "envelope_to_vec se_headers se_item e = Inr ?buf"
    by (simp add: envelope_to_vec_def headers rest)
  have hd: "parse_headers de_headers ?buf = Inr (headers', length (h @ [newline]))"
    using headers(2) by (simp add: parse_headers_def require_termination_def)
  have "parse_items de_item ((h @ [newline]) @ rest) (length (h @ [newline]))
      = Inr (map serialized_item (env_items e))"
    using framed items rest by (intro parse_items_serialized) auto
  then have "parse_bytes de_headers de_item ?buf =
      Inr \<lparr>env_headers = headers', env_items = map serialized_item (env_items e)\<rparr>"
    using hd by (simp add: parse_bytes_def)
  with vec show ?thesis by blast
qed

definition example_meta :: full_meta where
  "example_meta =
     \<lparr>rm_dsn = \<lparr>dsn_scheme = ''https'', dsn_public_key = ProjectKey ''a94ae32be2584e0bbd7a4cbb95971fee'',
                dsn_host = ''sentry.io'', dsn_port = 443, dsn_path = [], dsn_project_id = Some 42\<rparr>,
      rm_client = None, rm_version = 7, rm_origin = None, rm_remote_addr = None,
      rm_forwarded_for = [], rm_user_agent = None, rm_no_cache = False, rm_start_time = 0\<rparr>"

definition example_item :: item where
  "example_item = set_payload CT_Text [1, newline, 2] (item_new IT_Attachment)"

definition example_envelope :: "(nat, nat, nat, nat) envelope" where
  "example_envelope = add_item example_item (from_request (Some 7) example_meta)"

definition example_de :: "'a \<Rightarrow> bytes \<Rightarrow> (nat, 'a) json_next" where
  "example_de x buf = (if take 2 buf = [123, 125] then JsonOk x 2 else JsonEnd)"

definition example_se :: "'a \<Rightarrow> nat + bytes" where
  "example_se x = Inr [123, 125]"

lemma example_envelope_items: "env_items example_envelope = [example_item]"
  by (simp add: example_envelope_def add_item_def from_request_def)

lemma example_item_not_limited:
  "(item_headers example_item)\<lparr>ih_rate_limited := False\<rparr> = item_headers example_item"
  by (simp add: example_item_def set_payload_def item_new_def Let_def)

lemma example_item_ok:
  "json_item_ok (example_de (item_headers example_item)) example_se (item_headers example_item)"
  by (simp add: json_item_ok_def example_se_def example_de_def example_item_not_limited)

theorem envelope_roundtrip_witness:
  "\<exists>buf. envelope_to_vec example_se example_se example_envelope = Inr buf \<and>
     parse_bytes (example_de (env_headers example_envelope)) (example_de (item_headers example_item)) buf
       = Inr \<lparr>env_headers = env_headers example_envelope,
              env_items = map serialized_item [example_item]\<rparr>"
proof -
  have 1: "\<forall>it \<in> set (env_items example_envelope). item_framed it"
    by (simp add: example_envelope_items example_item_def set_payload_framed)
  have 2: "\<forall>it \<in> set (env_items example_envelope).
      json_item_ok (example_de (item_headers example_item)) example_se (item_headers it)"
    by (simp add: example_envelope_items example_item_ok)
  have 3: "example_se (env_headers example_envelope) = Inr [123, 125]"
    by (simp add: example_se_def)
  have 4: "\<forall>rest. example_de (env_headers example_envelope) ([123, 125] @ newline # rest)
      = JsonOk (env_headers example_envelope) (length [123, 125 :: u8])"
    by (simp add: example_de_def)
  show ?thesis
    using envelope_roundtrip [where e = example_envelope and h = "[123, 125]"
        and de_item = "example_de (item_headers example_item)" and se_item = example_se
        and se_headers = example_se and de_headers = "example_de (env_headers example_envelope)"
        and headers' = "env_headers example_envelope", OF 1 2 3 4]
    by (simp add: example_envelope_items)
qed

text \<open>Everything the item parser accepts can be forwarded. Parsed items are framed, so
  whenever the JSON library can write their headers, they serialize, and parsing the
  result yields the same items again (with the internal flag reset).\<close>

lemma parsed_items_reserialize:
  assumes parsed: "parse_items de buf offset = Inr its"
    and items: "\<forall>it \<in> set its. json_item_ok de se (item_headers it)"
  shows "(\<forall>it \<in> set its. item_framed it) \<and>
         (\<exists>buf'. serialize_items se its = Inr buf' \<and>
                 parse_items de buf' 0 = Inr (map serialized_item its))"
proof -
  have framed: "\<forall>it \<in> set its. item_framed it"
    using parse_items_framed [OF parsed] by blast
  obtain buf' where buf': "serialize_items se its = Inr buf'"
    using serialize_items_ok [OF items] by blast
  have "parse_items de buf' 0 = Inr (map serialized_item its)"
    using parse_items_serialized [of its de se buf' "[]"] framed items buf' by auto
  with framed buf' show ?thesis by auto
qed

lemma example_item_framed: "item_framed example_item"
  by (simp add: example_item_def set_payload_framed)

lemma example_serialized:
  "serialize_items example_se [example_item] = Inr [123, 125, newline, 1, newline, 2, newline]"
  by (simp add: example_se_def example_item_def set_payload_def Let_def)

lemma example_parse:
  "parse_items (example_de (item_headers example_item)) [123, 125, newline, 1, newline, 2, newline] 0
     = Inr [serialized_item example_item]"
  using parse_items_serialized [OF _ example_serialized,
      where de = "example_de (item_headers example_item)" and pre = "[]"]
  by (simp add: example_item_ok example_item_framed)

lemma serialized_example: "serialized_item example_item = example_item"
  using example_item_not_limited by (simp add: serialized_item_def set_rate_limited_def)

text \<open>C31: an envelope accepted from a request belongs to the project of that request. Its DSN is
  the authenticated one, an envelope naming another project or key is refused, and an
  envelope with any event-related item carries an event id.\<close>

theorem parse_request_binds_project:
  fixes de_headers ::
    "bytes \<Rightarrow> ('j, (partial_meta, 'id, 'time, 'j, 'trace) envelope_headers) json_next"
  assumes "parse_request v new_id de_headers de_item buf request = Inr e"
  shows "rm_dsn (eh_meta (env_headers e)) = rm_dsn request \<and>
         (\<exists>partial offset. parse_headers de_headers buf = Inr (partial, offset) \<and>
            (rm_dsn (eh_meta partial) = None \<or>
             (\<exists>dsn. rm_dsn (eh_meta partial) = Some dsn \<and>
                dsn_project_id dsn = dsn_project_id (rm_dsn request) \<and>
                dsn_public_key dsn = dsn_public_key (rm_dsn request)))) \<and>
         ((\<exists>it \<in> set (env_items e). requires_event it) \<longrightarrow> eh_event_id (env_headers e) \<noteq> None)"
proof -
  obtain partial offset headers items where
    p: "parse_headers de_headers buf = Inr (partial, offset)"
      "complete v partial request = (Inr headers :: 'j envelope_error + _)"
      "parse_items de_item buf offset = Inr items"
    using assms by (auto simp: parse_request_def Let_def split: sum.splits prod.splits)
  have e: "env_items e = items"
    "eh_meta (env_headers e) = eh_meta headers"
    "list_ex requires_event items \<Longrightarrow> eh_event_id (env_headers e) \<noteq> None"
    using assms p by (auto simp: parse_request_def Let_def split: option.splits if_splits)
  have c: "rm_dsn (eh_meta headers) = rm_dsn request"
    "rm_dsn (eh_meta partial) = None \<or>
       (\<exists>dsn. rm_dsn (eh_meta partial) = Some dsn \<and>
          dsn_project_id dsn = dsn_project_id (rm_dsn request) \<and>
          dsn_public_key dsn = dsn_public_key (rm_dsn request))"
    using p(2) by (auto simp: complete_def Let_def copy_to_dsn split: option.splits if_splits)
  show ?thesis using p(1) e c by (auto simp: list_ex_iff)
qed

definition example_partial :: "(partial_meta, nat, nat, nat, nat) envelope_headers" where
  "example_partial =
     \<lparr>eh_event_id = None,
      eh_meta = \<lparr>rm_dsn = Some (rm_dsn example_meta), rm_client = Some ''sentry.test'', rm_version = 7,
        rm_origin = None, rm_remote_addr = None, rm_forwarded_for = [], rm_user_agent = None,
        rm_no_cache = False, rm_start_time = 0\<rparr>,
      eh_retention = None, eh_sent_at = None, eh_trace = None, eh_other = []\<rparr>"

lemma example_requires_event: "requires_event example_item"
  by (simp add: requires_event_def example_item_def set_payload_def item_new_def Let_def item_ty_def)

theorem parse_request_binds_project_witness:
  "\<exists>e. parse_request 7 (8::nat) (example_de example_partial) (example_de (item_headers example_item))
        ([123, 125, newline] @ [123, 125, newline, 1, newline, 2, newline]) example_meta = Inr e \<and>
       rm_dsn (eh_meta (env_headers e)) = rm_dsn example_meta \<and> eh_event_id (env_headers e) \<noteq> None"
proof -
  let ?buf = "[123, 125, newline] @ [123, 125, newline, 1, newline, 2, newline]"
  have h: "parse_headers (example_de example_partial) ?buf = Inr (example_partial, 3)"
    by (simp add: parse_headers_def example_de_def require_termination_def)
  have c: "\<exists>headers. complete 7 example_partial example_meta = (Inr headers :: nat envelope_error + _)"
    by (simp add: complete_def example_partial_def Let_def)
  have i: "parse_items (example_de (item_headers example_item)) ?buf 3 = Inr [serialized_item example_item]"
    using parse_items_serialized [OF _ example_serialized,
        where de = "example_de (item_headers example_item)" and pre = "[123, 125, newline]"]
    by (simp add: example_item_ok example_item_framed numeral_3_eq_3)
  have ex: "\<exists>e. parse_request 7 8 (example_de example_partial) (example_de (item_headers example_item))
      ?buf example_meta = Inr e \<and> env_items e = [serialized_item example_item]"
    using c i unfolding parse_request_def h by (auto simp: Let_def)
  then obtain e where e: "parse_request 7 8 (example_de example_partial)
      (example_de (item_headers example_item)) ?buf example_meta = Inr e"
    "env_items e = [serialized_item example_item]" by blast
  show ?thesis
    using parse_request_binds_project [OF e(1)] e
    by (auto simp: serialized_example example_requires_event)
qed

text \<open>Splitting an envelope loses and duplicates nothing. The envelope is left alone when no
  item or every item satisfies the predicate; otherwise the new envelope has the same
  headers and exactly the items that satisfy it, in order, and the old one the rest.\<close>

lemma split_by_partitions:
  "split_by f e =
     (if (\<forall>it \<in> set (env_items e). f it) \<or> (\<forall>it \<in> set (env_items e). \<not> f it)
      then (None, e)
      else (Some \<lparr>env_headers = env_headers e, env_items = filter f (env_items e)\<rparr>,
            e\<lparr>env_items := filter (\<lambda>it. \<not> f it) (env_items e)\<rparr>))"
  by (auto simp: split_by_def Let_def envelope_len_def length_filter_all filter_empty_conv o_def)

text \<open>Taking an item removes the first match and keeps exactly the other items.\<close>

lemma take_item_by_removes_one:
  assumes "take_item_by cond e = (r, e')"
  shows "env_headers e' = env_headers e \<and>
         (case r of
            None \<Rightarrow> e' = e \<and> (\<forall>it \<in> set (env_items e). \<not> cond it)
          | Some it \<Rightarrow> cond it \<and> List.find cond (env_items e) = Some it \<and>
                       add_mset it (mset (env_items e')) = mset (env_items e))"
proof (cases "position cond (env_items e)")
  case None
  with assms show ?thesis by (auto simp: take_item_by_def position_None)
next
  case (Some i)
  have i: "i < length (env_items e)" "cond (env_items e ! i)" "\<forall>j < i. \<not> cond (env_items e ! j)"
    using position_Some [OF Some] by blast+
  then have found: "List.find cond (env_items e) = Some (env_items e ! i)"
    by (auto simp: find_Some_iff)
  have it: "r = Some (env_items e ! i)"
    and rest: "e' = e\<lparr>env_items := snd (swap_remove i (env_items e))\<rparr>"
    using assms Some by (auto simp: take_item_by_def swap_remove_def)
  have "add_mset (env_items e ! i) (mset (env_items e')) = mset (env_items e)"
    using swap_remove_mset [OF i(1)] by (simp add: rest) (simp add: swap_remove_def)
  with found i(2) show ?thesis by (simp add: it rest)
qed

end
