(* ===== verification/Quotas.thy ===== *)
theory Quotas
  imports Relay_Common
begin

text \<open>
  Quotas of the crate \<open>relay-quotas\<close> (\<open>quota.rs\<close>): data scoping, category units, quota
  scopes and the matching of a quota against an item.
\<close>

section \<open>Scoping\<close>

record scoping =
  organization_id :: u64
  project_id :: project_id
  project_key :: project_key
  key_id :: "u64 option"

record item_scoping =
  item_category :: data_category
  item_scope :: scoping

definition scoping_item :: "scoping \<Rightarrow> data_category \<Rightarrow> item_scoping" where
  "scoping_item s c = \<lparr>item_category = c, item_scope = s\<rparr>"

datatype quota_scope = QS_Organization | QS_Project | QS_Key | QS_Unknown

definition quota_scope_from_name :: "string \<Rightarrow> quota_scope" where
  "quota_scope_from_name s =
     (if s = ''organization'' then QS_Organization
      else if s = ''project'' then QS_Project
      else if s = ''key'' then QS_Key
      else QS_Unknown)"

fun quota_scope_name :: "quota_scope \<Rightarrow> string" where
  "quota_scope_name QS_Key = ''key''"
| "quota_scope_name QS_Project = ''project''"
| "quota_scope_name QS_Organization = ''organization''"
| "quota_scope_name QS_Unknown = ''unknown''"

definition quota_scope_from_str :: "string \<Rightarrow> quota_scope option" where
  "quota_scope_from_str s = Some (quota_scope_from_name s)"

definition default_scope :: quota_scope where
  "default_scope = QS_Organization"

interpretation quota_scope: str_enum quota_scope_name quota_scope_from_str
proof
  show "quota_scope_from_str (quota_scope_name x) = Some x" for x
    by (cases x) (simp_all add: quota_scope_from_str_def quota_scope_from_name_def)
qed

lemma quota_scope_from_name_name [simp]: "quota_scope_from_name (quota_scope_name s) = s"
  using quota_scope.from_to_name [of s] by (simp add: quota_scope_from_str_def)

fun scope_id :: "item_scoping \<Rightarrow> quota_scope \<Rightarrow> u64 option" where
  "scope_id i QS_Organization = Some (organization_id (item_scope i))"
| "scope_id i QS_Project = Some (project_id (item_scope i))"
| "scope_id i QS_Key = key_id (item_scope i)"
| "scope_id i QS_Unknown = None"

type_synonym data_categories = "data_category list"

definition matches_categories :: "item_scoping \<Rightarrow> data_categories \<Rightarrow> bool" where
  "matches_categories i cats \<longleftrightarrow> cats = [] \<or> list_ex (\<lambda>cat. cat = item_category i) cats"

lemma matches_categories_set:
  "matches_categories i cats \<longleftrightarrow> cats = [] \<or> item_category i \<in> set cats"
  by (auto simp: matches_categories_def list_ex_iff)

lemma matches_categories_sort [simp]:
  "matches_categories i (sort cats) = matches_categories i cats"
  by (metis matches_categories_set set_sort set_empty)

section \<open>Quotas\<close>

datatype category_unit = CU_Count | CU_Bytes | CU_Batched

fun category_unit_from :: "data_category \<Rightarrow> category_unit option" where
  "category_unit_from DC_Default = Some CU_Count"
| "category_unit_from DC_Error = Some CU_Count"
| "category_unit_from DC_Transaction = Some CU_Count"
| "category_unit_from DC_Security = Some CU_Count"
| "category_unit_from DC_Attachment = Some CU_Bytes"
| "category_unit_from DC_Session = Some CU_Batched"
| "category_unit_from DC_Unknown = None"

type_synonym reason_code = string

record quota =
  quota_id :: "string option"
  quota_categories :: data_categories
  quota_scope_of :: quota_scope
  quota_scope_id :: "string option"
  quota_limit :: "u32 option"
  quota_window :: "u64 option"
  quota_reason_code :: "reason_code option"

definition quota_is_valid :: "quota \<Rightarrow> bool" where
  "quota_is_valid q =
     (case List.map_filter category_unit_from (quota_categories q) of
        [] \<Rightarrow> (if quota_categories q \<noteq> [] then False
               else if quota_limit q = Some 0 then True
               else False)
      | u # us \<Rightarrow> (if quota_limit q = Some 0 then True else list_all (\<lambda>v. v = u) us))"

definition quota_matches_scope :: "quota \<Rightarrow> item_scoping \<Rightarrow> bool" where
  "quota_matches_scope q i =
     (case quota_scope_id q of
        None \<Rightarrow> True
      | Some sid \<Rightarrow>
          (case parse_u64 sid of
             None \<Rightarrow> False
           | Some parsed \<Rightarrow> scope_id i (quota_scope_of q) = Some parsed))"

definition quota_matches :: "quota \<Rightarrow> item_scoping \<Rightarrow> bool" where
  "quota_matches q i \<longleftrightarrow> quota_matches_scope q i \<and> matches_categories i (quota_categories q)"

section \<open>Properties\<close>

text \<open>
  The documented meaning of a valid quota: a reject-all quota over known data, or a quota
  whose known categories are all counted in the same unit.
\<close>

definition uniform_units :: "data_categories \<Rightarrow> bool" where
  "uniform_units cats \<longleftrightarrow>
     (\<exists>u. (\<exists>c \<in> set cats. category_unit_from c = Some u) \<and>
          (\<forall>c \<in> set cats. category_unit_from c \<in> {None, Some u}))"

lemma map_filter_units:
  "List.map_filter category_unit_from cats = [] \<longleftrightarrow> (\<forall>c \<in> set cats. category_unit_from c = None)"
  by (induction cats) (auto simp: List.map_filter_simps split: option.splits)

lemma set_map_filter_units:
  "set (List.map_filter category_unit_from cats) = {u. \<exists>c \<in> set cats. category_unit_from c = Some u}"
  by (induction cats) (auto simp: List.map_filter_simps split: option.splits)

lemma quota_is_valid_iff:
  "quota_is_valid q \<longleftrightarrow>
     (if quota_limit q = Some 0
      then quota_categories q = [] \<or> (\<exists>c \<in> set (quota_categories q). c \<noteq> DC_Unknown)
      else uniform_units (quota_categories q))"
proof -
  have unk: "category_unit_from c = None \<longleftrightarrow> c = DC_Unknown" for c by (cases c) auto
  show ?thesis
  proof (cases "List.map_filter category_unit_from (quota_categories q)")
    case Nil
    then have "\<forall>c \<in> set (quota_categories q). category_unit_from c = None"
      by (simp only: map_filter_units)
    then show ?thesis
      using Nil by (auto simp: quota_is_valid_def uniform_units_def unk)
  next
    case (Cons u us)
    then have s: "{u. \<exists>c \<in> set (quota_categories q). category_unit_from c = Some u} = insert u (set us)"
      using set_map_filter_units [of "quota_categories q"] by simp
    have ex: "\<exists>c \<in> set (quota_categories q). category_unit_from c = Some u"
      using s by blast
    have "uniform_units (quota_categories q) \<longleftrightarrow> (\<forall>v \<in> set us. v = u)"
    proof
      assume "uniform_units (quota_categories q)"
      then obtain w where w: "\<forall>c \<in> set (quota_categories q). category_unit_from c \<in> {None, Some w}"
        unfolding uniform_units_def by blast
      have "v = w" if "v \<in> insert u (set us)" for v
        using that w unfolding s [symmetric] by fastforce
      then show "\<forall>v \<in> set us. v = u" by blast
    next
      assume "\<forall>v \<in> set us. v = u"
      then have "category_unit_from c \<in> {None, Some u}" if "c \<in> set (quota_categories q)" for c
        using s that by (cases "category_unit_from c") auto
      then show "uniform_units (quota_categories q)"
        using ex unfolding uniform_units_def by blast
    qed
    moreover have "\<exists>c \<in> set (quota_categories q). c \<noteq> DC_Unknown"
      using ex by (metis category_unit_from.simps(7) option.discI)
    ultimately show ?thesis
      using Cons by (auto simp: quota_is_valid_def list_all_iff)
  qed
qed

end
