(* ===== verification/Rate_Limits.thy ===== *)
theory Rate_Limits
  imports Quotas Float64
begin

text \<open>
  Rate limits of the crate \<open>relay-quotas\<close> (\<open>rate_limit.rs\<close>): expiry markers, scoped
  limits and the collection \<open>RateLimits\<close>. The abstract view of a collection is a partial
  map from (categories, scope) to the latest expiry; \<open>add\<close> and \<open>merge\<close> refine the
  pointwise maximum.
\<close>

section \<open>Retry after\<close>

type_synonym retry_after = instant

definition REJECT_ALL_SECS :: u64 where
  "REJECT_ALL_SECS = 60"

definition retry_after_from_secs :: "instant \<Rightarrow> u64 \<Rightarrow> retry_after" where
  "retry_after_from_secs now seconds =
     (case instant_checked_add now (duration_from_secs seconds) of
        Some t \<Rightarrow> t
      | None \<Rightarrow> now)"

definition remaining :: "instant \<Rightarrow> retry_after \<Rightarrow> duration option" where
  "remaining now t = (if t \<le> now then None else Some (nat (t - now)))"

definition remaining_seconds :: "instant \<Rightarrow> retry_after \<Rightarrow> nat" where
  "remaining_seconds now t =
     (case remaining now t of
        Some d \<Rightarrow>
          if duration_subsec_nanos d = 0 then duration_as_secs d else duration_as_secs d + 1
      | None \<Rightarrow> 0)"

definition expired :: "instant \<Rightarrow> retry_after \<Rightarrow> bool" where
  "expired now t \<longleftrightarrow> remaining now t = None"

definition retry_after_from_str :: "instant \<Rightarrow> string \<Rightarrow> retry_after option" where
  "retry_after_from_str now s =
     (case parse_f64 s of
        None \<Rightarrow> None
      | Some float \<Rightarrow>
          let seconds = f64_to_u64 (f64_ceil (f64_max float f64_zero))
          in Some (retry_after_from_secs now seconds))"

lemma expired_iff: "expired now t \<longleftrightarrow> t \<le> now"
  by (simp add: expired_def remaining_def)

text \<open>Rounding up to seconds never shortens a limit and never adds a full second.\<close>

lemma remaining_seconds_bounds:
  assumes "now < t"
  shows "int (remaining_seconds now t) * int nanos_per_sec \<ge> t - now"
    and "(int (remaining_seconds now t) - 1) * int nanos_per_sec < t - now"
proof -
  define d where "d = nat (t - now)"
  have d: "t - now = int d" using assms by (simp add: d_def)
  define q where "q = d div nanos_per_sec"
  define r where "r = d mod nanos_per_sec"
  have dq: "d = q * nanos_per_sec + r" and r: "r < nanos_per_sec"
    by (simp_all add: q_def r_def)
  have rs: "remaining_seconds now t = (if r = 0 then q else q + 1)"
    using assms
    by (simp add: remaining_seconds_def remaining_def duration_subsec_nanos_def
        duration_as_secs_def q_def r_def d_def)
  show "int (remaining_seconds now t) * int nanos_per_sec \<ge> t - now"
    unfolding d rs using r dq by (auto simp: distrib_right)
  show "(int (remaining_seconds now t) - 1) * int nanos_per_sec < t - now"
    unfolding d rs using r dq by (auto simp: left_diff_distrib distrib_right)
qed

lemma remaining_seconds_expired [simp]: "t \<le> now \<Longrightarrow> remaining_seconds now t = 0"
  by (simp add: remaining_seconds_def remaining_def)

lemma remaining_seconds_exact:
  "remaining_seconds now (now + int (k * nanos_per_sec)) = k"
proof (cases "k = 0")
  case False
  then have "0 < int (k * nanos_per_sec)" by simp
  then have "remaining now (now + int (k * nanos_per_sec)) = Some (k * nanos_per_sec)"
    by (simp add: remaining_def del: of_nat_mult)
  then show ?thesis
    by (simp add: remaining_seconds_def duration_subsec_nanos_def duration_as_secs_def)
qed simp

lemma from_secs_ge_now:
  "instant_representable now \<Longrightarrow> now \<le> retry_after_from_secs now s"
  by (auto simp: retry_after_from_secs_def instant_checked_add_def)

section \<open>Rate limits\<close>

datatype rate_limit_scope =
    RLS_Organization u64
  | RLS_Project project_id
  | RLS_Key project_key

fun rate_limit_scope_for_quota :: "scoping \<Rightarrow> quota_scope \<Rightarrow> rate_limit_scope" where
  "rate_limit_scope_for_quota s QS_Organization = RLS_Organization (organization_id s)"
| "rate_limit_scope_for_quota s QS_Project = RLS_Project (project_id s)"
| "rate_limit_scope_for_quota s QS_Key = RLS_Key (project_key s)"
| "rate_limit_scope_for_quota s QS_Unknown = RLS_Key (project_key s)"

fun rate_limit_scope_name :: "rate_limit_scope \<Rightarrow> string" where
  "rate_limit_scope_name (RLS_Key _) = quota_scope_name QS_Key"
| "rate_limit_scope_name (RLS_Project _) = quota_scope_name QS_Project"
| "rate_limit_scope_name (RLS_Organization _) = quota_scope_name QS_Organization"

record rate_limit =
  limit_categories :: data_categories
  limit_scope :: rate_limit_scope
  limit_reason_code :: "reason_code option"
  limit_retry_after :: retry_after

definition rate_limit_from_quota :: "quota \<Rightarrow> scoping \<Rightarrow> retry_after \<Rightarrow> rate_limit" where
  "rate_limit_from_quota q s t =
     \<lparr>limit_categories = quota_categories q,
      limit_scope = rate_limit_scope_for_quota s (quota_scope_of q),
      limit_reason_code = quota_reason_code q,
      limit_retry_after = t\<rparr>"

definition rate_limit_matches_scope :: "rate_limit \<Rightarrow> item_scoping \<Rightarrow> bool" where
  "rate_limit_matches_scope l i =
     (case limit_scope l of
        RLS_Organization org \<Rightarrow> organization_id (item_scope i) = org
      | RLS_Project project \<Rightarrow> project_id (item_scope i) = project
      | RLS_Key key \<Rightarrow> project_key (item_scope i) = key)"

definition rate_limit_matches :: "rate_limit \<Rightarrow> item_scoping \<Rightarrow> bool" where
  "rate_limit_matches l i \<longleftrightarrow>
     rate_limit_matches_scope l i \<and> matches_categories i (limit_categories l)"

type_synonym rate_limits = "rate_limit list"

definition rate_limits_new :: rate_limits where
  "rate_limits_new = []"

text \<open>
  \<open>find\<close> over the mutable iterator and the three arms of the match: push, replace a shorter
  limit, keep a longer one.
\<close>

fun rate_limits_upsert :: "rate_limit \<Rightarrow> rate_limits \<Rightarrow> rate_limits" where
  "rate_limits_upsert l [] = [l]"
| "rate_limits_upsert l (existing # ls) =
     (if limit_categories existing = limit_categories l \<and> limit_scope existing = limit_scope l
      then (if limit_retry_after existing < limit_retry_after l then l # ls else existing # ls)
      else existing # rate_limits_upsert l ls)"

definition rate_limits_add :: "rate_limits \<Rightarrow> rate_limit \<Rightarrow> rate_limits" where
  "rate_limits_add ls l =
     rate_limits_upsert (l\<lparr>limit_categories := sort (limit_categories l)\<rparr>) ls"

definition rate_limits_merge :: "rate_limits \<Rightarrow> rate_limits \<Rightarrow> rate_limits" where
  "rate_limits_merge ls new = foldl rate_limits_add ls new"

definition is_limited :: "instant \<Rightarrow> rate_limits \<Rightarrow> bool" where
  "is_limited now ls \<longleftrightarrow> list_ex (\<lambda>l. \<not> expired now (limit_retry_after l)) ls"

definition is_ok :: "instant \<Rightarrow> rate_limits \<Rightarrow> bool" where
  "is_ok now ls \<longleftrightarrow> \<not> is_limited now ls"

definition clean_expired :: "instant \<Rightarrow> rate_limits \<Rightarrow> rate_limits" where
  "clean_expired now ls = filter (\<lambda>l. \<not> expired now (limit_retry_after l)) ls"

definition check_with_quotas ::
  "instant \<Rightarrow> rate_limits \<Rightarrow> quota list \<Rightarrow> item_scoping \<Rightarrow> rate_limits" where
  "check_with_quotas now ls quotas i =
     (let applied = foldl (\<lambda>acc q.
            if quota_limit q = Some 0 \<and> quota_matches q i
            then rate_limits_add acc
                   (rate_limit_from_quota q (item_scope i)
                      (retry_after_from_secs now REJECT_ALL_SECS))
            else acc) rate_limits_new quotas
      in foldl (\<lambda>acc l. if rate_limit_matches l i then rate_limits_add acc l else acc) applied ls)"

definition rate_limits_check :: "instant \<Rightarrow> rate_limits \<Rightarrow> item_scoping \<Rightarrow> rate_limits" where
  "rate_limits_check now ls i = check_with_quotas now ls [] i"

definition longest :: "rate_limits \<Rightarrow> rate_limit option" where
  "longest ls = max_by_key limit_retry_after ls"

section \<open>The abstract view\<close>

type_synonym limit_key = "data_categories \<times> rate_limit_scope"

definition limit_key :: "rate_limit \<Rightarrow> limit_key" where
  "limit_key l = (sort (limit_categories l), limit_scope l)"

definition raw_key :: "rate_limit \<Rightarrow> limit_key" where
  "raw_key l = (limit_categories l, limit_scope l)"

definition rate_limits_abs :: "rate_limits \<Rightarrow> limit_key \<rightharpoonup> retry_after" where
  "rate_limits_abs ls k = map_option limit_retry_after (List.find (\<lambda>l. raw_key l = k) ls)"

definition rate_limits_inv :: "rate_limits \<Rightarrow> bool" where
  "rate_limits_inv ls \<longleftrightarrow>
     distinct (map raw_key ls) \<and> (\<forall>l \<in> set ls. sorted (limit_categories l))"

fun opt_max :: "'a::linorder option \<Rightarrow> 'a option \<Rightarrow> 'a option" where
  "opt_max None b = b"
| "opt_max a None = a"
| "opt_max (Some a) (Some b) = Some (max a b)"

lemma opt_max_None_right [simp]: "opt_max a None = a"
  by (cases a) simp_all

lemma opt_max_comm: "opt_max a b = opt_max b a"
  by (cases a; cases b) (simp_all add: max.commute)

lemma opt_max_assoc: "opt_max (opt_max a b) c = opt_max a (opt_max b c)"
  by (cases a; cases b; cases c) (simp_all add: max.assoc)

lemma opt_max_idem [simp]: "opt_max a a = a"
  by (cases a) simp_all

lemma rate_limits_abs_Nil [simp]: "rate_limits_abs [] k = None"
  by (simp add: rate_limits_abs_def)

lemma rate_limits_abs_Cons:
  "rate_limits_abs (l # ls) k =
     (if raw_key l = k then Some (limit_retry_after l) else rate_limits_abs ls k)"
  by (simp add: rate_limits_abs_def)

lemma raw_key_sorted: "raw_key (l\<lparr>limit_categories := sort (limit_categories l)\<rparr>) = limit_key l"
  by (simp add: raw_key_def limit_key_def)

lemma upsert_abs:
  "rate_limits_abs (rate_limits_upsert l ls) k =
     (if raw_key l = k then opt_max (rate_limits_abs ls k) (Some (limit_retry_after l))
      else rate_limits_abs ls k)"
  by (induction ls) (auto simp: rate_limits_abs_Cons raw_key_def)

lemma add_abs:
  "rate_limits_abs (rate_limits_add ls l) k =
     (if limit_key l = k then opt_max (rate_limits_abs ls k) (Some (limit_retry_after l))
      else rate_limits_abs ls k)"
  by (simp add: rate_limits_add_def upsert_abs raw_key_sorted)

lemma upsert_keys:
  "set (map raw_key (rate_limits_upsert l ls)) = insert (raw_key l) (set (map raw_key ls))"
  by (induction ls) (auto simp: raw_key_def)

lemma upsert_distinct:
  "distinct (map raw_key ls) \<Longrightarrow> distinct (map raw_key (rate_limits_upsert l ls))"
proof (induction ls)
  case (Cons a ls)
  then show ?case
    using upsert_keys [of l ls] by (auto simp: raw_key_def)
qed simp

lemma upsert_set: "set (rate_limits_upsert l ls) \<subseteq> insert l (set ls)"
  by (induction ls) auto

lemma add_inv: "rate_limits_inv ls \<Longrightarrow> rate_limits_inv (rate_limits_add ls l)"
  using upsert_set [of "l\<lparr>limit_categories := sort (limit_categories l)\<rparr>" ls]
  by (auto simp: rate_limits_inv_def rate_limits_add_def upsert_distinct)

lemma new_inv [simp]: "rate_limits_inv rate_limits_new"
  by (simp add: rate_limits_inv_def rate_limits_new_def)

lemma merge_inv: "rate_limits_inv ls \<Longrightarrow> rate_limits_inv (rate_limits_merge ls new)"
  unfolding rate_limits_merge_def by (rule foldl_invariant) (auto intro: add_inv)

lemma merge_abs:
  assumes "rate_limits_inv new"
  shows "rate_limits_abs (rate_limits_merge ls new) k
           = opt_max (rate_limits_abs ls k) (rate_limits_abs new k)"
  using assms unfolding rate_limits_merge_def
proof (induction new arbitrary: ls)
  case (Cons l new)
  have key: "limit_key l = raw_key l" and inv: "rate_limits_inv new"
    using Cons.prems by (auto simp: rate_limits_inv_def limit_key_def raw_key_def sort_key_id_if_sorted)
  have "raw_key l \<notin> set (map raw_key new)"
    using Cons.prems by (auto simp: rate_limits_inv_def)
  then have "\<forall>m \<in> set new. raw_key m \<noteq> raw_key l" by (auto simp: image_iff)
  then have none: "raw_key l = k \<Longrightarrow> rate_limits_abs new k = None"
    by (simp add: rate_limits_abs_def find_None_iff)
  show ?case
    using Cons.IH [OF inv, of "rate_limits_add ls l"] none
    by (auto simp: add_abs key rate_limits_abs_Cons)
qed simp

section \<open>Activity and matching\<close>

lemma is_limited_iff: "is_limited now ls \<longleftrightarrow> (\<exists>l \<in> set ls. now < limit_retry_after l)"
  by (auto simp: is_limited_def list_ex_iff expired_iff not_le)

lemma is_limited_Nil [simp]: "\<not> is_limited now []"
  by (simp add: is_limited_iff)

lemma is_limited_Cons [simp]:
  "is_limited now (l # ls) \<longleftrightarrow> now < limit_retry_after l \<or> is_limited now ls"
  by (simp add: is_limited_iff)

lemma is_limited_upsert:
  "is_limited now (rate_limits_upsert l ls) \<longleftrightarrow> now < limit_retry_after l \<or> is_limited now ls"
  by (induction ls) auto

lemma is_limited_add:
  "is_limited now (rate_limits_add ls l) \<longleftrightarrow> now < limit_retry_after l \<or> is_limited now ls"
  by (simp add: rate_limits_add_def is_limited_upsert)

lemma is_limited_merge:
  "is_limited now (rate_limits_merge ls new) \<longleftrightarrow> is_limited now ls \<or> is_limited now new"
  unfolding rate_limits_merge_def
  by (induction new arbitrary: ls) (auto simp: is_limited_add)

lemma rate_limit_matches_sort [simp]:
  "rate_limit_matches (l\<lparr>limit_categories := sort (limit_categories l)\<rparr>) i = rate_limit_matches l i"
  by (simp add: rate_limit_matches_def rate_limit_matches_scope_def)

lemma rate_limit_from_quota_matches:
  "quota_matches q i \<Longrightarrow> rate_limit_matches (rate_limit_from_quota q (item_scope i) t) i"
  by (cases "quota_scope_of q")
    (simp_all add: quota_matches_def rate_limit_matches_def rate_limit_matches_scope_def
      rate_limit_from_quota_def)

definition all_match :: "item_scoping \<Rightarrow> rate_limits \<Rightarrow> bool" where
  "all_match i ls \<longleftrightarrow> (\<forall>l \<in> set ls. rate_limit_matches l i)"

lemma all_match_new [simp]: "all_match i rate_limits_new"
  by (simp add: all_match_def rate_limits_new_def)

lemma all_match_add:
  "all_match i ls \<Longrightarrow> rate_limit_matches l i \<Longrightarrow> all_match i (rate_limits_add ls l)"
  unfolding all_match_def rate_limits_add_def
  using upsert_set [of "l\<lparr>limit_categories := sort (limit_categories l)\<rparr>" ls] by auto

lemma all_match_merge:
  "all_match i ls \<Longrightarrow> all_match i new \<Longrightarrow> all_match i (rate_limits_merge ls new)"
  unfolding rate_limits_merge_def
  by (rule foldl_invariant [where I = "all_match i"])
    (auto intro: all_match_add simp: all_match_def [of i new])

text \<open>The rate limits that \<open>check_with_quotas\<close> applies: reject-all quotas, then own limits.\<close>

definition static_limits :: "instant \<Rightarrow> quota list \<Rightarrow> item_scoping \<Rightarrow> rate_limits" where
  "static_limits now quotas i =
     map (\<lambda>q. rate_limit_from_quota q (item_scope i) (retry_after_from_secs now REJECT_ALL_SECS))
       (filter (\<lambda>q. quota_limit q = Some 0 \<and> quota_matches q i) quotas)"

lemma is_limited_static:
  "is_limited now (static_limits t quotas i) \<longleftrightarrow>
     (\<exists>q. q \<in> set quotas \<and> quota_limit q = Some 0 \<and> quota_matches q i \<and>
          now < retry_after_from_secs t REJECT_ALL_SECS)"
  by (auto simp: is_limited_iff static_limits_def rate_limit_from_quota_def)

lemma is_limited_filter:
  "is_limited now (filter P ls) \<longleftrightarrow> (\<exists>l. l \<in> set ls \<and> P l \<and> now < limit_retry_after l)"
  by (auto simp: is_limited_iff)

lemma check_with_quotas_merge:
  "check_with_quotas now ls quotas i =
     rate_limits_merge (rate_limits_merge rate_limits_new (static_limits now quotas i))
       (filter (\<lambda>l. rate_limit_matches l i) ls)"
  unfolding check_with_quotas_def rate_limits_merge_def static_limits_def Let_def
  by (simp only: foldl_if_filter
      [of "\<lambda>q. quota_limit q = Some 0 \<and> quota_matches q i" rate_limits_add
        "\<lambda>q. rate_limit_from_quota q (item_scope i) (retry_after_from_secs now REJECT_ALL_SECS)"]
      foldl_if_filter [of "\<lambda>l. rate_limit_matches l i" rate_limits_add "\<lambda>l. l"] list.map_ident)

lemma check_with_quotas_inv: "rate_limits_inv (check_with_quotas now ls quotas i)"
  by (simp add: check_with_quotas_merge merge_inv)

lemma check_with_quotas_all_match: "all_match i (check_with_quotas now ls quotas i)"
  unfolding check_with_quotas_merge static_limits_def
  by (intro all_match_merge all_match_new)
    (auto simp: all_match_def intro: rate_limit_from_quota_matches)

text \<open>The longest limit bounds all others, and is absent only from an empty collection.\<close>

lemma longest_ge: "longest ls = Some l \<Longrightarrow> m \<in> set ls \<Longrightarrow> limit_retry_after m \<le> limit_retry_after l"
  by (simp add: longest_def max_by_key_ge)

lemma longest_in: "longest ls = Some l \<Longrightarrow> l \<in> set ls"
  by (simp add: longest_def max_by_key_in)

lemma longest_None [simp]: "longest ls = None \<longleftrightarrow> ls = []"
  by (simp add: longest_def)

lemma longest_active: "longest ls = Some l \<Longrightarrow> is_limited now ls \<longleftrightarrow> now < limit_retry_after l"
  using longest_ge longest_in by (fastforce simp: is_limited_iff)

lemma merge_not_Nil: "rate_limits_merge ls new = [] \<longleftrightarrow> ls = [] \<and> new = []"
proof -
  have up: "rate_limits_upsert l ls \<noteq> []" for l ls by (cases ls) auto
  have "foldl rate_limits_add ls new = [] \<longleftrightarrow> ls = [] \<and> new = []" for ls
  proof (induction new arbitrary: ls)
    case (Cons a new)
    then show ?case by (simp add: rate_limits_add_def up)
  qed simp
  then show ?thesis by (simp add: rate_limits_merge_def)
qed

section \<open>Properties\<close>

text \<open>C22: merging rate limits keeps the collection well formed (one entry per sorted category
  list and scope) and refines the pointwise maximum of the expiry times: no limit is lost
  and none is shortened.\<close>

theorem rate_limits_merge_refines_max:
  assumes "rate_limits_inv ls" and "rate_limits_inv new"
  shows "rate_limits_inv (rate_limits_merge ls new) \<and>
         rate_limits_abs (rate_limits_merge ls new) =
           (\<lambda>k. opt_max (rate_limits_abs ls k) (rate_limits_abs new k))"
  using assms by (auto simp: merge_inv merge_abs)

definition example_limit :: "data_categories \<Rightarrow> int \<Rightarrow> rate_limit" where
  "example_limit cats t =
     \<lparr>limit_categories = cats, limit_scope = RLS_Organization 42, limit_reason_code = None,
      limit_retry_after = t\<rparr>"

theorem rate_limits_merge_refines_max_witness:
  "rate_limits_inv (rate_limits_merge [example_limit [DC_Error] 5] [example_limit [DC_Error] 9]) \<and>
   rate_limits_abs (rate_limits_merge [example_limit [DC_Error] 5] [example_limit [DC_Error] 9])
     ([DC_Error], RLS_Organization 42) = Some 9"
proof -
  have i: "rate_limits_inv [example_limit [DC_Error] 5]" "rate_limits_inv [example_limit [DC_Error] 9]"
    by (simp_all add: rate_limits_inv_def example_limit_def)
  show ?thesis
    using rate_limits_merge_refines_max [OF i]
    by (simp add: rate_limits_abs_def raw_key_def example_limit_def)
qed

text \<open>Checking an item against cached limits and static quotas is exact. The outcome is
  limited if and only if a reject-all quota that matches the item yields a limit that is
  still running, or a cached limit that is still running matches the item; and every limit
  in the outcome applies to the item.\<close>

lemma check_with_quotas_exact:
  "(is_limited now (check_with_quotas now ls quotas i) \<longleftrightarrow>
      (\<exists>q. q \<in> set quotas \<and> quota_limit q = Some 0 \<and> quota_matches q i \<and>
           now < retry_after_from_secs now REJECT_ALL_SECS) \<or>
      (\<exists>l. l \<in> set ls \<and> rate_limit_matches l i \<and> now < limit_retry_after l)) \<and>
   all_match i (check_with_quotas now ls quotas i)"
  by (simp add: check_with_quotas_all_match)
    (simp add: check_with_quotas_merge is_limited_merge rate_limits_new_def is_limited_static
      is_limited_filter)

text \<open>The remaining time announced in whole seconds covers the limit: it is never shorter
  than the remaining duration and less than one second longer.\<close>

lemma remaining_seconds_rounds_up:
  assumes "now < t"
  shows "t - now \<le> int (remaining_seconds now t) * int nanos_per_sec \<and>
         int (remaining_seconds now t) * int nanos_per_sec < t - now + int nanos_per_sec"
  using remaining_seconds_bounds [OF assms] by (auto simp: left_diff_distrib)

end
