(* ===== verification/Redis_Limiter.thy ===== *)
theory Redis_Limiter
  imports Rate_Limits
begin

text \<open>
  The shared rate limiter of the crate \<open>relay-quotas\<close> (\<open>redis.rs\<close> and the Lua script
  \<open>is_rate_limited.lua\<close>). The Redis server is a parameter: a record of the three commands
  the script calls over an arbitrary store type, with its documented laws as the predicate
  \<open>redis_laws\<close>. A panic (remainder by a zero window) is the error \<open>RLE_Panic\<close>.
\<close>

section \<open>Quotas tracked in Redis\<close>

definition GRACE :: u64 where
  "GRACE = 60"

definition get_refunded_quota_key :: "string \<Rightarrow> string" where
  "get_refunded_quota_key counter_key = ''r:'' @ counter_key"

definition optional_display :: "u64 option \<Rightarrow> string" where
  "optional_display v = (case v of Some x \<Rightarrow> show_u64 x | None \<Rightarrow> [])"

record redis_quota =
  rq_quota :: quota
  rq_scoping :: item_scoping
  rq_prefix :: string
  rq_window :: u64
  rq_timestamp :: unix_timestamp

definition redis_quota_new :: "quota \<Rightarrow> item_scoping \<Rightarrow> unix_timestamp \<Rightarrow> redis_quota option" where
  "redis_quota_new q i ts =
     (case quota_id q of
        None \<Rightarrow> None
      | Some pfx \<Rightarrow>
          (case quota_window q of
             None \<Rightarrow> None
           | Some window \<Rightarrow>
               Some \<lparr>rq_quota = q, rq_scoping = i, rq_prefix = pfx, rq_window = window,
                     rq_timestamp = ts\<rparr>))"

definition redis_quota_limit :: "redis_quota \<Rightarrow> int" where
  "redis_quota_limit rq = (case quota_limit (rq_quota rq) of Some l \<Rightarrow> uint l | None \<Rightarrow> - 1)"

definition redis_quota_shift :: "redis_quota \<Rightarrow> u64 option" where
  "redis_quota_shift rq =
     (if rq_window rq = 0 then None
      else Some (organization_id (item_scope (rq_scoping rq)) mod rq_window rq))"

definition redis_quota_slot :: "redis_quota \<Rightarrow> u64 option" where
  "redis_quota_slot rq =
     (case redis_quota_shift rq of
        None \<Rightarrow> None
      | Some shift \<Rightarrow> Some ((rq_timestamp rq - shift) div rq_window rq))"

definition redis_quota_expiry :: "redis_quota \<Rightarrow> unix_timestamp option" where
  "redis_quota_expiry rq =
     (case (redis_quota_slot rq, redis_quota_shift rq) of
        (Some slot, Some shift) \<Rightarrow> Some ((slot + 1) * rq_window rq + shift)
      | _ \<Rightarrow> None)"

definition redis_quota_subscope :: "redis_quota \<Rightarrow> u64 option" where
  "redis_quota_subscope rq =
     (case quota_scope_of (rq_quota rq) of
        QS_Organization \<Rightarrow> None
      | scope \<Rightarrow> scope_id (rq_scoping rq) scope)"

definition redis_quota_key :: "redis_quota \<Rightarrow> string option" where
  "redis_quota_key rq =
     (case redis_quota_slot rq of
        None \<Rightarrow> None
      | Some slot \<Rightarrow>
          Some (''quota:'' @ rq_prefix rq @ ''{'' @
                show_u64 (organization_id (item_scope (rq_scoping rq))) @ ''}'' @
                optional_display (redis_quota_subscope rq) @ '':'' @ show_u64 slot))"

section \<open>The Lua script\<close>

record 's redis_api =
  redis_get :: "'s \<Rightarrow> string \<Rightarrow> int option"
  redis_incrby :: "'s \<Rightarrow> string \<Rightarrow> int \<Rightarrow> 's"
  redis_expireat :: "'s \<Rightarrow> string \<Rightarrow> int \<Rightarrow> 's"

text \<open>
  Documented behaviour of the commands: \<open>INCRBY\<close> counts from zero on a missing key and
  touches no other key; \<open>EXPIREAT\<close> with a time after the server's current time keeps all
  values.
\<close>

definition redis_laws :: "'s redis_api \<Rightarrow> int \<Rightarrow> bool" where
  "redis_laws api server_now \<longleftrightarrow>
     (\<forall>s k n k'. redis_get api (redis_incrby api s k n) k' =
        (if k' = k then Some ((case redis_get api s k of Some v \<Rightarrow> v | None \<Rightarrow> 0) + n)
         else redis_get api s k')) \<and>
     (\<forall>s k t k'. server_now < t \<longrightarrow>
        redis_get api (redis_expireat api s k t) k' = redis_get api s k')"

text \<open>The two keys and three arguments that each quota contributes to an invocation.\<close>

record script_quota =
  sq_key :: string
  sq_refund_key :: string
  sq_limit :: int
  sq_expiry :: int
  sq_quantity :: int

definition redis_count :: "'s redis_api \<Rightarrow> 's \<Rightarrow> string \<Rightarrow> int" where
  "redis_count api s k = (case redis_get api s k of Some v \<Rightarrow> v | None \<Rightarrow> 0)"

definition script_rejected :: "'s redis_api \<Rightarrow> 's \<Rightarrow> script_quota \<Rightarrow> bool" where
  "script_rejected api s q \<longleftrightarrow>
     0 \<le> sq_limit q \<and>
     sq_limit q < redis_count api s (sq_key q) - redis_count api s (sq_refund_key q) + sq_quantity q"

definition script_consume :: "'s redis_api \<Rightarrow> 's \<Rightarrow> script_quota \<Rightarrow> 's" where
  "script_consume api s q =
     redis_expireat api (redis_incrby api s (sq_key q) (sq_quantity q)) (sq_key q) (sq_expiry q)"

definition is_rate_limited_script ::
  "'s redis_api \<Rightarrow> 's \<Rightarrow> script_quota list \<Rightarrow> bool list \<times> 's" where
  "is_rate_limited_script api s qs =
     (let results = map (script_rejected api s) qs;
          failed = list_ex (\<lambda>r. r) results
      in if \<not> failed then (results, foldl (script_consume api) s qs) else (results, s))"

section \<open>The rate limiter\<close>

datatype 'e rate_limiting_error = RLE_Redis 'e | RLE_Panic

record redis_rate_limiter =
  max_limit :: "u64 option"

definition limiter_retry_after :: "redis_rate_limiter \<Rightarrow> instant \<Rightarrow> u64 \<Rightarrow> retry_after" where
  "limiter_retry_after lim now seconds =
     (case max_limit lim of
        Some m \<Rightarrow> retry_after_from_secs now (min seconds m)
      | None \<Rightarrow> retry_after_from_secs now seconds)"

text \<open>
  The loop over the quotas: it collects the quotas to track with their script arguments and
  the rate limits of reject-all quotas; \<open>None\<close> is the panic of a zero window.
\<close>

fun limiter_prepare ::
  "redis_rate_limiter \<Rightarrow> instant \<Rightarrow> unix_timestamp \<Rightarrow> item_scoping \<Rightarrow> nat \<Rightarrow> quota list \<Rightarrow>
   (redis_quota \<times> script_quota) list \<Rightarrow> rate_limits \<Rightarrow>
   ((redis_quota \<times> script_quota) list \<times> rate_limits) option" where
  "limiter_prepare lim now ts i quantity [] tracked limits = Some (tracked, limits)"
| "limiter_prepare lim now ts i quantity (q # qs) tracked limits =
     (if \<not> quota_matches q i then limiter_prepare lim now ts i quantity qs tracked limits
      else if quota_limit q = Some 0 then
        limiter_prepare lim now ts i quantity qs tracked
          (rate_limits_add limits
             (rate_limit_from_quota q (item_scope i) (limiter_retry_after lim now REJECT_ALL_SECS)))
      else
        (case redis_quota_new q i ts of
           Some rq \<Rightarrow>
             (case (redis_quota_key rq, redis_quota_expiry rq) of
                (Some key, Some expiry) \<Rightarrow>
                  limiter_prepare lim now ts i quantity qs
                    (tracked @
                       [(rq, \<lparr>sq_key = key, sq_refund_key = get_refunded_quota_key key,
                              sq_limit = redis_quota_limit rq,
                              sq_expiry = uint (expiry + GRACE),
                              sq_quantity = int quantity\<rparr>)])
                    limits
              | _ \<Rightarrow> None)
         | None \<Rightarrow> limiter_prepare lim now ts i quantity qs tracked limits))"

text \<open>The loop over the rejections; \<open>None\<close> is again the panic of \<open>expiry\<close>.\<close>

fun limiter_apply ::
  "redis_rate_limiter \<Rightarrow> instant \<Rightarrow> unix_timestamp \<Rightarrow> item_scoping \<Rightarrow>
   (redis_quota \<times> bool) list \<Rightarrow> rate_limits \<Rightarrow> rate_limits option" where
  "limiter_apply lim now ts i [] limits = Some limits"
| "limiter_apply lim now ts i ((rq, rejected) # rs) limits =
     (if rejected then
        (case redis_quota_expiry rq of
           None \<Rightarrow> None
         | Some expiry \<Rightarrow>
             limiter_apply lim now ts i rs
               (rate_limits_add limits
                  (rate_limit_from_quota (rq_quota rq) (item_scope i)
                     (limiter_retry_after lim now
                        (word_of_nat (duration_as_secs (unix_sub expiry ts)))))))
      else limiter_apply lim now ts i rs limits)"

text \<open>
  \<open>client\<close> is the outcome of taking a connection from the pool, \<open>invoke\<close> the script
  invocation on the server.
\<close>

definition is_rate_limited ::
  "redis_rate_limiter \<Rightarrow> instant \<Rightarrow> unix_timestamp \<Rightarrow> ('e + unit) \<Rightarrow>
   ('s \<Rightarrow> script_quota list \<Rightarrow> ('e + bool list) \<times> 's) \<Rightarrow>
   quota list \<Rightarrow> 's \<Rightarrow> item_scoping \<Rightarrow> nat \<Rightarrow> ('e rate_limiting_error + rate_limits) \<times> 's" where
  "is_rate_limited lim now ts client invoke quotas s i quantity =
     (case limiter_prepare lim now ts i quantity quotas [] rate_limits_new of
        None \<Rightarrow> (Inl RLE_Panic, s)
      | Some (tracked, limits) \<Rightarrow>
          if tracked = [] \<or> is_limited now limits then (Inr limits, s)
          else
            (case client of
               Inl e \<Rightarrow> (Inl (RLE_Redis e), s)
             | Inr _ \<Rightarrow>
                 (case invoke s (map snd tracked) of
                    (Inl e, s') \<Rightarrow> (Inl (RLE_Redis e), s')
                  | (Inr rejections, s') \<Rightarrow>
                      (case limiter_apply lim now ts i (zip (map fst tracked) rejections) limits of
                         None \<Rightarrow> (Inl RLE_Panic, s')
                       | Some limits' \<Rightarrow> (Inr limits', s')))))"

section \<open>Windows\<close>

lemma redis_quota_shift_Some:
  "rq_window rq \<noteq> 0 \<Longrightarrow>
   redis_quota_shift rq = Some (organization_id (item_scope (rq_scoping rq)) mod rq_window rq)"
  by (simp add: redis_quota_shift_def)

lemma redis_quota_expiry_None: "redis_quota_expiry rq = None \<longleftrightarrow> rq_window rq = 0"
  by (auto simp: redis_quota_expiry_def redis_quota_slot_def redis_quota_shift_def)

lemma redis_quota_key_None: "redis_quota_key rq = None \<longleftrightarrow> rq_window rq = 0"
  by (auto simp: redis_quota_key_def redis_quota_slot_def redis_quota_shift_def)

text \<open>Without wrap-around the window ends after the timestamp, at most one window later.\<close>

lemma next_slot_bounds:
  fixes t w h :: nat
  assumes "0 < w" and "h \<le> t"
  shows "t < ((t - h) div w + 1) * w + h" and "((t - h) div w + 1) * w + h \<le> t + w"
proof -
  define q where "q = (t - h) div w * w"
  have "t - h = q + (t - h) mod w" unfolding q_def by (rule div_mult_mod_eq [symmetric])
  moreover have "(t - h) mod w < w" using assms(1) by simp
  moreover have "((t - h) div w + 1) * w = q + w" by (simp add: q_def)
  ultimately show "t < ((t - h) div w + 1) * w + h" and "((t - h) div w + 1) * w + h \<le> t + w"
    using assms(2) by linarith+
qed

lemma redis_quota_expiry_unat:
  fixes rq :: redis_quota
  defines "t \<equiv> unat (rq_timestamp rq)" and "w \<equiv> unat (rq_window rq)"
    and "h \<equiv> unat (organization_id (item_scope (rq_scoping rq))) mod unat (rq_window rq)"
  assumes w: "rq_window rq \<noteq> 0" and h: "h \<le> t" and fits: "t + w < 2 ^ 64"
  shows "\<exists>e. redis_quota_expiry rq = Some e \<and> unat e = ((t - h) div w + 1) * w + h"
proof -
  have w0: "0 < w" using w by (simp add: w_def unat_gt_0)
  define shift where "shift = organization_id (item_scope (rq_scoping rq)) mod rq_window rq"
  have shift: "unat shift = h" by (simp add: shift_def h_def unat_mod_distrib)
  define slot where "slot = (rq_timestamp rq - shift) div rq_window rq"
  have "shift \<le> rq_timestamp rq" using h shift by (simp add: word_le_nat_alt t_def)
  then have slot: "unat slot = (t - h) div w"
    by (simp add: slot_def unat_div_distrib unat_sub shift t_def w_def)
  have e: "redis_quota_expiry rq = Some ((slot + 1) * rq_window rq + shift)"
    using w by (simp add: redis_quota_expiry_def redis_quota_slot_def redis_quota_shift_def
        slot_def shift_def)
  have le: "((t - h) div w + 1) * w + h \<le> t + w"
    using next_slot_bounds(2) [OF w0 h] .
  have s1: "unat (slot + 1) = (t - h) div w + 1"
  proof -
    have "((t - h) div w + 1) * 1 \<le> ((t - h) div w + 1) * w" using w0 by (intro mult_le_mono) auto
    with le fits show ?thesis by (simp add: unat_word_ariths slot)
  qed
  have "unat ((slot + 1) * rq_window rq) = ((t - h) div w + 1) * w"
    using le fits by (simp add: unat_word_ariths(2) s1 w_def [symmetric])
  then have "unat ((slot + 1) * rq_window rq + shift) = ((t - h) div w + 1) * w + h"
    using le fits by (simp add: unat_word_ariths(1) shift)
  with e show ?thesis by blast
qed

section \<open>Counter keys\<close>

lemma show_u64_no_sep:
  "a \<in> set (show_u64 n) \<Longrightarrow> a \<noteq> CHR ''{'' \<and> a \<noteq> CHR ''}'' \<and> a \<noteq> CHR '':''"
  using show_nat_digits [of a "unat n"] by (auto simp: show_u64_def is_digit_def)

lemma optional_display_no_sep:
  "a \<in> set (optional_display v) \<Longrightarrow> a \<noteq> CHR ''{'' \<and> a \<noteq> CHR ''}'' \<and> a \<noteq> CHR '':''"
  using show_u64_no_sep by (cases v) (auto simp: optional_display_def)

lemma show_u64_inject: "show_u64 m = show_u64 n \<longleftrightarrow> m = n"
  using parse_u64_show by (metis option.inject)

lemma show_u64_not_Nil: "show_u64 n \<noteq> []"
  by (simp add: show_u64_def)

lemma optional_display_inject: "optional_display a = optional_display b \<longleftrightarrow> a = b"
  by (cases a; cases b) (auto simp: optional_display_def show_u64_inject show_u64_not_Nil
      show_u64_not_Nil [symmetric])

lemma append_sep_inject:
  assumes "c \<notin> set xs" and "c \<notin> set ys"
  shows "xs @ c # us = ys @ c # vs \<longleftrightarrow> xs = ys \<and> us = vs"
proof
  assume eq: "xs @ c # us = ys @ c # vs"
  then have "takeWhile (\<lambda>a. a \<noteq> c) (xs @ c # us) = takeWhile (\<lambda>a. a \<noteq> c) (ys @ c # vs)" by simp
  moreover have "takeWhile (\<lambda>a. a \<noteq> c) (xs @ c # us) = xs"
    using assms(1) by (induction xs) auto
  moreover have "takeWhile (\<lambda>a. a \<noteq> c) (ys @ c # vs) = ys"
    using assms(2) by (induction ys) auto
  ultimately show "xs = ys \<and> us = vs" using eq by simp
qed simp

section \<open>The script\<close>

lemma script_consume_get:
  assumes "redis_laws api server_now" and "server_now < sq_expiry q"
  shows "redis_count api (script_consume api s q) k
           = redis_count api s k + (if k = sq_key q then sq_quantity q else 0)"
  using assms by (simp add: redis_laws_def script_consume_def redis_count_def split: option.splits)

lemma script_consume_all:
  assumes "redis_laws api server_now" and "\<forall>q \<in> set qs. server_now < sq_expiry q"
  shows "redis_count api (foldl (script_consume api) s qs) k
           = redis_count api s k + sum_list (map sq_quantity (filter (\<lambda>q. sq_key q = k) qs))"
  using assms(2)
  by (induction qs arbitrary: s) (auto simp: script_consume_get [OF assms(1)])

lemma sum_filter_distinct_key:
  assumes "distinct (map sq_key qs)" and "q \<in> set qs"
  shows "sum_list (map sq_quantity (filter (\<lambda>p. sq_key p = sq_key q) qs)) = sq_quantity q"
  using assms
proof (induction qs)
  case (Cons a qs)
  show ?case
  proof (cases "a = q")
    case True
    with Cons.prems have "\<forall>p \<in> set qs. sq_key p \<noteq> sq_key q" by (auto simp: image_iff)
    then have "filter (\<lambda>p. sq_key p = sq_key q) qs = []" by (simp add: filter_empty_conv)
    with True show ?thesis by simp
  next
    case False
    with Cons show ?thesis by (auto simp: image_iff)
  qed
qed simp

lemma script_results: "fst (is_rate_limited_script api s qs) = map (script_rejected api s) qs"
  by (simp add: is_rate_limited_script_def Let_def)

lemma script_accepts:
  "\<forall>q \<in> set qs. \<not> script_rejected api s q \<Longrightarrow>
   snd (is_rate_limited_script api s qs) = foldl (script_consume api) s qs"
  by (auto simp: is_rate_limited_script_def Let_def list_ex_iff)

lemma script_rejects:
  "q \<in> set qs \<Longrightarrow> script_rejected api s q \<Longrightarrow> snd (is_rate_limited_script api s qs) = s"
  by (auto simp: is_rate_limited_script_def Let_def list_ex_iff)

section \<open>The limiter\<close>

lemma redis_quota_new_quota: "redis_quota_new q i ts = Some rq \<Longrightarrow> rq_quota rq = q"
  by (auto simp: redis_quota_new_def split: option.splits)

definition tracked_match :: "item_scoping \<Rightarrow> (redis_quota \<times> 'b) list \<Rightarrow> bool" where
  "tracked_match i tracked \<longleftrightarrow> (\<forall>p \<in> set tracked. quota_matches (rq_quota (fst p)) i)"

lemma limiter_prepare_limits:
  assumes "limiter_prepare lim now ts i quantity quotas tracked limits = Some (tracked', limits')"
    and "all_match i limits" and "tracked_match i tracked"
  shows "all_match i limits' \<and> tracked_match i tracked'"
  using assms
proof (induction quotas arbitrary: tracked limits)
  case (Cons q qs)
  consider (skip) "\<not> quota_matches q i" | (zero) "quota_matches q i" "quota_limit q = Some 0"
    | (none) "quota_matches q i" "quota_limit q \<noteq> Some 0" "redis_quota_new q i ts = None"
    | (track) rq where "quota_matches q i" "quota_limit q \<noteq> Some 0" "redis_quota_new q i ts = Some rq"
    by (cases "redis_quota_new q i ts") auto
  then show ?case
  proof cases
    case skip
    with Cons show ?thesis by simp
  next
    case zero
    with Cons.prems show ?thesis
      by (intro Cons.IH [of tracked "rate_limits_add limits _"]) (auto intro: all_match_add rate_limit_from_quota_matches)
  next
    case none
    with Cons show ?thesis by simp
  next
    case track
    with Cons.prems(1) obtain key expiry where
      k: "redis_quota_key rq = Some key" "redis_quota_expiry rq = Some expiry"
      by (auto split: option.splits)
    have "tracked_match i (tracked @ [(rq, sq)])" for sq
      using Cons.prems(3) track redis_quota_new_quota [OF track(3)] by (simp add: tracked_match_def)
    with track k Cons.prems show ?thesis
      by (intro Cons.IH [of "tracked @ _" limits]) auto
  qed
qed simp

lemma limiter_apply_all_match:
  assumes "limiter_apply lim now ts i rs limits = Some limits'"
    and "all_match i limits" and "tracked_match i rs"
  shows "all_match i limits'"
  using assms
  by (induction lim now ts i rs limits rule: limiter_apply.induct)
    (auto simp: tracked_match_def split: if_splits option.splits
      intro: all_match_add rate_limit_from_quota_matches)

lemma tracked_match_zip: "tracked_match i tracked \<Longrightarrow> tracked_match i (zip (map fst tracked) rs)"
  unfolding tracked_match_def by (auto dest!: set_zip_leftD)

lemma is_rate_limited_all_match:
  assumes "is_rate_limited lim now ts client invoke quotas s i quantity = (Inr limits, s')"
  shows "all_match i limits"
proof (cases "limiter_prepare lim now ts i quantity quotas [] rate_limits_new")
  case (Some p)
  obtain tracked prepared where p: "p = (tracked, prepared)" by (cases p)
  have m: "all_match i prepared" "tracked_match i tracked"
    using limiter_prepare_limits [OF Some [unfolded p]] by (simp_all add: tracked_match_def)
  show ?thesis
    using assms m limiter_apply_all_match [OF _ m(1) tracked_match_zip [OF m(2)]]
    by (auto simp: is_rate_limited_def Some p split: if_splits sum.splits prod.splits option.splits)
qed (use assms in \<open>simp add: is_rate_limited_def\<close>)

lemma limiter_prepare_inv:
  "limiter_prepare lim now ts i quantity quotas tracked limits = Some (tracked', limits') \<Longrightarrow>
   rate_limits_inv limits \<Longrightarrow> rate_limits_inv limits'"
  by (induction lim now ts i quantity quotas tracked limits rule: limiter_prepare.induct)
    (auto split: if_splits option.splits intro: add_inv)

lemma limiter_apply_inv:
  "limiter_apply lim now ts i rs limits = Some limits' \<Longrightarrow>
   rate_limits_inv limits \<Longrightarrow> rate_limits_inv limits'"
  by (induction lim now ts i rs limits rule: limiter_apply.induct)
    (auto split: if_splits option.splits intro: add_inv)

lemma is_rate_limited_inv:
  assumes "is_rate_limited lim now ts client invoke quotas s i quantity = (Inr limits, s')"
  shows "rate_limits_inv limits"
proof (cases "limiter_prepare lim now ts i quantity quotas [] rate_limits_new")
  case (Some p)
  obtain tracked prepared where p: "p = (tracked, prepared)" by (cases p)
  have m: "rate_limits_inv prepared"
    using limiter_prepare_inv [OF Some [unfolded p]] by simp
  show ?thesis
    using assms m limiter_apply_inv [OF _ m]
    by (auto simp: is_rate_limited_def Some p split: if_splits sum.splits prod.splits option.splits)
qed (use assms in \<open>simp add: is_rate_limited_def\<close>)

lemma limiter_prepare_tracked:
  assumes "limiter_prepare lim now ts i quantity quotas tracked limits = Some (tracked', limits')"
    and "\<forall>p \<in> set tracked. redis_quota_expiry (fst p) \<noteq> None"
  shows "\<forall>p \<in> set tracked'. redis_quota_expiry (fst p) \<noteq> None"
  using assms
proof (induction lim now ts i quantity quotas tracked limits rule: limiter_prepare.induct)
  case (2 lim now ts i quantity q qs tracked limits)
  show ?case
    using "2.prems" "2.IH"
    by (auto split: if_splits option.splits) 
qed simp

definition rejection_limit ::
  "redis_rate_limiter \<Rightarrow> instant \<Rightarrow> unix_timestamp \<Rightarrow> item_scoping \<Rightarrow> redis_quota \<Rightarrow> rate_limit" where
  "rejection_limit lim now ts i rq =
     rate_limit_from_quota (rq_quota rq) (item_scope i)
       (limiter_retry_after lim now
          (word_of_nat (duration_as_secs (unix_sub (the (redis_quota_expiry rq)) ts))))"

lemma limiter_apply_total:
  assumes "\<forall>p \<in> set rs. redis_quota_expiry (fst p) \<noteq> None"
  shows "limiter_apply lim now ts i rs limits =
           Some (rate_limits_merge limits (map (rejection_limit lim now ts i) (map fst (filter snd rs))))"
  using assms
  by (induction lim now ts i rs limits rule: limiter_apply.induct)
    (auto simp: rate_limits_merge_def rejection_limit_def)

lemma not_limited_new: "\<not> is_limited now rate_limits_new"
  by (simp add: rate_limits_new_def)

lemma zip_map_filter: "map fst (filter snd (zip (map f xs) (map P xs))) = map f (filter P xs)"
  by (induction xs) auto

text \<open>An invocation that reaches the server runs the script.\<close>

definition script_invoke ::
  "'s redis_api \<Rightarrow> 's \<Rightarrow> script_quota list \<Rightarrow> ('e + bool list) \<times> 's" where
  "script_invoke api s qs = (case is_rate_limited_script api s qs of (r, s') \<Rightarrow> (Inr r, s'))"

section \<open>Properties\<close>

text \<open>Without wrap-around of the 64-bit arithmetic, the rate limiting window of a quota ends
  strictly after the ingestion timestamp and at most one window length later.\<close>

lemma redis_quota_expiry_in_window:
  fixes rq :: redis_quota
  assumes "rq_window rq \<noteq> 0"
    and "unat (organization_id (item_scope (rq_scoping rq))) mod unat (rq_window rq)
           \<le> unat (rq_timestamp rq)"
    and "unat (rq_timestamp rq) + unat (rq_window rq) < 2 ^ 64"
  shows "\<exists>e. redis_quota_expiry rq = Some e \<and> unat (rq_timestamp rq) < unat e \<and>
             unat e \<le> unat (rq_timestamp rq) + unat (rq_window rq)"
proof -
  have w0: "0 < unat (rq_window rq)" using assms(1) by (simp add: unat_gt_0)
  obtain e where "redis_quota_expiry rq = Some e"
    and "unat e = ((unat (rq_timestamp rq) - unat (organization_id (item_scope (rq_scoping rq)))
           mod unat (rq_window rq)) div unat (rq_window rq) + 1) * unat (rq_window rq)
         + unat (organization_id (item_scope (rq_scoping rq))) mod unat (rq_window rq)"
    using redis_quota_expiry_unat [OF assms] by blast
  then show ?thesis using next_slot_bounds [OF w0 assms(2)] by auto
qed

definition example_scoping :: scoping where
  "example_scoping =
     \<lparr>organization_id = 42, project_id = 43,
      project_key = ProjectKey ''a94ae32be2584e0bbd7a4cbb95971fee'', key_id = Some 44\<rparr>"

definition example_quota :: "u32 option \<Rightarrow> u64 option \<Rightarrow> quota" where
  "example_quota l w =
     \<lparr>quota_id = Some ''o'', quota_categories = [], quota_scope_of = QS_Organization,
      quota_scope_id = None, quota_limit = l, quota_window = w, quota_reason_code = None\<rparr>"

definition example_redis_quota :: redis_quota where
  "example_redis_quota =
     \<lparr>rq_quota = example_quota (Some 5) (Some 60),
      rq_scoping = scoping_item example_scoping DC_Error, rq_prefix = ''o'', rq_window = 60,
      rq_timestamp = 1000\<rparr>"

text \<open>The Lua script is all or nothing and never lets usage pass a limit. When every counter
  has a key of its own and the refund keys are not counter keys, then after any invocation
  either some quota was reported rejected and no counter changed, or none was, every
  counter grew by exactly its quantity, and the usage (counter minus refunds) of every
  limited quota is within its limit.\<close>

lemma script_all_or_nothing:
  assumes laws: "redis_laws api server_now"
    and future: "\<forall>q \<in> set qs. server_now < sq_expiry q"
    and keys: "distinct (map sq_key qs)"
    and refunds: "\<forall>q \<in> set qs. sq_refund_key q \<notin> sq_key ` set qs"
    and run: "is_rate_limited_script api s qs = (results, s')"
  shows "if True \<in> set results then s' = s
         else \<forall>q \<in> set qs.
           redis_count api s' (sq_key q) = redis_count api s (sq_key q) + sq_quantity q \<and>
           (0 \<le> sq_limit q \<longrightarrow>
              redis_count api s' (sq_key q) - redis_count api s' (sq_refund_key q) \<le> sq_limit q)"
proof (cases "True \<in> set results")
  case True
  then obtain q where "q \<in> set qs" "script_rejected api s q"
    using run script_results [of api s qs] by auto
  then show ?thesis using True run script_rejects [of q qs api s] by simp
next
  case False
  then have acc: "\<forall>q \<in> set qs. \<not> script_rejected api s q"
    using run script_results [of api s qs] by force
  have s': "s' = foldl (script_consume api) s qs" using run script_accepts [OF acc] by simp
  have cnt: "redis_count api s' (sq_key q) = redis_count api s (sq_key q) + sq_quantity q"
    if "q \<in> set qs" for q
    using that by (simp add: s' script_consume_all [OF laws future] sum_filter_distinct_key [OF keys])
  have ref: "redis_count api s' (sq_refund_key q) = redis_count api s (sq_refund_key q)"
    if "q \<in> set qs" for q
  proof -
    have "\<forall>p \<in> set qs. sq_key p \<noteq> sq_refund_key q" using refunds that by force
    then have "filter (\<lambda>p. sq_key p = sq_refund_key q) qs = []" by (simp add: filter_empty_conv)
    then show ?thesis by (simp add: s' script_consume_all [OF laws future])
  qed
  show ?thesis
    using False acc cnt ref by (auto simp: script_rejected_def)
qed

definition example_api :: "(string \<Rightarrow> int option) redis_api" where
  "example_api =
     \<lparr>redis_get = (\<lambda>s k. s k),
      redis_incrby = (\<lambda>s k n. s(k \<mapsto> (case s k of Some v \<Rightarrow> v | None \<Rightarrow> 0) + n)),
      redis_expireat = (\<lambda>s k t. s)\<rparr>"

definition example_script_quota :: script_quota where
  "example_script_quota =
     \<lparr>sq_key = ''k'', sq_refund_key = ''r:k'', sq_limit = 5, sq_expiry = 100, sq_quantity = 2\<rparr>"

lemma example_api_laws: "redis_laws example_api 0"
  by (simp add: redis_laws_def example_api_def)

text \<open>C10: the rate limiter end to end. When the quotas are prepared without a panic, none of
  them is a reject-all quota in effect and at least one is tracked, then a request that
  reaches the server either is rejected, leaves the store untouched and reports one merged
  limit per rejected quota, or is accepted with no limit after every tracked quota has been
  consumed.\<close>

theorem is_rate_limited_end_to_end:
  assumes prep: "limiter_prepare lim now ts i quantity quotas [] rate_limits_new
                   = Some (tracked, rate_limits_new)"
    and tracked: "tracked \<noteq> []"
  shows "is_rate_limited lim now ts (Inr ()) (script_invoke api) quotas s i quantity =
           (let rejected = filter (\<lambda>p. script_rejected api s (snd p)) tracked in
            if rejected = []
            then (Inr rate_limits_new, foldl (script_consume api) s (map snd tracked))
            else (Inr (rate_limits_merge rate_limits_new
                         (map (rejection_limit lim now ts i) (map fst rejected))), s))"
proof -
  define P where "P = (\<lambda>p :: redis_quota \<times> script_quota. script_rejected api s (snd p))"
  have some: "\<forall>p \<in> set tracked. redis_quota_expiry (fst p) \<noteq> None"
    using limiter_prepare_tracked [OF prep] by simp
  have res: "map (script_rejected api s) (map snd tracked) = map P tracked"
    by (simp add: P_def)
  have zipped: "\<forall>p \<in> set (zip (map fst tracked) (map P tracked)). redis_quota_expiry (fst p) \<noteq> None"
    using some by (auto dest!: set_zip_leftD)
  have app: "limiter_apply lim now ts i (zip (map fst tracked) (map P tracked)) rate_limits_new
      = Some (rate_limits_merge rate_limits_new
          (map (rejection_limit lim now ts i) (map fst (filter P tracked))))"
    by (simp add: limiter_apply_total [OF zipped] zip_map_filter)
  have fail: "list_ex (\<lambda>r. r) (map P tracked) \<longleftrightarrow> filter P tracked \<noteq> []"
    by (auto simp: list_ex_iff filter_empty_conv)
  show ?thesis
    using tracked app fail
    by (auto simp: is_rate_limited_def prep script_invoke_def is_rate_limited_script_def Let_def
        res P_def [symmetric] rate_limits_merge_def not_limited_new simp del: map_map)
qed

theorem is_rate_limited_end_to_end_witness:
  "fst (is_rate_limited \<lparr>max_limit = None\<rparr> 0 1000 (Inr ()) (script_invoke example_api)
          [example_quota (Some 5) (Some 60)] Map.empty (scoping_item example_scoping DC_Error) 6)
     \<noteq> (Inr [] :: string rate_limiting_error + rate_limits)"
proof -
  let ?i = "scoping_item example_scoping DC_Error"
  obtain k where k: "redis_quota_key example_redis_quota = Some k"
    using redis_quota_key_None [of example_redis_quota] by (auto simp: example_redis_quota_def)
  obtain e where e: "redis_quota_expiry example_redis_quota = Some e"
    using redis_quota_expiry_None [of example_redis_quota] by (auto simp: example_redis_quota_def)
  have new: "redis_quota_new (example_quota (Some 5) (Some 60)) ?i 1000 = Some example_redis_quota"
    by (simp add: redis_quota_new_def example_quota_def example_redis_quota_def)
  have q: "quota_matches (example_quota (Some 5) (Some 60)) ?i"
    "quota_limit (example_quota (Some 5) (Some 60)) = Some 5"
    by (simp_all add: quota_matches_def quota_matches_scope_def example_quota_def
        matches_categories_def)
  define tr where "tr = [(example_redis_quota,
      \<lparr>sq_key = k, sq_refund_key = get_refunded_quota_key k, sq_limit = 5,
       sq_expiry = uint (e + GRACE), sq_quantity = 6\<rparr>)]"
  have lim: "redis_quota_limit example_redis_quota = 5"
    by (simp add: redis_quota_limit_def example_redis_quota_def example_quota_def)
  have prep: "limiter_prepare \<lparr>max_limit = None\<rparr> 0 1000 ?i 6 [example_quota (Some 5) (Some 60)]
      [] rate_limits_new = Some (tr, rate_limits_new)"
    by (simp add: q new k e lim tr_def)
  have rej: "filter (\<lambda>p. script_rejected example_api Map.empty (snd p)) tr = tr"
    by (simp add: tr_def script_rejected_def redis_count_def example_api_def)
  show ?thesis
    using is_rate_limited_end_to_end [OF prep, of example_api Map.empty, where ?'a = string] rej
      merge_not_Nil [of rate_limits_new "[rejection_limit \<lparr>max_limit = None\<rparr> 0 1000 ?i example_redis_quota]"]
    by (simp add: tr_def Let_def split: if_splits)
qed

text \<open>Counters of different windows, organizations or sub-scopes never share a Redis key, as
  long as quota identifiers do not contain an opening brace.\<close>

lemma redis_quota_key_injective:
  assumes "redis_quota_key a = Some k" and "redis_quota_key b = Some k"
    and "CHR ''{'' \<notin> set (rq_prefix a)" and "CHR ''{'' \<notin> set (rq_prefix b)"
  shows "rq_prefix a = rq_prefix b \<and>
         organization_id (item_scope (rq_scoping a)) = organization_id (item_scope (rq_scoping b)) \<and>
         redis_quota_subscope a = redis_quota_subscope b \<and>
         redis_quota_slot a = redis_quota_slot b"
proof -
  obtain sa where sa: "redis_quota_slot a = Some sa"
    using assms(1) by (auto simp: redis_quota_key_def split: option.splits)
  obtain sb where sb: "redis_quota_slot b = Some sb"
    using assms(2) by (auto simp: redis_quota_key_def split: option.splits)
  have "rq_prefix a @ CHR ''{'' # show_u64 (organization_id (item_scope (rq_scoping a))) @
          CHR ''}'' # optional_display (redis_quota_subscope a) @ CHR '':'' # show_u64 sa
      = rq_prefix b @ CHR ''{'' # show_u64 (organization_id (item_scope (rq_scoping b))) @
          CHR ''}'' # optional_display (redis_quota_subscope b) @ CHR '':'' # show_u64 sb"
    using trans [OF assms(1) assms(2) [symmetric]] by (simp add: redis_quota_key_def sa sb)
  moreover have "c \<notin> set (show_u64 n)" "c \<notin> set (optional_display v)"
    if "c \<in> {CHR ''{'', CHR ''}'', CHR '':''}" for c n v
    using that show_u64_no_sep optional_display_no_sep by blast+
  ultimately show ?thesis
    using assms(3,4) sa sb
    by (simp add: append_sep_inject show_u64_inject optional_display_inject)
qed

text \<open>A matching quota with a zero window that is not a reject-all quota makes the rate
  limiter panic on the remainder by zero, whatever else is configured after it.\<close>

lemma zero_window_panics:
  assumes "quota_matches q i" and "quota_limit q \<noteq> Some 0" and "quota_id q \<noteq> None"
    and "quota_window q = Some 0"
  shows "is_rate_limited lim now ts client invoke (q # quotas) s i quantity = (Inl RLE_Panic, s)"
proof -
  obtain rq where rq: "redis_quota_new q i ts = Some rq" "rq_window rq = 0"
    using assms(3,4) by (auto simp: redis_quota_new_def)
  then have "redis_quota_key rq = None" by (simp add: redis_quota_key_None)
  with rq assms(1,2) show ?thesis by (simp add: is_rate_limited_def)
qed

end
