(* ===== verification/Event_Filters.thy ===== *)
theory Event_Filters
  imports Relay_Common
begin

text \<open>
  Event filtering (crate \<open>relay-filter\<close> and \<open>relay-general/src/user_agent.rs\<close>): the eight
  filters, their configuration and the composed \<open>should_filter\<close>. The event is a record of
  the fields the filters and the sampling rules read; an \<open>Annotated\<close> value is an option.
  Third-party engines (regular expressions, globs, URL and IP network parsing, user agent
  parsing) and Unicode lower casing are fields of the record \<open>filter_ext\<close>.
\<close>

section \<open>Events\<close>

record frame =
  fr_abs_path :: "string option"

record exception =
  ex_ty :: "string option"
  ex_value :: "string option"
  ex_stacktrace :: "frame option list option option"

record log_entry =
  le_message :: "string option"
  le_formatted :: "string option"

record user =
  us_id :: "string option"
  us_segment :: "string option"
  us_ip_address :: "string option"

type_synonym header = "(string option \<times> string option) option"

record request =
  rq_url :: "string option"
  rq_headers :: "header list option"

record csp =
  csp_blocked_uri :: "string option"
  csp_source_file :: "string option"

record event =
  ev_id :: "128 word option"
  ev_ty :: "event_type option"
  ev_logentry :: "log_entry option"
  ev_release :: "string option"
  ev_environment :: "string option"
  ev_user :: "user option"
  ev_request :: "request option"
  ev_exceptions :: "exception option list option option"
  ev_csp :: "csp option"

record user_agent =
  ua_family :: string
  ua_major :: "string option"

section \<open>Third-party code\<close>

record 'ip filter_ext =
  fx_network :: "string \<Rightarrow> ('ip \<Rightarrow> bool) option"
  fx_url_host :: "string \<Rightarrow> string option option"
  fx_regex :: "string \<Rightarrow> string \<Rightarrow> bool"
  fx_glob :: "string \<Rightarrow> (string \<Rightarrow> bool) option"
  fx_parse_user_agent :: "string \<Rightarrow> user_agent"
  fx_to_lowercase :: "string \<Rightarrow> string"

section \<open>Filter reasons and glob patterns\<close>

datatype filter_stat_key =
    FSK_IpAddress | FSK_ReleaseVersion | FSK_ErrorMessage | FSK_BrowserExtensions
  | FSK_LegacyBrowsers | FSK_Localhost | FSK_WebCrawlers | FSK_InvalidCsp

fun filter_stat_key_name :: "filter_stat_key \<Rightarrow> string" where
  "filter_stat_key_name FSK_IpAddress = ''ip-address''"
| "filter_stat_key_name FSK_ReleaseVersion = ''release-version''"
| "filter_stat_key_name FSK_ErrorMessage = ''error-message''"
| "filter_stat_key_name FSK_BrowserExtensions = ''browser-extensions''"
| "filter_stat_key_name FSK_LegacyBrowsers = ''legacy-browsers''"
| "filter_stat_key_name FSK_Localhost = ''localhost''"
| "filter_stat_key_name FSK_WebCrawlers = ''web-crawlers''"
| "filter_stat_key_name FSK_InvalidCsp = ''invalid-csp''"

type_synonym glob_patterns = "string list"

definition parse_globs :: "'ip filter_ext \<Rightarrow> glob_patterns \<Rightarrow> (string \<Rightarrow> bool) list" where
  "parse_globs fx patterns = List.map_filter (fx_glob fx) patterns"

definition globs_is_match :: "'ip filter_ext \<Rightarrow> glob_patterns \<Rightarrow> string \<Rightarrow> bool" where
  "globs_is_match fx patterns message =
     (if message = [] then False else list_ex (\<lambda>regex. regex message) (parse_globs fx patterns))"

section \<open>Configuration\<close>

record filter_config =
  fc_is_enabled :: bool

datatype legacy_browser =
    LB_Default | LB_IePre9 | LB_Ie9 | LB_Ie10 | LB_Ie11 | LB_OperaPre15 | LB_OperaMiniPre8
  | LB_AndroidPre4 | LB_SafariPre6 | LB_Unknown string

definition legacy_browser_from_str :: "string \<Rightarrow> legacy_browser" where
  "legacy_browser_from_str s =
     (if s = ''default'' then LB_Default
      else if s = ''ie_pre_9'' then LB_IePre9
      else if s = ''ie9'' then LB_Ie9
      else if s = ''ie10'' then LB_Ie10
      else if s = ''ie11'' then LB_Ie11
      else if s = ''opera_pre_15'' then LB_OperaPre15
      else if s = ''opera_mini_pre_8'' then LB_OperaMiniPre8
      else if s = ''android_pre_4'' then LB_AndroidPre4
      else if s = ''safari_pre_6'' then LB_SafariPre6
      else LB_Unknown s)"

fun legacy_browser_serialize :: "legacy_browser \<Rightarrow> string" where
  "legacy_browser_serialize LB_Default = ''default''"
| "legacy_browser_serialize LB_IePre9 = ''ie_pre_9''"
| "legacy_browser_serialize LB_Ie9 = ''ie9''"
| "legacy_browser_serialize LB_Ie10 = ''ie10''"
| "legacy_browser_serialize LB_Ie11 = ''ie11''"
| "legacy_browser_serialize LB_OperaPre15 = ''opera_pre_15''"
| "legacy_browser_serialize LB_OperaMiniPre8 = ''opera_mini_pre_8''"
| "legacy_browser_serialize LB_AndroidPre4 = ''android_pre_4''"
| "legacy_browser_serialize LB_SafariPre6 = ''safari_pre_6''"
| "legacy_browser_serialize (LB_Unknown s) = s"

record legacy_browsers_filter_config =
  lbc_is_enabled :: bool
  lbc_browsers :: "legacy_browser set"

record filters_config =
  flt_browser_extensions :: filter_config
  flt_client_ips :: "string list"
  flt_web_crawlers :: filter_config
  flt_csp :: "string list"
  flt_error_messages :: glob_patterns
  flt_legacy_browsers :: legacy_browsers_filter_config
  flt_localhost :: filter_config
  flt_releases :: glob_patterns

definition filter_config_is_empty :: "filter_config \<Rightarrow> bool" where
  "filter_config_is_empty c \<longleftrightarrow> \<not> fc_is_enabled c"

definition legacy_config_is_empty :: "legacy_browsers_filter_config \<Rightarrow> bool" where
  "legacy_config_is_empty c \<longleftrightarrow> \<not> lbc_is_enabled c \<and> lbc_browsers c = {}"

definition filters_config_is_empty :: "filters_config \<Rightarrow> bool" where
  "filters_config_is_empty c \<longleftrightarrow>
     filter_config_is_empty (flt_browser_extensions c) \<and> flt_client_ips c = [] \<and>
     filter_config_is_empty (flt_web_crawlers c) \<and> flt_csp c = [] \<and> flt_error_messages c = [] \<and>
     legacy_config_is_empty (flt_legacy_browsers c) \<and> filter_config_is_empty (flt_localhost c) \<and>
     flt_releases c = []"

section \<open>Client IPs and releases\<close>

definition client_ips_matches :: "'ip filter_ext \<Rightarrow> 'ip option \<Rightarrow> string list \<Rightarrow> bool" where
  "client_ips_matches fx client_ip blacklisted_ips =
     (case client_ip of
        None \<Rightarrow> False
      | Some ip \<Rightarrow>
          list_ex (\<lambda>s. case fx_network fx s of Some contains \<Rightarrow> contains ip | None \<Rightarrow> False) blacklisted_ips)"

definition client_ips_should_filter ::
  "'ip filter_ext \<Rightarrow> 'ip option \<Rightarrow> string list \<Rightarrow> filter_stat_key + unit" where
  "client_ips_should_filter fx client_ip ips =
     (if client_ips_matches fx client_ip ips then Inl FSK_IpAddress else Inr ())"

definition releases_should_filter ::
  "'ip filter_ext \<Rightarrow> event \<Rightarrow> glob_patterns \<Rightarrow> filter_stat_key + unit" where
  "releases_should_filter fx e releases =
     (case ev_release e of
        Some release \<Rightarrow> if globs_is_match fx releases release then Inl FSK_ReleaseVersion else Inr ()
      | None \<Rightarrow> Inr ())"

section \<open>Localhost\<close>

definition LOCAL_IPS :: "string list" where
  "LOCAL_IPS = [''127.0.0.1'', ''::1'']"

definition LOCAL_DOMAINS :: "string list" where
  "LOCAL_DOMAINS = [''127.0.0.1'', ''localhost'']"

definition localhost_get_ip_addr :: "event \<Rightarrow> string option" where
  "localhost_get_ip_addr e = Option.bind (ev_user e) us_ip_address"

definition localhost_get_url :: "'ip filter_ext \<Rightarrow> event \<Rightarrow> string option option" where
  "localhost_get_url fx e =
     Option.bind (Option.bind (ev_request e) rq_url) (fx_url_host fx)"

definition localhost_matches :: "'ip filter_ext \<Rightarrow> event \<Rightarrow> bool" where
  "localhost_matches fx e =
     (if (case localhost_get_ip_addr e of
            Some ip_addr \<Rightarrow> list_ex (\<lambda>local_ip. local_ip = ip_addr) LOCAL_IPS
          | None \<Rightarrow> False)
      then True
      else (case localhost_get_url fx e of
              Some (Some host) \<Rightarrow> list_ex (\<lambda>local_domain. host = local_domain) LOCAL_DOMAINS
            | _ \<Rightarrow> False))"

definition localhost_should_filter ::
  "'ip filter_ext \<Rightarrow> event \<Rightarrow> filter_config \<Rightarrow> filter_stat_key + unit" where
  "localhost_should_filter fx e c =
     (if \<not> fc_is_enabled c then Inr ()
      else if localhost_matches fx e then Inl FSK_Localhost else Inr ())"

section \<open>Error messages\<close>

definition exception_message :: "exception \<Rightarrow> string" where
  "exception_message ex =
     (let ty = (case ex_ty ex of Some t \<Rightarrow> t | None \<Rightarrow> []);
          v = (case ex_value ex of Some v \<Rightarrow> v | None \<Rightarrow> [])
      in if ty = [] then v else if v = [] then ty else ty @ '': '' @ v)"

definition error_messages_matches :: "'ip filter_ext \<Rightarrow> event \<Rightarrow> glob_patterns \<Rightarrow> bool" where
  "error_messages_matches fx e patterns =
     (if (case ev_logentry e of
            Some logentry \<Rightarrow>
              (case le_formatted logentry of
                 Some message \<Rightarrow> globs_is_match fx patterns message
               | None \<Rightarrow>
                   (case le_message logentry of
                      Some message \<Rightarrow> globs_is_match fx patterns message
                    | None \<Rightarrow> False))
          | None \<Rightarrow> False)
      then True
      else (case ev_exceptions e of
              Some (Some exceptions) \<Rightarrow>
                list_ex (\<lambda>ex. case ex of
                    Some ex \<Rightarrow> globs_is_match fx patterns (exception_message ex)
                  | None \<Rightarrow> False) exceptions
            | _ \<Rightarrow> False))"

definition error_messages_should_filter ::
  "'ip filter_ext \<Rightarrow> event \<Rightarrow> glob_patterns \<Rightarrow> filter_stat_key + unit" where
  "error_messages_should_filter fx e patterns =
     (if error_messages_matches fx e patterns then Inl FSK_ErrorMessage else Inr ())"

section \<open>User agents and web crawlers\<close>

fun get_user_agent_from_headers :: "'ip filter_ext \<Rightarrow> header list \<Rightarrow> string option" where
  "get_user_agent_from_headers fx [] = None"
| "get_user_agent_from_headers fx (item # items) =
     (case item of
        Some (Some k, v) \<Rightarrow>
          if fx_to_lowercase fx k = ''user-agent'' then v else get_user_agent_from_headers fx items
      | _ \<Rightarrow> get_user_agent_from_headers fx items)"

definition get_user_agent :: "'ip filter_ext \<Rightarrow> event \<Rightarrow> string option" where
  "get_user_agent fx e =
     Option.bind (Option.bind (ev_request e) rq_headers) (get_user_agent_from_headers fx)"

text \<open>
  Regular expressions are written with \<open>%\<close> for the backslash and \<open>~\<close> for the quote; the
  comments and line breaks of the extended notation are left out.
\<close>

definition raw_pattern :: "string \<Rightarrow> string" where
  "raw_pattern s = map (\<lambda>c. if c = CHR ''%'' then CHR 0x5C else if c = CHR ''~'' then CHR 0x27 else c) s"

definition regex_alternatives :: "string list \<Rightarrow> string" where
  "regex_alternatives alts = ''(?ix)'' @ join_with ''|'' (map raw_pattern alts)"

definition WEB_CRAWLERS :: string where
  "WEB_CRAWLERS = regex_alternatives
     [''Mediapartners-Google'', ''AdsBot-Google'', ''Googlebot'', ''FeedFetcher-Google'', ''BingBot'',
      ''BingPreview'', ''Baiduspider'', ''Slurp'', ''Sogou'', ''facebook'', ''ia_archiver'',
      ''bots?[/%s%);]'', ''spider[/%s%);]'', ''Slack'', ''Calypso%sAppCrawler'', ''pingdom'',
      ''lyticsbot'', ''AWS%sSecurity%sScanner'', ''HubSpot%sCrawler'']"

definition ALLOWED_WEB_CRAWLERS :: string where
  "ALLOWED_WEB_CRAWLERS = regex_alternatives [''Slackbot%s1%.%d+'']"

definition web_crawlers_matches :: "'ip filter_ext \<Rightarrow> event \<Rightarrow> bool" where
  "web_crawlers_matches fx e =
     (case get_user_agent fx e of
        Some user_agent \<Rightarrow>
          fx_regex fx WEB_CRAWLERS user_agent \<and> \<not> fx_regex fx ALLOWED_WEB_CRAWLERS user_agent
      | None \<Rightarrow> False)"

definition web_crawlers_should_filter ::
  "'ip filter_ext \<Rightarrow> event \<Rightarrow> filter_config \<Rightarrow> filter_stat_key + unit" where
  "web_crawlers_should_filter fx e c =
     (if \<not> fc_is_enabled c then Inr ()
      else if web_crawlers_matches fx e then Inl FSK_WebCrawlers else Inr ())"

section \<open>Browser extensions\<close>

definition get_first_exception :: "event \<Rightarrow> exception option" where
  "get_first_exception e =
     (case ev_exceptions e of
        Some (Some (first # _)) \<Rightarrow> first
      | _ \<Rightarrow> None)"

definition get_exception_value :: "event \<Rightarrow> string option" where
  "get_exception_value e = Option.bind (get_first_exception e) ex_value"

definition get_exception_source :: "event \<Rightarrow> string option" where
  "get_exception_source e =
     Option.bind (get_first_exception e) (\<lambda>ex.
       Option.bind (Option.bind (ex_stacktrace ex) (\<lambda>frames. frames)) (\<lambda>frames.
         if frames = [] then None else Option.bind (last frames) fr_abs_path))"

definition EXTENSION_EXC_VALUES :: string where
  "EXTENSION_EXC_VALUES = regex_alternatives
     [''top%.GLOBALS'', ''originalCreateNotification'', ''canvas.contentDocument'',
      ''MyApp_RemoveAllHighlights'', ''http://tt%.epicplay%.com'', ''Can~t%sfind%svariable:%sZiteReader'',
      ''jigsaw%sis%snot%sdefined'', ''ComboSearch%sis%snot%sdefined'',
      ''http://loading%.retry%.widdit%.com/'', ''atomicFindClose'', ''fb_xd_fragment'',
      ''bmi_SafeAddOnload'', ''EBCallBackMessageReceived'', ''_gCrWeb'', ''conduitPage'',
      ''null%sis%snot%san%sobject%s%(evaluating%s~elt.parentNode~%)'',
      ''plugin%.setSuspendState%sis%snot%sa%sfunction'', ''Extension%scontext%sinvalidated'']"

definition EXTENSION_EXC_SOURCES :: string where
  "EXTENSION_EXC_SOURCES = regex_alternatives
     [''graph%.facebook%.com'', ''connect%.facebook%.net'', ''eatdifferent%.com%.woopra-ns%.com'',
      ''static%.woopra%.com/js/woopra%.js'', ''^chrome(-extension)?://'', ''^moz-extension://'',
      ''^safari(-web)?-extension://'', ''127%.0%.0%.1:4001/isrunning'',
      ''webappstoolbarba%.texthelp%.com/'', ''metrics%.itunes%.apple%.com%.edgesuite%.net/'',
      ''kaspersky-labs%.com'']"

definition browser_extensions_matches :: "'ip filter_ext \<Rightarrow> event \<Rightarrow> bool" where
  "browser_extensions_matches fx e =
     (if (case get_exception_value e of
            Some ex_val \<Rightarrow> fx_regex fx EXTENSION_EXC_VALUES ex_val | None \<Rightarrow> False)
      then True
      else (case get_exception_source e of
              Some ex_source \<Rightarrow> fx_regex fx EXTENSION_EXC_SOURCES ex_source
            | None \<Rightarrow> False))"

definition browser_extensions_should_filter ::
  "'ip filter_ext \<Rightarrow> event \<Rightarrow> filter_config \<Rightarrow> filter_stat_key + unit" where
  "browser_extensions_should_filter fx e c =
     (if \<not> fc_is_enabled c then Inr ()
      else if browser_extensions_matches fx e then Inl FSK_BrowserExtensions else Inr ())"

section \<open>Legacy browsers\<close>

definition MIN_VERSIONS :: "(string \<times> int) list" where
  "MIN_VERSIONS =
     [(''Chrome'', 0), (''IE'', 10), (''Firefox'', 0), (''Safari'', 6), (''Edge'', 0), (''Opera'', 15),
      (''Android'', 4), (''Opera Mini'', 8)]"

definition get_browser_major_version :: "user_agent \<Rightarrow> int option" where
  "get_browser_major_version ua = Option.bind (ua_major ua) parse_i32"

definition default_filter :: "string \<Rightarrow> user_agent \<Rightarrow> bool" where
  "default_filter mapped_family ua =
     (case get_browser_major_version ua of
        Some version \<Rightarrow>
          (case map_of MIN_VERSIONS mapped_family of
             Some min_version \<Rightarrow> min_version > version
           | None \<Rightarrow> False)
      | None \<Rightarrow> False)"

definition filter_browser :: "string \<Rightarrow> user_agent \<Rightarrow> string \<Rightarrow> (int \<Rightarrow> bool) \<Rightarrow> bool" where
  "filter_browser mapped_family ua family should_filter =
     (mapped_family = family \<and>
      (case get_browser_major_version ua of Some version \<Rightarrow> should_filter version | None \<Rightarrow> False))"

text \<open>The arms of the match; \<open>LB_Default\<close> is \<open>unreachable\<close> in the source.\<close>

fun legacy_arm :: "string \<Rightarrow> user_agent \<Rightarrow> legacy_browser \<Rightarrow> bool option" where
  "legacy_arm family ua LB_IePre9 = Some (filter_browser family ua ''IE'' (\<lambda>x. x \<le> 8))"
| "legacy_arm family ua LB_Ie9 = Some (filter_browser family ua ''IE'' (\<lambda>x. x = 9))"
| "legacy_arm family ua LB_Ie10 = Some (filter_browser family ua ''IE'' (\<lambda>x. x = 10))"
| "legacy_arm family ua LB_Ie11 = Some (filter_browser family ua ''IE'' (\<lambda>x. x = 11))"
| "legacy_arm family ua LB_OperaMiniPre8 = Some (filter_browser family ua ''Opera Mini'' (\<lambda>x. x < 8))"
| "legacy_arm family ua LB_OperaPre15 = Some (filter_browser family ua ''Opera'' (\<lambda>x. x < 15))"
| "legacy_arm family ua LB_AndroidPre4 = Some (filter_browser family ua ''Android'' (\<lambda>x. x < 4))"
| "legacy_arm family ua LB_SafariPre6 = Some (filter_browser family ua ''Safari'' (\<lambda>x. x < 6))"
| "legacy_arm family ua (LB_Unknown _) = Some False"
| "legacy_arm family ua LB_Default = None"

definition mapped_family :: "user_agent \<Rightarrow> string" where
  "mapped_family ua = (if ua_family ua = ''IE Mobile'' then ''IE'' else ua_family ua)"

definition legacy_browsers_matches :: "'ip filter_ext \<Rightarrow> event \<Rightarrow> legacy_browser set \<Rightarrow> bool" where
  "legacy_browsers_matches fx e browsers =
     (case get_user_agent fx e of
        Some user_agent_string \<Rightarrow>
          let ua = fx_parse_user_agent fx user_agent_string; family = mapped_family ua in
          if LB_Default \<in> browsers then default_filter family ua
          else (\<exists>browser_type \<in> browsers. legacy_arm family ua browser_type = Some True)
      | None \<Rightarrow> False)"

definition legacy_browsers_should_filter ::
  "'ip filter_ext \<Rightarrow> event \<Rightarrow> legacy_browsers_filter_config \<Rightarrow> filter_stat_key + unit" where
  "legacy_browsers_should_filter fx e c =
     (if \<not> lbc_is_enabled c \<or> lbc_browsers c = {} then Inr ()
      else if legacy_browsers_matches fx e (lbc_browsers c) then Inl FSK_LegacyBrowsers else Inr ())"

section \<open>Content security policy reports\<close>

fun find_str :: "string \<Rightarrow> string \<Rightarrow> nat option" where
  "find_str pat [] = (if pat = [] then Some 0 else None)"
| "find_str pat (c # s) = (if prefix pat (c # s) then Some 0 else map_option Suc (find_str pat s))"

text \<open>\<open>str::get(n..)\<close> with the empty string outside the string or inside a code point.\<close>

definition str_get_from :: "nat \<Rightarrow> string \<Rightarrow> string" where
  "str_get_from n s =
     (if n = length s then []
      else if n < length s \<and> \<not> (0x80 \<le> (of_char (s ! n) :: nat) \<and> (of_char (s ! n) :: nat) \<le> 0xBF)
      then drop n s else [])"

record scheme_domain_port =
  sdp_scheme :: "string option"
  sdp_domain :: "string option"
  sdp_port :: "string option"

definition sdp_normalize :: "'ip filter_ext \<Rightarrow> string \<Rightarrow> string option" where
  "sdp_normalize fx pattern = (if pattern = ''*'' then None else Some (fx_to_lowercase fx pattern))"

definition scheme_domain_port_from :: "'ip filter_ext \<Rightarrow> string \<Rightarrow> scheme_domain_port" where
  "scheme_domain_port_from fx url =
     (let (scheme, rest) =
            (case find_str ''://'' url of
               Some idx \<Rightarrow> (sdp_normalize fx (take idx url), drop (idx + 3) url)
             | None \<Rightarrow> (None, url));
          domain_port =
            (case find_str ''/'' rest of
               Some end_domain_idx \<Rightarrow> take end_domain_idx rest
             | None \<Rightarrow> rest);
          (domain, port) =
            (case find_str '':'' domain_port of
               Some idx \<Rightarrow> (sdp_normalize fx (take idx domain_port), sdp_normalize fx (drop (idx + 1) domain_port))
             | None \<Rightarrow> (sdp_normalize fx domain_port, None))
      in \<lparr>sdp_scheme = scheme, sdp_domain = domain, sdp_port = port\<rparr>)"

text \<open>One round of the loop: \<open>False\<close> is \<open>continue\<close>, \<open>True\<close> is \<open>return true\<close>.\<close>

definition origin_matches :: "scheme_domain_port \<Rightarrow> scheme_domain_port \<Rightarrow> bool" where
  "origin_matches url origin =
     (if sdp_scheme origin \<noteq> None \<and> sdp_scheme url \<noteq> sdp_scheme origin then False
      else if sdp_port origin \<noteq> None \<and> sdp_port url \<noteq> sdp_port origin then False
      else if sdp_domain origin \<noteq> None \<and> sdp_domain url \<noteq> sdp_domain origin then
        (case (sdp_domain origin, sdp_domain url) of
           (Some origin_domain, Some domain) \<Rightarrow>
             prefix ''*'' origin_domain \<and>
             (suffix (str_get_from 1 origin_domain) domain \<or> domain = str_get_from 2 origin_domain)
         | _ \<Rightarrow> False)
      else True)"

definition matches_any_origin ::
  "'ip filter_ext \<Rightarrow> string option \<Rightarrow> scheme_domain_port list \<Rightarrow> bool" where
  "matches_any_origin fx url origins =
     (if list_ex (\<lambda>x. sdp_scheme x = None \<and> sdp_port x = None \<and> sdp_domain x = None) origins
      then True
      else (case url of
              Some url \<Rightarrow> list_ex (origin_matches (scheme_domain_port_from fx url)) origins
            | None \<Rightarrow> False))"

definition csp_matches :: "'ip filter_ext \<Rightarrow> event \<Rightarrow> string list \<Rightarrow> bool" where
  "csp_matches fx e disallowed_sources =
     (if ev_ty e \<noteq> Some ET_Csp then False
      else
        let sources = map (scheme_domain_port_from fx) disallowed_sources in
        (case ev_csp e of
           Some csp \<Rightarrow>
             matches_any_origin fx (csp_blocked_uri csp) sources \<or>
             matches_any_origin fx (csp_source_file csp) sources
         | None \<Rightarrow> False))"

definition csp_should_filter :: "'ip filter_ext \<Rightarrow> event \<Rightarrow> string list \<Rightarrow> filter_stat_key + unit" where
  "csp_should_filter fx e sources =
     (if csp_matches fx e sources then Inl FSK_InvalidCsp else Inr ())"

section \<open>All filters\<close>

definition and_then :: "'e + unit \<Rightarrow> 'e + unit \<Rightarrow> 'e + unit" where
  "and_then a b = (case a of Inl e \<Rightarrow> Inl e | Inr _ \<Rightarrow> b)"

definition should_filter ::
  "'ip filter_ext \<Rightarrow> event \<Rightarrow> 'ip option \<Rightarrow> filters_config \<Rightarrow> filter_stat_key + unit" where
  "should_filter fx e client_ip c =
     and_then (csp_should_filter fx e (flt_csp c))
     (and_then (client_ips_should_filter fx client_ip (flt_client_ips c))
     (and_then (releases_should_filter fx e (flt_releases c))
     (and_then (error_messages_should_filter fx e (flt_error_messages c))
     (and_then (localhost_should_filter fx e (flt_localhost c))
     (and_then (browser_extensions_should_filter fx e (flt_browser_extensions c))
     (and_then (legacy_browsers_should_filter fx e (flt_legacy_browsers c))
     (and_then (web_crawlers_should_filter fx e (flt_web_crawlers c)) (Inr ()))))))))"

section \<open>Names of legacy browsers\<close>

lemma legacy_browser_serialize_from_str: "legacy_browser_serialize (legacy_browser_from_str s) = s"
  by (simp add: legacy_browser_from_str_def)

lemma legacy_browser_from_str_serialize:
  "legacy_browser_from_str (legacy_browser_serialize b) = b" if "\<nexists>s. b = LB_Unknown s"
  using that by (cases b) (simp_all add: legacy_browser_from_str_def)

section \<open>Parsing origins\<close>

lemma find_str_char:
  "find_str [c] s = position (\<lambda>x. x = c) s"
  by (induction s) auto

lemma find_str_char_append: "c \<notin> set p \<Longrightarrow> find_str [c] (p @ c # rest) = Some (length p)"
  by (auto simp: find_str_char intro!: position_append_hit)

lemma find_str_char_none: "c \<notin> set p \<Longrightarrow> find_str [c] p = None"
  by (auto simp: find_str_char position_None)

lemma find_str_scheme: "CHR '':'' \<notin> set p \<Longrightarrow> find_str ''://'' (p @ ''://'' @ rest) = Some (length p)"
  by (induction p) auto

lemma find_str_no_scheme: "CHR ''/'' \<notin> set p \<Longrightarrow> find_str ''://'' p = None"
proof (induction p)
  case (Cons c p)
  have "\<not> prefix ''://'' (c # p)"
    using Cons.prems by (cases p) (auto dest: set_mono_prefix)
  with Cons show ?case by simp
qed simp

lemma scheme_domain_port_url:
  assumes "CHR '':'' \<notin> set scheme" and "CHR '':'' \<notin> set domain" and "CHR ''/'' \<notin> set domain"
  shows "scheme_domain_port_from fx (scheme @ ''://'' @ domain @ ''/'' @ path) =
           \<lparr>sdp_scheme = sdp_normalize fx scheme, sdp_domain = sdp_normalize fx domain, sdp_port = None\<rparr>"
  using find_str_scheme [OF assms(1), of "domain @ ''/'' @ path"]
    find_str_char_append [OF assms(3), of path] find_str_char_none [OF assms(2)]
  by (simp add: scheme_domain_port_from_def)

lemma scheme_domain_port_domain:
  assumes "CHR '':'' \<notin> set domain" and "CHR ''/'' \<notin> set domain"
  shows "scheme_domain_port_from fx domain =
           \<lparr>sdp_scheme = None, sdp_domain = sdp_normalize fx domain, sdp_port = None\<rparr>"
  using find_str_no_scheme [OF assms(2)] find_str_char_none [OF assms(1)] find_str_char_none [OF assms(2)]
  by (simp add: scheme_domain_port_from_def)

section \<open>Properties\<close>

text \<open>The filters in their order and the condition under which each one objects.\<close>

definition filter_order :: "filter_stat_key list" where
  "filter_order =
     [FSK_InvalidCsp, FSK_IpAddress, FSK_ReleaseVersion, FSK_ErrorMessage, FSK_Localhost,
      FSK_BrowserExtensions, FSK_LegacyBrowsers, FSK_WebCrawlers]"

fun filter_applies ::
  "'ip filter_ext \<Rightarrow> event \<Rightarrow> 'ip option \<Rightarrow> filters_config \<Rightarrow> filter_stat_key \<Rightarrow> bool" where
  "filter_applies fx e ip c FSK_InvalidCsp = csp_matches fx e (flt_csp c)"
| "filter_applies fx e ip c FSK_IpAddress = client_ips_matches fx ip (flt_client_ips c)"
| "filter_applies fx e ip c FSK_ReleaseVersion =
     (\<exists>r. ev_release e = Some r \<and> globs_is_match fx (flt_releases c) r)"
| "filter_applies fx e ip c FSK_ErrorMessage = error_messages_matches fx e (flt_error_messages c)"
| "filter_applies fx e ip c FSK_Localhost = (fc_is_enabled (flt_localhost c) \<and> localhost_matches fx e)"
| "filter_applies fx e ip c FSK_BrowserExtensions =
     (fc_is_enabled (flt_browser_extensions c) \<and> browser_extensions_matches fx e)"
| "filter_applies fx e ip c FSK_LegacyBrowsers =
     (lbc_is_enabled (flt_legacy_browsers c) \<and> lbc_browsers (flt_legacy_browsers c) \<noteq> {} \<and>
      legacy_browsers_matches fx e (lbc_browsers (flt_legacy_browsers c)))"
| "filter_applies fx e ip c FSK_WebCrawlers =
     (fc_is_enabled (flt_web_crawlers c) \<and> web_crawlers_matches fx e)"

lemma empty_config_applies:
  "filters_config_is_empty c \<Longrightarrow> \<not> filter_applies fx e ip c k"
  by (cases k)
    (auto simp: filters_config_is_empty_def filter_config_is_empty_def legacy_config_is_empty_def
      csp_matches_def matches_any_origin_def client_ips_matches_def globs_is_match_def parse_globs_def
      error_messages_matches_def map_filter_simps Let_def list_ex_iff split: option.splits)

lemma find_Some_split:
  "List.find P xs = Some x \<longleftrightarrow>
     (\<exists>before after. xs = before @ x # after \<and> P x \<and> list_all (\<lambda>y. \<not> P y) before)" (is "?L \<longleftrightarrow> ?R")
proof
  show "?L \<Longrightarrow> ?R"
  proof (induction xs)
    case (Cons y ys)
    show ?case
    proof (cases "P y")
      case True
      with Cons.prems show ?thesis by (intro exI [of _ "[]"] exI [of _ ys]) auto
    next
      case False
      with Cons.prems Cons.IH obtain before after
        where "ys = before @ x # after" "P x" "list_all (\<lambda>y. \<not> P y) before" by auto
      with False show ?thesis by (intro exI [of _ "y # before"] exI [of _ after]) auto
    qed
  qed simp
  have "list_all (\<lambda>y. \<not> P y) before \<Longrightarrow> P x \<Longrightarrow> List.find P (before @ x # after) = Some x" for before after
    by (induction before) auto
  then show "?R \<Longrightarrow> ?L" by blast
qed

lemma and_then_find:
  "and_then (if P k then Inl k else Inr ()) (case List.find P ks of None \<Rightarrow> Inr () | Some j \<Rightarrow> Inl j) =
     (case List.find P (k # ks) of None \<Rightarrow> Inr () | Some j \<Rightarrow> Inl j)"
  by (simp add: and_then_def)

lemma single_filters:
  "csp_should_filter fx e (flt_csp c) =
     (if filter_applies fx e ip c FSK_InvalidCsp then Inl FSK_InvalidCsp else Inr ())"
  "client_ips_should_filter fx ip (flt_client_ips c) =
     (if filter_applies fx e ip c FSK_IpAddress then Inl FSK_IpAddress else Inr ())"
  "releases_should_filter fx e (flt_releases c) =
     (if filter_applies fx e ip c FSK_ReleaseVersion then Inl FSK_ReleaseVersion else Inr ())"
  "error_messages_should_filter fx e (flt_error_messages c) =
     (if filter_applies fx e ip c FSK_ErrorMessage then Inl FSK_ErrorMessage else Inr ())"
  "localhost_should_filter fx e (flt_localhost c) =
     (if filter_applies fx e ip c FSK_Localhost then Inl FSK_Localhost else Inr ())"
  "browser_extensions_should_filter fx e (flt_browser_extensions c) =
     (if filter_applies fx e ip c FSK_BrowserExtensions then Inl FSK_BrowserExtensions else Inr ())"
  "legacy_browsers_should_filter fx e (flt_legacy_browsers c) =
     (if filter_applies fx e ip c FSK_LegacyBrowsers then Inl FSK_LegacyBrowsers else Inr ())"
  "web_crawlers_should_filter fx e (flt_web_crawlers c) =
     (if filter_applies fx e ip c FSK_WebCrawlers then Inl FSK_WebCrawlers else Inr ())"
  by (simp_all add: csp_should_filter_def client_ips_should_filter_def releases_should_filter_def
      error_messages_should_filter_def localhost_should_filter_def browser_extensions_should_filter_def
      legacy_browsers_should_filter_def web_crawlers_should_filter_def split: option.splits)

lemma should_filter_find:
  "should_filter fx e ip c =
     (case List.find (filter_applies fx e ip c) filter_order of None \<Rightarrow> Inr () | Some k \<Rightarrow> Inl k)"
proof -
  have nil: "(Inr () :: filter_stat_key + unit) =
      (case List.find (filter_applies fx e ip c) [] of None \<Rightarrow> Inr () | Some k \<Rightarrow> Inl k)" by simp
  show ?thesis
    unfolding should_filter_def filter_order_def single_filters [where fx = fx and e = e and ip = ip]
    by (subst nil) (simp only: and_then_find)
qed

text \<open>C25: an event is filtered exactly when one of the eight filters is configured and matches, and
  the reported reason is the first of them in the fixed order: every filter before it is
  silent. An empty configuration filters nothing.\<close>

theorem should_filter_first:
  "(should_filter fx e ip c = Inl k \<longleftrightarrow>
      (\<exists>before after. filter_order = before @ k # after \<and> filter_applies fx e ip c k \<and>
         list_all (\<lambda>j. \<not> filter_applies fx e ip c j) before)) \<and>
   (should_filter fx e ip c = Inr () \<longleftrightarrow> list_all (\<lambda>j. \<not> filter_applies fx e ip c j) filter_order) \<and>
   (filters_config_is_empty c \<longrightarrow> should_filter fx e ip c = Inr ())"
proof (intro conjI impI)
  have "should_filter fx e ip c = Inl k \<longleftrightarrow> List.find (filter_applies fx e ip c) filter_order = Some k"
    by (simp add: should_filter_find split: option.splits)
  also have "\<dots> \<longleftrightarrow> (\<exists>before after. filter_order = before @ k # after \<and> filter_applies fx e ip c k \<and>
         list_all (\<lambda>j. \<not> filter_applies fx e ip c j) before)"
    by (rule find_Some_split)
  finally show "should_filter fx e ip c = Inl k \<longleftrightarrow> \<dots>" .
  show "should_filter fx e ip c = Inr () \<longleftrightarrow> list_all (\<lambda>j. \<not> filter_applies fx e ip c j) filter_order"
    by (auto simp: should_filter_find find_None_iff list_all_iff split: option.splits)
      (metis find_Some_split in_set_conv_decomp)
  show "should_filter fx e ip c = Inr ()" if "filters_config_is_empty c"
    using that by (auto simp: should_filter_find find_Some_split empty_config_applies split: option.splits)
qed

text \<open>A disallowed origin of the form \<open>*.domain\<close> matches exactly the URLs whose host is the
  domain itself or one of its subdomains, on any scheme.\<close>

lemma wildcard_origin_exact:
  assumes lower: "fx_to_lowercase fx host = host" "fx_to_lowercase fx (''*.'' @ domain) = ''*.'' @ domain"
    and host: "CHR '':'' \<notin> set host" "CHR ''/'' \<notin> set host" "host \<noteq> ''*''"
    and domain: "CHR '':'' \<notin> set domain" "CHR ''/'' \<notin> set domain" "domain \<noteq> []" "visible (hd domain)"
    and scheme: "CHR '':'' \<notin> set scheme"
  shows "matches_any_origin fx (Some (scheme @ ''://'' @ host @ ''/'' @ path))
             [scheme_domain_port_from fx (''*.'' @ domain)] \<longleftrightarrow>
           host = ''*.'' @ domain \<or> host = domain \<or> suffix (CHR ''.'' # domain) host"
proof -
  obtain c d where cd: "domain = c # d" using domain(3) by (cases domain) auto
  define p where "p = ''*.'' @ domain"
  define w where "w = scheme @ ''://'' @ host @ ''/'' @ path"
  have o: "scheme_domain_port_from fx p = \<lparr>sdp_scheme = None, sdp_domain = Some p, sdp_port = None\<rparr>"
    using scheme_domain_port_domain [of p fx] domain lower(2)
    by (simp add: sdp_normalize_def p_def)
  have u: "scheme_domain_port_from fx w =
      \<lparr>sdp_scheme = sdp_normalize fx scheme, sdp_domain = Some host, sdp_port = None\<rparr>"
    using scheme_domain_port_url [OF scheme host(1,2), of fx path] host(3) lower(1)
    by (simp add: sdp_normalize_def w_def)
  have g: "prefix ''*'' p" "str_get_from 1 p = CHR ''.'' # domain" "str_get_from 2 p = domain"
    using domain(4) by (simp_all add: str_get_from_def p_def cd visible_def)
  have "matches_any_origin fx (Some w) [scheme_domain_port_from fx p] \<longleftrightarrow>
      host = p \<or> host = domain \<or> suffix (CHR ''.'' # domain) host"
    unfolding matches_any_origin_def by (auto simp: o u origin_matches_def g g(2) [simplified])
  then show ?thesis by (simp only: p_def w_def)
qed

definition example_fx :: "nat filter_ext" where
  "example_fx =
     \<lparr>fx_network = (\<lambda>_. None), fx_url_host = (\<lambda>_. None), fx_regex = (\<lambda>_ _. False), fx_glob = (\<lambda>_. None),
      fx_parse_user_agent = (\<lambda>s. \<lparr>ua_family = ''IE'', ua_major = Some ''9''\<rparr>),
      fx_to_lowercase = to_ascii_lowercase\<rparr>"

definition example_event :: event where
  "example_event =
     \<lparr>ev_id = Some 1, ev_ty = None, ev_logentry = None, ev_release = None, ev_environment = None,
      ev_user = None, ev_request = None, ev_exceptions = None, ev_csp = None\<rparr>"

definition example_browser_event :: event where
  "example_browser_event = example_event
     \<lparr>ev_request := Some \<lparr>rq_url = None,
        rq_headers = Some [Some (Some ''User-Agent'', Some ''MSIE 9.0'')]\<rparr>\<rparr>"

lemma parse_i32_nine: "parse_i32 ''9'' = Some 9"
  by code_simp

lemma lowercase_user_agent: "to_ascii_lowercase ''User-Agent'' = ''user-agent''"
  by code_simp

definition example_filters :: filters_config where
  "example_filters =
     \<lparr>flt_browser_extensions = \<lparr>fc_is_enabled = False\<rparr>, flt_client_ips = [],
      flt_web_crawlers = \<lparr>fc_is_enabled = False\<rparr>, flt_csp = [], flt_error_messages = [],
      flt_legacy_browsers = \<lparr>lbc_is_enabled = False, lbc_browsers = {}\<rparr>,
      flt_localhost = \<lparr>fc_is_enabled = False\<rparr>, flt_releases = []\<rparr>"

theorem should_filter_first_witness:
  "filters_config_is_empty example_filters \<and>
   should_filter example_fx example_event (Some 0) example_filters = Inr ()"
proof -
  have "filters_config_is_empty example_filters"
    by (simp add: example_filters_def filters_config_is_empty_def filter_config_is_empty_def
        legacy_config_is_empty_def)
  with should_filter_first [of example_fx example_event "Some 0" example_filters] show ?thesis by blast
qed

text \<open>For browsers with non-negative version numbers, the default legacy browser option filters
  exactly what the six options for outdated versions filter together; Internet Explorer 10
  and 11 are only filtered on request.\<close>

lemma legacy_default_is_six:
  assumes "\<forall>s v. get_browser_major_version (fx_parse_user_agent fx s) = Some v \<longrightarrow> 0 \<le> v"
  shows "legacy_browsers_matches fx e {LB_Default} =
         legacy_browsers_matches fx e
           {LB_IePre9, LB_Ie9, LB_OperaPre15, LB_OperaMiniPre8, LB_AndroidPre4, LB_SafariPre6}"
proof (cases "get_user_agent fx e")
  case (Some s)
  let ?ua = "fx_parse_user_agent fx s"
  show ?thesis
  proof (cases "get_browser_major_version ?ua")
    case None
    then show ?thesis
      by (simp add: legacy_browsers_matches_def Some Let_def default_filter_def filter_browser_def)
  next
    case v: (Some v)
    have "0 \<le> v" using assms v by blast
    then show ?thesis
      by (auto simp: legacy_browsers_matches_def Some Let_def default_filter_def filter_browser_def v
          MIN_VERSIONS_def)
  qed
qed (simp add: legacy_browsers_matches_def)

end
