(* ===== verification/Outcomes.thy ===== *)
theory Outcomes
  imports Event_Filters Quotas
begin

text \<open>
  Outcomes (\<open>relay-server/src/actors/outcome.rs\<close>): the fate of an item, the reasons for
  discarding it and the message that reports it.
\<close>

datatype discard_reason =
    DR_Duplicate | DR_ProjectId | DR_AuthVersion | DR_AuthClient | DR_NoData | DR_EmptyEnvelope
  | DR_TooLarge | DR_DisallowedMethod | DR_ContentType | DR_MultiProjectId
  | DR_MissingMinidumpUpload | DR_InvalidMinidump | DR_SecurityReportType | DR_SecurityReport
  | DR_Cors | DR_Payload | DR_InvalidJson | DR_InvalidMsgpack | DR_InvalidMultipart
  | DR_InvalidTransaction | DR_InvalidEnvelope | DR_ProjectState | DR_DuplicateItem
  | DR_NoEventPayload | DR_Internal | DR_ProcessUnreal | DR_TransactionSampled

fun discard_reason_name :: "discard_reason \<Rightarrow> string" where
  "discard_reason_name DR_Duplicate = ''duplicate''"
| "discard_reason_name DR_ProjectId = ''project_id''"
| "discard_reason_name DR_AuthVersion = ''auth_version''"
| "discard_reason_name DR_AuthClient = ''auth_client''"
| "discard_reason_name DR_NoData = ''no_data''"
| "discard_reason_name DR_TooLarge = ''too_large''"
| "discard_reason_name DR_DisallowedMethod = ''disallowed_method''"
| "discard_reason_name DR_ContentType = ''content_type''"
| "discard_reason_name DR_MultiProjectId = ''multi_project_id''"
| "discard_reason_name DR_MissingMinidumpUpload = ''missing_minidump_upload''"
| "discard_reason_name DR_InvalidMinidump = ''invalid_minidump''"
| "discard_reason_name DR_SecurityReportType = ''security_report_type''"
| "discard_reason_name DR_SecurityReport = ''security_report''"
| "discard_reason_name DR_Cors = ''cors''"
| "discard_reason_name DR_ProcessUnreal = ''process_unreal''"
| "discard_reason_name DR_Payload = ''payload''"
| "discard_reason_name DR_InvalidJson = ''invalid_json''"
| "discard_reason_name DR_InvalidMultipart = ''invalid_multipart''"
| "discard_reason_name DR_InvalidMsgpack = ''invalid_msgpack''"
| "discard_reason_name DR_InvalidTransaction = ''invalid_transaction''"
| "discard_reason_name DR_InvalidEnvelope = ''invalid_envelope''"
| "discard_reason_name DR_ProjectState = ''project_state''"
| "discard_reason_name DR_DuplicateItem = ''duplicate_item''"
| "discard_reason_name DR_NoEventPayload = ''no_event_payload''"
| "discard_reason_name DR_Internal = ''internal''"
| "discard_reason_name DR_TransactionSampled = ''transaction_sampled''"
| "discard_reason_name DR_EmptyEnvelope = ''empty_envelope''"

datatype outcome =
    OC_Accepted
  | OC_Filtered filter_stat_key
  | OC_FilteredSampling u32
  | OC_RateLimited "reason_code option"
  | OC_Invalid discard_reason
  | OC_Abuse

fun to_outcome_id :: "outcome \<Rightarrow> u8" where
  "to_outcome_id OC_Accepted = 0"
| "to_outcome_id (OC_Filtered _) = 1"
| "to_outcome_id (OC_FilteredSampling _) = 1"
| "to_outcome_id (OC_RateLimited _) = 2"
| "to_outcome_id (OC_Invalid _) = 3"
| "to_outcome_id OC_Abuse = 4"

fun to_reason :: "outcome \<Rightarrow> string option" where
  "to_reason OC_Accepted = None"
| "to_reason (OC_Invalid r) = Some (discard_reason_name r)"
| "to_reason (OC_Filtered k) = Some (filter_stat_key_name k)"
| "to_reason (OC_FilteredSampling rule_id) = Some (''Sampled:'' @ show_nat (unat rule_id))"
| "to_reason (OC_RateLimited code) = code"
| "to_reason OC_Abuse = None"

record 'id track_outcome =
  to_timestamp :: system_time
  to_scoping :: scoping
  to_outcome :: outcome
  to_event_id :: "'id option"
  to_remote_addr :: "string option"
  to_category :: data_category
  to_quantity :: nat

text \<open>No two discard reasons share a name, so that reports can be told apart.\<close>

lemma discard_reason_name_inject: "discard_reason_name a = discard_reason_name b \<longleftrightarrow> a = b"
  by (cases a; cases b) simp_all

end
