(* ===== verification/Envelope_Limiter.thy ===== *)
theory Envelope_Limiter
  imports Envelope Redis_Limiter Outcomes
begin

text \<open>
  Rate limiting of envelopes (\<open>relay-server/src/utils/rate_limits.rs\<close>): the
  \<open>X-Sentry-Rate-Limits\<close> header, the summary of an envelope and the \<open>EnvelopeLimiter\<close>,
  which asks a stateful \<open>check\<close> function for the limits of each category and removes the
  items those limits forbid. Instants are read from a clock argument that is constant during
  one call. Quantities are counts of items and bytes held in memory, modelled as \<open>nat\<close>.
\<close>

section \<open>The rate limits header\<close>

definition format_rate_limit :: "instant \<Rightarrow> rate_limit \<Rightarrow> string" where
  "format_rate_limit now l =
     show_nat (remaining_seconds now (limit_retry_after l)) @ '':'' @
     join_with '';'' (map data_category_name (limit_categories l)) @
     '':'' @ rate_limit_scope_name (limit_scope l) @
     (case limit_reason_code l of Some r \<Rightarrow> '':'' @ r | None \<Rightarrow> [])"

definition format_rate_limits :: "instant \<Rightarrow> rate_limits \<Rightarrow> string" where
  "format_rate_limits now ls =
     foldl (\<lambda>header l. (if header \<noteq> [] then header @ '', '' else header) @ format_rate_limit now l)
       [] ls"

text \<open>One piece of the header: \<open>None\<close> is the \<open>continue\<close> of the loop.\<close>

definition component :: "nat \<Rightarrow> string list \<Rightarrow> string option" where
  "component n components = (if n < length components then Some (components ! n) else None)"

definition parse_rate_limit :: "instant \<Rightarrow> scoping \<Rightarrow> string \<Rightarrow> rate_limit option" where
  "parse_rate_limit now s piece =
     (let limit = trim piece in
      if limit = [] then None
      else
        let components = split_on (CHR '':'') limit in
        (case Option.bind (component 0 components) (retry_after_from_str now) of
           None \<Rightarrow> None
         | Some retry_after \<Rightarrow>
             let cats = map data_category_from_name
                   (filter (\<lambda>c. c \<noteq> [])
                     (split_on (CHR '';'')
                       (case component 1 components of Some c \<Rightarrow> c | None \<Rightarrow> [])));
                 quota_scope = quota_scope_from_name
                   (case component 2 components of Some c \<Rightarrow> c | None \<Rightarrow> [])
             in Some \<lparr>limit_categories = cats,
                      limit_scope = rate_limit_scope_for_quota s quota_scope,
                      limit_reason_code = component 3 components,
                      limit_retry_after = retry_after\<rparr>))"

definition parse_rate_limits :: "instant \<Rightarrow> scoping \<Rightarrow> string \<Rightarrow> rate_limits" where
  "parse_rate_limits now s str =
     foldl (\<lambda>ls piece.
         (case parse_rate_limit now s piece of
            None \<Rightarrow> ls
          | Some l \<Rightarrow> rate_limits_add ls l))
       rate_limits_new (split_on (CHR '','') str)"

section \<open>Envelope summaries\<close>

definition infer_event_category :: "item \<Rightarrow> data_category option" where
  "infer_event_category it =
     (case item_ty it of
        IT_Event \<Rightarrow> Some DC_Error
      | IT_Transaction \<Rightarrow> Some DC_Transaction
      | IT_Security \<Rightarrow> Some DC_Security
      | IT_RawSecurity \<Rightarrow> Some DC_Security
      | IT_UnrealReport \<Rightarrow> Some DC_Error
      | IT_Attachment \<Rightarrow> (if creates_event it then Some DC_Error else None)
      | IT_Session \<Rightarrow> None
      | IT_Sessions \<Rightarrow> None
      | IT_Metrics \<Rightarrow> None
      | IT_MetricBuckets \<Rightarrow> None
      | IT_FormData \<Rightarrow> None
      | IT_UserReport \<Rightarrow> None)"

record envelope_summary =
  sum_event_category :: "data_category option"
  sum_attachment_quantity :: nat
  sum_session_quantity :: nat
  sum_has_plain_attachments :: bool

definition summary_empty :: envelope_summary where
  "summary_empty =
     \<lparr>sum_event_category = None, sum_attachment_quantity = 0, sum_session_quantity = 0,
      sum_has_plain_attachments = False\<rparr>"

definition infer_category :: "item \<Rightarrow> envelope_summary \<Rightarrow> envelope_summary" where
  "infer_category it s =
     (if sum_event_category s = None \<or> sum_event_category s = Some DC_Default
      then (case infer_event_category it of
              Some category \<Rightarrow> s\<lparr>sum_event_category := Some category\<rparr>
            | None \<Rightarrow> s)
      else s)"

definition summary_item :: "envelope_summary \<Rightarrow> item \<Rightarrow> envelope_summary" where
  "summary_item s it =
     (let s1 = (if creates_event it then infer_category it s
                else if item_ty it = IT_Attachment then s\<lparr>sum_has_plain_attachments := True\<rparr>
                else s)
      in if item_rate_limited it then s1
         else (case item_ty it of
                 IT_Attachment \<Rightarrow>
                   s1\<lparr>sum_attachment_quantity := sum_attachment_quantity s1 + max (item_len it) 1\<rparr>
               | IT_Session \<Rightarrow> s1\<lparr>sum_session_quantity := sum_session_quantity s1 + 1\<rparr>
               | _ \<Rightarrow> s1))"

definition summary_compute :: "('id, 'time, 'j, 'trace) envelope \<Rightarrow> envelope_summary" where
  "summary_compute e = foldl summary_item summary_empty (env_items e)"

section \<open>Enforcement\<close>

record category_limit =
  cl_category :: data_category
  cl_quantity :: nat
  cl_reason_code :: "reason_code option"

definition category_limit_default :: category_limit where
  "category_limit_default = \<lparr>cl_category = DC_Default, cl_quantity = 0, cl_reason_code = None\<rparr>"

definition category_limit_new :: "data_category \<Rightarrow> nat \<Rightarrow> rate_limit option \<Rightarrow> category_limit" where
  "category_limit_new category quantity limit =
     (case limit of
        Some l \<Rightarrow> \<lparr>cl_category = category, cl_quantity = quantity,
                   cl_reason_code = limit_reason_code l\<rparr>
      | None \<Rightarrow> category_limit_default)"

definition cl_is_active :: "category_limit \<Rightarrow> bool" where
  "cl_is_active c \<longleftrightarrow> cl_quantity c > 0"

record enforcement =
  enf_event :: category_limit
  enf_attachments :: category_limit
  enf_sessions :: category_limit

definition enforcement_default :: enforcement where
  "enforcement_default =
     \<lparr>enf_event = category_limit_default, enf_attachments = category_limit_default,
      enf_sessions = category_limit_default\<rparr>"

text \<open>The messages sent to the outcome producer, in order.\<close>

definition track_outcomes ::
  "instant \<Rightarrow> system_time \<Rightarrow> enforcement \<Rightarrow> ('id, 'time, 'j, 'trace) envelope \<Rightarrow> scoping \<Rightarrow> 'id track_outcome list" where
  "track_outcomes now system_now enf e s =
     map (\<lambda>limit.
         \<lparr>to_timestamp = instant_to_system_time now system_now (rm_start_time (eh_meta (env_headers e))),
          to_scoping = s,
          to_outcome = OC_RateLimited (cl_reason_code limit), to_event_id = eh_event_id (env_headers e),
          to_remote_addr = rm_remote_addr (eh_meta (env_headers e)),
          to_category = cl_category limit, to_quantity = cl_quantity limit\<rparr>)
       (filter cl_is_active [enf_event enf, enf_attachments enf])"

type_synonym ('s, 'e) check_fn = "'s \<Rightarrow> item_scoping \<Rightarrow> nat \<Rightarrow> ('e + rate_limits) \<times> 's"

record ('s, 'e) envelope_limiter =
  el_check :: "('s, 'e) check_fn"
  el_event_category :: "data_category option"

definition limiter_new :: "('s, 'e) check_fn \<Rightarrow> ('s, 'e) envelope_limiter" where
  "limiter_new check = \<lparr>el_check = check, el_event_category = None\<rparr>"

definition assume_event :: "data_category \<Rightarrow> ('s, 'e) envelope_limiter \<Rightarrow> ('s, 'e) envelope_limiter" where
  "assume_event category lim = lim\<lparr>el_event_category := Some category\<rparr>"

text \<open>The three stages of \<open>execute\<close>: events, attachments, sessions.\<close>

definition execute_event ::
  "('s, 'e) check_fn \<Rightarrow> envelope_summary \<Rightarrow> scoping \<Rightarrow> enforcement \<times> rate_limits \<Rightarrow> 's \<Rightarrow>
   ('e + enforcement \<times> rate_limits) \<times> 's" where
  "execute_event check summary sc acc s =
     (case acc of (enf, limits) \<Rightarrow>
        (case sum_event_category summary of
           None \<Rightarrow> (Inr (enf, limits), s)
         | Some category \<Rightarrow>
             (case check s (scoping_item sc category) 1 of
                (Inl err, s') \<Rightarrow> (Inl err, s')
              | (Inr event_limits, s') \<Rightarrow>
                  let longest = longest event_limits;
                      enf1 = enf\<lparr>enf_event := category_limit_new category 1 longest\<rparr>;
                      enf2 = enf1\<lparr>enf_attachments :=
                        category_limit_new DC_Attachment (sum_attachment_quantity summary) longest\<rparr>
                  in (Inr (enf2, rate_limits_merge limits event_limits), s'))))"

definition execute_attachments ::
  "('s, 'e) check_fn \<Rightarrow> envelope_summary \<Rightarrow> scoping \<Rightarrow> enforcement \<times> rate_limits \<Rightarrow> 's \<Rightarrow>
   ('e + enforcement \<times> rate_limits) \<times> 's" where
  "execute_attachments check summary sc acc s =
     (case acc of (enf, limits) \<Rightarrow>
        if \<not> cl_is_active (enf_event enf) \<and> sum_attachment_quantity summary > 0
        then (case check s (scoping_item sc DC_Attachment) (sum_attachment_quantity summary) of
                (Inl err, s') \<Rightarrow> (Inl err, s')
              | (Inr attachment_limits, s') \<Rightarrow>
                  let enf1 = enf\<lparr>enf_attachments :=
                        category_limit_new DC_Attachment (sum_attachment_quantity summary)
                          (longest attachment_limits)\<rparr>
                  in (Inr (enf1, if sum_has_plain_attachments summary
                                 then rate_limits_merge limits attachment_limits else limits), s'))
        else (Inr (enf, limits), s))"

definition execute_sessions ::
  "('s, 'e) check_fn \<Rightarrow> envelope_summary \<Rightarrow> scoping \<Rightarrow> enforcement \<times> rate_limits \<Rightarrow> 's \<Rightarrow>
   ('e + enforcement \<times> rate_limits) \<times> 's" where
  "execute_sessions check summary sc acc s =
     (case acc of (enf, limits) \<Rightarrow>
        if sum_session_quantity summary > 0
        then (case check s (scoping_item sc DC_Session) (sum_session_quantity summary) of
                (Inl err, s') \<Rightarrow> (Inl err, s')
              | (Inr session_limits, s') \<Rightarrow>
                  let enf1 = enf\<lparr>enf_sessions :=
                        category_limit_new DC_Session (sum_session_quantity summary)
                          (longest session_limits)\<rparr>
                  in (Inr (enf1, rate_limits_merge limits session_limits), s'))
        else (Inr (enf, limits), s))"

definition execute ::
  "('s, 'e) check_fn \<Rightarrow> envelope_summary \<Rightarrow> scoping \<Rightarrow> 's \<Rightarrow>
   ('e + enforcement \<times> rate_limits) \<times> 's" where
  "execute check summary sc s =
     (case execute_event check summary sc (enforcement_default, rate_limits_new) s of
        (Inl err, s1) \<Rightarrow> (Inl err, s1)
      | (Inr acc1, s1) \<Rightarrow>
          (case execute_attachments check summary sc acc1 s1 of
             (Inl err, s2) \<Rightarrow> (Inl err, s2)
           | (Inr acc2, s2) \<Rightarrow> execute_sessions check summary sc acc2 s2))"

definition retain_item :: "enforcement \<Rightarrow> item \<Rightarrow> bool \<times> item" where
  "retain_item enf it =
     (if cl_is_active (enf_event enf) \<and> requires_event it then (False, it)
      else if cl_is_active (enf_attachments enf) \<and> item_ty it = IT_Attachment
      then (if creates_event it then (True, set_rate_limited True it) else (False, it))
      else if cl_is_active (enf_sessions enf) \<and> item_ty it = IT_Session then (False, it)
      else (True, it))"

definition enforce ::
  "('s, 'e) envelope_limiter \<Rightarrow> scoping \<Rightarrow> ('id, 'time, 'j, 'trace) envelope \<Rightarrow> 's \<Rightarrow>
   ('e + enforcement \<times> rate_limits) \<times> ('id, 'time, 'j, 'trace) envelope \<times> 's" where
  "enforce lim sc e s =
     (let summary0 = summary_compute e;
          summary = (case el_event_category lim of
                       Some category \<Rightarrow> summary0\<lparr>sum_event_category := Some category\<rparr>
                     | None \<Rightarrow> summary0)
      in case execute (el_check lim) summary sc s of
           (Inl err, s') \<Rightarrow> (Inl err, e, s')
         | (Inr (enf, limits), s') \<Rightarrow> (Inr (enf, limits), retain_items (retain_item enf) e, s'))"

section \<open>The header round trip\<close>

lemma format_rate_limit_not_Nil [simp]: "format_rate_limit now l \<noteq> []"
  by (simp add: format_rate_limit_def)

lemma foldl_join:
  assumes "\<And>x. f x \<noteq> []"
  shows "foldl (\<lambda>h x. (if h \<noteq> [] then h @ sep else h) @ f x) h xs =
           (if h = [] then join_with sep (map f xs)
            else if xs = [] then h else h @ sep @ join_with sep (map f xs))"
proof (induction xs arbitrary: h)
  case (Cons x xs)
  show ?case
    using assms Cons.IH [of "(if h \<noteq> [] then h @ sep else h) @ f x"] by (cases xs) auto
qed simp

lemma format_rate_limits_join:
  "format_rate_limits now ls = join_with '', '' (map (format_rate_limit now) ls)"
  using foldl_join [of "format_rate_limit now" "'', ''" "[]" ls]
  by (simp add: format_rate_limits_def)

lemma split_on_join_space:
  assumes "\<forall>p \<in> set ps. CHR '','' \<notin> set p" and "ps \<noteq> []"
  shows "split_on (CHR '','') (join_with '', '' ps) = hd ps # map (\<lambda>p. CHR '' '' # p) (tl ps)"
  using assms
proof (induction ps rule: induct_list012)
  case (3 p q ps)
  then have "split_on (CHR '','') (join_with '', '' (q # ps)) = q # map (\<lambda>p. CHR '' '' # p) ps"
    by simp
  with 3 show ?case by (simp add: split_on_append split_on_no_sep)
qed (simp_all add: split_on_no_sep)

text \<open>What a header can carry: seconds a double represents, a scope of the receiver and a reason
  free of separators and of trailing white space.\<close>

definition header_safe :: "instant \<Rightarrow> scoping \<Rightarrow> rate_limit \<Rightarrow> bool" where
  "header_safe now s l \<longleftrightarrow>
     remaining_seconds now (limit_retry_after l) < 2 ^ 53 \<and>
     limit_scope l = rate_limit_scope_for_quota s (quota_scope_from_name (rate_limit_scope_name (limit_scope l))) \<and>
     (case limit_reason_code l of
        None \<Rightarrow> True
      | Some r \<Rightarrow> CHR '','' \<notin> set r \<and> CHR '':'' \<notin> set r \<and> (r = [] \<or> visible (last r)))"

definition header_view :: "instant \<Rightarrow> rate_limit \<Rightarrow> rate_limit" where
  "header_view now l =
     l\<lparr>limit_retry_after :=
          retry_after_from_secs now (word_of_nat (remaining_seconds now (limit_retry_after l)))\<rparr>"

lemma scope_name_chars:
  "a \<in> set (rate_limit_scope_name sc) \<Longrightarrow> visible a \<and> a \<noteq> CHR '':'' \<and> a \<noteq> CHR '',''"
  by (cases sc) (auto simp: visible_def)

lemma scope_name_not_Nil [simp]: "rate_limit_scope_name sc \<noteq> []"
  by (cases sc) simp_all

lemma category_list_chars:
  "a \<in> set (join_with '';'' (map data_category_name cs)) \<Longrightarrow> a \<noteq> CHR '':'' \<and> a \<noteq> CHR '',''"
  by (drule join_with_set) (auto dest: data_category_name_chars)

lemma show_nat_chars: "a \<in> set (show_nat n) \<Longrightarrow> visible a \<and> a \<noteq> CHR '':'' \<and> a \<noteq> CHR '',''"
  using show_nat_digits [of a n] is_digit_visible [of a] by (auto simp: is_digit_def)

lemma parse_category_list:
  "map data_category_from_name (filter (\<lambda>c. c \<noteq> [])
     (split_on (CHR '';'') (join_with '';'' (map data_category_name cs)))) = cs"
proof (cases "cs = []")
  case False
  have "split_on (CHR '';'') (join_with '';'' (map data_category_name cs)) = map data_category_name cs"
    using False by (intro split_on_join) (auto dest: data_category_name_chars)
  then show ?thesis by (simp add: filter_map o_def)
qed simp

lemma format_components:
  assumes "header_safe now s l"
  shows "split_on (CHR '':'') (format_rate_limit now l) =
           [show_nat (remaining_seconds now (limit_retry_after l)),
            join_with '';'' (map data_category_name (limit_categories l)),
            rate_limit_scope_name (limit_scope l)]
           @ (case limit_reason_code l of Some r \<Rightarrow> [r] | None \<Rightarrow> [])"
proof -
  have n: "CHR '':'' \<notin> set (show_nat n)" for n using show_nat_chars by blast
  have c: "CHR '':'' \<notin> set (join_with '';'' (map data_category_name cs))" for cs
    using category_list_chars by blast
  have sc: "CHR '':'' \<notin> set (rate_limit_scope_name x)" for x using scope_name_chars by blast
  show ?thesis
    using assms
    by (cases "limit_reason_code l")
      (simp_all add: format_rate_limit_def header_safe_def split_on_append split_on_no_sep n c sc)
qed

lemma format_ends_visible:
  assumes "header_safe now s l"
  shows "visible (hd (format_rate_limit now l)) \<and> visible (last (format_rate_limit now l))"
proof -
  have hd: "visible (hd (show_nat n))" for n
    using show_nat_chars [of "hd (show_nat n)" n] by simp
  have last: "visible (last (rate_limit_scope_name x))" for x
    using scope_name_chars [of "last (rate_limit_scope_name x)" x] by simp
  show ?thesis
    using assms hd last
    by (cases "limit_reason_code l")
      (auto simp: format_rate_limit_def header_safe_def visible_def [of "CHR '':''"])
qed

lemma format_no_comma:
  assumes "header_safe now s l"
  shows "CHR '','' \<notin> set (format_rate_limit now l)"
proof -
  have n: "CHR '','' \<notin> set (show_nat n)" for n using show_nat_chars by blast
  have c: "CHR '','' \<notin> set (join_with '';'' (map data_category_name cs))" for cs
    using category_list_chars by blast
  have sc: "CHR '','' \<notin> set (rate_limit_scope_name x)" for x using scope_name_chars by blast
  show ?thesis
    using assms n c sc by (auto simp: format_rate_limit_def header_safe_def split: option.splits)
qed

lemma retry_after_from_str_show:
  "n < 2 ^ 53 \<Longrightarrow> retry_after_from_str now (show_nat n) = Some (retry_after_from_secs now (word_of_nat n))"
  by (simp add: retry_after_from_str_def parse_f64_show_nat f64_max_zero_round
      f64_ceil_round_small f64_to_u64_round_small)

lemma parse_format_rate_limit:
  assumes safe: "header_safe now s l"
    and piece: "piece = format_rate_limit now l \<or> piece = CHR '' '' # format_rate_limit now l"
  shows "parse_rate_limit now s piece = Some (header_view now l)"
proof -
  have t: "trim piece = format_rate_limit now l"
    using piece format_ends_visible [OF safe] by (auto simp: trim_visible trim_space_visible)
  have r: "retry_after_from_str now (show_nat (remaining_seconds now (limit_retry_after l)))
      = Some (retry_after_from_secs now (word_of_nat (remaining_seconds now (limit_retry_after l))))"
    using safe by (intro retry_after_from_str_show) (simp add: header_safe_def)
  have sc: "rate_limit_scope_for_quota s (quota_scope_from_name (rate_limit_scope_name (limit_scope l)))
      = limit_scope l"
    using safe by (simp add: header_safe_def)
  show ?thesis
    unfolding parse_rate_limit_def t Let_def format_components [OF safe]
    by (cases "limit_reason_code l")
      (simp_all add: component_def r parse_category_list sc header_view_def)
qed

lemma add_fresh:
  "sorted (limit_categories l) \<Longrightarrow> raw_key l \<notin> set (map raw_key ls) \<Longrightarrow> rate_limits_add ls l = ls @ [l]"
proof -
  have "raw_key l \<notin> set (map raw_key ls) \<Longrightarrow> rate_limits_upsert l ls = ls @ [l]" for ls
    by (induction ls) (auto simp: raw_key_def)
  then show "sorted (limit_categories l) \<Longrightarrow> raw_key l \<notin> set (map raw_key ls) \<Longrightarrow> ?thesis"
    by (simp add: rate_limits_add_def sort_key_id_if_sorted)
qed

lemma merge_disjoint:
  "rate_limits_inv (ls @ new) \<Longrightarrow> rate_limits_merge ls new = ls @ new"
  unfolding rate_limits_merge_def
proof (induction new arbitrary: ls)
  case (Cons l new)
  then have "rate_limits_add ls l = ls @ [l]"
    by (intro add_fresh) (auto simp: rate_limits_inv_def)
  with Cons.prems Cons.IH [of "ls @ [l]"] show ?case by simp
qed simp

lemma header_view_key [simp]: "raw_key (header_view now l) = raw_key l"
  by (simp add: header_view_def raw_key_def)

lemma header_view_inv: "rate_limits_inv ls \<Longrightarrow> rate_limits_inv (map (header_view now) ls)"
  by (simp add: rate_limits_inv_def o_def) (simp add: header_view_def)

lemma parse_pieces:
  "\<forall>p \<in> set ps. parse_rate_limit now s (fst p) = Some (snd p) \<Longrightarrow>
   foldl (\<lambda>ls piece. case parse_rate_limit now s piece of
            None \<Rightarrow> ls | Some l \<Rightarrow> rate_limits_add ls l) ls (map fst ps)
     = rate_limits_merge ls (map snd ps)"
  unfolding rate_limits_merge_def by (induction ps arbitrary: ls) auto

section \<open>What the limiter decides\<close>

lemma category_limit_new_active [simp]:
  "cl_is_active (category_limit_new c q l) \<longleftrightarrow> l \<noteq> None \<and> q > 0"
  by (cases l) (simp_all add: cl_is_active_def category_limit_new_def category_limit_default_def)

lemma default_inactive [simp]: "\<not> cl_is_active category_limit_default"
  by (simp add: cl_is_active_def category_limit_default_def)

lemma creates_requires: "creates_event it \<Longrightarrow> requires_event it"
  by (auto simp: creates_event_def requires_event_def split: item_type.splits)

text \<open>The summary of an envelope, counted independently of the loop.\<close>

definition limited_attachment :: "item \<Rightarrow> bool" where
  "limited_attachment it \<longleftrightarrow> item_ty it = IT_Attachment \<and> \<not> item_rate_limited it"

definition limited_session :: "item \<Rightarrow> bool" where
  "limited_session it \<longleftrightarrow> item_ty it = IT_Session \<and> \<not> item_rate_limited it"

lemma creates_event_category: "creates_event it \<Longrightarrow> \<exists>c. infer_event_category it = Some c \<and> c \<noteq> DC_Default"
  by (auto simp: creates_event_def infer_event_category_def split: item_type.splits)

lemma summary_item_fields:
  "sum_attachment_quantity (summary_item s it) =
     sum_attachment_quantity s + (if limited_attachment it then max (item_len it) 1 else 0)"
  "sum_session_quantity (summary_item s it) =
     sum_session_quantity s + (if limited_session it then 1 else 0)"
  "sum_has_plain_attachments (summary_item s it) \<longleftrightarrow>
     sum_has_plain_attachments s \<or> (item_ty it = IT_Attachment \<and> \<not> creates_event it)"
  "sum_event_category (summary_item s it) =
     (if creates_event it \<and> (sum_event_category s = None \<or> sum_event_category s = Some DC_Default)
      then infer_event_category it else sum_event_category s)"
  using creates_event_category [of it]
  by (auto simp: summary_item_def Let_def limited_attachment_def limited_session_def
      infer_category_def split: item_type.splits option.splits)

lemma summary_fold:
  "sum_attachment_quantity (foldl summary_item s its) =
     sum_attachment_quantity s + sum_list (map (\<lambda>it. max (item_len it) 1) (filter limited_attachment its))"
  "sum_session_quantity (foldl summary_item s its) =
     sum_session_quantity s + length (filter limited_session its)"
  "sum_has_plain_attachments (foldl summary_item s its) \<longleftrightarrow>
     sum_has_plain_attachments s \<or> (\<exists>it \<in> set its. item_ty it = IT_Attachment \<and> \<not> creates_event it)"
  by (induction its arbitrary: s) (auto simp: summary_item_fields)

lemma summary_fold_category:
  "sum_event_category s \<noteq> Some DC_Default \<Longrightarrow>
   sum_event_category (foldl summary_item s its) =
     (case sum_event_category s of
        Some c \<Rightarrow> Some c
      | None \<Rightarrow> Option.bind (List.find creates_event its) infer_event_category)"
proof (induction its arbitrary: s)
  case (Cons it its)
  then show ?case
    using creates_event_category [of it]
    by (cases "sum_event_category s") (auto simp: summary_item_fields split: option.splits)
qed (auto split: option.splits)

lemma merge_set: "rate_limits_inv new \<Longrightarrow> set (rate_limits_merge ls new) \<subseteq> set ls \<union> set new"
  unfolding rate_limits_merge_def
proof (induction new arbitrary: ls)
  case (Cons l new)
  have "set (rate_limits_add ls l) \<subseteq> insert l (set ls)"
    using Cons.prems upsert_set [of l ls]
    by (simp add: rate_limits_add_def rate_limits_inv_def sort_key_id_if_sorted)
  moreover have "rate_limits_inv new" using Cons.prems by (simp add: rate_limits_inv_def)
  ultimately show ?case using Cons.IH [of "rate_limits_add ls l"] by auto
qed simp

text \<open>The categories whose limits are reported to the client.\<close>

definition reported_categories :: "envelope_summary \<Rightarrow> data_category set" where
  "reported_categories summary =
     set_option (sum_event_category summary) \<union>
     (if sum_has_plain_attachments summary \<and> sum_attachment_quantity summary > 0
      then {DC_Attachment} else {}) \<union>
     (if sum_session_quantity summary > 0 then {DC_Session} else {})"

lemma reported_categories_in:
  "sum_event_category summary = Some c \<Longrightarrow> c \<in> reported_categories summary"
  "sum_has_plain_attachments summary \<Longrightarrow> sum_attachment_quantity summary > 0 \<Longrightarrow>
     DC_Attachment \<in> reported_categories summary"
  "sum_session_quantity summary > 0 \<Longrightarrow> DC_Session \<in> reported_categories summary"
  by (auto simp: reported_categories_def)

definition limits_apply :: "scoping \<Rightarrow> data_category set \<Rightarrow> rate_limits \<Rightarrow> bool" where
  "limits_apply sc cats ls \<longleftrightarrow>
     rate_limits_inv ls \<and> (\<forall>l \<in> set ls. \<exists>c \<in> cats. rate_limit_matches l (scoping_item sc c))"

lemma limits_apply_merge:
  assumes "limits_apply sc cats ls" and "rate_limits_inv new" and "all_match (scoping_item sc c) new"
    and "c \<in> cats"
  shows "limits_apply sc cats (rate_limits_merge ls new)"
  using assms merge_set [OF assms(2), of ls] unfolding limits_apply_def all_match_def
  by (auto simp: merge_inv)

lemma limits_apply_new [simp]: "limits_apply sc cats rate_limits_new"
  by (simp add: limits_apply_def) (simp add: rate_limits_new_def)

section \<open>The contract of a checker\<close>

text \<open>
  What the limiter needs of its \<open>check\<close> function: the limits it returns are well formed and
  apply to the item it was asked about.
\<close>

locale rate_limit_checker =
  fixes check :: "'s \<Rightarrow> item_scoping \<Rightarrow> nat \<Rightarrow> ('e + rate_limits) \<times> 's"
  assumes check_inv: "check s i n = (Inr ls, s') \<Longrightarrow> rate_limits_inv ls"
    and check_matches: "check s i n = (Inr ls, s') \<Longrightarrow> all_match i ls"
begin

lemma execute_event_limits:
  assumes "execute_event check summary sc (enf, ls) s = (Inr (enf', ls'), s')"
    and "limits_apply sc (reported_categories summary) ls"
  shows "limits_apply sc (reported_categories summary) ls'"
  using assms
  by (auto simp: execute_event_def Let_def reported_categories_in
      split: option.splits prod.splits sum.splits
      intro: limits_apply_merge dest: check_inv check_matches)

lemma execute_attachments_limits:
  assumes "execute_attachments check summary sc (enf, ls) s = (Inr (enf', ls'), s')"
    and "limits_apply sc (reported_categories summary) ls"
  shows "limits_apply sc (reported_categories summary) ls'"
  using assms
  by (auto simp: execute_attachments_def Let_def reported_categories_in
      split: if_splits prod.splits sum.splits
      intro: limits_apply_merge dest: check_inv check_matches)

lemma execute_sessions_limits:
  assumes "execute_sessions check summary sc (enf, ls) s = (Inr (enf', ls'), s')"
    and "limits_apply sc (reported_categories summary) ls"
  shows "limits_apply sc (reported_categories summary) ls'"
  using assms
  by (auto simp: execute_sessions_def Let_def reported_categories_in
      split: if_splits prod.splits sum.splits
      intro: limits_apply_merge dest: check_inv check_matches)

lemma execute_limits:
  assumes "execute check summary sc s = (Inr (enf, ls), s')"
  shows "limits_apply sc (reported_categories summary) ls"
  using assms
  by (auto simp: execute_def split: prod.splits sum.splits
      dest!: execute_event_limits execute_attachments_limits execute_sessions_limits)

end

definition quotas_check ::
  "instant \<Rightarrow> rate_limits \<Rightarrow> quota list \<Rightarrow> 's \<Rightarrow> item_scoping \<Rightarrow> nat \<Rightarrow> ('e + rate_limits) \<times> 's" where
  "quotas_check now ls quotas s i n = (Inr (check_with_quotas now ls quotas i), s)"

interpretation cached: rate_limit_checker "quotas_check now ls quotas" for now ls quotas
  by unfold_locales
    (auto simp: quotas_check_def check_with_quotas_inv check_with_quotas_all_match)

interpretation redis: rate_limit_checker "is_rate_limited lim now ts client invoke quotas"
  for lim now ts client invoke quotas
  by unfold_locales (auto dest: is_rate_limited_inv is_rate_limited_all_match)

section \<open>Outcomes of \<open>enforce\<close>\<close>

definition effective_summary ::
  "('s, 'e) envelope_limiter \<Rightarrow> ('id, 'time, 'j, 'trace) envelope \<Rightarrow> envelope_summary" where
  "effective_summary lim e =
     (case el_event_category lim of
        Some category \<Rightarrow> (summary_compute e)\<lparr>sum_event_category := Some category\<rparr>
      | None \<Rightarrow> summary_compute e)"

lemma enforce_effective:
  "enforce lim sc e s =
     (case execute (el_check lim) (effective_summary lim e) sc s of
        (Inl err, s') \<Rightarrow> (Inl err, e, s')
      | (Inr (enf, limits), s') \<Rightarrow> (Inr (enf, limits), retain_items (retain_item enf) e, s'))"
  by (simp add: enforce_def effective_summary_def Let_def)

lemma enforce_InrD:
  assumes "enforce lim sc e s = (Inr (enf, limits), e', s')"
  shows "execute (el_check lim) (effective_summary lim e) sc s = (Inr (enf, limits), s')"
    and "e' = e\<lparr>env_items := map (\<lambda>it. snd (retain_item enf it))
                               (filter (\<lambda>it. fst (retain_item enf it)) (env_items e))\<rparr>"
  using assms
  by (auto simp: enforce_effective retain_items_def retain_mut_map_filter
      split: sum.splits prod.splits)

lemma execute_event_limited:
  assumes "sum_event_category summary = Some c"
    and "check s (scoping_item sc c) 1 = (Inr ls, s1)" and "longest ls = Some l"
    and "execute check summary sc s = (Inr (enf, limits), s')"
  shows "enf_event enf = \<lparr>cl_category = c, cl_quantity = 1, cl_reason_code = limit_reason_code l\<rparr> \<and>
         enf_attachments enf = \<lparr>cl_category = DC_Attachment,
           cl_quantity = sum_attachment_quantity summary, cl_reason_code = limit_reason_code l\<rparr> \<and>
         (sum_session_quantity summary = 0 \<longrightarrow>
            s' = s1 \<and> limits = rate_limits_merge rate_limits_new ls \<and> \<not> cl_is_active (enf_sessions enf))"
  using assms
  by (auto simp: execute_def execute_event_def execute_attachments_def execute_sessions_def Let_def
      category_limit_new_def cl_is_active_def enforcement_default_def category_limit_default_def
      split: if_splits prod.splits sum.splits)

lemma retain_not_requires:
  "\<not> requires_event it \<Longrightarrow>
   retain_item enf it = (\<not> (cl_is_active (enf_sessions enf) \<and> item_ty it = IT_Session), it)"
  by (auto simp: retain_item_def requires_event_def)

lemma retain_item_snd: "snd (retain_item enf it) = it \<or> snd (retain_item enf it) = set_rate_limited True it"
  by (simp add: retain_item_def)

lemma set_rate_limited_twice [simp]:
  "set_rate_limited a (set_rate_limited b it) = set_rate_limited a it"
  by (simp add: set_rate_limited_def)

lemma retain_item_marked: "set_rate_limited True (snd (retain_item enf it)) = set_rate_limited True it"
  using retain_item_snd [of enf it] by auto

lemma retain_items_subseq:
  "subseq (map (set_rate_limited True) (env_items (retain_items (retain_item enf) e)))
     (map (set_rate_limited True) (env_items e))"
  by (simp add: retain_items_def retain_mut_map_filter retain_item_marked o_def subseq_map)

lemma retain_items_headers [simp]: "env_headers (retain_items f e) = env_headers e"
  by (simp add: retain_items_def)

section \<open>Example envelopes\<close>

definition example_minidump :: item where
  "example_minidump = set_attachment_type AT_Minidump (set_payload CT_Minidump [1, 2] (item_new IT_Attachment))"

definition deny :: "data_category \<Rightarrow> rate_limits" where
  "deny c = [example_limit [c] 100]"

definition example_limiter :: "rate_limits \<Rightarrow> (unit, string) envelope_limiter" where
  "example_limiter ls = limiter_new (quotas_check 0 ls [])"

definition minidump_envelope :: "item list \<Rightarrow> (nat, nat, nat, nat) envelope" where
  "minidump_envelope its = \<lparr>env_headers = env_headers example_envelope, env_items = its\<rparr>"

lemmas limiter_eval =
  enforce_def execute_def execute_event_def execute_attachments_def execute_sessions_def Let_def
  summary_compute_def summary_item_def summary_empty_def infer_category_def infer_event_category_def
  minidump_envelope_def example_limiter_def limiter_new_def quotas_check_def deny_def
  example_minidump_def example_item_def set_attachment_type_def set_payload_def item_new_def
  item_ty_def item_len_def item_rate_limited_def item_attachment_type_def creates_event_def
  requires_event_def check_with_quotas_def rate_limits_new_def rate_limit_matches_def
  rate_limit_matches_scope_def example_limit_def matches_categories_def scoping_item_def
  example_scoping_def rate_limits_add_def longest_def category_limit_new_def
  category_limit_default_def cl_is_active_def enforcement_default_def retain_items_def
  retain_item_def rate_limits_merge_def set_rate_limited_def attachment_type_default_def
  effective_summary_def

lemma example_item_facts:
  "env_items (minidump_envelope its) = its"
  "item_ty example_minidump = IT_Attachment" "creates_event example_minidump"
  "requires_event example_minidump" "item_ty example_item = IT_Attachment"
  "\<not> creates_event example_item" "requires_event example_item"
  "\<not> requires_event (item_new IT_Session)"
  by (simp_all add: limiter_eval)

section \<open>Properties\<close>



text \<open>C18: when the event passes but attachments are limited, plain attachments are removed while
  attachments that create events stay, marked as rate limited; and after that the
  envelope has no attachment left that would be counted against the quota again.\<close>

theorem enforce_attachments_limited:
  assumes run: "enforce lim sc e s = (Inr (enf, limits), e', s')"
    and event: "\<not> cl_is_active (enf_event enf)" and attachments: "cl_is_active (enf_attachments enf)"
  shows "filter (\<lambda>it. item_ty it = IT_Attachment) (env_items e') =
           map (set_rate_limited True)
             (filter (\<lambda>it. item_ty it = IT_Attachment \<and> creates_event it) (env_items e)) \<and>
         filter (\<lambda>it. requires_event it \<and> item_ty it \<noteq> IT_Attachment) (env_items e') =
           filter (\<lambda>it. requires_event it \<and> item_ty it \<noteq> IT_Attachment) (env_items e) \<and>
         sum_attachment_quantity (summary_compute e') = 0"
proof -
  have ret: "retain_item enf it =
      (if item_ty it = IT_Attachment
       then (if creates_event it then (True, set_rate_limited True it) else (False, it))
       else (\<not> (cl_is_active (enf_sessions enf) \<and> item_ty it = IT_Session), it))" for it
    using event attachments by (simp add: retain_item_def)
  have ty: "item_ty (set_rate_limited b it) = item_ty it" for b it
    by (simp add: set_rate_limited_def item_ty_def)
  have lim: "item_rate_limited (set_rate_limited True it)" for it
    by (simp add: set_rate_limited_def item_rate_limited_def)
  define out where "out = (\<lambda>its. map (\<lambda>it. snd (retain_item enf it)) (filter (\<lambda>it. fst (retain_item enf it)) its))"
  have att: "filter (\<lambda>it. item_ty it = IT_Attachment) (out its) =
      map (set_rate_limited True) (filter (\<lambda>it. item_ty it = IT_Attachment \<and> creates_event it) its)" for its
    by (induction its) (auto simp: out_def ret ty)
  have oth: "filter (\<lambda>it. requires_event it \<and> item_ty it \<noteq> IT_Attachment) (out its) =
      filter (\<lambda>it. requires_event it \<and> item_ty it \<noteq> IT_Attachment) its" for its
    by (induction its) (auto simp: out_def ret ty requires_event_def)
  have "filter limited_attachment (out its) = []" for its
    by (induction its) (auto simp: out_def ret ty limited_attachment_def lim)
  then show ?thesis
    using att oth enforce_InrD(2) [OF run]
    by (simp add: out_def summary_compute_def summary_fold summary_empty_def)
qed

theorem enforce_attachments_limited_witness:
  "let r = enforce (example_limiter (deny DC_Attachment)) example_scoping
             (minidump_envelope [example_minidump, example_item]) ()
   in filter (\<lambda>it. item_ty it = IT_Attachment) (env_items (fst (snd r)))
        = [set_rate_limited True example_minidump]"
proof -
  let ?e = "minidump_envelope [example_minidump, example_item]"
  let ?lim = "example_limiter (deny DC_Attachment)"
  have "\<exists>enf limits e'. enforce ?lim example_scoping ?e () = (Inr (enf, limits), e', ()) \<and>
      \<not> cl_is_active (enf_event enf) \<and> cl_is_active (enf_attachments enf)"
    by (simp add: limiter_eval)
  then obtain enf limits e' where r: "enforce ?lim example_scoping ?e () = (Inr (enf, limits), e', ())"
    "\<not> cl_is_active (enf_event enf)" "cl_is_active (enf_attachments enf)" by blast
  have "filter (\<lambda>it. item_ty it = IT_Attachment) (env_items e') = [set_rate_limited True example_minidump]"
    using enforce_attachments_limited [OF r] by (simp add: example_item_facts)
  then show ?thesis by (simp add: r(1))
qed

text \<open>Enforcement only ever removes items. Whatever the checker does, the headers stay, a
  failing check leaves the envelope as it was, and otherwise the remaining items are a
  subsequence of the original ones up to the rate limited mark; if no enforcement is
  active the envelope is unchanged.\<close>

lemma enforce_only_removes:
  assumes run: "enforce lim sc e s = (r, e', s')"
  shows "env_headers e' = env_headers e \<and>
         subseq (map (set_rate_limited True) (env_items e')) (map (set_rate_limited True) (env_items e)) \<and>
         (case r of
            Inl _ \<Rightarrow> e' = e
          | Inr (enf, limits) \<Rightarrow>
              \<not> cl_is_active (enf_event enf) \<and> \<not> cl_is_active (enf_attachments enf) \<and>
              \<not> cl_is_active (enf_sessions enf) \<longrightarrow> e' = e)"
proof (cases r)
  case (Inl err)
  with run have "e' = e" by (auto simp: enforce_effective split: sum.splits prod.splits)
  with Inl show ?thesis by simp
next
  case (Inr p)
  obtain enf limits where p: "p = (enf, limits)" by (cases p)
  have e': "e' = e\<lparr>env_items := map (\<lambda>it. snd (retain_item enf it))
                               (filter (\<lambda>it. fst (retain_item enf it)) (env_items e))\<rparr>"
    using enforce_InrD(2) run by (simp add: Inr p)
  have sub: "subseq (map (set_rate_limited True) (env_items e')) (map (set_rate_limited True) (env_items e))"
    by (simp add: e' o_def retain_item_marked subseq_map)
  have "\<not> cl_is_active (enf_event enf) \<Longrightarrow> \<not> cl_is_active (enf_attachments enf) \<Longrightarrow>
      \<not> cl_is_active (enf_sessions enf) \<Longrightarrow> retain_item enf it = (True, it)" for it
    by (simp add: retain_item_def)
  then show ?thesis using sub by (simp add: Inr p e')
qed

text \<open>With the cached limits of a project as the checker, everything reported to the client is
  well formed and applies to a category the envelope contains; attachment limits are
  reported only for plain attachments.\<close>

lemma enforce_cached_limits_apply:
  assumes "enforce (limiter_new (quotas_check now ls quotas)) sc e s = (Inr (enf, limits), e', s')"
  shows "limits_apply sc (reported_categories (summary_compute e)) limits"
  using cached.execute_limits [of now ls quotas "summary_compute e" sc s enf limits s'] enforce_InrD(1) [OF assms]
  by (simp add: limiter_new_def effective_summary_def)

text \<open>With Redis as the checker and an assumed event, the same holds for every response of the
  server.\<close>

lemma enforce_redis_limits_apply:
  assumes "enforce (assume_event c (limiter_new (is_rate_limited lim now ts client invoke quotas))) sc e s
             = (Inr (enf, limits), e', s')"
  shows "limits_apply sc
           (reported_categories ((summary_compute e)\<lparr>sum_event_category := Some c\<rparr>)) limits"
  using redis.execute_limits [of lim now ts client invoke quotas
      "(summary_compute e)\<lparr>sum_event_category := Some c\<rparr>" sc s enf limits s'] enforce_InrD(1) [OF assms]
  by (simp add: limiter_new_def assume_event_def effective_summary_def)

text \<open>The summary is exact. The event category is that of the first item that creates an event,
  the attachment quantity adds up the bytes (at least one per item) of attachments not
  limited before, and sessions are counted one by one.\<close>

lemma summary_compute_exact:
  "summary_compute e =
     \<lparr>sum_event_category = Option.bind (List.find creates_event (env_items e)) infer_event_category,
      sum_attachment_quantity =
        sum_list (map (\<lambda>it. max (item_len it) 1)
          (filter (\<lambda>it. item_ty it = IT_Attachment \<and> \<not> item_rate_limited it) (env_items e))),
      sum_session_quantity =
        length (filter (\<lambda>it. item_ty it = IT_Session \<and> \<not> item_rate_limited it) (env_items e)),
      sum_has_plain_attachments =
        list_ex (\<lambda>it. item_ty it = IT_Attachment \<and> \<not> creates_event it) (env_items e)\<rparr>"
  using summary_fold_category [of summary_empty "env_items e"]
  by (intro envelope_summary.equality)
    (simp_all add: summary_compute_def summary_fold summary_empty_def list_ex_iff
      limited_attachment_def [abs_def] limited_session_def [abs_def])

text \<open>The rate limits header round trip. Parsing the header that announces a well formed
  collection restores every limit with its categories, scope and reason, in order, expiring
  after the announced number of seconds.\<close>

lemma rate_limits_header_roundtrip:
  assumes "rate_limits_inv ls" and "\<forall>l \<in> set ls. header_safe now s l"
  shows "parse_rate_limits now s (format_rate_limits now ls) = map (header_view now) ls"
proof (cases ls)
  case Nil
  then show ?thesis
    by (simp add: parse_rate_limits_def format_rate_limits_def parse_rate_limit_def rate_limits_new_def
        trim_visible)
next
  case (Cons l ls')
  let ?f = "format_rate_limit now"
  have pieces: "split_on (CHR '','') (format_rate_limits now ls)
      = map fst ((?f l, header_view now l) # map (\<lambda>l. (CHR '' '' # ?f l, header_view now l)) ls')"
    using split_on_join_space [of "map ?f ls"] assms(2) format_no_comma
    by (auto simp: format_rate_limits_join Cons o_def)
  have "parse_rate_limits now s (format_rate_limits now ls)
      = rate_limits_merge rate_limits_new (map (header_view now) ls)"
    unfolding parse_rate_limits_def pieces
    by (subst parse_pieces) (use assms(2) in \<open>auto simp: Cons o_def intro!: parse_format_rate_limit\<close>)
  also have "\<dots> = map (header_view now) ls"
    using merge_disjoint [of rate_limits_new "map (header_view now) ls"] header_view_inv [OF assms(1)]
    by (simp add: rate_limits_new_def)
  finally show ?thesis .
qed

text \<open>A minidump that was marked as rate limited at an earlier stage is still checked, and
  removed, as the event it creates: the mark only exempts it from the attachment quota.\<close>

lemma limited_minidump_still_checked:
  "enforce (example_limiter (deny DC_Error)) example_scoping
     (minidump_envelope [set_rate_limited True example_minidump]) () =
   (Inr (\<lparr>enf_event = \<lparr>cl_category = DC_Error, cl_quantity = 1, cl_reason_code = None\<rparr>,
          enf_attachments = \<lparr>cl_category = DC_Attachment, cl_quantity = 0, cl_reason_code = None\<rparr>,
          enf_sessions = category_limit_default\<rparr>, deny DC_Error),
    minidump_envelope [], ())"
  by (simp add: limiter_eval)

end
