(* ===== verification/Sampling.thy ===== *)
theory Sampling
  imports Event_Filters Envelope
begin

text \<open>
  Dynamic sampling: rules and conditions (\<open>relay-sampling/src/lib.rs\<close>), the decision for an
  event and for a trace, and their application to envelopes
  (\<open>relay-server/src/utils/dynamic_sampling.rs\<close>, \<open>sample_event\<close> of
  \<open>relay-server/src/actors/envelopes.rs\<close>). The random generator, Unicode case folding and
  address parsing are fields of the record \<open>sampling_ext\<close>. Of the project state only the
  field \<open>config.dynamic_sampling\<close> is read, so that it stands for the whole state.
\<close>

section \<open>Conditions\<close>

datatype rule_type = RT_Trace | RT_Transaction | RT_Error

type_synonym rule_id = u32

datatype sampling_result = SR_Keep | SR_Drop rule_id | SR_NoDecision

text \<open>\<open>serde_json::Value\<close>.\<close>

datatype json_number = JN_PosInt u64 | JN_NegInt "64 word" | JN_Float f64

datatype json =
    J_Null
  | J_Bool bool
  | J_Number json_number
  | J_String string
  | J_Array "json list"
  | J_Object "(string \<times> json) list"

fun json_as_str :: "json \<Rightarrow> string option" where
  "json_as_str (J_String s) = Some s"
| "json_as_str _ = None"

fun json_as_array :: "json \<Rightarrow> json list option" where
  "json_as_array (J_Array xs) = Some xs"
| "json_as_array _ = None"

record eq_condition =
  eqc_name :: string
  eqc_value :: json
  eqc_ignore_case :: bool

record glob_condition =
  gc_name :: string
  gc_value :: glob_patterns

record custom_condition =
  cc_name :: string
  cc_value :: json
  cc_options :: "(string \<times> json) list"

datatype rule_condition =
    RC_Eq eq_condition
  | RC_Glob glob_condition
  | RC_Or "rule_condition list"
  | RC_And "rule_condition list"
  | RC_Not rule_condition
  | RC_Custom custom_condition
  | RC_Unsupported

fun condition_supported :: "rule_condition \<Rightarrow> bool" where
  "condition_supported RC_Unsupported = False"
| "condition_supported (RC_Eq _) = True"
| "condition_supported (RC_Glob _) = True"
| "condition_supported (RC_And inner) = list_all condition_supported inner"
| "condition_supported (RC_Or inner) = list_all condition_supported inner"
| "condition_supported (RC_Not inner) = condition_supported inner"
| "condition_supported (RC_Custom _) = True"

record sampling_rule =
  sr_condition :: rule_condition
  sr_sample_rate :: f64
  sr_ty :: rule_type
  sr_id :: rule_id

definition rule_supported :: "sampling_rule \<Rightarrow> bool" where
  "rule_supported r = condition_supported (sr_condition r)"

record sampling_config =
  sc_rules :: "sampling_rule list"
  sc_next_id :: "u32 option"

definition has_unsupported_rules :: "sampling_config \<Rightarrow> bool" where
  "has_unsupported_rules c \<longleftrightarrow> \<not> list_all rule_supported (sc_rules c)"

record trace_user_context =
  tuc_segment :: string
  tuc_id :: string

record trace_ctx =
  tc_trace_id :: "128 word"
  tc_public_key :: project_key
  tc_release :: "string option"
  tc_user :: "trace_user_context option"
  tc_environment :: "string option"

section \<open>Third-party code\<close>

record 'ip sampling_ext =
  sx_filter :: "'ip filter_ext"
  sx_unicase_eq :: "string \<Rightarrow> string \<Rightarrow> bool"
  sx_pcg32_uniform :: "u64 \<Rightarrow> u64 \<Rightarrow> f64"
  sx_parse_ip :: "string \<Rightarrow> 'ip option"

section \<open>Field values\<close>

definition event_get_value :: "'ip sampling_ext \<Rightarrow> event \<Rightarrow> string \<Rightarrow> json" where
  "event_get_value sx e field_name =
     (if field_name = ''event.release'' then
        (case ev_release e of None \<Rightarrow> J_Null | Some s \<Rightarrow> J_String s)
      else if field_name = ''event.environment'' then
        (case ev_environment e of None \<Rightarrow> J_Null | Some s \<Rightarrow> J_String s)
      else if field_name = ''event.user.id'' then
        (case ev_user e of
           None \<Rightarrow> J_Null
         | Some user \<Rightarrow>
             (case us_id user of
                None \<Rightarrow> J_Null
              | Some uid \<Rightarrow> if uid = [] then J_Null else J_String uid))
      else if field_name = ''event.user.segment'' then
        (case ev_user e of
           None \<Rightarrow> J_Null
         | Some user \<Rightarrow>
             (case us_segment user of
                None \<Rightarrow> J_Null
              | Some segment \<Rightarrow> if segment = [] then J_Null else J_String segment))
      else if field_name = ''event.is_local_ip'' then J_Bool (localhost_matches (sx_filter sx) e)
      else if field_name = ''event.has_bad_browser_extensions'' then
        J_Bool (browser_extensions_matches (sx_filter sx) e)
      else if field_name = ''event.web_crawlers'' then J_Bool (web_crawlers_matches (sx_filter sx) e)
      else J_Null)"

definition trace_get_value :: "trace_ctx \<Rightarrow> string \<Rightarrow> json" where
  "trace_get_value t field_name =
     (if field_name = ''trace.release'' then
        (case tc_release t of None \<Rightarrow> J_Null | Some s \<Rightarrow> J_String s)
      else if field_name = ''trace.environment'' then
        (case tc_environment t of None \<Rightarrow> J_Null | Some s \<Rightarrow> J_String s)
      else if field_name = ''trace.user.id'' then
        (case tc_user t of
           None \<Rightarrow> J_Null
         | Some user \<Rightarrow> if tuc_id user = [] then J_Null else J_String (tuc_id user))
      else if field_name = ''trace.user.segment'' then
        (case tc_user t of
           None \<Rightarrow> J_Null
         | Some user \<Rightarrow> if tuc_segment user = [] then J_Null else J_String (tuc_segment user))
      else J_Null)"

definition event_get_rule_type :: "event \<Rightarrow> rule_type" where
  "event_get_rule_type e =
     (case ev_ty e of
        Some ty \<Rightarrow> if ty = ET_Transaction then RT_Transaction else RT_Error
      | None \<Rightarrow> RT_Error)"

definition trace_get_rule_type :: "trace_ctx \<Rightarrow> rule_type" where
  "trace_get_rule_type _ = RT_Trace"

section \<open>Custom operators\<close>

type_synonym ('ip, 'a) custom_operator = "custom_condition \<Rightarrow> 'a \<Rightarrow> 'ip option \<Rightarrow> bool"

definition str_or_empty :: "json \<Rightarrow> string" where
  "str_or_empty v = (case json_as_str v of Some s \<Rightarrow> s | None \<Rightarrow> [])"

definition no_match :: "('ip, 'a) custom_operator" where
  "no_match _ _ _ = False"

definition client_ips_matcher :: "'ip sampling_ext \<Rightarrow> ('ip, event) custom_operator" where
  "client_ips_matcher sx c _ ip_addr =
     (case json_as_array (cc_value c) of
        Some ips \<Rightarrow> client_ips_matches (sx_filter sx) ip_addr (map str_or_empty ips)
      | None \<Rightarrow> False)"

definition legacy_browsers_matcher :: "'ip sampling_ext \<Rightarrow> ('ip, event) custom_operator" where
  "legacy_browsers_matcher sx c e _ =
     (case json_as_array (cc_value c) of
        Some browsers \<Rightarrow>
          legacy_browsers_matches (sx_filter sx) e
            (set (map (\<lambda>s. legacy_browser_from_str (str_or_empty s)) browsers))
      | None \<Rightarrow> False)"

definition error_messages_matcher :: "'ip sampling_ext \<Rightarrow> ('ip, event) custom_operator" where
  "error_messages_matcher sx c e _ =
     (case json_as_array (cc_value c) of
        Some patterns \<Rightarrow> error_messages_matches (sx_filter sx) e (map str_or_empty patterns)
      | None \<Rightarrow> False)"

definition csp_matcher :: "'ip sampling_ext \<Rightarrow> ('ip, event) custom_operator" where
  "csp_matcher sx c e _ =
     (case json_as_array (cc_value c) of
        Some sources \<Rightarrow> csp_matches (sx_filter sx) e (map str_or_empty sources)
      | None \<Rightarrow> False)"

definition event_get_custom_operator :: "'ip sampling_ext \<Rightarrow> string \<Rightarrow> ('ip, event) custom_operator" where
  "event_get_custom_operator sx name =
     (if name = ''event.client_ip'' then client_ips_matcher sx
      else if name = ''event.legacy_browser'' then legacy_browsers_matcher sx
      else if name = ''event.error_messages'' then error_messages_matcher sx
      else if name = ''event.csp'' then csp_matcher sx
      else no_match)"

definition trace_get_custom_operator :: "string \<Rightarrow> ('ip, trace_ctx) custom_operator" where
  "trace_get_custom_operator _ = no_match"

section \<open>Evaluation of conditions\<close>

text \<open>The two leaf conditions, generic in the provider of field values.\<close>

definition eq_matches :: "'ip sampling_ext \<Rightarrow> (string \<Rightarrow> json) \<Rightarrow> eq_condition \<Rightarrow> bool" where
  "eq_matches sx get_value c =
     (case get_value (eqc_name c) of
        J_Null \<Rightarrow> eqc_value c = J_Null
      | J_String field \<Rightarrow>
          (case eqc_value c of
             J_String val \<Rightarrow>
               if eqc_ignore_case c then sx_unicase_eq sx field val else field = val
           | J_Array val \<Rightarrow>
               if eqc_ignore_case c then
                 list_ex (\<lambda>v. case json_as_str v of Some v \<Rightarrow> sx_unicase_eq sx v field | None \<Rightarrow> False) val
               else
                 list_ex (\<lambda>v. case json_as_str v of Some v \<Rightarrow> v = field | None \<Rightarrow> False) val
           | _ \<Rightarrow> False)
      | J_Bool field \<Rightarrow> (case eqc_value c of J_Bool val \<Rightarrow> field = val | _ \<Rightarrow> False)
      | _ \<Rightarrow> False)"

definition glob_matches :: "'ip sampling_ext \<Rightarrow> (string \<Rightarrow> json) \<Rightarrow> glob_condition \<Rightarrow> bool" where
  "glob_matches sx get_value c =
     (case json_as_str (get_value (gc_name c)) of
        Some fv \<Rightarrow> globs_is_match (sx_filter sx) (gc_value c) fv
      | None \<Rightarrow> False)"

fun matches_event :: "'ip sampling_ext \<Rightarrow> event \<Rightarrow> 'ip option \<Rightarrow> rule_condition \<Rightarrow> bool" where
  "matches_event sx e ip (RC_Eq c) = eq_matches sx (event_get_value sx e) c"
| "matches_event sx e ip (RC_Glob c) = glob_matches sx (event_get_value sx e) c"
| "matches_event sx e ip (RC_And inner) = list_all (matches_event sx e ip) inner"
| "matches_event sx e ip (RC_Or inner) = list_ex (matches_event sx e ip) inner"
| "matches_event sx e ip (RC_Not inner) = (\<not> matches_event sx e ip inner)"
| "matches_event sx e ip RC_Unsupported = False"
| "matches_event sx e ip (RC_Custom c) = event_get_custom_operator sx (cc_name c) c e ip"

fun matches_trace :: "'ip sampling_ext \<Rightarrow> trace_ctx \<Rightarrow> 'ip option \<Rightarrow> rule_condition \<Rightarrow> bool" where
  "matches_trace sx t ip (RC_Eq c) = eq_matches sx (trace_get_value t) c"
| "matches_trace sx t ip (RC_Glob c) = glob_matches sx (trace_get_value t) c"
| "matches_trace sx t ip (RC_And inner) = list_all (matches_trace sx t ip) inner"
| "matches_trace sx t ip (RC_Or inner) = list_ex (matches_trace sx t ip) inner"
| "matches_trace sx t ip (RC_Not inner) = (\<not> matches_trace sx t ip inner)"
| "matches_trace sx t ip RC_Unsupported = False"
| "matches_trace sx t ip (RC_Custom c) = trace_get_custom_operator (cc_name c) c t ip"

section \<open>Decisions\<close>

definition pseudo_random_from_uuid :: "'ip sampling_ext \<Rightarrow> 128 word \<Rightarrow> f64" where
  "pseudo_random_from_uuid sx big_seed =
     sx_pcg32_uniform sx (ucast (drop_bit 64 big_seed)) (ucast big_seed)"

definition rule_type_for_event :: "event \<Rightarrow> rule_type" where
  "rule_type_for_event e = (if ev_ty e = Some ET_Transaction then RT_Transaction else RT_Error)"

definition get_matching_event_rule ::
  "'ip sampling_ext \<Rightarrow> sampling_config \<Rightarrow> event \<Rightarrow> 'ip option \<Rightarrow> rule_type \<Rightarrow> sampling_rule option" where
  "get_matching_event_rule sx c e ip ty =
     List.find (\<lambda>rule. sr_ty rule = ty \<and> matches_event sx e ip (sr_condition rule)) (sc_rules c)"

definition get_matching_trace_rule ::
  "'ip sampling_ext \<Rightarrow> sampling_config \<Rightarrow> trace_ctx \<Rightarrow> 'ip option \<Rightarrow> rule_type \<Rightarrow> sampling_rule option" where
  "get_matching_trace_rule sx c t ip ty =
     List.find (\<lambda>rule. sr_ty rule = ty \<and> matches_trace sx t ip (sr_condition rule)) (sc_rules c)"

definition should_keep ::
  "'ip sampling_ext \<Rightarrow> trace_ctx \<Rightarrow> 'ip option \<Rightarrow> sampling_config \<Rightarrow> sampling_result" where
  "should_keep sx t ip c =
     (case get_matching_trace_rule sx c t ip RT_Trace of
        Some rule \<Rightarrow>
          let rate = pseudo_random_from_uuid sx (tc_trace_id t) in
          if f64_less rate (sr_sample_rate rule) then SR_Keep else SR_Drop (sr_id rule)
      | None \<Rightarrow> SR_NoDecision)"

definition should_keep_event ::
  "'ip sampling_ext \<Rightarrow> event \<Rightarrow> 'ip option \<Rightarrow> sampling_config option \<Rightarrow> bool \<Rightarrow> sampling_result" where
  "should_keep_event sx e ip dynamic_sampling processing_enabled =
     (case dynamic_sampling of
        None \<Rightarrow> SR_NoDecision
      | Some c \<Rightarrow>
          if \<not> processing_enabled \<and> has_unsupported_rules c then SR_Keep
          else
            (case ev_id e of
               None \<Rightarrow> SR_NoDecision
             | Some event_id \<Rightarrow>
                 let ty = rule_type_for_event e in
                 (case get_matching_event_rule sx c e ip ty of
                    Some rule \<Rightarrow>
                      let random_number = pseudo_random_from_uuid sx event_id in
                      if f64_less random_number (sr_sample_rate rule) then SR_Keep
                      else SR_Drop (sr_id rule)
                  | None \<Rightarrow> SR_NoDecision)))"

section \<open>Sampling of envelopes\<close>

definition client_addr :: "'ip sampling_ext \<Rightarrow> 'd request_meta \<Rightarrow> 'ip option" where
  "client_addr sx m =
     (case split_on (CHR '','') (rm_forwarded_for m) of
        client # _ \<Rightarrow> sx_parse_ip sx (trim client)
      | [] \<Rightarrow> None)"

datatype processing_error = EventSampled rule_id

definition sample_event ::
  "'ip sampling_ext \<Rightarrow> bool \<Rightarrow> event option \<Rightarrow> ('id, 'time, 'j, 'trace) envelope \<Rightarrow>
   sampling_config option \<Rightarrow> processing_error + unit" where
  "sample_event sx processing_enabled ev envelope dynamic_sampling =
     (case ev of
        None \<Rightarrow> Inr ()
      | Some e \<Rightarrow>
          let client_ip = client_addr sx (eh_meta (env_headers envelope)) in
          (case should_keep_event sx e client_ip dynamic_sampling processing_enabled of
             SR_Drop rid \<Rightarrow> Inl (EventSampled rid)
           | SR_Keep \<Rightarrow> Inr ()
           | SR_NoDecision \<Rightarrow> Inr ()))"

type_synonym ('id, 'time, 'j) traced_envelope = "('id, 'time, 'j, trace_ctx) envelope"

definition sample_transaction_internal ::
  "'ip sampling_ext \<Rightarrow> ('id, 'time, 'j) traced_envelope \<Rightarrow> sampling_config option option \<Rightarrow> bool \<Rightarrow>
   rule_id + ('id, 'time, 'j) traced_envelope" where
  "sample_transaction_internal sx envelope project_state processing_enabled =
     (case project_state of
        None \<Rightarrow> Inr envelope
      | Some None \<Rightarrow> Inr envelope
      | Some (Some c) \<Rightarrow>
          if \<not> processing_enabled \<and> has_unsupported_rules c then Inr envelope
          else
            (case (trace_context envelope, get_item_by (\<lambda>it. item_ty it = IT_Transaction) envelope) of
               (Some t, Some _) \<Rightarrow>
                 let client_ip = client_addr sx (eh_meta (env_headers envelope)) in
                 (case should_keep sx t client_ip c of
                    SR_Drop rid \<Rightarrow>
                      (let env' =
                         (case take_item_by (\<lambda>it. item_ty it = IT_Transaction) envelope of
                            (Some _, e') \<Rightarrow> retain_items (\<lambda>it. (\<not> requires_event it, it)) e'
                          | (None, e') \<Rightarrow> e')
                       in if env_items env' = [] then Inl rid else Inr env')
                  | _ \<Rightarrow> Inr envelope)
             | _ \<Rightarrow> Inr envelope))"

text \<open>
  The answers of the project cache: a mailbox error, or the cached state if there is one
  (fast processing), or the result of waiting for the state.
\<close>

definition sample_trace ::
  "'ip sampling_ext \<Rightarrow> (project_key \<Rightarrow> 'mb + sampling_config option option) \<Rightarrow>
   (project_key \<Rightarrow> 'mb + ('pe + sampling_config option)) \<Rightarrow>
   ('id, 'time, 'j) traced_envelope \<Rightarrow> project_key option \<Rightarrow> bool \<Rightarrow> bool \<Rightarrow>
   rule_id + ('id, 'time, 'j) traced_envelope" where
  "sample_trace sx get_cached get_state envelope project_key fast_processing processing_enabled =
     (case project_key of
        None \<Rightarrow> Inr envelope
      | Some key \<Rightarrow>
          if trace_context envelope = None \<or>
             get_item_by (\<lambda>it. item_ty it = IT_Transaction) envelope = None
          then Inr envelope
          else if fast_processing then
            (case get_cached key of
               Inl _ \<Rightarrow> Inr envelope
             | Inr project_state \<Rightarrow>
                 sample_transaction_internal sx envelope project_state processing_enabled)
          else
            (case get_state key of
               Inl _ \<Rightarrow> Inr envelope
             | Inr project_state \<Rightarrow>
                 sample_transaction_internal sx envelope
                   (case project_state of Inl _ \<Rightarrow> None | Inr s \<Rightarrow> Some s) processing_enabled))"

section \<open>Conditions as a boolean algebra\<close>

text \<open>Negations pushed to the leaves; \<open>False\<close> stands for a pending negation.\<close>

fun nnf :: "bool \<Rightarrow> rule_condition \<Rightarrow> rule_condition" where
  "nnf pos (RC_And cs) = (if pos then RC_And (map (nnf pos) cs) else RC_Or (map (nnf pos) cs))"
| "nnf pos (RC_Or cs) = (if pos then RC_Or (map (nnf pos) cs) else RC_And (map (nnf pos) cs))"
| "nnf pos (RC_Not c) = nnf (\<not> pos) c"
| "nnf pos c = (if pos then c else RC_Not c)"

fun negation_free :: "rule_condition \<Rightarrow> bool" where
  "negation_free (RC_And cs) = list_all negation_free cs"
| "negation_free (RC_Or cs) = list_all negation_free cs"
| "negation_free (RC_Not c) = (case c of RC_And _ \<Rightarrow> False | RC_Or _ \<Rightarrow> False | RC_Not _ \<Rightarrow> False | _ \<Rightarrow> True)"
| "negation_free _ = True"

text \<open>What both evaluators promise about the combinators.\<close>

locale condition_evaluator =
  fixes eval :: "rule_condition \<Rightarrow> bool"
  assumes eval_and: "eval (RC_And cs) \<longleftrightarrow> (\<forall>c \<in> set cs. eval c)"
    and eval_or: "eval (RC_Or cs) \<longleftrightarrow> (\<exists>c \<in> set cs. eval c)"
    and eval_not: "eval (RC_Not c) \<longleftrightarrow> \<not> eval c"
    and eval_unsupported: "\<not> eval RC_Unsupported"
begin

lemma not_and: "eval (RC_Not (RC_And cs)) = eval (RC_Or (map RC_Not cs))"
  by (auto simp: eval_and eval_or eval_not)

lemma not_or: "eval (RC_Not (RC_Or cs)) = eval (RC_And (map RC_Not cs))"
  by (auto simp: eval_and eval_or eval_not)

lemma negation_normal_form:
  "eval (nnf True c) = eval c \<and> eval (nnf False c) = (\<not> eval c)"
  by (induction c) (auto simp: eval_and eval_or eval_not list_all_iff)

end

interpretation event_cond: condition_evaluator "matches_event sx e ip"
  by unfold_locales (auto simp: list_all_iff list_ex_iff)

interpretation trace_cond: condition_evaluator "matches_trace sx t ip"
  by unfold_locales (auto simp: list_all_iff list_ex_iff)

lemma nnf_supported: "condition_supported (nnf pos c) = condition_supported c"
  by (induction c arbitrary: pos) (auto simp: list_all_iff)

lemma nnf_negation_free: "negation_free (nnf pos c)"
  by (induction c arbitrary: pos) (auto simp: list_all_iff)

section \<open>Traces\<close>

text \<open>Trace conditions have no custom operators, so that they cannot depend on the client address.\<close>

lemma matches_trace_fields:
  assumes "tc_release t = tc_release u" and "tc_user t = tc_user u" and "tc_environment t = tc_environment u"
  shows "matches_trace sx t ip c = matches_trace sx u ip' c"
proof (induction c)
  have "trace_get_value t = trace_get_value u"
    using assms by (simp add: trace_get_value_def fun_eq_iff)
  then show "matches_trace sx t ip (RC_Eq c) = matches_trace sx u ip' (RC_Eq c)"
    "matches_trace sx t ip (RC_Glob g) = matches_trace sx u ip' (RC_Glob g)" for c g
    by simp_all
qed (auto simp: list_all_iff list_ex_iff trace_get_custom_operator_def no_match_def)

text \<open>The sampling decision of a trace is consistent across all projects and services that share
  a configuration: it depends on the trace id, release, user and environment only, not on
  the client address nor on the public key.\<close>

lemma trace_decision_consistent:
  assumes "tc_trace_id t = tc_trace_id u" and "tc_release t = tc_release u"
    and "tc_user t = tc_user u" and "tc_environment t = tc_environment u"
  shows "should_keep sx t ip c = should_keep sx u ip' c"
proof -
  have "matches_trace sx t ip k = matches_trace sx u ip' k" for k
    by (rule matches_trace_fields [OF assms(2-4)])
  then show ?thesis
    by (simp add: should_keep_def get_matching_trace_rule_def assms(1) split: option.splits)
qed

section \<open>Rates\<close>

text \<open>The documented range of \<open>Uniform::new(0, 1)\<close>.\<close>

definition uniform_unit :: "'ip sampling_ext \<Rightarrow> bool" where
  "uniform_unit sx \<longleftrightarrow>
     (\<forall>s t. \<not> f64_less (sx_pcg32_uniform sx s t) f64_zero \<and> f64_less (sx_pcg32_uniform sx s t) (f64_of_nat 1))"

lemma random_below_one:
  assumes "uniform_unit sx" and "\<not> f64_less rate (f64_of_nat 1)" and "rate \<noteq> F64_NaN"
  shows "f64_less (pseudo_random_from_uuid sx i) rate"
  using assms f64_less_trans_not unfolding uniform_unit_def pseudo_random_from_uuid_def by blast

lemma random_not_below_zero:
  assumes "uniform_unit sx" and "\<not> f64_less f64_zero rate"
  shows "\<not> f64_less (pseudo_random_from_uuid sx i) rate"
  using assms f64_not_less_trans [of _ f64_zero rate]
  unfolding uniform_unit_def pseudo_random_from_uuid_def by (auto simp: f64_zero_def)

text \<open>A rule decides about an event when it has the event's type and its condition matches.\<close>

definition rule_applies :: "'ip sampling_ext \<Rightarrow> event \<Rightarrow> 'ip option \<Rightarrow> sampling_rule \<Rightarrow> bool" where
  "rule_applies sx e ip r \<longleftrightarrow>
     sr_ty r = (if ev_ty e = Some ET_Transaction then RT_Transaction else RT_Error) \<and>
     matches_event sx e ip (sr_condition r)"

lemma get_matching_event_rule_split:
  "get_matching_event_rule sx c e ip (rule_type_for_event e) = Some r \<longleftrightarrow>
     (\<exists>before after. sc_rules c = before @ r # after \<and> rule_applies sx e ip r \<and>
        list_all (\<lambda>y. \<not> rule_applies sx e ip y) before)"
  unfolding get_matching_event_rule_def find_Some_split
  by (simp add: rule_applies_def rule_type_for_event_def)

text \<open>C30: the first applicable rule alone decides about an event. With a rate of at least one it
  keeps every event, with a rate of at most zero (or NaN) it drops every event, and in
  between the random number of the event id decides. Relays that do not process and meet
  an unsupported rule keep everything.\<close>

theorem first_applicable_rule_decides:
  assumes "uniform_unit sx" and "ev_id e = Some i"
    and "sc_rules c = before @ r # after" and "rule_applies sx e ip r"
    and "list_all (\<lambda>y. \<not> rule_applies sx e ip y) before"
  shows "should_keep_event sx e ip (Some c) processing =
           (if \<not> processing \<and> has_unsupported_rules c then SR_Keep
            else if sr_sample_rate r = F64_NaN \<or> \<not> f64_less f64_zero (sr_sample_rate r) then SR_Drop (sr_id r)
            else if \<not> f64_less (sr_sample_rate r) (f64_of_nat 1) then SR_Keep
            else if f64_less (pseudo_random_from_uuid sx i) (sr_sample_rate r) then SR_Keep
            else SR_Drop (sr_id r))"
proof -
  have "get_matching_event_rule sx c e ip (rule_type_for_event e) = Some r"
    using assms(3-5) get_matching_event_rule_split by blast
  then have step: "should_keep_event sx e ip (Some c) processing =
      (if \<not> processing \<and> has_unsupported_rules c then SR_Keep
       else if f64_less (pseudo_random_from_uuid sx i) (sr_sample_rate r) then SR_Keep
       else SR_Drop (sr_id r))"
    by (simp add: should_keep_event_def assms(2))
  have "sr_sample_rate r = F64_NaN \<Longrightarrow> \<not> f64_less (pseudo_random_from_uuid sx i) (sr_sample_rate r)"
    by simp
  then show ?thesis
    unfolding step using random_below_one [OF assms(1)] random_not_below_zero [OF assms(1)] by auto
qed

section \<open>Envelopes\<close>

text \<open>The sampling configuration that the project cache answers with.\<close>

definition known_config ::
  "(project_key \<Rightarrow> 'mb + sampling_config option option) \<Rightarrow>
   (project_key \<Rightarrow> 'mb + ('pe + sampling_config option)) \<Rightarrow> bool \<Rightarrow> project_key \<Rightarrow> sampling_config option" where
  "known_config get_cached get_state fast key =
     (if fast then (case get_cached key of Inr (Some (Some c)) \<Rightarrow> Some c | _ \<Rightarrow> None)
      else (case get_state key of Inr (Inr (Some c)) \<Rightarrow> Some c | _ \<Rightarrow> None))"

text \<open>The rule that drops the transaction of an envelope, if any.\<close>

definition trace_verdict ::
  "'ip sampling_ext \<Rightarrow> sampling_config option \<Rightarrow> bool \<Rightarrow> ('id, 'time, 'j) traced_envelope \<Rightarrow> rule_id option" where
  "trace_verdict sx config processing e =
     (case (config, trace_context e) of
        (Some c, Some t) \<Rightarrow>
          if (processing \<or> \<not> has_unsupported_rules c) \<and>
             list_ex (\<lambda>it. item_ty it = IT_Transaction) (env_items e)
          then (case should_keep sx t (client_addr sx (eh_meta (env_headers e))) c of
                  SR_Drop rid \<Rightarrow> Some rid | _ \<Rightarrow> None)
          else None
      | _ \<Rightarrow> None)"

lemma find_None_list_ex: "List.find P xs = None \<longleftrightarrow> \<not> list_ex P xs"
  by (auto simp: find_None_iff list_ex_iff)

lemma transaction_requires_event: "item_ty it = IT_Transaction \<Longrightarrow> requires_event it"
  by (simp add: requires_event_def)

text \<open>Removing the transaction and then its dependents leaves the independent items.\<close>

lemma remove_transaction:
  assumes "list_ex (\<lambda>it. item_ty it = IT_Transaction) (env_items e)"
  obtains it e' where "take_item_by (\<lambda>it. item_ty it = IT_Transaction) e = (Some it, e')"
    and "mset (env_items (retain_items (\<lambda>it. (\<not> requires_event it, it)) e')) =
           filter_mset (\<lambda>it. \<not> requires_event it) (mset (env_items e))"
    and "env_headers (retain_items (\<lambda>it. (\<not> requires_event it, it)) e') = env_headers e"
proof -
  obtain r e' where te: "take_item_by (\<lambda>it. item_ty it = IT_Transaction) e = (r, e')" by fastforce
  note rem = take_item_by_removes_one [OF te]
  from rem assms obtain it where r: "r = Some it" by (cases r) (auto simp: list_ex_iff)
  have it: "requires_event it" and ms: "mset (env_items e) = add_mset it (mset (env_items e'))"
    using rem transaction_requires_event by (auto simp: r)
  have "filter_mset (\<lambda>it. \<not> requires_event it) (mset (env_items e)) =
      mset (filter (\<lambda>it. \<not> requires_event it) (env_items e'))"
    by (simp add: ms it)
  with te r rem that show thesis
    by (simp add: retain_items_def retain_mut_map_filter)
qed

lemma sample_transaction_internal_verdict:
  "case trace_verdict sx (Option.bind project_state (\<lambda>c. c)) processing e of
     None \<Rightarrow> sample_transaction_internal sx e project_state processing = Inr e
   | Some rid \<Rightarrow>
       if list_all requires_event (env_items e)
       then sample_transaction_internal sx e project_state processing = Inl rid
       else \<exists>e'. sample_transaction_internal sx e project_state processing = Inr e' \<and>
              env_headers e' = env_headers e \<and>
              mset (env_items e') = filter_mset (\<lambda>it. \<not> requires_event it) (mset (env_items e))"
proof (cases "trace_verdict sx (Option.bind project_state (\<lambda>c. c)) processing e")
  case None
  then show ?thesis
    by (auto simp: sample_transaction_internal_def trace_verdict_def get_item_by_def find_None_list_ex
        [symmetric] Let_def split: option.splits sampling_result.splits if_splits)
next
  case (Some rid)
  then obtain c t where c: "project_state = Some (Some c)" "trace_context e = Some t"
    "processing \<or> \<not> has_unsupported_rules c"
    and tx: "list_ex (\<lambda>it. item_ty it = IT_Transaction) (env_items e)"
    and drop: "should_keep sx t (client_addr sx (eh_meta (env_headers e))) c = SR_Drop rid"
    by (auto simp: trace_verdict_def bind_eq_Some_conv split: option.splits sampling_result.splits if_splits)
  obtain it where it: "get_item_by (\<lambda>it. item_ty it = IT_Transaction) e = Some it"
    using tx find_None_list_ex unfolding get_item_by_def by blast
  obtain it' e' where te: "take_item_by (\<lambda>it. item_ty it = IT_Transaction) e = (Some it', e')"
    and ms: "mset (env_items (retain_items (\<lambda>it. (\<not> requires_event it, it)) e')) =
           filter_mset (\<lambda>it. \<not> requires_event it) (mset (env_items e))"
    and hd: "env_headers (retain_items (\<lambda>it. (\<not> requires_event it, it)) e') = env_headers e"
    using remove_transaction [OF tx] by blast
  define env' where "env' = retain_items (\<lambda>it. (\<not> requires_event it, it)) e'"
  have res: "sample_transaction_internal sx e project_state processing =
      (if env_items env' = [] then Inl rid else Inr env')"
    using c(3) by (auto simp: sample_transaction_internal_def c(1,2) it te drop env'_def)
  have "env_items env' = [] \<longleftrightarrow> mset (env_items env') = {#}" by simp
  also have "\<dots> \<longleftrightarrow> list_all requires_event (env_items e)"
    by (simp add: env'_def ms mset_filter [symmetric] filter_empty_conv list_all_iff del: mset_filter)
  finally show ?thesis
    using ms hd by (simp add: Some res env'_def)
qed

text \<open>C14: trace sampling either leaves an envelope untouched, or, when the first matching trace rule
  of a known configuration drops the trace, removes exactly the transaction and the items
  that depend on it. If nothing else was in the envelope, the rule's identifier is
  returned as the error.\<close>

theorem sample_trace_exact:
  "case trace_verdict sx (Option.bind key (known_config get_cached get_state fast)) processing e of
     None \<Rightarrow> sample_trace sx get_cached get_state e key fast processing = Inr e
   | Some rid \<Rightarrow>
       if list_all requires_event (env_items e)
       then sample_trace sx get_cached get_state e key fast processing = Inl rid
       else \<exists>e'. sample_trace sx get_cached get_state e key fast processing = Inr e' \<and>
              env_headers e' = env_headers e \<and>
              mset (env_items e') = filter_mset (\<lambda>it. \<not> requires_event it) (mset (env_items e))"
proof -
  define ps where "ps = Option.bind key (\<lambda>k. if fast then (case get_cached k of Inr s \<Rightarrow> s | Inl _ \<Rightarrow> None)
      else (case get_state k of Inr (Inr s) \<Rightarrow> Some s | _ \<Rightarrow> None))"
  have config: "Option.bind key (known_config get_cached get_state fast) = Option.bind ps (\<lambda>c. c)"
    by (auto simp: ps_def known_config_def fun_eq_iff split: option.splits sum.splits bind_splits)
  have "sample_trace sx get_cached get_state e key fast processing =
      sample_transaction_internal sx e ps processing"
    by (auto simp: sample_trace_def sample_transaction_internal_def ps_def Let_def
        split: option.splits sum.splits)
  then show ?thesis
    using sample_transaction_internal_verdict [where sx = sx and project_state = ps and processing = processing and e = e] by (simp only: config)
qed

section \<open>Concrete instances\<close>

definition example_sx :: "nat sampling_ext" where
  "example_sx =
     \<lparr>sx_filter = example_fx, sx_unicase_eq = (\<lambda>a b. to_ascii_lowercase a = to_ascii_lowercase b),
      sx_pcg32_uniform = (\<lambda>_ _. f64_zero), sx_parse_ip = (\<lambda>_. None)\<rparr>"

definition example_rule :: "rule_type \<Rightarrow> f64 \<Rightarrow> sampling_rule" where
  "example_rule ty rate =
     \<lparr>sr_condition = RC_And [], sr_sample_rate = rate, sr_ty = ty, sr_id = 7\<rparr>"

definition example_trace :: "char \<Rightarrow> trace_ctx" where
  "example_trace c =
     \<lparr>tc_trace_id = 5, tc_public_key = ProjectKey (replicate 32 c), tc_release = Some ''1.0'',
      tc_user = None, tc_environment = None\<rparr>"

lemma example_uniform: "uniform_unit example_sx"
proof -
  have one: "f64_of_nat 1 = F64_Fin False (2 ^ 52) (- 52)"
    by (simp add: f64_of_nat_def f64_round_def bit_length.simps Let_def)
  have "0 < scaled False (2 ^ 52) (- 52) k" for k by (simp add: scaled_def)
  then have "f64_less f64_zero (f64_of_nat 1)" "\<not> f64_less f64_zero f64_zero"
    by (simp_all only: one f64_zero_def f64_less.simps Let_def scaled_zero)
  then show ?thesis by (simp add: uniform_unit_def example_sx_def)
qed

theorem first_applicable_rule_decides_witness:
  "should_keep_event example_sx example_event None
     (Some \<lparr>sc_rules = [example_rule RT_Transaction (f64_of_nat 1), example_rule RT_Error f64_zero],
            sc_next_id = None\<rparr>) True = SR_Drop 7"
proof -
  let ?t = "example_rule RT_Transaction (f64_of_nat 1)" and ?r = "example_rule RT_Error f64_zero"
  let ?c = "\<lparr>sc_rules = [?t, ?r], sc_next_id = None\<rparr>"
  have "should_keep_event example_sx example_event None (Some ?c) True =
      (if \<not> True \<and> has_unsupported_rules ?c then SR_Keep
       else if sr_sample_rate ?r = F64_NaN \<or> \<not> f64_less f64_zero (sr_sample_rate ?r) then SR_Drop (sr_id ?r)
       else if \<not> f64_less (sr_sample_rate ?r) (f64_of_nat 1) then SR_Keep
       else if f64_less (pseudo_random_from_uuid example_sx 1) (sr_sample_rate ?r) then SR_Keep
       else SR_Drop (sr_id ?r))"
    by (rule first_applicable_rule_decides [OF example_uniform, where before = "[?t]" and after = "[]"])
      (simp_all add: example_event_def example_rule_def rule_applies_def)
  then show ?thesis by (simp add: example_rule_def f64_zero_def)
qed

text \<open>The decision about a trace does not check the validity of the configuration: a rule whose
  condition negates an unsupported one is unsupported and yet matches every trace. With
  a rate of zero it drops all of them; the callers have to test for unsupported rules.\<close>

lemma invalid_config_still_decides:
  assumes "uniform_unit sx"
  shows "has_unsupported_rules
           \<lparr>sc_rules = [\<lparr>sr_condition = RC_Not RC_Unsupported, sr_sample_rate = f64_zero, sr_ty = RT_Trace,
                         sr_id = i\<rparr>], sc_next_id = n\<rparr> \<and>
         should_keep sx t ip
           \<lparr>sc_rules = [\<lparr>sr_condition = RC_Not RC_Unsupported, sr_sample_rate = f64_zero, sr_ty = RT_Trace,
                         sr_id = i\<rparr>], sc_next_id = n\<rparr> = SR_Drop i"
proof -
  have "\<not> f64_less (pseudo_random_from_uuid sx k) f64_zero" for k
    using random_not_below_zero [OF assms] by (simp add: f64_zero_def)
  then show ?thesis
    by (simp add: has_unsupported_rules_def rule_supported_def should_keep_def get_matching_trace_rule_def)
qed

end
