(* ===== verification/Metrics_Protocol.thy ===== *)
theory Metrics_Protocol
  imports Relay_Common Float64 Ordered_Map
begin

text \<open>
  The metrics submission protocol (\<open>relay-metrics/src/protocol.rs\<close>): metric units, types and
  values, the parser of one metric and the line iterator \<open>ParseMetrics\<close>. The FNV hash of
  set values comes from the crate \<open>hash32\<close> and is an argument.
\<close>

section \<open>Units, types and values\<close>

datatype duration_precision = DP_NanoSecond | DP_MilliSecond | DP_Second

definition duration_precision_default :: duration_precision where
  "duration_precision_default = DP_MilliSecond"

fun duration_precision_display :: "duration_precision \<Rightarrow> string" where
  "duration_precision_display DP_NanoSecond = ''ns''"
| "duration_precision_display DP_MilliSecond = ''ms''"
| "duration_precision_display DP_Second = ''s''"

datatype metric_unit = MU_Duration duration_precision | MU_None

definition metric_unit_is_none :: "metric_unit \<Rightarrow> bool" where
  "metric_unit_is_none u = (case u of MU_None \<Rightarrow> True | _ \<Rightarrow> False)"

definition metric_unit_default :: metric_unit where
  "metric_unit_default = MU_None"

fun metric_unit_display :: "metric_unit \<Rightarrow> string" where
  "metric_unit_display (MU_Duration precision) = duration_precision_display precision"
| "metric_unit_display MU_None = []"

definition metric_unit_from_str :: "string \<Rightarrow> metric_unit option" where
  "metric_unit_from_str s =
     (if s = ''ns'' then Some (MU_Duration DP_NanoSecond)
      else if s = ''ms'' then Some (MU_Duration DP_MilliSecond)
      else if s = ''s'' then Some (MU_Duration DP_Second)
      else if s = [] \<or> s = ''unit'' \<or> s = ''none'' then Some MU_None
      else None)"

interpretation metric_unit: str_enum metric_unit_display metric_unit_from_str
proof
  show "metric_unit_from_str (metric_unit_display u) = Some u" for u
  proof (cases u)
    case (MU_Duration precision)
    then show ?thesis by (cases precision) (simp_all add: metric_unit_from_str_def)
  qed (simp add: metric_unit_from_str_def)
qed

datatype metric_type = MT_Counter | MT_Distribution | MT_Set | MT_Gauge

fun metric_type_display :: "metric_type \<Rightarrow> string" where
  "metric_type_display MT_Counter = ''c''"
| "metric_type_display MT_Distribution = ''d''"
| "metric_type_display MT_Set = ''s''"
| "metric_type_display MT_Gauge = ''g''"

definition metric_type_from_str :: "string \<Rightarrow> metric_type option" where
  "metric_type_from_str s =
     (if s = ''c'' \<or> s = ''m'' then Some MT_Counter
      else if s = ''h'' \<or> s = ''d'' \<or> s = ''ms'' then Some MT_Distribution
      else if s = ''s'' then Some MT_Set
      else if s = ''g'' then Some MT_Gauge
      else None)"

interpretation metric_type: str_enum metric_type_display metric_type_from_str
proof
  show "metric_type_from_str (metric_type_display t) = Some t" for t
    by (cases t) (simp_all add: metric_type_from_str_def)
qed

datatype metric_value =
    MV_Counter f64
  | MV_Distribution f64
  | MV_Set u32
  | MV_Gauge f64

fun metric_value_ty :: "metric_value \<Rightarrow> metric_type" where
  "metric_value_ty (MV_Counter _) = MT_Counter"
| "metric_value_ty (MV_Distribution _) = MT_Distribution"
| "metric_value_ty (MV_Set _) = MT_Set"
| "metric_value_ty (MV_Gauge _) = MT_Gauge"

definition set_from_str :: "(string \<Rightarrow> u32) \<Rightarrow> string \<Rightarrow> metric_value" where
  "set_from_str hash_set_value s = MV_Set (hash_set_value s)"

section \<open>Parsing one metric\<close>

datatype parse_metric_error = ParseMetricError

definition is_ascii_alphabetic :: "char \<Rightarrow> bool" where
  "is_ascii_alphabetic c \<longleftrightarrow>
     (65 \<le> (of_char c :: nat) \<and> (of_char c :: nat) \<le> 90) \<or>
     (97 \<le> (of_char c :: nat) \<and> (of_char c :: nat) \<le> 122)"

definition is_valid_name :: "string \<Rightarrow> bool" where
  "is_valid_name name =
     (case name of
        [] \<Rightarrow> False
      | first_byte # rest \<Rightarrow>
          is_ascii_alphabetic first_byte \<and>
          list_all (\<lambda>b. is_ascii_alphabetic b \<or> is_digit b \<or> b = CHR ''.'' \<or> b = CHR ''_'') rest)"

definition parse_name_unit :: "string \<Rightarrow> (string \<times> metric_unit) option" where
  "parse_name_unit s =
     (case split_on (CHR ''@'') s of
        [] \<Rightarrow> None
      | name # components \<Rightarrow>
          if \<not> is_valid_name name then None
          else (case components of
                  [] \<Rightarrow> Some (name, metric_unit_default)
                | u # _ \<Rightarrow> map_option (\<lambda>unit. (name, unit)) (metric_unit_from_str u)))"

definition parse_value :: "(string \<Rightarrow> u32) \<Rightarrow> string \<Rightarrow> metric_type \<Rightarrow> metric_value option" where
  "parse_value hash_set_value s ty =
     (case ty of
        MT_Counter \<Rightarrow> map_option MV_Counter (parse_f64 s)
      | MT_Distribution \<Rightarrow> map_option MV_Distribution (parse_f64 s)
      | MT_Set \<Rightarrow> Some (MV_Set (case parse_u32 s of Some n \<Rightarrow> n | None \<Rightarrow> hash_set_value s))
      | MT_Gauge \<Rightarrow> map_option MV_Gauge (parse_f64 s))"

definition parse_name_unit_value ::
  "(string \<Rightarrow> u32) \<Rightarrow> string \<Rightarrow> metric_type \<Rightarrow> (string \<times> metric_unit \<times> metric_value) option" where
  "parse_name_unit_value hash_set_value s ty =
     (case splitn2 (CHR '':'') s of
        (name_unit, rest) \<Rightarrow>
          (case parse_name_unit name_unit of
             None \<Rightarrow> None
           | Some (name, unit) \<Rightarrow>
               (case Option.bind rest (\<lambda>v. parse_value hash_set_value v ty) of
                  None \<Rightarrow> None
                | Some v \<Rightarrow> Some (name, unit, v))))"

definition parse_tags :: "string \<Rightarrow> (string, string) btree_map" where
  "parse_tags s =
     foldl (\<lambda>map pair.
         (case splitn2 (CHR '':'') pair of
            (name, v) \<Rightarrow> bt_insert str_le name (case v of Some v \<Rightarrow> v | None \<Rightarrow> []) map))
       [] (split_on (CHR '','') s)"

record metric =
  metric_name :: string
  metric_unit_of :: metric_unit
  metric_value_of :: metric_value
  metric_timestamp :: unix_timestamp
  metric_tags :: "(string, string) btree_map"

definition metric_parse_str ::
  "(string \<Rightarrow> u32) \<Rightarrow> string \<Rightarrow> unix_timestamp \<Rightarrow> metric option" where
  "metric_parse_str hash_set_value s timestamp =
     (case split_on (CHR ''|'') s of
        name_value_str # ty_str # components \<Rightarrow>
          (case metric_type_from_str ty_str of
             None \<Rightarrow> None
           | Some ty \<Rightarrow>
               (case parse_name_unit_value hash_set_value name_value_str ty of
                  None \<Rightarrow> None
                | Some (name, unit, v) \<Rightarrow>
                    Some (foldl (\<lambda>metric component.
                        (case component of
                           c # rest \<Rightarrow>
                             if c = CHR ''#'' then metric\<lparr>metric_tags := parse_tags rest\<rparr> else metric
                         | [] \<Rightarrow> metric))
                      \<lparr>metric_name = name, metric_unit_of = unit, metric_value_of = v,
                       metric_timestamp = timestamp, metric_tags = []\<rparr> components)))
      | _ \<Rightarrow> None)"

definition metric_parse ::
  "(string \<Rightarrow> u32) \<Rightarrow> bytes \<Rightarrow> unix_timestamp \<Rightarrow> parse_metric_error + metric" where
  "metric_parse hash_set_value bs timestamp =
     (case from_utf8 bs of
        None \<Rightarrow> Inl ParseMetricError
      | Some s \<Rightarrow>
          (case metric_parse_str hash_set_value s timestamp of
             None \<Rightarrow> Inl ParseMetricError
           | Some m \<Rightarrow> Inr m))"

section \<open>Parsing all lines\<close>

record parse_metrics =
  pm_slice :: bytes
  pm_timestamp :: unix_timestamp

definition parse_all :: "bytes \<Rightarrow> unix_timestamp \<Rightarrow> parse_metrics" where
  "parse_all bs timestamp = \<lparr>pm_slice = bs, pm_timestamp = timestamp\<rparr>"

definition strip_cr :: "string \<Rightarrow> string" where
  "strip_cr s = (if s \<noteq> [] \<and> last s = CHR 0x0D then butlast s else s)"

function parse_metrics_next ::
  "(string \<Rightarrow> u32) \<Rightarrow> unix_timestamp \<Rightarrow> bytes \<Rightarrow> (parse_metric_error + metric) option \<times> bytes" where
  "parse_metrics_next hash_set_value timestamp bs =
     (if bs = [] then (None, bs)
      else (case splitn2 10 bs of
              (current, rest) \<Rightarrow>
                let bs' = (case rest of Some r \<Rightarrow> r | None \<Rightarrow> []) in
                (case from_utf8 current of
                   None \<Rightarrow> (Some (Inl ParseMetricError), bs')
                 | Some s0 \<Rightarrow>
                     let s = strip_cr s0 in
                     if s \<noteq> []
                     then (Some (case metric_parse_str hash_set_value s timestamp of
                                   None \<Rightarrow> Inl ParseMetricError
                                 | Some m \<Rightarrow> Inr m), bs')
                     else parse_metrics_next hash_set_value timestamp bs')))"
  by pat_completeness auto
termination
  by (relation "measure (\<lambda>(h, t, s). length s)")
    (auto split: option.splits dest!: splitn2_length [OF sym])

declare parse_metrics_next.simps [simp del]

text \<open>The reference: what one line yields, on its own.\<close>

definition line_result ::
  "(string \<Rightarrow> u32) \<Rightarrow> unix_timestamp \<Rightarrow> bytes \<Rightarrow> (parse_metric_error + metric) option" where
  "line_result hash ts line =
     (case from_utf8 line of
        None \<Rightarrow> Some (Inl ParseMetricError)
      | Some s \<Rightarrow> if strip_cr s = [] then None
                  else Some (case metric_parse_str hash (strip_cr s) ts of
                               None \<Rightarrow> Inl ParseMetricError
                             | Some m \<Rightarrow> Inr m))"

lemma line_result_Nil [simp]: "line_result hash ts [] = None"
  by (simp add: line_result_def from_utf8_def strip_cr_def)

lemma next_unfold:
  assumes "splitn2 10 bs = (current, rest)" and "bs \<noteq> []"
  shows "parse_metrics_next hash ts bs =
           (let bs' = (case rest of Some r \<Rightarrow> r | None \<Rightarrow> [])
            in case line_result hash ts current of
                 None \<Rightarrow> parse_metrics_next hash ts bs'
               | Some r \<Rightarrow> (Some r, bs'))"
  using assms
  by (simp add: parse_metrics_next.simps [of hash ts bs] line_result_def Let_def split: option.splits)

lemma next_Nil [simp]: "parse_metrics_next hash ts [] = (None, [])"
  by (simp add: parse_metrics_next.simps)

lemma parse_metrics_next_shorter:
  "parse_metrics_next hash ts bs = (Some r, bs') \<Longrightarrow> length bs' < length bs"
proof (induction "length bs" arbitrary: bs rule: less_induct)
  case less
  obtain current rest where sp: "splitn2 10 bs = (current, rest)" by fastforce
  define bs1 where "bs1 = (case rest of Some r \<Rightarrow> r | None \<Rightarrow> [])"
  have ne: "bs \<noteq> []" using less.prems by auto
  then have shorter: "length bs1 < length bs"
    using splitn2_length [of 10 bs current] sp by (cases rest) (auto simp: bs1_def)
  show ?case
    using less.prems less.hyps [OF shorter] shorter
    by (auto simp: next_unfold [OF sp ne] Let_def bs1_def [symmetric] split: option.splits)
qed

text \<open>Draining the iterator.\<close>

function parse_metrics_collect ::
  "(string \<Rightarrow> u32) \<Rightarrow> unix_timestamp \<Rightarrow> bytes \<Rightarrow> (parse_metric_error + metric) list" where
  "parse_metrics_collect hash_set_value timestamp bs =
     (case parse_metrics_next hash_set_value timestamp bs of
        (None, _) \<Rightarrow> []
      | (Some r, bs') \<Rightarrow> r # parse_metrics_collect hash_set_value timestamp bs')"
  by pat_completeness auto
termination
  by (relation "measure (\<lambda>(h, t, bs). length bs)") (auto dest: parse_metrics_next_shorter [OF sym])

declare parse_metrics_collect.simps [simp del]

section \<open>The lines of a payload\<close>

lemma next_lines:
  "parse_metrics_next hash ts bs = (r, bs') \<Longrightarrow>
   List.map_filter (line_result hash ts) (split_on 10 bs) =
     (case r of None \<Rightarrow> [] | Some x \<Rightarrow> x # List.map_filter (line_result hash ts) (split_on 10 bs'))"
proof (induction "length bs" arbitrary: bs rule: less_induct)
  case less
  obtain current rest where sp: "splitn2 10 bs = (current, rest)" by fastforce
  define bs1 where "bs1 = (case rest of Some r \<Rightarrow> r | None \<Rightarrow> [])"
  show ?case
  proof (cases "bs = []")
    case True
    with less.prems show ?thesis by (auto simp: map_filter_simps)
  next
    case False
    have shorter: "length bs1 < length bs"
      using splitn2_length [of 10 bs current] sp False by (cases rest) (auto simp: bs1_def)
    have lines: "List.map_filter (line_result hash ts) (split_on 10 bs) =
        (case line_result hash ts current of None \<Rightarrow> [] | Some x \<Rightarrow> [x]) @
        List.map_filter (line_result hash ts) (split_on 10 bs1)"
      using splitn2_split_on [OF sp]
      by (auto simp: bs1_def map_filter_simps split: option.splits)
    show ?thesis
      using less.prems less.hyps [OF shorter] unfolding lines next_unfold [OF sp False] Let_def
        bs1_def [symmetric]
      by (cases "line_result hash ts current") (auto split: option.splits)
  qed
qed

lemma collect_lines:
  "parse_metrics_collect hash ts bs = List.map_filter (line_result hash ts) (split_on 10 bs)"
proof (induction hash ts bs rule: parse_metrics_collect.induct)
  case (1 hash ts bs)
  obtain r bs' where n: "parse_metrics_next hash ts bs = (r, bs')" by fastforce
  show ?case
    using 1 [OF n [symmetric]] next_lines [OF n]
    by (cases r) (simp_all add: parse_metrics_collect.simps [of hash ts bs] n)
qed

section \<open>Soundness of the parser\<close>

lemma parse_tags_inv: "bt_inv str_le (parse_tags s)"
  unfolding parse_tags_def
  by (rule foldl_invariant) (auto intro: str_keys.bt_insert_inv split: prod.splits)

lemma parse_str_fold:
  fixes m :: metric
  defines "f \<equiv> \<lambda>metric component.
     (case component of
        c # rest \<Rightarrow> if c = CHR ''#'' then metric\<lparr>metric_tags := parse_tags rest\<rparr> else metric
      | [] \<Rightarrow> metric)"
  shows "\<exists>tags. foldl f m cs = m\<lparr>metric_tags := tags\<rparr> \<and> (bt_inv str_le (metric_tags m) \<longrightarrow> bt_inv str_le tags)"
proof (induction cs arbitrary: m)
  case Nil
  show ?case by (intro exI [of _ "metric_tags m"]) simp
next
  case (Cons c cs)
  obtain tags where "foldl f (f m c) cs = (f m c)\<lparr>metric_tags := tags\<rparr> \<and>
      (bt_inv str_le (metric_tags (f m c)) \<longrightarrow> bt_inv str_le tags)"
    using Cons.IH by blast
  then show ?case
    by (intro exI [of _ tags]) (auto simp: f_def parse_tags_inv split: list.splits)
qed

lemma parse_value_ty: "parse_value hash s ty = Some v \<Longrightarrow> metric_value_ty v = ty"
  by (auto simp: parse_value_def split: metric_type.splits)

lemma parse_name_unit_valid: "parse_name_unit s = Some (name, unit) \<Longrightarrow> is_valid_name name"
  by (auto simp: parse_name_unit_def split: list.splits if_splits)

section \<open>Completeness of the parser\<close>

text \<open>The documented form \<open><name>[@unit]:<value>|<type>|#<tag_key>:<tag_value>,...\<close>.\<close>

definition tag_text :: "string \<times> string \<Rightarrow> string" where
  "tag_text p = fst p @ CHR '':'' # snd p"

definition metric_text ::
  "string \<Rightarrow> metric_unit \<Rightarrow> string \<Rightarrow> metric_type \<Rightarrow> (string \<times> string) list \<Rightarrow> string" where
  "metric_text name unit v ty tags =
     name @ (if unit = MU_None then [] else CHR ''@'' # metric_unit_display unit) @
     CHR '':'' # v @ CHR ''|'' # metric_type_display ty @
     (if tags = [] then [] else CHR ''|'' # CHR ''#'' # join_with '','' (map tag_text tags))"

definition tag_safe :: "string \<times> string \<Rightarrow> bool" where
  "tag_safe p \<longleftrightarrow> CHR '':'' \<notin> set (fst p) \<and> CHR '','' \<notin> set (fst p) \<and> CHR ''|'' \<notin> set (fst p) \<and>
     CHR '','' \<notin> set (snd p) \<and> CHR ''|'' \<notin> set (snd p)"

lemma parse_tags_text:
  assumes "tags \<noteq> []" and "\<forall>p \<in> set tags. tag_safe p"
  shows "parse_tags (join_with '','' (map tag_text tags)) =
           foldl (\<lambda>m (k, v). bt_insert str_le k v m) [] tags"
proof -
  have sp: "split_on (CHR '','') (join_with '','' (map tag_text tags)) = map tag_text tags"
    using assms by (intro split_on_join) (auto simp: tag_text_def tag_safe_def)
  have one: "splitn2 (CHR '':'') (tag_text p) = (fst p, Some (snd p))" if "p \<in> set tags" for p
    using that assms(2) by (simp add: tag_text_def tag_safe_def splitn2_append)
  have "foldl (\<lambda>map pair. case splitn2 (CHR '':'') pair of
            (name, v) \<Rightarrow> bt_insert str_le name (case v of Some v \<Rightarrow> v | None \<Rightarrow> []) map) m (map tag_text ps)
        = foldl (\<lambda>m (k, v). bt_insert str_le k v m) m ps" if "set ps \<subseteq> set tags" for m ps
    using that by (induction ps arbitrary: m) (auto simp: one split: prod.splits)
  then show ?thesis by (simp add: parse_tags_def sp)
qed

lemma valid_name_chars:
  "is_valid_name name \<Longrightarrow> c \<in> set name \<Longrightarrow> c \<noteq> CHR ''@'' \<and> c \<noteq> CHR '':'' \<and> c \<noteq> CHR ''|''"
  by (auto simp: is_valid_name_def list_all_iff is_ascii_alphabetic_def is_digit_def split: list.splits)

lemma unit_display_chars:
  "c \<in> set (metric_unit_display u) \<Longrightarrow> c \<noteq> CHR ''@'' \<and> c \<noteq> CHR '':'' \<and> c \<noteq> CHR ''|''"
proof (cases u)
  case (MU_Duration p)
  then show "c \<in> set (metric_unit_display u) \<Longrightarrow> ?thesis" by (cases p) auto
qed simp

lemma parse_name_unit_text:
  assumes "is_valid_name name"
  shows "parse_name_unit (name @ (if unit = MU_None then [] else CHR ''@'' # metric_unit_display unit))
           = Some (name, unit)"
proof -
  have n: "CHR ''@'' \<notin> set name" using valid_name_chars [OF assms] by blast
  have u: "CHR ''@'' \<notin> set (metric_unit_display unit)" using unit_display_chars by blast
  show ?thesis
    using assms metric_unit.from_to_name [of unit]
    by (simp add: parse_name_unit_def n u split_on_append split_on_no_sep metric_unit_default_def)
qed

lemma parse_name_unit_value_text:
  assumes "is_valid_name name" and "parse_value hash v ty = Some mv"
  shows "parse_name_unit_value hash
           (name @ (if unit = MU_None then [] else CHR ''@'' # metric_unit_display unit) @ CHR '':'' # v) ty
         = Some (name, unit, mv)"
proof -
  let ?nu = "name @ (if unit = MU_None then [] else CHR ''@'' # metric_unit_display unit)"
  have "CHR '':'' \<notin> set ?nu"
    using valid_name_chars [OF assms(1)] unit_display_chars by auto
  then have "splitn2 (CHR '':'') (?nu @ CHR '':'' # v) = (?nu, Some v)" by (rule splitn2_append)
  then show ?thesis
    using parse_name_unit_text [OF assms(1), of unit] assms(2)
    by (simp add: parse_name_unit_value_def)
qed

section \<open>Properties\<close>

text \<open>The parser accepts the documented protocol. The text of a metric with a valid name, a
  value its type accepts and tags free of separators parses to exactly these parts.\<close>

lemma metric_parse_complete:
  assumes name: "is_valid_name name" and v: "parse_value hash v ty = Some mv" "CHR ''|'' \<notin> set v"
    and tags: "bt_inv str_le tags" "\<forall>p \<in> set tags. tag_safe p"
  shows "metric_parse_str hash (metric_text name unit v ty tags) ts =
           Some \<lparr>metric_name = name, metric_unit_of = unit, metric_value_of = mv,
                 metric_timestamp = ts, metric_tags = tags\<rparr>"
proof -
  let ?nuv = "name @ (if unit = MU_None then [] else CHR ''@'' # metric_unit_display unit) @ CHR '':'' # v"
  have nuv: "CHR ''|'' \<notin> set ?nuv"
    using valid_name_chars [OF name] unit_display_chars v(2) by auto
  have ty: "CHR ''|'' \<notin> set (metric_type_display ty)" by (cases ty) auto
  have tg: "CHR ''|'' \<notin> set (join_with '','' (map tag_text tags))"
    using tags(2) by (fastforce dest!: join_with_set simp: tag_text_def tag_safe_def)
  have "split_on (CHR ''|'') (metric_text name unit v ty tags) =
      ?nuv # metric_type_display ty #
      (if tags = [] then [] else [CHR ''#'' # join_with '','' (map tag_text tags)])"
    using split_on_append [OF nuv, of "metric_type_display ty @
        (if tags = [] then [] else CHR ''|'' # CHR ''#'' # join_with '','' (map tag_text tags))"] ty tg
    by (simp add: metric_text_def split_on_append split_on_no_sep)
  then show ?thesis
    using parse_name_unit_value_text [OF name v(1), of unit] metric_type.from_to_name [of ty]
      parse_tags_text [of tags] tags str_keys.bt_insert_all [of "[]" tags]
    by (simp add: metric_parse_str_def)
qed



text \<open>Draining the line iterator yields one result for every non-empty line, in order, and a
  line that is not UTF-8 or does not parse never affects another line.\<close>

lemma parse_all_linewise:
  "parse_metrics_collect hash (pm_timestamp (parse_all bs ts)) (pm_slice (parse_all bs ts)) =
     List.map_filter (line_result hash ts) (split_on 10 bs)"
  by (simp add: parse_all_def collect_lines)

text \<open>Gauges only take numbers: a custom string as a gauge value is refused.\<close>

lemma gauge_needs_number:
  "metric_parse_str hash ''foo:custom|g'' ts = None \<and>
   (\<exists>m. metric_parse_str hash ''foo:custom|s'' ts = Some m)"
  by (simp add: metric_parse_str_def metric_type_from_str_def parse_name_unit_value_def parse_name_unit_def
      is_valid_name_def is_ascii_alphabetic_def parse_value_def parse_f64_def strip_sign_def Let_def
      to_ascii_lowercase_def ascii_lower_char_def is_digit_def)

end
