(* ===== verification/Metrics_Values.thy ===== *)
theory Metrics_Values
  imports Metrics_Protocol "HOL-Library.Multiset"
begin

text \<open>
  Aggregated metric values (\<open>relay-metrics/src/aggregation.rs\<close>): gauges, distributions with
  their value iterator, and bucket values with the trait \<open>MergeValue\<close>, here the locale
  \<open>merge_value\<close>. Distributions are ordered by \<open>FloatOrd\<close> of the crate \<open>float-ord\<close>; that
  order is the argument \<open>le\<close>, of which only \<open>key_order\<close> is assumed. Counts are \<open>u32\<close>
  and wrap as in a release build.
\<close>

section \<open>Gauges\<close>

record gauge_value =
  gv_max :: f64
  gv_min :: f64
  gv_sum :: f64
  gv_last :: f64
  gv_count :: u64

definition gauge_single :: "f64 \<Rightarrow> gauge_value" where
  "gauge_single v = \<lparr>gv_max = v, gv_min = v, gv_sum = v, gv_last = v, gv_count = 1\<rparr>"

definition gauge_insert :: "f64 \<Rightarrow> gauge_value \<Rightarrow> gauge_value" where
  "gauge_insert v g =
     \<lparr>gv_max = f64_max (gv_max g) v, gv_min = f64_min (gv_min g) v,
      gv_sum = f64_add (gv_sum g) v, gv_last = v, gv_count = gv_count g + 1\<rparr>"

definition gauge_merge :: "gauge_value \<Rightarrow> gauge_value \<Rightarrow> gauge_value" where
  "gauge_merge other g =
     \<lparr>gv_max = f64_max (gv_max g) (gv_max other), gv_min = f64_min (gv_min g) (gv_min other),
      gv_sum = f64_add (gv_sum g) (gv_sum other), gv_last = gv_last other,
      gv_count = gv_count g + gv_count other\<rparr>"

definition gauge_avg :: "gauge_value \<Rightarrow> f64" where
  "gauge_avg g =
     (if gv_count g > 0 then f64_div (gv_sum g) (f64_of_nat (unat (gv_count g))) else f64_zero)"

section \<open>Distributions\<close>

record distribution_value =
  dv_values :: "(f64, u32) btree_map"
  dv_length :: u32

definition dist_new :: distribution_value where
  "dist_new = \<lparr>dv_values = [], dv_length = 0\<rparr>"

definition dist_len :: "distribution_value \<Rightarrow> u32" where
  "dist_len d = dv_length d"

definition dist_is_empty :: "distribution_value \<Rightarrow> bool" where
  "dist_is_empty d \<longleftrightarrow> dv_length d = 0"

definition dist_insert_multi ::
  "(f64 \<Rightarrow> f64 \<Rightarrow> bool) \<Rightarrow> f64 \<Rightarrow> u32 \<Rightarrow> distribution_value \<Rightarrow> u32 \<times> distribution_value" where
  "dist_insert_multi le v n d =
     (let d1 = d\<lparr>dv_length := dv_length d + n\<rparr> in
      if n = 0 then (0, d1)
      else ((case bt_get (dv_values d1) v of Some c \<Rightarrow> c + n | None \<Rightarrow> n),
            d1\<lparr>dv_values := bt_upsert le v (\<lambda>c. c + n) n (dv_values d1)\<rparr>))"

definition dist_insert ::
  "(f64 \<Rightarrow> f64 \<Rightarrow> bool) \<Rightarrow> f64 \<Rightarrow> distribution_value \<Rightarrow> u32 \<times> distribution_value" where
  "dist_insert le v d = dist_insert_multi le v 1 d"

definition dist_contains :: "f64 \<Rightarrow> distribution_value \<Rightarrow> bool" where
  "dist_contains v d \<longleftrightarrow> bt_get (dv_values d) v \<noteq> None"

definition dist_get :: "f64 \<Rightarrow> distribution_value \<Rightarrow> u32" where
  "dist_get v d = (case bt_get (dv_values d) v of Some c \<Rightarrow> c | None \<Rightarrow> 0)"

definition dist_iter :: "distribution_value \<Rightarrow> (f64 \<times> u32) list" where
  "dist_iter d = dv_values d"

definition dist_extend_values ::
  "(f64 \<Rightarrow> f64 \<Rightarrow> bool) \<Rightarrow> f64 list \<Rightarrow> distribution_value \<Rightarrow> distribution_value" where
  "dist_extend_values le vs d = foldl (\<lambda>d v. snd (dist_insert le v d)) d vs"

definition dist_extend ::
  "(f64 \<Rightarrow> f64 \<Rightarrow> bool) \<Rightarrow> (f64 \<times> u32) list \<Rightarrow> distribution_value \<Rightarrow> distribution_value" where
  "dist_extend le vcs d = foldl (\<lambda>d (v, n). snd (dist_insert_multi le v n d)) d vcs"

text \<open>The iterator over single values, one field for each of the source's.\<close>

record dist_values_iter =
  dvi_inner :: "(f64 \<times> u32) list"
  dvi_current :: f64
  dvi_remaining :: u32
  dvi_total :: u32

definition dist_iter_values :: "distribution_value \<Rightarrow> dist_values_iter" where
  "dist_iter_values d =
     \<lparr>dvi_inner = dist_iter d, dvi_current = f64_zero, dvi_remaining = 0, dvi_total = dv_length d\<rparr>"

definition dvi_next :: "dist_values_iter \<Rightarrow> f64 option \<times> dist_values_iter" where
  "dvi_next it =
     (if dvi_remaining it > 0
      then (Some (dvi_current it),
            it\<lparr>dvi_remaining := dvi_remaining it - 1, dvi_total := dvi_total it - 1\<rparr>)
      else (case dvi_inner it of
              [] \<Rightarrow> (None, it)
            | (v, n) # rest \<Rightarrow>
                (Some v, it\<lparr>dvi_inner := rest, dvi_current := v, dvi_remaining := n - 1,
                            dvi_total := dvi_total it - 1\<rparr>)))"

definition dvi_size_hint :: "dist_values_iter \<Rightarrow> nat \<times> nat option" where
  "dvi_size_hint it = (unat (dvi_total it), Some (unat (dvi_total it)))"

lemma dvi_next_decreases:
  assumes "dvi_next it = (Some v, it')"
  shows "(it', it) \<in> measures [\<lambda>it. length (dvi_inner it), \<lambda>it. unat (dvi_remaining it)]"
  using assms
  by (auto simp: dvi_next_def unat_minus_one unat_gt_0 split: if_splits list.splits)

function dvi_collect :: "dist_values_iter \<Rightarrow> f64 list" where
  "dvi_collect it = (case dvi_next it of (None, _) \<Rightarrow> [] | (Some v, it') \<Rightarrow> v # dvi_collect it')"
  by pat_completeness auto
termination
  by (relation "measures [\<lambda>it. length (dvi_inner it), \<lambda>it. unat (dvi_remaining it)]")
    (auto dest: dvi_next_decreases [OF sym] simp del: in_measures)

declare dvi_collect.simps [simp del]

text \<open>Serialization collects the single values; deserialization inserts them one by one.\<close>

definition dist_serialize :: "distribution_value \<Rightarrow> f64 list" where
  "dist_serialize d = dvi_collect (dist_iter_values d)"

definition dist_deserialize :: "(f64 \<Rightarrow> f64 \<Rightarrow> bool) \<Rightarrow> f64 list \<Rightarrow> distribution_value" where
  "dist_deserialize le vs = dist_extend_values le vs dist_new"

section \<open>Bucket values\<close>

datatype bucket_value =
    BV_Counter f64
  | BV_Distribution distribution_value
  | BV_Set "u32 set"
  | BV_Gauge gauge_value

fun bucket_value_ty :: "bucket_value \<Rightarrow> metric_type" where
  "bucket_value_ty (BV_Counter _) = MT_Counter"
| "bucket_value_ty (BV_Distribution _) = MT_Distribution"
| "bucket_value_ty (BV_Set _) = MT_Set"
| "bucket_value_ty (BV_Gauge _) = MT_Gauge"

fun bucket_value_from :: "(f64 \<Rightarrow> f64 \<Rightarrow> bool) \<Rightarrow> metric_value \<Rightarrow> bucket_value" where
  "bucket_value_from le (MV_Counter v) = BV_Counter v"
| "bucket_value_from le (MV_Distribution v) = BV_Distribution (snd (dist_insert le v dist_new))"
| "bucket_value_from le (MV_Set v) = BV_Set {v}"
| "bucket_value_from le (MV_Gauge v) = BV_Gauge (gauge_single v)"

datatype aggregate_metrics_error = AggregateMetricsError | AggregatePanic

fun bucket_merge_into ::
  "(f64 \<Rightarrow> f64 \<Rightarrow> bool) \<Rightarrow> bucket_value \<Rightarrow> bucket_value \<Rightarrow> aggregate_metrics_error + bucket_value" where
  "bucket_merge_into le (BV_Counter rhs) (BV_Counter lhs) = Inr (BV_Counter (f64_add lhs rhs))"
| "bucket_merge_into le (BV_Distribution rhs) (BV_Distribution lhs) =
     Inr (BV_Distribution (dist_extend le (dist_iter rhs) lhs))"
| "bucket_merge_into le (BV_Set rhs) (BV_Set lhs) = Inr (BV_Set (lhs \<union> rhs))"
| "bucket_merge_into le (BV_Gauge rhs) (BV_Gauge lhs) = Inr (BV_Gauge (gauge_merge rhs lhs))"
| "bucket_merge_into le _ _ = Inl AggregateMetricsError"

fun metric_merge_into ::
  "(f64 \<Rightarrow> f64 \<Rightarrow> bool) \<Rightarrow> metric_value \<Rightarrow> bucket_value \<Rightarrow> aggregate_metrics_error + bucket_value" where
  "metric_merge_into le (MV_Counter v) (BV_Counter counter) = Inr (BV_Counter (f64_add counter v))"
| "metric_merge_into le (MV_Distribution v) (BV_Distribution distribution) =
     Inr (BV_Distribution (snd (dist_insert le v distribution)))"
| "metric_merge_into le (MV_Set v) (BV_Set values) = Inr (BV_Set (insert v values))"
| "metric_merge_into le (MV_Gauge v) (BV_Gauge gauge) = Inr (BV_Gauge (gauge_insert v gauge))"
| "metric_merge_into le _ _ = Inl AggregateMetricsError"

section \<open>The contract of \<open>MergeValue\<close>\<close>

locale merge_value =
  fixes into :: "'v \<Rightarrow> bucket_value"
    and merge_into :: "'v \<Rightarrow> bucket_value \<Rightarrow> aggregate_metrics_error + bucket_value"
    and ty :: "'v \<Rightarrow> metric_type"
  assumes into_ty: "bucket_value_ty (into v) = ty v"
    and merge_same: "bucket_value_ty b = ty v \<Longrightarrow>
          \<exists>b'. merge_into v b = Inr b' \<and> bucket_value_ty b' = ty v"
    and merge_other: "bucket_value_ty b \<noteq> ty v \<Longrightarrow> merge_into v b = Inl AggregateMetricsError"
begin

lemma merge_into_ty: "merge_into v b = Inr b' \<Longrightarrow> bucket_value_ty b' = bucket_value_ty b"
  using merge_same [of b v] merge_other [of b v] by (cases "bucket_value_ty b = ty v") auto

lemma merge_into_ok_iff: "(\<exists>b'. merge_into v b = Inr b') \<longleftrightarrow> bucket_value_ty b = ty v"
  using merge_same [of b v] merge_other [of b v] by (cases "bucket_value_ty b = ty v") auto

lemma merge_into_errors: "merge_into v b = Inl e \<Longrightarrow> e = AggregateMetricsError \<and> bucket_value_ty b \<noteq> ty v"
  using merge_same [of b v] merge_other [of b v] by (cases "bucket_value_ty b = ty v") auto

end

interpretation bucket_merge: merge_value "\<lambda>b. b" "bucket_merge_into le" bucket_value_ty for le
proof
  show "\<exists>b'. bucket_merge_into le v b = Inr b' \<and> bucket_value_ty b' = bucket_value_ty v"
    if "bucket_value_ty b = bucket_value_ty v" for v b
    using that by (cases v; cases b) auto
  show "bucket_merge_into le v b = Inl AggregateMetricsError"
    if "bucket_value_ty b \<noteq> bucket_value_ty v" for v b
    using that by (cases v; cases b) auto
qed simp

interpretation metric_merge: merge_value "bucket_value_from le" "metric_merge_into le" metric_value_ty for le
proof
  show "bucket_value_ty (bucket_value_from le v) = metric_value_ty v" for v by (cases v) auto
  show "\<exists>b'. metric_merge_into le v b = Inr b' \<and> bucket_value_ty b' = metric_value_ty v"
    if "bucket_value_ty b = metric_value_ty v" for v b
    using that by (cases v; cases b) auto
  show "metric_merge_into le v b = Inl AggregateMetricsError"
    if "bucket_value_ty b \<noteq> metric_value_ty v" for v b
    using that by (cases v; cases b) auto
qed

section \<open>Distributions as multisets\<close>

definition dist_list :: "distribution_value \<Rightarrow> f64 list" where
  "dist_list d = concat (map (\<lambda>(v, c). replicate (unat c) v) (dv_values d))"

definition dist_inv :: "(f64 \<Rightarrow> f64 \<Rightarrow> bool) \<Rightarrow> distribution_value \<Rightarrow> bool" where
  "dist_inv le d \<longleftrightarrow>
     bt_inv le (dv_values d) \<and> (\<forall>p \<in> set (dv_values d). snd p \<noteq> 0) \<and>
     unat (dv_length d) = sum_list (map (\<lambda>p. unat (snd p)) (dv_values d))"

lemma dist_list_length:
  "dist_inv le d \<Longrightarrow> length (dist_list d) = unat (dv_length d)"
  by (simp add: dist_inv_def dist_list_def length_concat o_def case_prod_beta)

lemma dist_new_inv [simp]: "dist_inv le dist_new"
  by (simp add: dist_inv_def dist_new_def)

lemma dist_new_list [simp]: "dist_list dist_new = []"
  by (simp add: dist_list_def dist_new_def)

text \<open>The value iterator yields every value as often as it is counted.\<close>

lemma dvi_collect_run:
  "dvi_remaining it = n \<Longrightarrow>
   dvi_collect it = replicate (unat n) (dvi_current it) @
     dvi_collect (it\<lparr>dvi_remaining := 0, dvi_total := dvi_total it - n\<rparr>)"
proof (induction "unat n" arbitrary: n it)
  case 0
  then have "n = 0" by (simp add: unat_eq_zero)
  with "0.prems" show ?case by (cases it) simp
next
  case (Suc k)
  have pos: "n > 0" using Suc.hyps(2) by (cases "n = 0") (simp_all add: word_gt_0)
  then have k: "k = unat (n - 1)" using Suc.hyps(2) by (simp add: unat_minus_one word_gt_0)
  let ?it = "it\<lparr>dvi_remaining := n - 1, dvi_total := dvi_total it - 1\<rparr>"
  have "dvi_collect it = dvi_current it # dvi_collect ?it"
    using pos Suc.prems by (subst dvi_collect.simps) (simp add: dvi_next_def)
  moreover have "dvi_collect ?it = replicate (unat (n - 1)) (dvi_current ?it) @
      dvi_collect (?it\<lparr>dvi_remaining := 0, dvi_total := dvi_total ?it - (n - 1)\<rparr>)"
    using k by (intro Suc.hyps(1)) simp_all
  ultimately show ?case
    using Suc.hyps(2) [symmetric] by (simp add: k [symmetric])
qed

lemma dvi_collect_inner:
  "\<forall>p \<in> set (dvi_inner it). snd p \<noteq> 0 \<Longrightarrow> dvi_remaining it = 0 \<Longrightarrow>
   dvi_collect it = concat (map (\<lambda>(v, c). replicate (unat c) v) (dvi_inner it))"
proof (induction "dvi_inner it" arbitrary: it)
  case Nil
  then show ?case by (subst dvi_collect.simps) (simp add: dvi_next_def)
next
  case (Cons p rest)
  obtain v c where p: "p = (v, c)" by (cases p)
  have c: "c \<noteq> 0" using Cons.prems(1) Cons.hyps(2) [symmetric] by (simp add: p)
  let ?it = "it\<lparr>dvi_inner := rest, dvi_current := v, dvi_remaining := c - 1, dvi_total := dvi_total it - 1\<rparr>"
  have step: "dvi_collect it = v # dvi_collect ?it"
    using Cons.prems(2) Cons.hyps(2) [symmetric]
    by (subst dvi_collect.simps) (simp add: dvi_next_def p)
  let ?done = "?it\<lparr>dvi_remaining := 0, dvi_total := dvi_total ?it - (c - 1)\<rparr>"
  have run: "dvi_collect ?it = replicate (unat (c - 1)) (dvi_current ?it) @ dvi_collect ?done"
    by (rule dvi_collect_run) simp
  have "dvi_collect ?done = concat (map (\<lambda>(v, c). replicate (unat c) v) (dvi_inner ?done))"
    using Cons.prems Cons.hyps(2) [symmetric] by (intro Cons.hyps(1)) auto
  moreover have "unat c = Suc (unat (c - 1))"
    using unat_minus_one [OF c] c unat_gt_0 [of c] by linarith
  ultimately show ?case
    using step run Cons.hyps(2) [symmetric] by (simp add: p)
qed

lemma dist_serialize_list: "dist_inv le d \<Longrightarrow> dist_serialize d = dist_list d"
  by (simp add: dist_serialize_def dist_iter_values_def dvi_collect_inner dist_iter_def dist_list_def dist_inv_def)

context key_order
begin

lemma upsert_sum:
  fixes xs :: "('k, u32) btree_map"
  assumes "bt_inv le xs" and "sum_list (map (\<lambda>p. unat (snd p)) xs) + unat n < 2 ^ 32"
  shows "sum_list (map (\<lambda>p. unat (snd p)) (bt_upsert le k (\<lambda>c. c + n) n xs))
           = sum_list (map (\<lambda>p. unat (snd p)) xs) + unat n"
  using assms
proof (induction xs)
  case (Cons p xs)
  obtain k' c where p: "p = (k', c)" by (cases p)
  have "unat c + unat n < 2 ^ LENGTH(32)" using Cons.prems(2) by (simp add: p)
  then have "unat (c + n) = unat c + unat n" using unat_add_lem by blast
  moreover have "bt_inv le xs" using bt_inv_ConsD [of k' c xs] Cons.prems(1) by (simp add: p)
  ultimately show ?case using Cons by (simp add: p)
qed simp

end

lemma count_dist_list:
  "distinct (map fst xs) \<Longrightarrow>
   count (mset (concat (map (\<lambda>(v, c). replicate (unat c) v) xs))) v =
     (case map_of xs v of Some c \<Rightarrow> unat c | None \<Rightarrow> 0)"
proof (induction xs)
  case (Cons p xs)
  obtain w c where p: "p = (w, c)" by (cases p)
  have "w \<notin> fst ` set xs" using Cons.prems by (simp add: p)
  then have "map_of xs w = None" by (simp add: map_of_eq_None_iff)
  with Cons show ?case by (auto simp: p split: option.splits)
qed simp

lemma dist_count:
  assumes "key_order le" and "dist_inv le d"
  shows "count (mset (dist_list d)) v = unat (dist_get v d)"
proof -
  have "distinct (map fst (dv_values d))"
    using key_order.bt_inv_distinct [OF assms(1), of "dv_values d"] assms(2) by (simp add: dist_inv_def)
  then show ?thesis
    by (simp add: dist_list_def count_dist_list dist_get_def bt_get_def split: option.splits)
qed

lemma dist_get_le:
  assumes "key_order le" and "dist_inv le d"
  shows "unat (dist_get v d) \<le> unat (dv_length d)"
  using dist_count [OF assms, of v] dist_list_length [OF assms(2)] count_le_size [of "mset (dist_list d)" v]
  by simp

lemma dist_bt_get:
  assumes "dist_inv le d"
  shows "bt_get (dv_values d) v = (if dist_get v d = 0 then None else Some (dist_get v d))"
proof (cases "bt_get (dv_values d) v")
  case (Some c)
  then have "(v, c) \<in> set (dv_values d)" by (auto simp: bt_get_def dest: map_of_SomeD)
  with assms have "c \<noteq> 0" by (auto simp: dist_inv_def)
  with Some show ?thesis by (simp add: dist_get_def)
qed (simp add: dist_get_def)

text \<open>A distribution is determined by the multiset of its values.\<close>

lemma dist_canonical:
  assumes "key_order le" and "dist_inv le a" and "dist_inv le b"
    and "mset (dist_list a) = mset (dist_list b)"
  shows "a = b"
proof -
  have "dist_get v a = dist_get v b" for v
    using dist_count [OF assms(1,2), of v] dist_count [OF assms(1,3), of v] assms(4)
    by (simp add: word_unat_eq_iff)
  then have "bt_get (dv_values a) = bt_get (dv_values b)"
    using dist_bt_get [OF assms(2)] dist_bt_get [OF assms(3)] by auto
  then have "dv_values a = dv_values b"
    using key_order.bt_canonical [OF assms(1)] assms(2,3) by (auto simp: dist_inv_def)
  moreover have "unat (dv_length a) = unat (dv_length b)"
    using dist_list_length [OF assms(2)] dist_list_length [OF assms(3)] mset_eq_length [OF assms(4)] by simp
  ultimately show ?thesis by (cases a; cases b) (simp add: word_unat_eq_iff)
qed

lemma unat_add_small: "unat (a :: u32) + unat b < 2 ^ 32 \<Longrightarrow> unat (a + b) = unat a + unat b"
  by (simp add: unat_word_ariths)

lemma upsert_nonzero:
  fixes xs :: "('k, u32) btree_map"
  assumes "\<forall>p \<in> set xs. snd p \<noteq> 0" and "n \<noteq> 0"
    and "sum_list (map (\<lambda>p. unat (snd p)) xs) + unat n < 2 ^ 32"
  shows "\<forall>p \<in> set (bt_upsert le k (\<lambda>c. c + n) n xs). snd p \<noteq> 0"
  using assms
proof (induction xs)
  case (Cons p xs)
  obtain k' c where p: "p = (k', c)" by (cases p)
  have "unat (c + n) = unat c + unat n"
    using Cons.prems(3) by (intro unat_add_small) (simp add: p)
  moreover have "unat n > 0" using Cons.prems(2) by (simp add: unat_gt_0)
  ultimately have "c + n \<noteq> 0" by auto
  with Cons show ?case by (auto simp: p)
qed simp

lemma dist_insert_multi_inv:
  assumes "key_order le" and "dist_inv le d" and "unat (dv_length d) + unat n < 2 ^ 32"
  shows "dist_inv le (snd (dist_insert_multi le v n d))"
proof (cases "n = 0")
  case True
  with assms(2) show ?thesis by (simp add: dist_insert_multi_def dist_inv_def)
next
  case False
  let ?sum = "\<lambda>xs. sum_list (map (\<lambda>p. unat (snd p)) xs)"
  have d: "bt_inv le (dv_values d)" "\<forall>p \<in> set (dv_values d). snd p \<noteq> 0"
    "unat (dv_length d) = ?sum (dv_values d)"
    using assms(2) by (simp_all add: dist_inv_def)
  have "?sum (dv_values d) + unat n < 2 ^ 32" using d(3) assms(3) by simp
  note s = key_order.upsert_sum [OF assms(1) d(1) this, of v]
    and z = upsert_nonzero [OF d(2) False this, of le v]
  have "unat (dv_length d + n) = unat (dv_length d) + unat n" using assms(3) by (rule unat_add_small)
  then show ?thesis
    using False s z d(3) key_order.bt_upsert_inv [OF assms(1) d(1)]
    by (simp add: dist_insert_multi_def dist_inv_def Let_def)
qed

lemma dist_insert_multi_get:
  assumes "key_order le" and "bt_inv le (dv_values d)"
  shows "dist_get w (snd (dist_insert_multi le v n d)) = dist_get w d + (if w = v then n else 0)"
  using key_order.bt_upsert_get [OF assms, of v "\<lambda>c. c + n" n w]
  by (auto simp: dist_insert_multi_def Let_def dist_get_def split: option.splits)

lemma dist_insert_multi_mset:
  assumes "key_order le" and "dist_inv le d" and "unat (dv_length d) + unat n < 2 ^ 32"
  shows "mset (dist_list (snd (dist_insert_multi le v n d))) = mset (dist_list d) + replicate_mset (unat n) v"
proof (rule multiset_eqI)
  fix w
  have inv: "dist_inv le (snd (dist_insert_multi le v n d))"
    by (rule dist_insert_multi_inv [OF assms])
  have bt: "bt_inv le (dv_values d)" using assms(2) by (simp add: dist_inv_def)
  have "unat (dist_get v d) + unat n < 2 ^ 32" using dist_get_le [OF assms(1,2), of v] assms(3) by simp
  then have "unat (dist_get v d + n) = unat (dist_get v d) + unat n" by (rule unat_add_small)
  then show "count (mset (dist_list (snd (dist_insert_multi le v n d)))) w
      = count (mset (dist_list d) + replicate_mset (unat n) v) w"
    by (simp add: dist_count [OF assms(1) inv] dist_count [OF assms(1,2)]
        dist_insert_multi_get [OF assms(1) bt])
qed

lemma dist_length_size: "dist_inv le d \<Longrightarrow> unat (dv_length d) = size (mset (dist_list d))"
  by (simp add: dist_list_length)

lemma dist_extend_values_mset:
  assumes "key_order le" and "dist_inv le d" and "unat (dv_length d) + length vs < 2 ^ 32"
  shows "dist_inv le (dist_extend_values le vs d) \<and>
         mset (dist_list (dist_extend_values le vs d)) = mset (dist_list d) + mset vs"
  using assms(2,3) unfolding dist_extend_values_def
proof (induction vs arbitrary: d)
  case (Cons v vs)
  let ?d = "snd (dist_insert le v d)"
  have small: "unat (dv_length d) + unat (1 :: u32) < 2 ^ 32" using Cons.prems(2) by simp
  have i: "dist_inv le ?d" and m: "mset (dist_list ?d) = add_mset v (mset (dist_list d))"
    using dist_insert_multi_inv [OF assms(1) Cons.prems(1) small]
      dist_insert_multi_mset [OF assms(1) Cons.prems(1) small]
    by (simp_all add: dist_insert_def)
  have "unat (dv_length ?d) = Suc (unat (dv_length d))"
    using m by (simp add: dist_length_size [OF i] dist_length_size [OF Cons.prems(1)])
  with Cons.IH [OF i] Cons.prems(2) m show ?case by simp
qed simp

lemma dist_extend_mset:
  assumes "key_order le" and "dist_inv le d"
    and "unat (dv_length d) + sum_list (map (\<lambda>p. unat (snd p)) vcs) < 2 ^ 32"
  shows "dist_inv le (dist_extend le vcs d) \<and>
         mset (dist_list (dist_extend le vcs d)) =
           mset (dist_list d) + mset (concat (map (\<lambda>(v, c). replicate (unat c) v) vcs))"
  using assms(2,3) unfolding dist_extend_def
proof (induction vcs arbitrary: d)
  case (Cons p vcs)
  obtain v c where p: "p = (v, c)" by (cases p)
  let ?d = "snd (dist_insert_multi le v c d)"
  have small: "unat (dv_length d) + unat c < 2 ^ 32" using Cons.prems(2) by (simp add: p)
  note i = dist_insert_multi_inv [OF assms(1) Cons.prems(1) small, of v]
    and m = dist_insert_multi_mset [OF assms(1) Cons.prems(1) small, of v]
  have "unat (dv_length ?d) = unat (dv_length d) + unat c"
    using m by (simp add: dist_length_size [OF i] dist_length_size [OF Cons.prems(1)])
  with Cons.IH [OF i] Cons.prems(2) m show ?case by (simp add: p)
qed simp

section \<open>Properties\<close>

text \<open>Distributions survive serialization. Deserializing the sorted list of single values of a
  well formed distribution rebuilds it, counts and length included.\<close>

lemma dist_serialize_roundtrip:
  assumes order: "key_order le" and inv: "dist_inv le d"
  shows "dist_deserialize le (dist_serialize d) = d"
proof -
  have "unat (dv_length d) < 2 ^ 32" using unsigned_less [of "dv_length d", where ?'a = nat] by simp
  then have "dist_inv le (dist_deserialize le (dist_serialize d)) \<and>
      mset (dist_list (dist_deserialize le (dist_serialize d))) = mset (dist_list d)"
    using dist_extend_values_mset [OF order dist_new_inv, of "dist_list d"] dist_list_length [OF inv]
    by (simp add: dist_deserialize_def dist_serialize_list [OF inv]) (simp add: dist_new_def)
  with dist_canonical [OF order _ inv] show ?thesis by blast
qed

definition f64_code :: "f64 \<Rightarrow> int list" where
  "f64_code x =
     (case x of
        F64_NaN \<Rightarrow> []
      | F64_Inf s \<Rightarrow> [of_bool s]
      | F64_Fin s m e \<Rightarrow> [of_bool s, int m, e])"

definition example_le :: "f64 \<Rightarrow> f64 \<Rightarrow> bool" where
  "example_le a b \<longleftrightarrow> f64_code a \<le> f64_code b"

lemma example_le_order: "key_order example_le"
proof
  have inj: "f64_code a = f64_code b \<Longrightarrow> a = b" for a b
    by (cases a; cases b) (auto simp: f64_code_def)
  show "example_le a b \<or> example_le b a" for a b by (auto simp: example_le_def)
  show "example_le a b \<Longrightarrow> example_le b c \<Longrightarrow> example_le a c" for a b c by (simp add: example_le_def)
  show "example_le a b \<Longrightarrow> example_le b a \<Longrightarrow> a = b" for a b using inj by (simp add: example_le_def)
qed

definition example_dist :: distribution_value where
  "example_dist = \<lparr>dv_values = [(f64_zero, 3)], dv_length = 3\<rparr>"

lemma example_dist_inv: "dist_inv example_le example_dist"
  by (simp add: dist_inv_def example_dist_def bt_inv_def)

text \<open>Merging distributions is merging their multisets of values, so the order in which two
  buckets are merged does not matter, as long as the merged length fits the counter.\<close>

lemma dist_merge_commutes:
  assumes "key_order le" and "dist_inv le a" and "dist_inv le b"
    and "unat (dv_length a) + unat (dv_length b) < 2 ^ 32"
  shows "bucket_merge_into le (BV_Distribution a) (BV_Distribution b) =
           bucket_merge_into le (BV_Distribution b) (BV_Distribution a) \<and>
         (\<exists>d. bucket_merge_into le (BV_Distribution a) (BV_Distribution b) = Inr (BV_Distribution d) \<and>
              dist_inv le d \<and> mset (dist_list d) = mset (dist_list a) + mset (dist_list b))"
proof -
  have ab: "dist_inv le (dist_extend le (dv_values a) b) \<and>
      mset (dist_list (dist_extend le (dv_values a) b)) = mset (dist_list b) + mset (dist_list a)"
    using dist_extend_mset [OF assms(1,3), of "dv_values a"] assms(2,4)
    by (simp add: dist_inv_def dist_list_def add.commute)
  have ba: "dist_inv le (dist_extend le (dv_values b) a) \<and>
      mset (dist_list (dist_extend le (dv_values b) a)) = mset (dist_list a) + mset (dist_list b)"
    using dist_extend_mset [OF assms(1,2), of "dv_values b"] assms(3,4)
    by (simp add: dist_inv_def dist_list_def)
  have "dist_extend le (dv_values a) b = dist_extend le (dv_values b) a"
    using dist_canonical [OF assms(1)] ab ba by (simp add: add.commute)
  with ba show ?thesis by (simp add: dist_iter_def)
qed

text \<open>The two implementations of \<open>MergeValue\<close> agree. Inserting a metric value into a bucket is
  merging the bucket that the value alone would make, for every type and also when the
  types differ.\<close>

lemma metric_merge_is_bucket_merge:
  "metric_merge_into le v b = bucket_merge_into le (bucket_value_from le v) b"
  by (cases v; cases b)
    (simp_all add: gauge_insert_def gauge_merge_def gauge_single_def dist_extend_def dist_iter_def
      dist_insert_def dist_insert_multi_def Let_def dist_new_def bt_get_def)

end
