(* ===== verification/Metrics_Aggregator.thy ===== *)
theory Metrics_Aggregator
  imports Metrics_Values
begin

text \<open>
  The metrics aggregator (\<open>relay-metrics/src/aggregation.rs\<close>): bucket keys, the flush queue,
  inserting and merging, flushing to the receiver and merging back what the receiver
  returns. The hash map of buckets is a partial map, the binary heap a list ordered by flush
  time (the heap leaves the order of equal flush times open). A handler reads the clocks
  through one argument; panics of the source are the error \<open>AggregatePanic\<close> or \<open>None\<close>.
\<close>

section \<open>Buckets and their keys\<close>

record bucket_key =
  bk_timestamp :: unix_timestamp
  bk_metric_name :: string
  bk_metric_type :: metric_type
  bk_metric_unit :: metric_unit
  bk_tags :: "(string, string) btree_map"

record bucket =
  b_timestamp :: unix_timestamp
  b_name :: string
  b_unit :: metric_unit
  b_value :: bucket_value
  b_tags :: "(string, string) btree_map"

definition bucket_from_parts :: "bucket_key \<Rightarrow> bucket_value \<Rightarrow> bucket" where
  "bucket_from_parts key v =
     \<lparr>b_timestamp = bk_timestamp key, b_name = bk_metric_name key, b_unit = bk_metric_unit key,
      b_value = v, b_tags = bk_tags key\<rparr>"

section \<open>Configuration\<close>

record aggregator_config =
  cfg_bucket_interval :: u64
  cfg_initial_delay :: u64
  cfg_debounce_delay :: u64

definition aggregator_config_default :: aggregator_config where
  "aggregator_config_default =
     \<lparr>cfg_bucket_interval = 10, cfg_initial_delay = 30, cfg_debounce_delay = 10\<rparr>"

record clock =
  clk_instant :: instant
  clk_system :: system_time

text \<open>\<open>None\<close> is the panic of an instant out of range.\<close>

definition get_flush_time :: "clock \<Rightarrow> aggregator_config \<Rightarrow> unix_timestamp \<Rightarrow> instant option" where
  "get_flush_time clk cfg bucket_timestamp =
     (let now = clk_instant clk;
          debounced = instant_checked_add now (duration_from_secs (cfg_debounce_delay cfg))
      in case unix_to_instant (clk_system clk) (clk_instant clk) bucket_timestamp of
           MR_Instant instant \<Rightarrow>
             (case instant_checked_add instant (duration_from_secs (cfg_bucket_interval cfg)) of
                None \<Rightarrow> None
              | Some bucket_end \<Rightarrow>
                  (case instant_checked_add bucket_end (duration_from_secs (cfg_initial_delay cfg)) of
                     None \<Rightarrow> None
                   | Some initial_flush \<Rightarrow>
                       if initial_flush > now then Some initial_flush else debounced))
         | MR_Past \<Rightarrow> debounced
         | MR_Future \<Rightarrow> debounced)"

section \<open>The flush queue\<close>

record queued_bucket =
  qb_flush_at :: instant
  qb_key :: bucket_key

definition qb_elapsed :: "instant \<Rightarrow> queued_bucket \<Rightarrow> bool" where
  "qb_elapsed now q \<longleftrightarrow> now > qb_flush_at q"

text \<open>The reversed order of \<open>QueuedBucket\<close> makes the heap pop the earliest flush time first.\<close>

definition qb_cmp_le :: "queued_bucket \<Rightarrow> queued_bucket \<Rightarrow> bool" where
  "qb_cmp_le a b \<longleftrightarrow> qb_flush_at b \<le> qb_flush_at a"

fun heap_push :: "queued_bucket \<Rightarrow> queued_bucket list \<Rightarrow> queued_bucket list" where
  "heap_push x [] = [x]"
| "heap_push x (y # ys) = (if qb_cmp_le x y then y # heap_push x ys else x # y # ys)"

fun heap_peek :: "queued_bucket list \<Rightarrow> queued_bucket option" where
  "heap_peek [] = None"
| "heap_peek (x # xs) = Some x"

fun heap_pop :: "queued_bucket list \<Rightarrow> (queued_bucket \<times> queued_bucket list) option" where
  "heap_pop [] = None"
| "heap_pop (x # xs) = Some (x, xs)"

section \<open>The aggregator\<close>

record aggregator =
  agg_project_key :: project_key
  agg_config :: aggregator_config
  agg_buckets :: "bucket_key \<rightharpoonup> bucket_value"
  agg_queue :: "queued_bucket list"

definition aggregator_new :: "project_key \<Rightarrow> aggregator_config \<Rightarrow> aggregator" where
  "aggregator_new key config =
     \<lparr>agg_project_key = key, agg_config = config, agg_buckets = Map.empty, agg_queue = []\<rparr>"

definition get_bucket_timestamp :: "aggregator_config \<Rightarrow> unix_timestamp \<Rightarrow> unix_timestamp option" where
  "get_bucket_timestamp cfg timestamp =
     (if cfg_bucket_interval cfg = 0 then None
      else Some ((timestamp div cfg_bucket_interval cfg) * cfg_bucket_interval cfg))"

definition merge_in ::
  "('v \<Rightarrow> bucket_value) \<Rightarrow> ('v \<Rightarrow> bucket_value \<Rightarrow> aggregate_metrics_error + bucket_value) \<Rightarrow>
   clock \<Rightarrow> bucket_key \<Rightarrow> 'v \<Rightarrow> aggregator \<Rightarrow> (aggregate_metrics_error + unit) \<times> aggregator" where
  "merge_in into merge_into clk key v a =
     (let timestamp = bk_timestamp key in
      case agg_buckets a key of
        Some entry \<Rightarrow>
          (case merge_into v entry of
             Inl e \<Rightarrow> (Inl e, a)
           | Inr entry' \<Rightarrow> (Inr (), a\<lparr>agg_buckets := (agg_buckets a)(key \<mapsto> entry')\<rparr>))
      | None \<Rightarrow>
          (case get_flush_time clk (agg_config a) timestamp of
             None \<Rightarrow> (Inl AggregatePanic, a)
           | Some flush_at \<Rightarrow>
               (Inr (), a\<lparr>agg_queue := heap_push \<lparr>qb_flush_at = flush_at, qb_key = key\<rparr> (agg_queue a),
                          agg_buckets := (agg_buckets a)(key \<mapsto> into v)\<rparr>)))"

definition aggregator_insert ::
  "(f64 \<Rightarrow> f64 \<Rightarrow> bool) \<Rightarrow> clock \<Rightarrow> metric \<Rightarrow> aggregator \<Rightarrow> (aggregate_metrics_error + unit) \<times> aggregator" where
  "aggregator_insert le clk m a =
     (case get_bucket_timestamp (agg_config a) (metric_timestamp m) of
        None \<Rightarrow> (Inl AggregatePanic, a)
      | Some timestamp \<Rightarrow>
          merge_in (bucket_value_from le) (metric_merge_into le) clk
            \<lparr>bk_timestamp = timestamp, bk_metric_name = metric_name m,
             bk_metric_type = metric_value_ty (metric_value_of m),
             bk_metric_unit = metric_unit_of m, bk_tags = metric_tags m\<rparr>
            (metric_value_of m) a)"

definition aggregator_merge ::
  "(f64 \<Rightarrow> f64 \<Rightarrow> bool) \<Rightarrow> clock \<Rightarrow> bucket \<Rightarrow> aggregator \<Rightarrow> (aggregate_metrics_error + unit) \<times> aggregator" where
  "aggregator_merge le clk b a =
     merge_in (\<lambda>v. v) (bucket_merge_into le) clk
       \<lparr>bk_timestamp = b_timestamp b, bk_metric_name = b_name b,
        bk_metric_type = bucket_value_ty (b_value b), bk_metric_unit = b_unit b, bk_tags = b_tags b\<rparr>
       (b_value b) a"

text \<open>The loops stop at the first error and keep what was merged before it.\<close>

fun merge_all ::
  "(f64 \<Rightarrow> f64 \<Rightarrow> bool) \<Rightarrow> clock \<Rightarrow> bucket list \<Rightarrow> aggregator \<Rightarrow> (aggregate_metrics_error + unit) \<times> aggregator" where
  "merge_all le clk [] a = (Inr (), a)"
| "merge_all le clk (b # bs) a =
     (case aggregator_merge le clk b a of
        (Inl e, a') \<Rightarrow> (Inl e, a')
      | (Inr _, a') \<Rightarrow> merge_all le clk bs a')"

fun handle_insert_metrics ::
  "(f64 \<Rightarrow> f64 \<Rightarrow> bool) \<Rightarrow> clock \<Rightarrow> metric list \<Rightarrow> aggregator \<Rightarrow> (aggregate_metrics_error + unit) \<times> aggregator" where
  "handle_insert_metrics le clk [] a = (Inr (), a)"
| "handle_insert_metrics le clk (m # ms) a =
     (case aggregator_insert le clk m a of
        (Inl e, a') \<Rightarrow> (Inl e, a')
      | (Inr _, a') \<Rightarrow> handle_insert_metrics le clk ms a')"

definition handle_merge_buckets ::
  "(f64 \<Rightarrow> f64 \<Rightarrow> bool) \<Rightarrow> clock \<Rightarrow> bucket list \<Rightarrow> aggregator \<Rightarrow> (aggregate_metrics_error + unit) \<times> aggregator" where
  "handle_merge_buckets le clk buckets a = merge_all le clk buckets a"

record flush_buckets =
  fb_project_key :: project_key
  fb_buckets :: "bucket list"

text \<open>The loop of \<open>try_flush\<close>; \<open>None\<close> is one of its two \<open>unwrap\<close> panics.\<close>

lemma heap_pop_shorter: "heap_pop q = Some (x, q') \<Longrightarrow> length q' < length q"
  by (cases q) auto

function flush_loop :: "instant \<Rightarrow> aggregator \<Rightarrow> bucket list \<Rightarrow> (bucket list \<times> aggregator) option" where
  "flush_loop now a buckets =
     (if (case heap_peek (agg_queue a) of Some flush \<Rightarrow> qb_elapsed now flush | None \<Rightarrow> False)
      then (case heap_pop (agg_queue a) of
              None \<Rightarrow> None
            | Some (flush, queue) \<Rightarrow>
                (case agg_buckets a (qb_key flush) of
                   None \<Rightarrow> None
                 | Some v \<Rightarrow>
                     flush_loop now
                       (a\<lparr>agg_queue := queue, agg_buckets := (agg_buckets a)(qb_key flush := None)\<rparr>)
                       (buckets @ [bucket_from_parts (qb_key flush) v])))
      else Some (buckets, a))"
  by pat_completeness auto
termination
  by (relation "measure (\<lambda>(now, a, buckets). length (agg_queue a))")
    (auto dest: heap_pop_shorter)

declare flush_loop.simps [simp del]

definition try_flush :: "instant \<Rightarrow> aggregator \<Rightarrow> (flush_buckets option \<times> aggregator) option" where
  "try_flush now a =
     (case flush_loop now a [] of
        None \<Rightarrow> None
      | Some (buckets, a') \<Rightarrow>
          if buckets = [] then Some (None, a')
          else Some (Some \<lparr>fb_project_key = agg_project_key a', fb_buckets = buckets\<rparr>, a'))"

text \<open>The continuation that runs when the receiver answers: returned buckets are merged back.\<close>

definition flush_response ::
  "(f64 \<Rightarrow> f64 \<Rightarrow> bool) \<Rightarrow> clock \<Rightarrow> (bucket list + unit) \<Rightarrow> aggregator \<Rightarrow> aggregator" where
  "flush_response le clk result a =
     (case result of
        Inl buckets \<Rightarrow> snd (merge_all le clk buckets a)
      | Inr _ \<Rightarrow> a)"

section \<open>The contract of the queue\<close>

locale min_heap =
  fixes push :: "'a \<Rightarrow> 'q \<Rightarrow> 'q" and peek :: "'q \<Rightarrow> 'a option" and pop :: "'q \<Rightarrow> ('a \<times> 'q) option"
    and elems :: "'q \<Rightarrow> 'a multiset" and heap_inv :: "'q \<Rightarrow> bool" and key :: "'a \<Rightarrow> 'k::linorder"
  assumes push_inv: "heap_inv q \<Longrightarrow> heap_inv (push x q)"
    and push_elems: "elems (push x q) = add_mset x (elems q)"
    and peek_pop: "peek q = map_option fst (pop q)"
    and pop_None: "pop q = None \<longleftrightarrow> elems q = {#}"
    and pop_elems: "pop q = Some (x, q') \<Longrightarrow> elems q = add_mset x (elems q')"
    and pop_inv: "heap_inv q \<Longrightarrow> pop q = Some (x, q') \<Longrightarrow> heap_inv q'"
    and pop_min: "heap_inv q \<Longrightarrow> pop q = Some (x, q') \<Longrightarrow> y \<in># elems q \<Longrightarrow> key x \<le> key y"
begin

text \<open>When the element on top is not due, none is.\<close>

lemma none_due:
  assumes "heap_inv q" and "case peek q of Some x \<Rightarrow> \<not> key x < now | None \<Rightarrow> True" and "y \<in># elems q"
  shows "\<not> key y < now"
proof (cases "pop q")
  case None
  with assms(3) show ?thesis by (simp add: pop_None)
next
  case (Some p)
  obtain x q' where p: "p = (x, q')" by (cases p)
  have "key x \<le> key y" using pop_min [OF assms(1) _ assms(3)] Some by (simp add: p)
  with assms(2) show ?thesis by (simp add: peek_pop Some p)
qed

lemma peek_Some: "peek q = Some x \<Longrightarrow> \<exists>q'. pop q = Some (x, q')"
  by (auto simp: peek_pop)

end

definition heap_inv :: "queued_bucket list \<Rightarrow> bool" where
  "heap_inv q \<longleftrightarrow> sorted_wrt (\<lambda>a b. qb_flush_at a \<le> qb_flush_at b) q"

lemma heap_push_mset: "mset (heap_push x q) = add_mset x (mset q)"
  by (induction q) auto

lemma heap_push_set: "set (heap_push x q) = insert x (set q)"
  by (induction q) auto

lemma heap_push_inv: "heap_inv q \<Longrightarrow> heap_inv (heap_push x q)"
  unfolding heap_inv_def
  by (induction q) (auto simp: heap_push_set qb_cmp_le_def)

interpretation flush_queue: min_heap heap_push heap_peek heap_pop mset heap_inv qb_flush_at
proof
  show "heap_inv q \<Longrightarrow> heap_inv (heap_push x q)" for q x by (rule heap_push_inv)
  show "mset (heap_push x q) = add_mset x (mset q)" for q x by (rule heap_push_mset)
  show "heap_peek q = map_option fst (heap_pop q)" for q by (cases q) auto
  show "heap_pop q = None \<longleftrightarrow> mset q = {#}" for q by (cases q) auto
  show "heap_pop q = Some (x, q') \<Longrightarrow> mset q = add_mset x (mset q')" for q x q' by (cases q) auto
  show "heap_inv q \<Longrightarrow> heap_pop q = Some (x, q') \<Longrightarrow> heap_inv q'" for q x q'
    by (cases q) (auto simp: heap_inv_def)
  show "heap_inv q \<Longrightarrow> heap_pop q = Some (x, q') \<Longrightarrow> y \<in># mset q \<Longrightarrow> qb_flush_at x \<le> qb_flush_at y" for q x q' y
    by (cases q) (auto simp: heap_inv_def)
qed

section \<open>The invariant\<close>

text \<open>The queue holds every bucket key exactly once, and every bucket has the type of its key.\<close>

definition agg_inv :: "aggregator \<Rightarrow> bool" where
  "agg_inv a \<longleftrightarrow>
     heap_inv (agg_queue a) \<and> distinct (map qb_key (agg_queue a)) \<and>
     set (map qb_key (agg_queue a)) = dom (agg_buckets a) \<and>
     (\<forall>k v. agg_buckets a k = Some v \<longrightarrow> bucket_value_ty v = bk_metric_type k)"

lemma agg_invI:
  assumes "heap_inv (agg_queue a)" and "distinct (map qb_key (agg_queue a))"
    and "qb_key ` set (agg_queue a) = dom (agg_buckets a)"
    and "\<And>k v. agg_buckets a k = Some v \<Longrightarrow> bucket_value_ty v = bk_metric_type k"
  shows "agg_inv a"
  using assms by (simp add: agg_inv_def)

lemma agg_invD:
  assumes "agg_inv a"
  shows "heap_inv (agg_queue a)" and "distinct (map qb_key (agg_queue a))"
    and "qb_key ` set (agg_queue a) = dom (agg_buckets a)"
    and "agg_buckets a k = Some v \<Longrightarrow> bucket_value_ty v = bk_metric_type k"
  using assms by (simp_all add: agg_inv_def)

lemma aggregator_new_inv [simp]: "agg_inv (aggregator_new key config)"
  by (simp add: agg_inv_def aggregator_new_def heap_inv_def)

lemma heap_push_distinct:
  "distinct (map qb_key (heap_push x q)) \<longleftrightarrow> qb_key x \<notin> set (map qb_key q) \<and> distinct (map qb_key q)"
proof -
  have "mset (map qb_key (heap_push x q)) = mset (map qb_key (x # q))" by (simp add: heap_push_mset)
  then have "distinct (map qb_key (heap_push x q)) \<longleftrightarrow> distinct (map qb_key (x # q))"
    by (rule mset_eq_imp_distinct_iff)
  then show ?thesis by auto
qed

context merge_value
begin

lemma merge_in_inv:
  assumes "agg_inv a" and "ty v = bk_metric_type key" and "merge_in into merge_into clk key v a = (r, a')"
  shows "agg_inv a'"
proof (cases "agg_buckets a key")
  case None
  show ?thesis
  proof (cases "get_flush_time clk (agg_config a) (bk_timestamp key)")
    case (Some t)
    have fresh: "key \<notin> set (map qb_key (agg_queue a))" using None assms(1) by (auto simp: agg_inv_def)
    have a': "a' = a\<lparr>agg_queue := heap_push \<lparr>qb_flush_at = t, qb_key = key\<rparr> (agg_queue a),
        agg_buckets := (agg_buckets a)(key \<mapsto> into v)\<rparr>"
      using assms(3) None Some by (simp add: merge_in_def)
    show ?thesis
    proof (rule agg_invI)
      show "qb_key ` set (agg_queue a') = dom (agg_buckets a')"
        using agg_invD(3) [OF assms(1)] by (simp add: a' heap_push_set)
      show "bucket_value_ty w = bk_metric_type k" if "agg_buckets a' k = Some w" for k w
        using that assms(2) agg_invD(4) [OF assms(1)] by (auto simp: a' into_ty split: if_splits)
    qed (use fresh agg_invD [OF assms(1)] in \<open>simp_all add: a' heap_push_inv heap_push_distinct\<close>)
  qed (use assms None in \<open>simp add: merge_in_def\<close>)
next
  case (Some entry)
  show ?thesis
  proof (cases "merge_into v entry")
    case (Inr entry')
    have a': "a' = a\<lparr>agg_buckets := (agg_buckets a)(key \<mapsto> entry')\<rparr>"
      using assms(3) Some Inr by (simp add: merge_in_def)
    have ty: "bucket_value_ty entry' = bk_metric_type key"
      using merge_into_ty [OF Inr] Some agg_invD(4) [OF assms(1)] by simp
    show ?thesis
    proof (rule agg_invI)
      show "qb_key ` set (agg_queue a') = dom (agg_buckets a')"
        using agg_invD(3) [OF assms(1)] Some by (auto simp: a')
      show "bucket_value_ty w = bk_metric_type k" if "agg_buckets a' k = Some w" for k w
        using that ty agg_invD(4) [OF assms(1)] by (auto simp: a' split: if_splits)
    qed (use agg_invD [OF assms(1)] in \<open>simp_all add: a'\<close>)
  qed (use assms Some in \<open>simp add: merge_in_def\<close>)
qed

lemma merge_in_no_type_error:
  assumes "agg_inv a" and "ty v = bk_metric_type key"
  shows "fst (merge_in into merge_into clk key v a) \<noteq> Inl AggregateMetricsError"
proof (cases "agg_buckets a key")
  case (Some entry)
  then have "bucket_value_ty entry = ty v" using assms by (simp add: agg_inv_def)
  then obtain entry' where "merge_into v entry = Inr entry'" using merge_same by blast
  with Some show ?thesis by (simp add: merge_in_def)
qed (simp add: merge_in_def split: option.splits)

lemma merge_in_config: "agg_config (snd (merge_in into merge_into clk key v a)) = agg_config a"
  by (simp add: merge_in_def Let_def split: option.splits sum.splits)

end

lemma aggregator_insert_inv:
  "agg_inv a \<Longrightarrow> aggregator_insert le clk m a = (r, a') \<Longrightarrow> agg_inv a'"
  by (auto simp: aggregator_insert_def split: option.splits elim!: metric_merge.merge_in_inv [rotated 2])

lemma aggregator_merge_inv:
  "agg_inv a \<Longrightarrow> aggregator_merge le clk b a = (r, a') \<Longrightarrow> agg_inv a'"
  unfolding aggregator_merge_def by (rule bucket_merge.merge_in_inv) simp_all

lemma merge_all_inv: "agg_inv a \<Longrightarrow> merge_all le clk bs a = (r, a') \<Longrightarrow> agg_inv a'"
  by (induction bs arbitrary: a) (auto split: sum.splits prod.splits dest: aggregator_merge_inv)

lemma handle_insert_metrics_inv:
  "agg_inv a \<Longrightarrow> handle_insert_metrics le clk ms a = (r, a') \<Longrightarrow> agg_inv a'"
  by (induction ms arbitrary: a) (auto split: sum.splits prod.splits dest: aggregator_insert_inv)

lemma flush_response_inv: "agg_inv a \<Longrightarrow> agg_inv (flush_response le clk result a)"
  using merge_all_inv by (auto simp: flush_response_def split: sum.splits) (metis prod.collapse)

section \<open>Flushing\<close>

definition due :: "instant \<Rightarrow> aggregator \<Rightarrow> queued_bucket list" where
  "due now a = filter (qb_elapsed now) (agg_queue a)"

definition due_buckets :: "instant \<Rightarrow> aggregator \<Rightarrow> bucket list" where
  "due_buckets now a =
     map (\<lambda>q. bucket_from_parts (qb_key q) (the (agg_buckets a (qb_key q)))) (due now a)"

definition without_due :: "instant \<Rightarrow> aggregator \<Rightarrow> aggregator" where
  "without_due now a =
     a\<lparr>agg_queue := filter (\<lambda>q. \<not> qb_elapsed now q) (agg_queue a),
       agg_buckets := agg_buckets a |` (- set (map qb_key (due now a)))\<rparr>"

lemma agg_inv_pop:
  assumes "agg_inv a" and "agg_queue a = q # qs"
  shows "agg_inv (a\<lparr>agg_queue := qs, agg_buckets := (agg_buckets a)(qb_key q := None)\<rparr>)"
proof (rule agg_invI)
  let ?a = "a\<lparr>agg_queue := qs, agg_buckets := (agg_buckets a)(qb_key q := None)\<rparr>"
  have "qb_key q \<notin> qb_key ` set qs" using agg_invD(2) [OF assms(1)] by (simp add: assms(2))
  then show "qb_key ` set (agg_queue ?a) = dom (agg_buckets ?a)"
    using agg_invD(3) [OF assms(1)] by (simp add: assms(2)) (metis Diff_insert_absorb)
  show "bucket_value_ty w = bk_metric_type k" if "agg_buckets ?a k = Some w" for k w
    using that agg_invD(4) [OF assms(1)] by (auto split: if_splits)
qed (use agg_invD [OF assms(1)] in \<open>simp_all add: assms(2) heap_inv_def\<close>)

lemma not_due_rest:
  assumes "agg_inv a" and "agg_queue a = q # qs" and "\<not> qb_elapsed now q"
  shows "\<forall>y \<in> set (agg_queue a). \<not> qb_elapsed now y"
proof
  fix y assume "y \<in> set (agg_queue a)"
  then have "\<not> qb_flush_at y < now"
    using flush_queue.none_due [of "agg_queue a" now y] assms by (simp add: agg_inv_def qb_elapsed_def)
  then show "\<not> qb_elapsed now y" by (simp add: qb_elapsed_def)
qed

lemma flush_loop_exact:
  "agg_inv a \<Longrightarrow> flush_loop now a acc = Some (acc @ due_buckets now a, without_due now a)"
proof (induction "length (agg_queue a)" arbitrary: a acc)
  case 0
  have "without_due now a = a" using 0 by (cases a) (simp add: without_due_def due_def restrict_map_def)
  with 0 show ?case
    by (simp add: flush_loop.simps [of now a] due_buckets_def due_def)
next
  case (Suc n)
  then obtain q qs where q: "agg_queue a = q # qs" by (cases "agg_queue a") auto
  show ?case
  proof (cases "qb_elapsed now q")
    case True
    obtain v where v: "agg_buckets a (qb_key q) = Some v"
      using Suc.prems by (force simp: agg_inv_def q)
    let ?a = "a\<lparr>agg_queue := qs, agg_buckets := (agg_buckets a)(qb_key q := None)\<rparr>"
    have "flush_loop now ?a (acc @ [bucket_from_parts (qb_key q) v])
        = Some ((acc @ [bucket_from_parts (qb_key q) v]) @ due_buckets now ?a, without_due now ?a)"
      using Suc.hyps(2) q by (intro Suc.hyps(1) agg_inv_pop Suc.prems) simp_all
    moreover have "due_buckets now a = bucket_from_parts (qb_key q) v # due_buckets now ?a"
    proof -
      have "qb_key y \<noteq> qb_key q" if "y \<in> set qs" for y
        using that agg_invD(2) [OF Suc.prems] by (metis distinct.simps(2) image_eqI list.map(2) list.set_map q)
      then show ?thesis using True v by (auto simp: due_buckets_def due_def q)
    qed
    moreover have "without_due now ?a = without_due now a"
      using True by (auto simp: without_due_def due_def q restrict_map_def fun_eq_iff)
    ultimately show ?thesis
      using True v by (subst flush_loop.simps) (simp add: q)
  next
    case False
    have none: "\<forall>y \<in> set (agg_queue a). \<not> qb_elapsed now y" by (rule not_due_rest [OF Suc.prems q False])
    then have "due now a = []" by (simp add: due_def filter_empty_conv)
    then have "due_buckets now a = []" and "without_due now a = a"
      using none by (simp_all add: due_buckets_def without_due_def restrict_map_def)
    with False show ?thesis by (subst flush_loop.simps) (simp add: q)
  qed
qed

lemma without_due_inv:
  assumes "agg_inv a"
  shows "agg_inv (without_due now a)"
proof (rule agg_invI)
  let ?q = "set (agg_queue a)"
  note inv = agg_invD [OF assms]
  have inj: "inj_on qb_key ?q" using inv(2) by (simp add: distinct_map)
  have "qb_key ` {y \<in> ?q. \<not> qb_elapsed now y} = qb_key ` ?q - qb_key ` {y \<in> ?q. qb_elapsed now y}"
    using inj by (auto simp: inj_on_def)
  then show "qb_key ` set (agg_queue (without_due now a)) = dom (agg_buckets (without_due now a))"
    using inv(3) by (simp add: without_due_def due_def Diff_eq)
  show "distinct (map qb_key (agg_queue (without_due now a)))"
    using inv(2) by (simp add: without_due_def distinct_map_filter)
  show "heap_inv (agg_queue (without_due now a))"
    using inv(1) by (simp add: without_due_def heap_inv_def sorted_wrt_filter)
  show "bucket_value_ty w = bk_metric_type k" if "agg_buckets (without_due now a) k = Some w" for k w
    using that inv(4) by (auto simp: without_due_def restrict_map_def split: if_splits)
qed

lemma try_flush_inv: "agg_inv a \<Longrightarrow> try_flush now a = Some (msg, a') \<Longrightarrow> agg_inv a'"
  by (auto simp: try_flush_def flush_loop_exact without_due_inv split: if_splits)

section \<open>Errors\<close>

lemma aggregator_insert_no_type_error:
  "agg_inv a \<Longrightarrow> fst (aggregator_insert le clk m a) \<noteq> Inl AggregateMetricsError"
  by (simp add: aggregator_insert_def metric_merge.merge_in_no_type_error split: option.splits)

lemma aggregator_merge_no_type_error:
  "agg_inv a \<Longrightarrow> fst (aggregator_merge le clk b a) \<noteq> Inl AggregateMetricsError"
  unfolding aggregator_merge_def by (rule bucket_merge.merge_in_no_type_error) simp_all

lemma merge_all_no_type_error: "agg_inv a \<Longrightarrow> fst (merge_all le clk bs a) \<noteq> Inl AggregateMetricsError"
proof (induction bs arbitrary: a)
  case (Cons b bs)
  obtain r a' where m: "aggregator_merge le clk b a = (r, a')" by fastforce
  then show ?case
    using Cons.IH [OF aggregator_merge_inv [OF Cons.prems m]]
      aggregator_merge_no_type_error [OF Cons.prems, of le clk b]
    by (cases r) simp_all
qed simp

lemma handle_insert_no_type_error:
  "agg_inv a \<Longrightarrow> fst (handle_insert_metrics le clk ms a) \<noteq> Inl AggregateMetricsError"
proof (induction ms arbitrary: a)
  case (Cons m ms)
  obtain r a' where i: "aggregator_insert le clk m a = (r, a')" by fastforce
  then show ?case
    using Cons.IH [OF aggregator_insert_inv [OF Cons.prems i]]
      aggregator_insert_no_type_error [OF Cons.prems, of le clk m]
    by (cases r) simp_all
qed simp

section \<open>The actor and its messages\<close>

text \<open>
  The aggregator together with the flush messages the receiver has not answered yet. Messages
  are handled one at a time, in any order; the receiver answers in any order, with success
  or with buckets to merge back.
\<close>

record agg_system =
  sys_agg :: aggregator
  sys_inflight :: "flush_buckets list"

inductive agg_step :: "(f64 \<Rightarrow> f64 \<Rightarrow> bool) \<Rightarrow> agg_system \<Rightarrow> agg_system \<Rightarrow> bool" for le where
  step_insert: "handle_insert_metrics le clk ms (sys_agg s) = (r, a') \<Longrightarrow>
     agg_step le s (s\<lparr>sys_agg := a'\<rparr>)"
| step_merge: "handle_merge_buckets le clk bs (sys_agg s) = (r, a') \<Longrightarrow>
     agg_step le s (s\<lparr>sys_agg := a'\<rparr>)"
| step_flush_idle: "try_flush now (sys_agg s) = Some (None, a') \<Longrightarrow>
     agg_step le s (s\<lparr>sys_agg := a'\<rparr>)"
| step_flush: "try_flush now (sys_agg s) = Some (Some msg, a') \<Longrightarrow>
     agg_step le s \<lparr>sys_agg = a', sys_inflight = sys_inflight s @ [msg]\<rparr>"
| step_response: "sys_inflight s = xs @ msg # ys \<Longrightarrow>
     agg_step le s \<lparr>sys_agg = flush_response le clk result (sys_agg s), sys_inflight = xs @ ys\<rparr>"

inductive agg_reachable ::
  "(f64 \<Rightarrow> f64 \<Rightarrow> bool) \<Rightarrow> project_key \<Rightarrow> aggregator_config \<Rightarrow> agg_system \<Rightarrow> bool" for le key config where
  reach_start: "agg_reachable le key config \<lparr>sys_agg = aggregator_new key config, sys_inflight = []\<rparr>"
| reach_step: "agg_reachable le key config s \<Longrightarrow> agg_step le s s' \<Longrightarrow> agg_reachable le key config s'"

inductive_cases agg_stepE: "agg_step le s s'"

lemma agg_step_inv: "agg_step le s s' \<Longrightarrow> agg_inv (sys_agg s) \<Longrightarrow> agg_inv (sys_agg s')"
  by (induction rule: agg_step.induct)
    (auto simp: handle_merge_buckets_def flush_response_inv
      intro: handle_insert_metrics_inv merge_all_inv try_flush_inv)

lemma agg_reachable_inv: "agg_reachable le key config s \<Longrightarrow> agg_inv (sys_agg s)"
  by (induction rule: agg_reachable.induct) (auto dest: agg_step_inv)

section \<open>Merging returned buckets\<close>

lemma merge_from_parts:
  assumes "agg_buckets a k = None" and "bucket_value_ty v = bk_metric_type k"
    and "aggregator_merge le clk (bucket_from_parts k v) a = (Inr (), a')"
  shows "agg_buckets a' = (agg_buckets a)(k \<mapsto> v)"
proof -
  have "\<lparr>bk_timestamp = bk_timestamp k, bk_metric_name = bk_metric_name k,
      bk_metric_type = bucket_value_ty v, bk_metric_unit = bk_metric_unit k, bk_tags = bk_tags k\<rparr> = k"
    using assms(2) by (cases k) simp
  with assms(1,3) show ?thesis
    by (auto simp: aggregator_merge_def bucket_from_parts_def merge_in_def split: option.splits)
qed

lemma merge_all_from_parts:
  assumes "merge_all le clk (map (\<lambda>k. bucket_from_parts k (f k)) ks) a = (Inr (), a')"
    and "distinct ks" and "\<forall>k \<in> set ks. agg_buckets a k = None \<and> bucket_value_ty (f k) = bk_metric_type k"
  shows "agg_buckets a' = (\<lambda>k. if k \<in> set ks then Some (f k) else agg_buckets a k)"
  using assms
proof (induction ks arbitrary: a)
  case (Cons k ks)
  obtain a1 where m: "aggregator_merge le clk (bucket_from_parts k (f k)) a = (Inr (), a1)"
    and rest: "merge_all le clk (map (\<lambda>k. bucket_from_parts k (f k)) ks) a1 = (Inr (), a')"
    using Cons.prems(1) by (auto split: prod.splits sum.splits)
  have a1: "agg_buckets a1 = (agg_buckets a)(k \<mapsto> f k)"
    using Cons.prems(3) by (intro merge_from_parts [OF _ _ m]) auto
  then have "\<forall>k \<in> set ks. agg_buckets a1 k = None \<and> bucket_value_ty (f k) = bk_metric_type k"
    using Cons.prems(2,3) by auto
  with Cons.IH [OF rest] Cons.prems(2) a1 show ?case by (auto simp: fun_eq_iff)
qed simp

section \<open>Insertion as grouping\<close>

definition metric_key :: "aggregator_config \<Rightarrow> metric \<Rightarrow> bucket_key option" where
  "metric_key cfg m =
     map_option (\<lambda>ts. \<lparr>bk_timestamp = ts, bk_metric_name = metric_name m,
        bk_metric_type = metric_value_ty (metric_value_of m),
        bk_metric_unit = metric_unit_of m, bk_tags = metric_tags m\<rparr>)
       (get_bucket_timestamp cfg (metric_timestamp m))"

text \<open>The reference: a bucket absorbs the values of its key, one by one.\<close>

definition absorb :: "(f64 \<Rightarrow> f64 \<Rightarrow> bool) \<Rightarrow> bucket_value option \<Rightarrow> metric_value \<Rightarrow> bucket_value option" where
  "absorb le b v =
     (case b of
        None \<Rightarrow> Some (bucket_value_from le v)
      | Some b \<Rightarrow> (case metric_merge_into le v b of Inr b' \<Rightarrow> Some b' | Inl _ \<Rightarrow> Some b))"

lemma zero_interval_panics:
  "cfg_bucket_interval (agg_config a) = 0 \<Longrightarrow> aggregator_insert le clk m a = (Inl AggregatePanic, a)"
  by (simp add: aggregator_insert_def get_bucket_timestamp_def)

lemma insert_absorbs:
  assumes "aggregator_insert le clk m a = (Inr (), a')"
  shows "\<exists>key. metric_key (agg_config a) m = Some key \<and> agg_config a' = agg_config a \<and>
           agg_buckets a' = (agg_buckets a)(key := absorb le (agg_buckets a key) (metric_value_of m))"
  using assms metric_merge.merge_in_config
  by (auto simp: aggregator_insert_def metric_key_def merge_in_def absorb_def Let_def
      split: option.splits sum.splits)

section \<open>Properties\<close>

text \<open>C2: in every state the actor can reach, by any interleaving of metrics, buckets, flushes and
  receiver responses, the invariant holds: the queue and the bucket map agree. Hence
  flushing never panics on its two unwraps, and no message is ever refused because of
  mismatching metric types.\<close>

theorem aggregator_reachable_safe:
  assumes "agg_reachable le key config s"
  shows "agg_inv (sys_agg s) \<and> try_flush now (sys_agg s) \<noteq> None \<and>
         fst (handle_insert_metrics le clk ms (sys_agg s)) \<noteq> Inl AggregateMetricsError \<and>
         fst (handle_merge_buckets le clk bs (sys_agg s)) \<noteq> Inl AggregateMetricsError"
  using agg_reachable_inv [OF assms]
  by (simp add: try_flush_def flush_loop_exact handle_insert_no_type_error
      handle_merge_buckets_def merge_all_no_type_error)

definition example_clock :: clock where
  "example_clock = \<lparr>clk_instant = 0, clk_system = 4711000000000\<rparr>"

definition example_metric :: metric where
  "example_metric =
     \<lparr>metric_name = ''foo'', metric_unit_of = MU_None, metric_value_of = MV_Set 7,
      metric_timestamp = 4711, metric_tags = []\<rparr>"

definition example_agg :: aggregator where
  "example_agg = aggregator_new (ProjectKey ''a94ae32be2584e0bbd7a4cbb95971fee'') aggregator_config_default"

definition example_key :: bucket_key where
  "example_key =
     \<lparr>bk_timestamp = 4710, bk_metric_name = ''foo'', bk_metric_type = MT_Set, bk_metric_unit = MU_None,
      bk_tags = []\<rparr>"

definition example_filled :: aggregator where
  "example_filled =
     example_agg\<lparr>agg_queue := [\<lparr>qb_flush_at = 39000000000, qb_key = example_key\<rparr>],
                 agg_buckets := [example_key \<mapsto> BV_Set {7}]\<rparr>"

lemma example_flush_time:
  "get_flush_time example_clock aggregator_config_default 4710 = Some 39000000000"
proof -
  have "unix_from_system 4711000000000 = 4711"
    by (simp add: unix_from_system_def duration_as_secs_def nanos_per_sec_def)
  then show ?thesis
    by (simp add: get_flush_time_def example_clock_def Let_def unix_to_instant_def unix_sub_def
        instant_checked_sub_def instant_checked_add_def instant_representable_def nanos_per_sec_def
        duration_from_secs_def aggregator_config_default_def)
qed

lemma example_insert:
  "handle_insert_metrics le example_clock [example_metric] example_agg = (Inr (), example_filled)"
proof -
  have ts: "get_bucket_timestamp aggregator_config_default 4711 = Some 4710"
    by (simp add: get_bucket_timestamp_def aggregator_config_default_def)
  show ?thesis
    by (simp add: aggregator_insert_def example_agg_def example_metric_def aggregator_new_def ts
        example_flush_time merge_in_def example_filled_def example_key_def)
qed

theorem aggregator_reachable_safe_witness:
  "agg_inv example_filled \<and> try_flush (100000000000) example_filled \<noteq> None"
proof -
  let ?s = "\<lparr>sys_agg = example_agg, sys_inflight = []\<rparr>"
  have "agg_reachable example_le (ProjectKey ''a94ae32be2584e0bbd7a4cbb95971fee'') aggregator_config_default ?s"
    unfolding example_agg_def by (rule reach_start)
  moreover have "agg_step example_le ?s (?s\<lparr>sys_agg := example_filled\<rparr>)"
    by (rule step_insert [where clk = example_clock and ms = "[example_metric]"]) (simp only: example_insert agg_system.simps)
  ultimately have "agg_reachable example_le (ProjectKey ''a94ae32be2584e0bbd7a4cbb95971fee'')
      aggregator_config_default (?s\<lparr>sys_agg := example_filled\<rparr>)"
    by (rule reach_step)
  from aggregator_reachable_safe [OF this] show ?thesis by simp
qed

text \<open>A flush sends exactly the buckets whose flush time has passed, each with its value, in the
  order of the queue, and keeps exactly the others; nothing is sent when none is due.\<close>

lemma try_flush_exact:
  assumes "agg_inv a"
  shows "try_flush now a =
           Some (if due_buckets now a = [] then None
                 else Some \<lparr>fb_project_key = agg_project_key a, fb_buckets = due_buckets now a\<rparr>,
                 without_due now a) \<and>
         (\<forall>k. agg_buckets (without_due now a) k =
            (if k \<in> qb_key ` set (filter (qb_elapsed now) (agg_queue a)) then None else agg_buckets a k))"
  using flush_loop_exact [OF assms, of now "[]"]
  by (auto simp: try_flush_def without_due_def due_def restrict_map_def)

lemma example_filled_inv: "agg_inv example_filled"
  by (simp add: agg_inv_def example_filled_def example_agg_def aggregator_new_def heap_inv_def example_key_def)

lemma example_due: "due_buckets (100000000000) example_filled = [bucket_from_parts example_key (BV_Set {7})]"
  by (simp add: due_buckets_def due_def example_filled_def qb_elapsed_def)

text \<open>C19: inserting metrics is grouping them. After a successful batch every bucket holds what it
  held before, plus the values of exactly those metrics that share its time slot, name, type,
  unit and tags, absorbed in order.\<close>

theorem insert_metrics_groups:
  assumes "handle_insert_metrics le clk ms a = (Inr (), a')"
  shows "agg_buckets a' k =
           foldl (absorb le) (agg_buckets a k)
             (map metric_value_of (filter (\<lambda>m. metric_key (agg_config a) m = Some k) ms))"
  using assms
proof (induction ms arbitrary: a)
  case (Cons m ms)
  obtain a1 where i: "aggregator_insert le clk m a = (Inr (), a1)"
    and rest: "handle_insert_metrics le clk ms a1 = (Inr (), a')"
    using Cons.prems by (auto split: prod.splits sum.splits)
  from insert_absorbs [OF i] obtain key where "metric_key (agg_config a) m = Some key"
    "agg_config a1 = agg_config a"
    "agg_buckets a1 = (agg_buckets a)(key := absorb le (agg_buckets a key) (metric_value_of m))" by blast
  with Cons.IH [OF rest] show ?case by auto
qed simp

theorem insert_metrics_groups_witness:
  "\<exists>a'. handle_insert_metrics example_le example_clock [example_metric, example_metric] example_agg = (Inr (), a') \<and>
        agg_buckets a' example_key = Some (BV_Set {7})"
proof -
  have k: "metric_key (agg_config example_agg) example_metric = Some example_key"
    by (simp add: metric_key_def example_agg_def aggregator_new_def example_metric_def example_key_def
        get_bucket_timestamp_def aggregator_config_default_def)
  have "\<exists>a'. handle_insert_metrics example_le example_clock [example_metric] example_filled = (Inr (), a')"
    by (simp add: aggregator_insert_def example_filled_def example_agg_def aggregator_new_def
        example_metric_def merge_in_def example_key_def get_bucket_timestamp_def aggregator_config_default_def)
  then obtain a' where "handle_insert_metrics example_le example_clock [example_metric, example_metric] example_agg
      = (Inr (), a')"
    using example_insert [of example_le] by (auto split: prod.splits sum.splits)
  from insert_metrics_groups [OF this, of example_key] this show ?thesis
    by (simp add: k) (simp add: absorb_def example_metric_def example_agg_def aggregator_new_def)
qed

text \<open>When the receiver returns the buckets of a flush, merging them back restores every bucket,
  and the aggregator is again in a consistent state.\<close>

lemma flush_return_restores:
  assumes inv: "agg_inv a" and flush: "try_flush now a = Some (Some msg, a')"
    and ret: "merge_all le clk (fb_buckets msg) a' = (Inr (), a'')"
  shows "agg_buckets a'' = agg_buckets a \<and> agg_inv a''"
proof -
  let ?ks = "map qb_key (due now a)"
  have a': "a' = without_due now a" and msg: "fb_buckets msg = due_buckets now a"
    using flush flush_loop_exact [OF inv, of now "[]"] by (auto simp: try_flush_def split: if_splits)
  have some: "agg_buckets a k = Some (the (agg_buckets a k))" if "k \<in> set ?ks" for k
  proof -
    have "k \<in> dom (agg_buckets a)" using that agg_invD(3) [OF inv] by (auto simp: due_def)
    then show ?thesis by auto
  qed
  have ty: "bucket_value_ty (the (agg_buckets a k)) = bk_metric_type k" if "k \<in> set ?ks" for k
    by (rule agg_invD(4) [OF inv some [OF that]])
  have "merge_all le clk (map (\<lambda>k. bucket_from_parts k (the (agg_buckets a k))) ?ks) (without_due now a)
      = (Inr (), a'')"
    using ret by (simp add: a' msg due_buckets_def o_def)
  moreover have "distinct ?ks" using agg_invD(2) [OF inv] by (simp add: due_def distinct_map_filter)
  moreover have "agg_buckets (without_due now a) k = (if k \<in> set ?ks then None else agg_buckets a k)" for k
    by (auto simp: without_due_def restrict_map_def)
  ultimately have "agg_buckets a'' k = agg_buckets a k" for k
    using merge_all_from_parts [of le clk "\<lambda>k. the (agg_buckets a k)" ?ks "without_due now a" a''] ty some
    by auto
  then show ?thesis
    using merge_all_inv [OF without_due_inv [OF inv] ret [unfolded a']] by auto
qed

text \<open>Bucket timestamps are aligned. Unless the interval is zero, which panics, the slot of a
  timestamp starts at a multiple of the interval, at most one interval before it, and a slot
  start is its own slot.\<close>

lemma bucket_timestamp_aligned:
  assumes "cfg_bucket_interval cfg \<noteq> 0"
  shows "\<exists>slot. get_bucket_timestamp cfg ts = Some slot \<and>
           unat (cfg_bucket_interval cfg) dvd unat slot \<and>
           unat slot \<le> unat ts \<and> unat ts < unat slot + unat (cfg_bucket_interval cfg) \<and>
           get_bucket_timestamp cfg slot = Some slot"
proof -
  let ?w = "cfg_bucket_interval cfg"
  define slot where "slot = (ts div ?w) * ?w"
  have w: "0 < unat ?w" using assms by (simp add: unat_gt_0)
  have "unat ts div unat ?w * unat ?w < 2 ^ 64"
    using le_less_trans [OF div_times_less_eq_dividend unsigned_less [of ts, where ?'a = nat]] by simp
  then have slot: "unat slot = unat ts div unat ?w * unat ?w"
    by (simp add: slot_def unat_word_ariths(2) unat_div_distrib)
  have "unat ts < unat slot + unat ?w"
    using w mod_less_divisor [OF w, of "unat ts"] by (simp add: slot) (metis div_mult_mod_eq nat_add_left_cancel_less)
  moreover have "(slot div ?w) * ?w = slot"
    using w by (simp add: word_unat_eq_iff unat_word_ariths(2) unat_div_distrib slot)
      (use \<open>unat ts div unat ?w * unat ?w < 2 ^ 64\<close> in simp)
  ultimately show ?thesis
    using assms by (simp add: get_bucket_timestamp_def slot_def [symmetric] slot)
qed

text \<open>A new bucket is never scheduled in the past. Its flush time is either the end of its
  interval plus the initial delay, if that lies ahead, or the debounce delay from now.\<close>

lemma flush_time_ahead:
  assumes "get_flush_time clk cfg ts = Some t"
  shows "clk_instant clk \<le> t \<and>
         (t = clk_instant clk + int (duration_from_secs (cfg_debounce_delay cfg)) \<or>
          (\<exists>start. unix_to_instant (clk_system clk) (clk_instant clk) ts = MR_Instant start \<and>
             t = start + int (duration_from_secs (cfg_bucket_interval cfg))
                 + int (duration_from_secs (cfg_initial_delay cfg)) \<and>
             clk_instant clk < t))"
  using assms
  by (auto simp: get_flush_time_def Let_def instant_checked_add_def
      split: monotonic_result.splits option.splits if_splits)

end
