(* ===== verification/Relay_Config.thy ===== *)
theory Relay_Config
  imports Metrics_Aggregator
begin

text \<open>
  Configuration (\<open>relay-config/src/config.rs\<close>, \<open>byte_size.rs\<close>, \<open>upstream.rs\<close>): the sections that
  other components read, their defaults and accessors, overrides from the command line,
  byte sizes and upstream descriptors. Sections for logging, statsd and the error reporter
  are not modelled. Parsers of third-party crates (URLs, UUIDs, keys, addresses, sizes) are
  arguments.
\<close>

section \<open>Byte sizes\<close>

datatype size_unit = SU_Byte | SU_Kilobyte | SU_Megabyte | SU_Kibibyte | SU_Mebibyte

text \<open>A size of the crate \<open>human_size\<close>, built from a \<open>u32\<close> and a unit.\<close>

datatype byte_size = ByteSize u32 size_unit

fun size_factor :: "size_unit \<Rightarrow> u32" where
  "size_factor SU_Mebibyte = 1024 * 1024"
| "size_factor SU_Megabyte = 1000 * 1000"
| "size_factor SU_Kibibyte = 1024"
| "size_factor SU_Kilobyte = 1000"
| "size_factor SU_Byte = 1"

definition byte_size_multiple :: "u32 \<Rightarrow> size_unit \<Rightarrow> byte_size" where
  "byte_size_multiple v u = ByteSize v u"

definition byte_size_try_multiple :: "u32 \<Rightarrow> size_unit \<Rightarrow> byte_size option" where
  "byte_size_try_multiple v u =
     (let factor = size_factor u in
      if v mod factor = 0 then Some (byte_size_multiple (v div factor) u) else None)"

definition byte_size_bytes :: "u32 \<Rightarrow> byte_size" where
  "byte_size_bytes v = byte_size_multiple v SU_Byte"

definition byte_size_kibibytes :: "u32 \<Rightarrow> byte_size" where
  "byte_size_kibibytes v = byte_size_multiple v SU_Kibibyte"

definition byte_size_mebibytes :: "u32 \<Rightarrow> byte_size" where
  "byte_size_mebibytes v = byte_size_multiple v SU_Mebibyte"

definition byte_size_infer :: "u32 \<Rightarrow> byte_size" where
  "byte_size_infer v =
     (case byte_size_try_multiple v SU_Mebibyte of
        Some s \<Rightarrow> s
      | None \<Rightarrow>
          (case byte_size_try_multiple v SU_Megabyte of
             Some s \<Rightarrow> s
           | None \<Rightarrow>
               (case byte_size_try_multiple v SU_Kibibyte of
                  Some s \<Rightarrow> s
                | None \<Rightarrow>
                    (case byte_size_try_multiple v SU_Kilobyte of
                       Some s \<Rightarrow> s
                     | None \<Rightarrow> byte_size_bytes v))))"

text \<open>
  \<open>human_size\<close> computes in \<open>f64\<close>; every product of a \<open>u32\<close> and a factor is below \<open>2 ^ 53\<close> and
  therefore exact.
\<close>

fun byte_size_as_bytes :: "byte_size \<Rightarrow> nat" where
  "byte_size_as_bytes (ByteSize v u) = unat v * unat (size_factor u)"

fun size_unit_display :: "size_unit \<Rightarrow> string" where
  "size_unit_display SU_Byte = ''B''"
| "size_unit_display SU_Kilobyte = ''kB''"
| "size_unit_display SU_Megabyte = ''MB''"
| "size_unit_display SU_Kibibyte = ''KiB''"
| "size_unit_display SU_Mebibyte = ''MiB''"

fun byte_size_display :: "byte_size \<Rightarrow> string" where
  "byte_size_display (ByteSize v u) = show_nat (unat v) @ size_unit_display u"

definition byte_size_from_str :: "(string \<Rightarrow> 'e + byte_size) \<Rightarrow> string \<Rightarrow> 'e + byte_size" where
  "byte_size_from_str parse_size s =
     (case parse_u32 s of
        Some bytes \<Rightarrow> Inr (byte_size_bytes bytes)
      | None \<Rightarrow> parse_size s)"

definition byte_size_visit_u64 :: "u64 \<Rightarrow> byte_size option" where
  "byte_size_visit_u64 v = (if unat v < 2 ^ 32 then Some (byte_size_infer (ucast v)) else None)"

section \<open>Upstream descriptors\<close>

datatype scheme = Scheme_Http | Scheme_Https

fun scheme_default_port :: "scheme \<Rightarrow> u16" where
  "scheme_default_port Scheme_Http = 80"
| "scheme_default_port Scheme_Https = 443"

fun scheme_display :: "scheme \<Rightarrow> string" where
  "scheme_display Scheme_Http = ''http''"
| "scheme_display Scheme_Https = ''https''"

datatype upstream_parse_error = BadUrl | NonOriginUrl | UnknownScheme | NoHost

record upstream_descriptor =
  ud_host :: string
  ud_port :: u16
  ud_scheme :: scheme

text \<open>What \<open>Url::parse\<close> answers.\<close>

record url_parts =
  url_path :: string
  url_query :: "string option"
  url_scheme :: string
  url_host_str :: "string option"
  url_port :: "u16 option"

definition upstream_display :: "upstream_descriptor \<Rightarrow> string" where
  "upstream_display d =
     scheme_display (ud_scheme d) @ ''://'' @ ud_host d @
     (if ud_port d \<noteq> scheme_default_port (ud_scheme d) then '':'' @ show_nat (unat (ud_port d)) else []) @ ''/''"

text \<open>The text that \<open>get_url\<close> parses as a URL.\<close>

definition upstream_get_url :: "upstream_descriptor \<Rightarrow> string \<Rightarrow> string" where
  "upstream_get_url d path = upstream_display d @ dropWhile (\<lambda>c. c = CHR ''/'') path"

definition upstream_default :: upstream_descriptor where
  "upstream_default = \<lparr>ud_host = ''sentry.io'', ud_port = 443, ud_scheme = Scheme_Https\<rparr>"

definition upstream_from_str ::
  "(string \<Rightarrow> url_parts option) \<Rightarrow> string \<Rightarrow> upstream_parse_error + upstream_descriptor" where
  "upstream_from_str parse_url s =
     (case parse_url s of
        None \<Rightarrow> Inl BadUrl
      | Some url \<Rightarrow>
          if url_path url \<noteq> ''/'' \<or> \<not> (url_query url = None \<or> url_query url = Some '''') then Inl NonOriginUrl
          else
            (case (if url_scheme url = ''http'' then Some Scheme_Http
                   else if url_scheme url = ''https'' then Some Scheme_Https else None) of
               None \<Rightarrow> Inl UnknownScheme
             | Some scheme \<Rightarrow>
                 (case url_host_str url of
                    None \<Rightarrow> Inl NoHost
                  | Some host \<Rightarrow>
                      Inr \<lparr>ud_host = host,
                           ud_port = (case url_port url of Some p \<Rightarrow> p | None \<Rightarrow> scheme_default_port scheme),
                           ud_scheme = scheme\<rparr>)))"

section \<open>Configuration sections\<close>

datatype relay_mode = RM_Proxy | RM_Static | RM_Managed | RM_Capture

fun relay_mode_display :: "relay_mode \<Rightarrow> string" where
  "relay_mode_display RM_Proxy = ''proxy''"
| "relay_mode_display RM_Static = ''static''"
| "relay_mode_display RM_Managed = ''managed''"
| "relay_mode_display RM_Capture = ''capture''"

datatype readiness_condition = RC_Authenticated | RC_Always

record relay_section =
  rs_mode :: relay_mode
  rs_upstream :: upstream_descriptor
  rs_host :: string
  rs_port :: u16
  rs_tls_port :: "u16 option"
  rs_tls_identity_path :: "string option"
  rs_tls_identity_password :: "string option"

definition relay_section_default :: "string \<Rightarrow> relay_section" where
  "relay_section_default default_host =
     \<lparr>rs_mode = RM_Managed, rs_upstream = upstream_default, rs_host = default_host, rs_port = 3000,
      rs_tls_port = None, rs_tls_identity_path = None, rs_tls_identity_password = None\<rparr>"

record limits_section =
  ls_max_concurrent_requests :: nat
  ls_max_concurrent_queries :: nat
  ls_max_event_size :: byte_size
  ls_max_attachment_size :: byte_size
  ls_max_attachments_size :: byte_size
  ls_max_envelope_size :: byte_size
  ls_max_session_count :: nat
  ls_max_api_payload_size :: byte_size
  ls_max_api_file_upload_size :: byte_size
  ls_max_api_chunk_upload_size :: byte_size
  ls_max_thread_count :: nat
  ls_query_timeout :: u64
  ls_max_connection_rate :: nat
  ls_max_pending_connections :: int
  ls_max_connections :: nat
  ls_shutdown_timeout :: u64

definition limits_section_default :: "nat \<Rightarrow> limits_section" where
  "limits_section_default num_cpus =
     \<lparr>ls_max_concurrent_requests = 100, ls_max_concurrent_queries = 5,
      ls_max_event_size = byte_size_mebibytes 1, ls_max_attachment_size = byte_size_mebibytes 100,
      ls_max_attachments_size = byte_size_mebibytes 100, ls_max_envelope_size = byte_size_mebibytes 100,
      ls_max_session_count = 100, ls_max_api_payload_size = byte_size_mebibytes 20,
      ls_max_api_file_upload_size = byte_size_mebibytes 40,
      ls_max_api_chunk_upload_size = byte_size_mebibytes 100, ls_max_thread_count = num_cpus,
      ls_query_timeout = 30, ls_max_connection_rate = 256, ls_max_pending_connections = 2048,
      ls_max_connections = 25000, ls_shutdown_timeout = 10\<rparr>"

datatype http_encoding = HE_Identity | HE_Deflate | HE_Gzip | HE_Br

record http_section =
  hs_timeout :: u32
  hs_connection_timeout :: u32
  hs_max_retry_interval :: u32
  hs_host_header :: "string option"
  hs_auth_interval :: "u64 option"
  hs_outage_grace_period :: u64
  hs_encoding :: http_encoding

definition DEFAULT_NETWORK_OUTAGE_GRACE_PERIOD :: u64 where
  "DEFAULT_NETWORK_OUTAGE_GRACE_PERIOD = 10"

definition http_section_default :: http_section where
  "http_section_default =
     \<lparr>hs_timeout = 5, hs_connection_timeout = 3, hs_max_retry_interval = 60, hs_host_header = None,
      hs_auth_interval = Some 600, hs_outage_grace_period = DEFAULT_NETWORK_OUTAGE_GRACE_PERIOD,
      hs_encoding = HE_Gzip\<rparr>"

record cache_section =
  cs_project_expiry :: u32
  cs_project_grace_period :: u32
  cs_relay_expiry :: u32
  cs_envelope_expiry :: u32
  cs_envelope_buffer_size :: u32
  cs_miss_expiry :: u32
  cs_batch_interval :: u32
  cs_batch_size :: nat
  cs_file_interval :: u32
  cs_eviction_interval :: u32

definition cache_section_default :: cache_section where
  "cache_section_default =
     \<lparr>cs_project_expiry = 300, cs_project_grace_period = 0, cs_relay_expiry = 3600,
      cs_envelope_expiry = 600, cs_envelope_buffer_size = 1000, cs_miss_expiry = 60,
      cs_batch_interval = 100, cs_batch_size = 500, cs_file_interval = 10, cs_eviction_interval = 60\<rparr>"

datatype kafka_topic =
    KT_Events | KT_Attachments | KT_Transactions | KT_Outcomes | KT_Sessions | KT_Metrics

record topic_names =
  tn_events :: string
  tn_attachments :: string
  tn_transactions :: string
  tn_outcomes :: string
  tn_sessions :: string
  tn_metrics :: string

definition topic_names_default :: topic_names where
  "topic_names_default =
     \<lparr>tn_events = ''ingest-events'', tn_attachments = ''ingest-attachments'',
      tn_transactions = ''ingest-transactions'', tn_outcomes = ''outcomes'',
      tn_sessions = ''ingest-sessions'', tn_metrics = ''ingest-metrics''\<rparr>"

record kafka_config_param =
  kp_name :: string
  kp_value :: string

datatype redis_config = RedisCluster "string list" | RedisSingle string

record processing_section =
  ps_enabled :: bool
  ps_geoip_path :: "string option"
  ps_max_secs_in_future :: u32
  ps_max_secs_in_past :: u32
  ps_max_session_secs_in_past :: u32
  ps_kafka_config :: "kafka_config_param list"
  ps_topics :: topic_names
  ps_redis :: "redis_config option"
  ps_attachment_chunk_size :: byte_size
  ps_projectconfig_cache_prefix :: string
  ps_max_rate_limit :: "u32 option"
  ps_internal_projects :: "project_id list"

definition processing_section_default :: processing_section where
  "processing_section_default =
     \<lparr>ps_enabled = False, ps_geoip_path = None, ps_max_secs_in_future = 60,
      ps_max_secs_in_past = 30 * 24 * 3600, ps_max_session_secs_in_past = 5 * 24 * 3600,
      ps_kafka_config = [], ps_topics = topic_names_default, ps_redis = None,
      ps_attachment_chunk_size = byte_size_mebibytes 1, ps_projectconfig_cache_prefix = ''relayconfig'',
      ps_max_rate_limit = Some 300, ps_internal_projects = []\<rparr>"

record outcomes_section =
  os_emit_outcomes :: bool
  os_batch_size :: nat
  os_batch_interval :: u64
  os_source :: "string option"

definition outcomes_section_default :: outcomes_section where
  "outcomes_section_default =
     \<lparr>os_emit_outcomes = False, os_batch_size = 1000, os_batch_interval = 500, os_source = None\<rparr>"

text \<open>Keys are byte strings, relay identifiers UUIDs.\<close>

type_synonym public_key = bytes
type_synonym secret_key = bytes
type_synonym relay_id = "128 word"

record relay_info =
  ri_public_key :: public_key
  ri_internal :: bool

definition relay_info_new :: "public_key \<Rightarrow> relay_info" where
  "relay_info_new pk = \<lparr>ri_public_key = pk, ri_internal = False\<rparr>"

record auth_section =
  as_ready :: readiness_condition
  as_static_relays :: "relay_id \<Rightarrow> relay_info option"

record credentials =
  cr_secret_key :: secret_key
  cr_public_key :: public_key
  cr_id :: relay_id

record config_values =
  cv_relay :: relay_section
  cv_http :: http_section
  cv_cache :: cache_section
  cv_limits :: limits_section
  cv_processing :: processing_section
  cv_outcomes :: outcomes_section
  cv_aggregator :: aggregator_config
  cv_auth :: auth_section

record relay_config =
  rc_values :: config_values
  rc_credentials :: "credentials option"

definition config_values_default :: "string \<Rightarrow> nat \<Rightarrow> config_values" where
  "config_values_default default_host num_cpus =
     \<lparr>cv_relay = relay_section_default default_host, cv_http = http_section_default,
      cv_cache = cache_section_default, cv_limits = limits_section_default num_cpus,
      cv_processing = processing_section_default, cv_outcomes = outcomes_section_default,
      cv_aggregator = aggregator_config_default,
      cv_auth = \<lparr>as_ready = RC_Authenticated, as_static_relays = (\<lambda>_. None)\<rparr>\<rparr>"

definition config_default :: "string \<Rightarrow> nat \<Rightarrow> relay_config" where
  "config_default default_host num_cpus =
     \<lparr>rc_values = config_values_default default_host num_cpus, rc_credentials = None\<rparr>"

section \<open>Accessors\<close>

definition duration_from_millis :: "u64 \<Rightarrow> duration" where
  "duration_from_millis ms = unat ms * 10 ^ 6"

definition duration_u32 :: "u32 \<Rightarrow> duration" where
  "duration_u32 s = duration_from_secs (ucast s)"

definition cfg_relay_mode :: "relay_config \<Rightarrow> relay_mode" where
  "cfg_relay_mode c = rs_mode (cv_relay (rc_values c))"

definition tls_listen_addr :: "relay_config \<Rightarrow> (string \<times> u16) option" where
  "tls_listen_addr c =
     (let r = cv_relay (rc_values c) in
      if rs_tls_identity_path r \<noteq> None
      then Some (rs_host r, case rs_tls_port r of Some p \<Rightarrow> p | None \<Rightarrow> 3443)
      else None)"

definition processing_enabled :: "relay_config \<Rightarrow> bool" where
  "processing_enabled c = ps_enabled (cv_processing (rc_values c))"

definition requires_auth :: "relay_config \<Rightarrow> bool" where
  "requires_auth c =
     (case as_ready (cv_auth (rc_values c)) of
        RC_Authenticated \<Rightarrow> cfg_relay_mode c = RM_Managed
      | RC_Always \<Rightarrow> False)"

definition http_auth_interval :: "relay_config \<Rightarrow> duration option" where
  "http_auth_interval c =
     (if processing_enabled c then None
      else (case hs_auth_interval (cv_http (rc_values c)) of
              None \<Rightarrow> None
            | Some secs \<Rightarrow> if secs = 0 then None else Some (duration_from_secs secs)))"

definition http_outage_grace_period :: "relay_config \<Rightarrow> duration" where
  "http_outage_grace_period c = duration_from_secs (hs_outage_grace_period (cv_http (rc_values c)))"

definition emit_outcomes :: "relay_config \<Rightarrow> bool" where
  "emit_outcomes c \<longleftrightarrow> os_emit_outcomes (cv_outcomes (rc_values c)) \<or> ps_enabled (cv_processing (rc_values c))"

definition outcome_batch_size :: "relay_config \<Rightarrow> nat" where
  "outcome_batch_size c = os_batch_size (cv_outcomes (rc_values c))"

definition outcome_batch_interval :: "relay_config \<Rightarrow> duration" where
  "outcome_batch_interval c = duration_from_millis (os_batch_interval (cv_outcomes (rc_values c)))"

definition outcome_source :: "relay_config \<Rightarrow> string option" where
  "outcome_source c = os_source (cv_outcomes (rc_values c))"

definition http_max_retry_interval :: "relay_config \<Rightarrow> duration" where
  "http_max_retry_interval c = duration_u32 (hs_max_retry_interval (cv_http (rc_values c)))"

definition project_cache_expiry :: "relay_config \<Rightarrow> duration" where
  "project_cache_expiry c = duration_u32 (cs_project_expiry (cv_cache (rc_values c)))"

definition relay_cache_expiry :: "relay_config \<Rightarrow> duration" where
  "relay_cache_expiry c = duration_u32 (cs_relay_expiry (cv_cache (rc_values c)))"

definition envelope_buffer_expiry :: "relay_config \<Rightarrow> duration" where
  "envelope_buffer_expiry c = duration_u32 (cs_envelope_expiry (cv_cache (rc_values c)))"

definition envelope_buffer_size :: "relay_config \<Rightarrow> u32" where
  "envelope_buffer_size c = cs_envelope_buffer_size (cv_cache (rc_values c))"

definition cache_miss_expiry :: "relay_config \<Rightarrow> duration" where
  "cache_miss_expiry c = duration_u32 (cs_miss_expiry (cv_cache (rc_values c)))"

definition project_grace_period :: "relay_config \<Rightarrow> duration" where
  "project_grace_period c = duration_u32 (cs_project_grace_period (cv_cache (rc_values c)))"

definition query_batch_interval :: "relay_config \<Rightarrow> duration" where
  "query_batch_interval c = duration_from_millis (ucast (cs_batch_interval (cv_cache (rc_values c))))"

definition query_batch_size :: "relay_config \<Rightarrow> nat" where
  "query_batch_size c = cs_batch_size (cv_cache (rc_values c))"

definition max_concurrent_requests :: "relay_config \<Rightarrow> nat" where
  "max_concurrent_requests c = ls_max_concurrent_requests (cv_limits (rc_values c))"

definition max_concurrent_queries :: "relay_config \<Rightarrow> nat" where
  "max_concurrent_queries c = ls_max_concurrent_queries (cv_limits (rc_values c))"

definition query_timeout :: "relay_config \<Rightarrow> duration" where
  "query_timeout c = duration_from_secs (ls_query_timeout (cv_limits (rc_values c)))"

definition max_event_size :: "relay_config \<Rightarrow> nat" where
  "max_event_size c = byte_size_as_bytes (ls_max_event_size (cv_limits (rc_values c)))"

definition max_attachment_size :: "relay_config \<Rightarrow> nat" where
  "max_attachment_size c = byte_size_as_bytes (ls_max_attachment_size (cv_limits (rc_values c)))"

definition max_attachments_size :: "relay_config \<Rightarrow> nat" where
  "max_attachments_size c = byte_size_as_bytes (ls_max_attachments_size (cv_limits (rc_values c)))"

definition max_session_count :: "relay_config \<Rightarrow> nat" where
  "max_session_count c = ls_max_session_count (cv_limits (rc_values c))"

definition max_secs_in_future :: "relay_config \<Rightarrow> int" where
  "max_secs_in_future c = uint (ps_max_secs_in_future (cv_processing (rc_values c)))"

definition max_secs_in_past :: "relay_config \<Rightarrow> int" where
  "max_secs_in_past c = uint (ps_max_secs_in_past (cv_processing (rc_values c)))"

definition max_session_secs_in_past :: "relay_config \<Rightarrow> int" where
  "max_session_secs_in_past c = uint (ps_max_session_secs_in_past (cv_processing (rc_values c)))"

definition kafka_topic_name :: "relay_config \<Rightarrow> kafka_topic \<Rightarrow> string" where
  "kafka_topic_name c topic =
     (let topics = ps_topics (cv_processing (rc_values c)) in
      case topic of
        KT_Attachments \<Rightarrow> tn_attachments topics
      | KT_Events \<Rightarrow> tn_events topics
      | KT_Transactions \<Rightarrow> tn_transactions topics
      | KT_Outcomes \<Rightarrow> tn_outcomes topics
      | KT_Sessions \<Rightarrow> tn_sessions topics
      | KT_Metrics \<Rightarrow> tn_metrics topics)"

definition cfg_max_rate_limit :: "relay_config \<Rightarrow> u64 option" where
  "cfg_max_rate_limit c = map_option ucast (ps_max_rate_limit (cv_processing (rc_values c)))"

definition cfg_static_relays :: "relay_config \<Rightarrow> relay_id \<Rightarrow> relay_info option" where
  "cfg_static_relays c = as_static_relays (cv_auth (rc_values c))"

section \<open>Overrides\<close>

datatype config_error_kind =
    CouldNotOpenFile | CouldNotWriteFile | BadYaml | BadJson | InvalidValue | ProcessingNotAvailable

record config_error =
  ce_kind :: config_error_kind
  ce_field :: string

record overridable_config =
  oc_upstream :: "string option"
  oc_host :: "string option"
  oc_port :: "string option"
  oc_processing :: "string option"
  oc_kafka_url :: "string option"
  oc_redis_url :: "string option"
  oc_id :: "string option"
  oc_secret_key :: "string option"
  oc_public_key :: "string option"
  oc_outcome_source :: "string option"

record config_ext =
  cx_parse_url :: "string \<Rightarrow> url_parts option"
  cx_parse_ip :: "string \<Rightarrow> string option"
  cx_to_lowercase :: "string \<Rightarrow> string"
  cx_parse_uuid :: "string \<Rightarrow> relay_id option"
  cx_parse_public_key :: "string \<Rightarrow> public_key option"
  cx_parse_secret_key :: "string \<Rightarrow> secret_key option"

definition invalid_field :: "string \<Rightarrow> config_error" where
  "invalid_field name = \<lparr>ce_kind = InvalidValue, ce_field = name\<rparr>"

text \<open>
  The steps of \<open>apply_override\<close> in their order. Each works on the configuration in place, so
  that an error keeps what earlier steps have written: a step returns the error, if any,
  and the configuration.
\<close>

type_synonym 'a override_step = "relay_config \<Rightarrow> (config_error + 'a) \<times> relay_config"

definition override_bind :: "'a override_step \<Rightarrow> ('a \<Rightarrow> 'b override_step) \<Rightarrow> 'b override_step" where
  "override_bind m f c = (case m c of (Inl e, c') \<Rightarrow> (Inl e, c') | (Inr x, c') \<Rightarrow> f x c')"

definition update_relay :: "(relay_section \<Rightarrow> relay_section) \<Rightarrow> relay_config \<Rightarrow> relay_config" where
  "update_relay f c = c\<lparr>rc_values := (rc_values c)\<lparr>cv_relay := f (cv_relay (rc_values c))\<rparr>\<rparr>"

definition update_processing :: "(processing_section \<Rightarrow> processing_section) \<Rightarrow> relay_config \<Rightarrow> relay_config" where
  "update_processing f c = c\<lparr>rc_values := (rc_values c)\<lparr>cv_processing := f (cv_processing (rc_values c))\<rparr>\<rparr>"

definition update_outcomes :: "(outcomes_section \<Rightarrow> outcomes_section) \<Rightarrow> relay_config \<Rightarrow> relay_config" where
  "update_outcomes f c = c\<lparr>rc_values := (rc_values c)\<lparr>cv_outcomes := f (cv_outcomes (rc_values c))\<rparr>\<rparr>"

definition override_upstream :: "config_ext \<Rightarrow> overridable_config \<Rightarrow> unit override_step" where
  "override_upstream cx oc c =
     (case oc_upstream oc of
        None \<Rightarrow> (Inr (), c)
      | Some upstream \<Rightarrow>
          (case upstream_from_str (cx_parse_url cx) upstream of
             Inl _ \<Rightarrow> (Inl (invalid_field ''upstream''), c)
           | Inr d \<Rightarrow> (Inr (), update_relay (\<lambda>r. r\<lparr>rs_upstream := d\<rparr>) c)))"

definition override_host :: "config_ext \<Rightarrow> overridable_config \<Rightarrow> unit override_step" where
  "override_host cx oc c =
     (case oc_host oc of
        None \<Rightarrow> (Inr (), c)
      | Some host \<Rightarrow>
          (case cx_parse_ip cx host of
             None \<Rightarrow> (Inl (invalid_field ''host''), c)
           | Some h \<Rightarrow> (Inr (), update_relay (\<lambda>r. r\<lparr>rs_host := h\<rparr>) c)))"

definition override_port :: "overridable_config \<Rightarrow> unit override_step" where
  "override_port oc c =
     (case oc_port oc of
        None \<Rightarrow> (Inr (), c)
      | Some port \<Rightarrow>
          (case parse_unsigned 16 port of
             None \<Rightarrow> (Inl (invalid_field ''port''), c)
           | Some p \<Rightarrow> (Inr (), update_relay (\<lambda>r. r\<lparr>rs_port := word_of_nat p\<rparr>) c)))"

fun set_bootstrap_servers :: "string \<Rightarrow> kafka_config_param list \<Rightarrow> kafka_config_param list" where
  "set_bootstrap_servers url [] = [\<lparr>kp_name = ''bootstrap.servers'', kp_value = url\<rparr>]"
| "set_bootstrap_servers url (e # es) =
     (if kp_name e = ''bootstrap.servers'' then e\<lparr>kp_value := url\<rparr> # es
      else e # set_bootstrap_servers url es)"

definition override_processing :: "config_ext \<Rightarrow> overridable_config \<Rightarrow> unit override_step" where
  "override_processing cx oc c =
     (case oc_processing oc of
        None \<Rightarrow> (Inr (), c)
      | Some enabled \<Rightarrow>
          let s = cx_to_lowercase cx enabled in
          if s = ''true'' \<or> s = ''1'' then (Inr (), update_processing (\<lambda>p. p\<lparr>ps_enabled := True\<rparr>) c)
          else if s = ''false'' \<or> s = ''0'' \<or> s = [] then
            (Inr (), update_processing (\<lambda>p. p\<lparr>ps_enabled := False\<rparr>) c)
          else (Inl (invalid_field ''processing''), c))"

definition override_stores :: "overridable_config \<Rightarrow> unit override_step" where
  "override_stores oc c =
     (let c1 = (case oc_redis_url oc of
                  None \<Rightarrow> c
                | Some url \<Rightarrow> update_processing (\<lambda>p. p\<lparr>ps_redis := Some (RedisSingle url)\<rparr>) c);
          c2 = (case oc_kafka_url oc of
                  None \<Rightarrow> c1
                | Some url \<Rightarrow>
                    update_processing
                      (\<lambda>p. p\<lparr>ps_kafka_config := set_bootstrap_servers url (ps_kafka_config p)\<rparr>) c1)
      in (Inr (), c2))"

definition parse_override :: "(string \<Rightarrow> 'a option) \<Rightarrow> string \<Rightarrow> string option \<Rightarrow> ('a option) override_step" where
  "parse_override parse name v c =
     (case v of
        None \<Rightarrow> (Inr None, c)
      | Some s \<Rightarrow> (case parse s of None \<Rightarrow> (Inl (invalid_field name), c) | Some x \<Rightarrow> (Inr (Some x), c)))"

definition override_credentials ::
  "overridable_config \<Rightarrow> relay_id option \<Rightarrow> public_key option \<Rightarrow> secret_key option \<Rightarrow> unit override_step" where
  "override_credentials oc cid pk sk c0 =
     (let c = (if oc_outcome_source oc \<noteq> None
               then update_outcomes (\<lambda>os. os\<lparr>os_source := oc_outcome_source oc\<rparr>) c0 else c0) in
      case rc_credentials c of
        Some cr \<Rightarrow>
          let cr1 = (case cid of Some i \<Rightarrow> cr\<lparr>cr_id := i\<rparr> | None \<Rightarrow> cr);
              cr2 = (case pk of Some k \<Rightarrow> cr1\<lparr>cr_public_key := k\<rparr> | None \<Rightarrow> cr1);
              cr3 = (case sk of Some k \<Rightarrow> cr2\<lparr>cr_secret_key := k\<rparr> | None \<Rightarrow> cr2)
          in (Inr (), c\<lparr>rc_credentials := Some cr3\<rparr>)
      | None \<Rightarrow>
          (case (cid, pk, sk) of
             (Some i, Some p, Some s) \<Rightarrow>
               (Inr (), c\<lparr>rc_credentials := Some \<lparr>cr_secret_key = s, cr_public_key = p, cr_id = i\<rparr>\<rparr>)
           | (None, None, None) \<Rightarrow> (Inr (), c)
           | _ \<Rightarrow> (Inl (invalid_field ''incomplete credentials''), c)))"

definition apply_override :: "config_ext \<Rightarrow> overridable_config \<Rightarrow> unit override_step" where
  "apply_override cx oc =
     override_bind (override_upstream cx oc) (\<lambda>_.
     override_bind (override_host cx oc) (\<lambda>_.
     override_bind (override_port oc) (\<lambda>_.
     override_bind (override_processing cx oc) (\<lambda>_.
     override_bind (override_stores oc) (\<lambda>_.
     override_bind (parse_override (cx_parse_uuid cx) ''id'' (oc_id oc)) (\<lambda>cid.
     override_bind (parse_override (cx_parse_public_key cx) ''public_key'' (oc_public_key oc)) (\<lambda>pk.
     override_bind (parse_override (cx_parse_secret_key cx) ''secret_key'' (oc_secret_key oc)) (\<lambda>sk.
     override_credentials oc cid pk sk))))))))"

section \<open>Properties\<close>

lemma div_mult_exact:
  fixes v f :: "'a::len word"
  assumes "v mod f = 0"
  shows "unat (v div f) * unat f = unat v"
proof -
  have "unat (v mod f) = 0" using assms by simp
  then have "unat v mod unat f = 0" by (simp only: unat_mod_distrib)
  then show ?thesis by (simp add: unat_div_distrib mod_0_imp_dvd)
qed

lemma try_multiple_as_bytes: "byte_size_try_multiple v u = Some s \<Longrightarrow> byte_size_as_bytes s = unat v"
  using div_mult_exact [of v "size_factor u"]
  by (auto simp: byte_size_try_multiple_def Let_def byte_size_multiple_def split: if_splits)

text \<open>Inferring a unit keeps the number of bytes.\<close>

lemma byte_size_infer_exact: "byte_size_as_bytes (byte_size_infer v) = unat v"
  by (auto simp: byte_size_infer_def byte_size_bytes_def byte_size_multiple_def
      dest: try_multiple_as_bytes split: option.splits)

lemma update_credentials [simp]:
  "rc_credentials (update_relay f c) = rc_credentials c"
  "rc_credentials (update_processing g c) = rc_credentials c"
  "rc_credentials (update_outcomes h c) = rc_credentials c"
  by (simp_all add: update_relay_def update_processing_def update_outcomes_def)

text \<open>Steps before the credentials do not touch them.\<close>

definition keeps_credentials :: "'a override_step \<Rightarrow> bool" where
  "keeps_credentials m \<longleftrightarrow> (\<forall>c. rc_credentials (snd (m c)) = rc_credentials c)"

definition error_keeps_credentials :: "'a override_step \<Rightarrow> bool" where
  "error_keeps_credentials m \<longleftrightarrow>
     (\<forall>c e. fst (m c) = Inl e \<longrightarrow> rc_credentials (snd (m c)) = rc_credentials c)"

lemma steps_keep_credentials:
  "keeps_credentials (override_upstream cx oc)"
  "keeps_credentials (override_host cx oc)"
  "keeps_credentials (override_port oc)"
  "keeps_credentials (override_processing cx oc)"
  "keeps_credentials (override_stores oc)"
  "keeps_credentials (parse_override p n v)"
  by (simp_all add: keeps_credentials_def override_upstream_def override_host_def override_port_def
      override_processing_def override_stores_def parse_override_def Let_def
      split: option.splits sum.splits)

lemma override_credentials_error: "error_keeps_credentials (override_credentials oc cid pk sk)"
  by (auto simp: error_keeps_credentials_def override_credentials_def Let_def
      split: option.splits if_splits)

lemma override_bind_error:
  assumes "keeps_credentials m" and "\<And>x. error_keeps_credentials (f x)"
  shows "error_keeps_credentials (override_bind m f)"
  unfolding error_keeps_credentials_def
proof (intro allI impI)
  fix c e
  assume err: "fst (override_bind m f c) = Inl e"
  obtain r c' where m: "m c = (r, c')" by fastforce
  have c': "rc_credentials c' = rc_credentials c" using assms(1) m by (metis keeps_credentials_def snd_conv)
  show "rc_credentials (snd (override_bind m f c)) = rc_credentials c"
    using err assms(2) c' by (cases r) (auto simp: override_bind_def m error_keeps_credentials_def)
qed

text \<open>Command line overrides never leave half-written credentials: when an override is refused,
  the credentials are those before the call.\<close>

lemma override_error_keeps_credentials:
  assumes "fst (apply_override cx oc c) = Inl e"
  shows "rc_credentials (snd (apply_override cx oc c)) = rc_credentials c"
proof -
  have "error_keeps_credentials (apply_override cx oc)"
    unfolding apply_override_def
    by (intro override_bind_error steps_keep_credentials override_credentials_error)
  with assms show ?thesis by (simp add: error_keeps_credentials_def)
qed

end
