(* ===== verification/Project_State.thy ===== *)
theory Project_State
  imports Envelope_Limiter Sampling Relay_Config
begin

text \<open>
  Project states (\<open>relay-server/src/actors/project.rs\<close>, \<open>relay-general/src/pii/legacy.rs\<close>,
  \<open>relay-server/src/extractors/request_meta.rs\<close>): the cached configuration of a project, its
  expiry, and the checks of a request against it. Settings that only other components
  interpret (PII rules, grouping, breakdowns) are kept as JSON. URLs are their text.
\<close>

section \<open>Project configuration\<close>

datatype outdated = Updated | SoftOutdated | HardOutdated

datatype feature = MetricsExtraction | UnknownFeature

record data_scrubbing_config =
  dsc_exclude_fields :: "string list"
  dsc_scrub_data :: bool
  dsc_scrub_ip_addresses :: bool
  dsc_sensitive_fields :: "string list"
  dsc_scrub_defaults :: bool

definition data_scrubbing_new_disabled :: data_scrubbing_config where
  "data_scrubbing_new_disabled =
     \<lparr>dsc_exclude_fields = [], dsc_scrub_data = False, dsc_scrub_ip_addresses = False,
      dsc_sensitive_fields = [], dsc_scrub_defaults = False\<rparr>"

definition data_scrubbing_is_disabled :: "data_scrubbing_config \<Rightarrow> bool" where
  "data_scrubbing_is_disabled c \<longleftrightarrow> \<not> dsc_scrub_data c \<and> \<not> dsc_scrub_ip_addresses c"

text \<open>\<open>FiltersConfig::default\<close>.\<close>

definition filters_config_default :: filters_config where
  "filters_config_default =
     \<lparr>flt_browser_extensions = \<lparr>fc_is_enabled = False\<rparr>, flt_client_ips = [],
      flt_web_crawlers = \<lparr>fc_is_enabled = False\<rparr>, flt_csp = [], flt_error_messages = [],
      flt_legacy_browsers = \<lparr>lbc_is_enabled = False, lbc_browsers = {}\<rparr>,
      flt_localhost = \<lparr>fc_is_enabled = False\<rparr>, flt_releases = []\<rparr>"

record project_config =
  pc_allowed_domains :: "string list"
  pc_trusted_relays :: "public_key list"
  pc_pii_config :: "json option"
  pc_grouping_config :: "json option"
  pc_filter_settings :: filters_config
  pc_datascrubbing_settings :: data_scrubbing_config
  pc_event_retention :: "u16 option"
  pc_quotas :: "quota list"
  pc_dynamic_sampling :: "sampling_config option"
  pc_breakdowns_v2 :: "json option"
  pc_features :: "feature set"

definition project_config_default :: project_config where
  "project_config_default =
     \<lparr>pc_allowed_domains = [''*''], pc_trusted_relays = [], pc_pii_config = None,
      pc_grouping_config = None, pc_filter_settings = filters_config_default,
      pc_datascrubbing_settings = data_scrubbing_new_disabled, pc_event_retention = None,
      pc_quotas = [], pc_dynamic_sampling = None, pc_breakdowns_v2 = None, pc_features = {}\<rparr>"

record public_key_config =
  pkc_public_key :: project_key
  pkc_numeric_id :: "u64 option"

record project_state =
  st_project_id :: "project_id option"
  st_last_change :: "system_time option"
  st_disabled :: bool
  st_public_keys :: "public_key_config list"
  st_slug :: "string option"
  st_config :: project_config
  st_organization_id :: "u64 option"
  st_last_fetch :: instant
  st_invalid :: bool

text \<open>What an external Relay is sent.\<close>

record limited_project_config =
  lpc_allowed_domains :: "string list"
  lpc_trusted_relays :: "public_key list"
  lpc_pii_config :: "json option"
  lpc_datascrubbing_settings :: data_scrubbing_config
  lpc_features :: "feature set"

definition limit_project_config :: "project_config \<Rightarrow> limited_project_config" where
  "limit_project_config c =
     \<lparr>lpc_allowed_domains = pc_allowed_domains c, lpc_trusted_relays = pc_trusted_relays c,
      lpc_pii_config = pc_pii_config c, lpc_datascrubbing_settings = pc_datascrubbing_settings c,
      lpc_features = pc_features c\<rparr>"

section \<open>Constructors\<close>

definition state_missing :: "instant \<Rightarrow> project_state" where
  "state_missing now =
     \<lparr>st_project_id = None, st_last_change = None, st_disabled = True, st_public_keys = [],
      st_slug = None, st_config = project_config_default, st_organization_id = None,
      st_last_fetch = now, st_invalid = False\<rparr>"

definition state_allowed :: "instant \<Rightarrow> project_state" where
  "state_allowed now = (state_missing now)\<lparr>st_disabled := False\<rparr>"

definition state_err :: "instant \<Rightarrow> project_state" where
  "state_err now = (state_missing now)\<lparr>st_invalid := True\<rparr>"

section \<open>Queries\<close>

definition get_public_key_config :: "project_state \<Rightarrow> public_key_config option" where
  "get_public_key_config st = (case st_public_keys st of [] \<Rightarrow> None | k # _ \<Rightarrow> Some k)"

text \<open>\<open>Instant::elapsed\<close>; the clock is monotonic.\<close>

definition elapsed :: "instant \<Rightarrow> instant \<Rightarrow> duration" where
  "elapsed now since = nat (now - since)"

definition state_outdated :: "instant \<Rightarrow> relay_config \<Rightarrow> project_state \<Rightarrow> outdated" where
  "state_outdated now c st =
     (let expiry = (case st_project_id st of
                      None \<Rightarrow> cache_miss_expiry c
                    | Some _ \<Rightarrow> project_cache_expiry c);
          age = elapsed now (st_last_fetch st)
      in if expiry + project_grace_period c \<le> age then HardOutdated
         else if expiry \<le> age then SoftOutdated
         else Updated)"

definition is_valid_project_id :: "project_state \<Rightarrow> project_id option \<Rightarrow> bool" where
  "is_valid_project_id st stated_id =
     (case (st_project_id st, stated_id) of
        (Some actual_id, Some stated) \<Rightarrow> actual_id = stated
      | _ \<Rightarrow> True)"

definition is_valid_origin :: "'ip filter_ext \<Rightarrow> project_state \<Rightarrow> string option \<Rightarrow> bool" where
  "is_valid_origin fx st origin =
     (case origin of
        None \<Rightarrow> True
      | Some origin \<Rightarrow>
          let allowed = pc_allowed_domains (st_config st) in
          if allowed = [] then False
          else matches_any_origin fx (Some origin) (map (scheme_domain_port_from fx) allowed))"

definition is_matching_key :: "project_state \<Rightarrow> project_key \<Rightarrow> bool" where
  "is_matching_key st key =
     (case get_public_key_config st of
        Some k \<Rightarrow> pkc_public_key k = key
      | None \<Rightarrow> st_project_id st = None)"

definition get_partial_scoping :: "full_meta \<Rightarrow> scoping" where
  "get_partial_scoping m =
     \<lparr>organization_id = 0,
      project_id = (case dsn_project_id (rm_dsn m) of Some i \<Rightarrow> i | None \<Rightarrow> 0),
      project_key = dsn_public_key (rm_dsn m), key_id = None\<rparr>"

definition state_scope_request :: "project_state \<Rightarrow> full_meta \<Rightarrow> scoping" where
  "state_scope_request st m =
     (let s0 = get_partial_scoping m;
          s1 = s0\<lparr>key_id := Option.bind (get_public_key_config st) pkc_numeric_id\<rparr>;
          s2 = (case st_project_id st of Some i \<Rightarrow> s1\<lparr>project_id := i\<rparr> | None \<Rightarrow> s1)
      in s2\<lparr>organization_id := (case st_organization_id st of Some org \<Rightarrow> org | None \<Rightarrow> 0)\<rparr>)"

definition check_disabled :: "instant \<Rightarrow> relay_config \<Rightarrow> project_state \<Rightarrow> discard_reason + unit" where
  "check_disabled now c st =
     (if state_outdated now c st = HardOutdated then Inr ()
      else if st_invalid st then Inl DR_ProjectState
      else if st_disabled st then Inl DR_ProjectId
      else Inr ())"

definition check_request ::
  "'ip filter_ext \<Rightarrow> instant \<Rightarrow> relay_config \<Rightarrow> project_state \<Rightarrow> full_meta \<Rightarrow> discard_reason + unit" where
  "check_request fx now c st m =
     (if \<not> is_valid_project_id st (dsn_project_id (rm_dsn m)) then Inl DR_ProjectId
      else if \<not> is_valid_origin fx st (rm_origin m) then Inl DR_Cors
      else if \<not> is_matching_key st (dsn_public_key (rm_dsn m)) then Inl DR_ProjectId
      else check_disabled now c st)"

definition sanitize :: "project_state \<Rightarrow> project_state" where
  "sanitize st =
     st\<lparr>st_config := (st_config st)\<lparr>pc_quotas := filter quota_is_valid (pc_quotas (st_config st))\<rparr>\<rparr>"

definition has_feature :: "project_state \<Rightarrow> feature \<Rightarrow> bool" where
  "has_feature st f \<longleftrightarrow> f \<in> pc_features (st_config st)"

section \<open>Properties\<close>

text \<open>A state ages from up to date over soft to hard outdated and never back.\<close>

fun outdated_rank :: "outdated \<Rightarrow> nat" where
  "outdated_rank Updated = 0"
| "outdated_rank SoftOutdated = 1"
| "outdated_rank HardOutdated = 2"

lemma state_outdated_mono:
  "now \<le> later \<Longrightarrow> outdated_rank (state_outdated now c st) \<le> outdated_rank (state_outdated later c st)"
  by (auto simp: state_outdated_def elapsed_def Let_def)

lemma state_missing_rejected:
  "state_outdated now c (state_missing t) \<noteq> HardOutdated \<Longrightarrow>
   check_disabled now c (state_missing t) = Inl DR_ProjectId"
  by (simp add: check_disabled_def state_missing_def)

lemma state_err_rejected:
  "state_outdated now c (state_err t) \<noteq> HardOutdated \<Longrightarrow>
   check_disabled now c (state_err t) = Inl DR_ProjectState"
  by (simp add: check_disabled_def state_err_def)

lemma state_allowed_accepts: "check_disabled now c (state_allowed t) = Inr ()"
  by (simp add: check_disabled_def state_allowed_def state_missing_def)

lemma sanitize_valid: "q \<in> set (pc_quotas (st_config (sanitize st))) \<Longrightarrow> quota_is_valid q"
  by (simp add: sanitize_def)

lemma sanitize_idem [simp]: "sanitize (sanitize st) = sanitize st"
  by (simp add: sanitize_def)

lemma check_request_ok_iff:
  "check_request fx now c st m = Inr () \<longleftrightarrow>
     is_valid_project_id st (dsn_project_id (rm_dsn m)) \<and> is_valid_origin fx st (rm_origin m) \<and>
     is_matching_key st (dsn_public_key (rm_dsn m)) \<and> check_disabled now c st = Inr ()"
  by (simp add: check_request_def)

end
