(* ===== verification/Sessions.thy ===== *)
theory Sessions
  imports Project_State
begin

text \<open>
  Release health sessions: the session protocol (\<open>relay-general/src/protocol/session.rs\<close>), the
  correction of clock drift (\<open>relay-general/src/store/clock_drift.rs\<close>), and the session handling of the
  envelope processor with the extraction of metrics (\<open>relay-server/src/actors/envelopes.rs\<close>). A
  \<open>DateTime<Utc>\<close> is a number of nanoseconds since the UNIX epoch within the range of the chrono crate;
  leaving the range is a panic, which is \<open>None\<close>. Parsing and printing of JSON and the
  validation of releases and environments are third-party code and arguments.
\<close>

section \<open>Dates\<close>

type_synonym date_time = int
type_synonym signed_duration = int

definition ns :: int where
  "ns = 10 ^ 9"

text \<open>The years from -262144 to 262143, as days around the epoch.\<close>

definition date_time_ok :: "date_time \<Rightarrow> bool" where
  "date_time_ok t \<longleftrightarrow> - 96465659 * 86400 * ns \<le> t \<and> t < 95026602 * 86400 * ns"

definition date_time_add :: "date_time \<Rightarrow> signed_duration \<Rightarrow> date_time option" where
  "date_time_add t d = (if date_time_ok (t + d) then Some (t + d) else None)"

text \<open>\<open>Duration::num_seconds\<close> truncates towards zero.\<close>

definition num_seconds :: "signed_duration \<Rightarrow> int" where
  "num_seconds d = (if d < 0 then - (- d div ns) else d div ns)"

section \<open>Clock drift\<close>

record clock_correction =
  cc_sent_at :: date_time
  cc_drift :: signed_duration

definition clock_correction_new :: "date_time \<Rightarrow> date_time \<Rightarrow> clock_correction" where
  "clock_correction_new sent_at received_at = \<lparr>cc_sent_at = sent_at, cc_drift = received_at - sent_at\<rparr>"

definition correction_at_least :: "duration \<Rightarrow> clock_correction \<Rightarrow> clock_correction option" where
  "correction_at_least lower_bound c =
     (if int (duration_as_secs lower_bound) \<le> \<bar>num_seconds (cc_drift c)\<bar> then Some c else None)"

record clock_drift_processor =
  cdp_received_at :: date_time
  cdp_correction :: "clock_correction option"

definition clock_drift_new :: "date_time option \<Rightarrow> date_time \<Rightarrow> clock_drift_processor" where
  "clock_drift_new sent_at received_at =
     \<lparr>cdp_received_at = received_at,
      cdp_correction = map_option (\<lambda>s. clock_correction_new s received_at) sent_at\<rparr>"

definition drift_at_least :: "duration \<Rightarrow> clock_drift_processor \<Rightarrow> clock_drift_processor" where
  "drift_at_least lower_bound p = p\<lparr>cdp_correction := Option.bind (cdp_correction p) (correction_at_least lower_bound)\<rparr>"

definition is_drifted :: "clock_drift_processor \<Rightarrow> bool" where
  "is_drifted p \<longleftrightarrow> cdp_correction p \<noteq> None"

text \<open>Seconds are corrected with the wrapping arithmetic of a release build.\<close>

definition drift_process_unix :: "clock_drift_processor \<Rightarrow> unix_timestamp \<Rightarrow> unix_timestamp" where
  "drift_process_unix p t =
     (case cdp_correction p of
        None \<Rightarrow> t
      | Some c \<Rightarrow>
          let secs = num_seconds (cc_drift c)
          in if secs > 0 then t + word_of_int secs else t - word_of_int \<bar>secs\<bar>)"

definition MINIMUM_CLOCK_DRIFT :: duration where
  "MINIMUM_CLOCK_DRIFT = 55 * 60 * nanos_per_sec"

section \<open>The session protocol\<close>

datatype session_status = SS_Ok | SS_Exited | SS_Crashed | SS_Abnormal | SS_Errored

definition is_terminal :: "session_status \<Rightarrow> bool" where
  "is_terminal s \<longleftrightarrow> s \<noteq> SS_Ok"

definition is_error :: "session_status \<Rightarrow> bool" where
  "is_error s \<longleftrightarrow> \<not> (s = SS_Ok \<or> s = SS_Exited)"

definition is_fatal :: "session_status \<Rightarrow> bool" where
  "is_fatal s \<longleftrightarrow> s = SS_Crashed \<or> s = SS_Abnormal"

definition session_status_default :: session_status where
  "session_status_default = SS_Ok"

fun session_status_display :: "session_status \<Rightarrow> string" where
  "session_status_display SS_Ok = ''ok''"
| "session_status_display SS_Crashed = ''crashed''"
| "session_status_display SS_Abnormal = ''abnormal''"
| "session_status_display SS_Exited = ''exited''"
| "session_status_display SS_Errored = ''errored''"

definition session_status_from_str :: "string \<Rightarrow> session_status option" where
  "session_status_from_str s =
     map_of [(''ok'', SS_Ok), (''crashed'', SS_Crashed), (''abnormal'', SS_Abnormal),
             (''exited'', SS_Exited), (''errored'', SS_Errored)] s"

interpretation session_status: str_enum session_status_display session_status_from_str
proof
  show "session_status_from_str (session_status_display s) = Some s" for s
    by (cases s) (simp_all add: session_status_from_str_def)
qed

record session_attributes =
  sa_release :: string
  sa_environment :: "string option"
  sa_ip_address :: "string option"
  sa_user_agent :: "string option"

record session_update =
  su_session_id :: "128 word"
  su_distinct_id :: "string option"
  su_sequence :: u64
  su_init :: bool
  su_timestamp :: date_time
  su_started :: date_time
  su_duration :: "f64 option"
  su_status :: session_status
  su_errors :: u64
  su_attributes :: session_attributes

definition drift_process_session :: "clock_drift_processor \<Rightarrow> session_update \<Rightarrow> session_update option" where
  "drift_process_session p s =
     (case cdp_correction p of
        None \<Rightarrow> Some s
      | Some c \<Rightarrow>
          (case (date_time_add (su_timestamp s) (cc_drift c), date_time_add (su_started s) (cc_drift c)) of
             (Some timestamp, Some started) \<Rightarrow> Some (s\<lparr>su_timestamp := timestamp, su_started := started\<rparr>)
           | _ \<Rightarrow> None))"

section \<open>Metrics of a session\<close>

text \<open>Third-party code used for sessions; \<open>sn_hash\<close> is the hash of set metrics.\<close>

record ('ip, 'e) session_ext =
  sn_parse :: "bytes \<Rightarrow> 'e + session_update"
  sn_to_json :: "session_update \<Rightarrow> 'e + bytes"
  sn_validate_release :: "string \<Rightarrow> bool"
  sn_validate_environment :: "string \<Rightarrow> bool"
  sn_ip_to_string :: "'ip \<Rightarrow> string"
  sn_uuid_to_string :: "128 word \<Rightarrow> string"
  sn_hash :: "string \<Rightarrow> u32"

definition with_tag :: "(string, string) btree_map \<Rightarrow> string \<Rightarrow> string \<Rightarrow> (string, string) btree_map" where
  "with_tag tags name v = bt_insert str_le name v tags"

definition session_metric ::
  "string \<Rightarrow> metric_unit \<Rightarrow> metric_value \<Rightarrow> unix_timestamp \<Rightarrow> (string, string) btree_map \<Rightarrow> metric" where
  "session_metric name unit v timestamp tags =
     \<lparr>metric_name = name, metric_unit_of = unit, metric_value_of = v, metric_timestamp = timestamp, metric_tags = tags\<rparr>"

text \<open>The metric of the distinct user, pushed if there is one.\<close>

definition user_metric ::
  "('ip, 'e) session_ext \<Rightarrow> session_update \<Rightarrow> unix_timestamp \<Rightarrow> (string, string) btree_map \<Rightarrow> metric list" where
  "user_metric sn s timestamp tags =
     (case su_distinct_id s of
        Some distinct_id \<Rightarrow> [session_metric ''user'' MU_None (set_from_str (sn_hash sn) distinct_id) timestamp tags]
      | None \<Rightarrow> [])"

definition extract_session_metrics :: "('ip, 'e) session_ext \<Rightarrow> session_update \<Rightarrow> metric list" where
  "extract_session_metrics sn s =
     (case unix_from_datetime (su_timestamp s div ns) of
        None \<Rightarrow> []
      | Some timestamp \<Rightarrow>
          let tags0 = bt_insert str_le ''release'' (sa_release (su_attributes s)) [];
              tags = (case sa_environment (su_attributes s) of
                        Some environment \<Rightarrow> bt_insert str_le ''environment'' environment tags0
                      | None \<Rightarrow> tags0);
              one = f64_of_nat 1;
              status = session_status_display (su_status s)
          in (if su_init s
              then session_metric ''session'' MU_None (MV_Counter one) timestamp (with_tag tags ''session.status'' ''init'') #
                   user_metric sn s timestamp (with_tag tags ''session.status'' ''init'')
              else []) @
             (if su_errors s > 0 \<or> is_error (su_status s)
              then session_metric ''session.error'' MU_None
                     (set_from_str (sn_hash sn) (sn_uuid_to_string sn (su_session_id s))) timestamp tags #
                   user_metric sn s timestamp (with_tag tags ''session.status'' ''errored'')
              else []) @
             (if is_fatal (su_status s)
              then session_metric ''session'' MU_None (MV_Counter one) timestamp (with_tag tags ''session.status'' status) #
                   user_metric sn s timestamp (with_tag tags ''session.status'' status)
              else []) @
             (if is_terminal (su_status s)
              then (case su_duration s of
                      Some duration \<Rightarrow>
                        [session_metric ''session.duration'' (MU_Duration DP_Second) (MV_Distribution duration) timestamp tags]
                    | None \<Rightarrow> [])
              else []))"

section \<open>Session items\<close>

text \<open>The range checks of a session against the time the request was received.\<close>

definition session_too_old :: "relay_config \<Rightarrow> date_time \<Rightarrow> session_update \<Rightarrow> bool" where
  "session_too_old c received s \<longleftrightarrow>
     received - su_started s > max_session_secs_in_past c * ns \<or>
     received - su_timestamp s > max_session_secs_in_past c * ns"

definition session_in_future :: "relay_config \<Rightarrow> date_time \<Rightarrow> session_update \<Rightarrow> bool" where
  "session_in_future c received s \<longleftrightarrow>
     su_started s - received > max_session_secs_in_past c * ns \<or>
     su_timestamp s - received > max_session_secs_in_past c * ns"

text \<open>The changes made to a session that is kept, and whether there are any.\<close>

definition fix_timestamp :: "session_update \<times> bool \<Rightarrow> session_update \<times> bool" where
  "fix_timestamp = (\<lambda>(s, changed).
     if su_timestamp s < su_started s then (s\<lparr>su_timestamp := su_started s\<rparr>, True) else (s, changed))"

definition fix_environment :: "('ip, 'e) session_ext \<Rightarrow> session_update \<times> bool \<Rightarrow> session_update \<times> bool" where
  "fix_environment sn = (\<lambda>(s, changed).
     case sa_environment (su_attributes s) of
       Some env \<Rightarrow>
         if sn_validate_environment sn env then (s, changed)
         else (s\<lparr>su_attributes := (su_attributes s)\<lparr>sa_environment := None\<rparr>\<rparr>, True)
     | None \<Rightarrow> (s, changed))"

definition fix_ip_address ::
  "('ip, 'e) session_ext \<Rightarrow> 'ip option \<Rightarrow> session_update \<times> bool \<Rightarrow> session_update \<times> bool" where
  "fix_ip_address sn ip = (\<lambda>(s, changed).
     if sa_ip_address (su_attributes s) = Some ''{{auto}}''
     then (s\<lparr>su_attributes := (su_attributes s)\<lparr>sa_ip_address := map_option (sn_ip_to_string sn) ip\<rparr>\<rparr>, True)
     else (s, changed))"

text \<open>
  One step of \<open>process_sessions\<close>: whether the item stays, the item, and the extracted metrics. A
  panic of date arithmetic is \<open>None\<close>.
\<close>

definition process_session_item ::
  "('ip, 'e) session_ext \<Rightarrow> relay_config \<Rightarrow> clock_drift_processor \<Rightarrow> date_time \<Rightarrow> 'ip option \<Rightarrow> bool \<Rightarrow> item \<Rightarrow>
   (bool \<times> item \<times> metric list) option" where
  "process_session_item sn c drift received ip extract_metrics it =
     (if item_ty it \<noteq> IT_Session then Some (True, it, [])
      else
        (case sn_parse sn (item_payload it) of
           Inl _ \<Rightarrow> Some (False, it, [])
         | Inr s0 \<Rightarrow>
             if su_sequence s0 = - 1 then Some (False, it, [])
             else
               (case drift_process_session drift s0 of
                  None \<Rightarrow> None
                | Some s1 \<Rightarrow>
                    let (s2, changed2) = fix_timestamp (s1, is_drifted drift)
                    in if session_too_old c received s2 \<or> session_in_future c received s2 then Some (False, it, [])
                       else if \<not> sn_validate_release sn (sa_release (su_attributes s2)) then Some (False, it, [])
                       else
                         let (s, changed) = fix_ip_address sn ip (fix_environment sn (s2, changed2));
                             metrics = (if extract_metrics then extract_session_metrics sn s else [])
                         in if changed
                            then (case sn_to_json sn s of
                                    Inl _ \<Rightarrow> Some (False, it, metrics)
                                  | Inr json \<Rightarrow> Some (True, set_payload CT_Json json it, metrics))
                            else Some (True, it, metrics))))"

fun session_loop ::
  "(item \<Rightarrow> (bool \<times> item \<times> metric list) option) \<Rightarrow> item list \<Rightarrow> (item list \<times> metric list) option" where
  "session_loop step [] = Some ([], [])"
| "session_loop step (it # its) =
     (case step it of
        None \<Rightarrow> None
      | Some (keep, it', ms) \<Rightarrow>
          (case session_loop step its of
             None \<Rightarrow> None
           | Some (its', ms') \<Rightarrow> Some ((if keep then it' # its' else its'), ms @ ms')))"

definition process_sessions ::
  "('ip, 'e) session_ext \<Rightarrow> 'ip sampling_ext \<Rightarrow> relay_config \<Rightarrow> project_state \<Rightarrow> date_time \<Rightarrow>
   ('id, date_time, 'j, 'trace) envelope \<Rightarrow> (('id, date_time, 'j, 'trace) envelope \<times> metric list) option" where
  "process_sessions sn sx c project received e =
     map_option (\<lambda>(items, metrics). (e\<lparr>env_items := items\<rparr>, metrics))
       (session_loop
          (process_session_item sn c
             (drift_at_least MINIMUM_CLOCK_DRIFT (clock_drift_new (eh_sent_at (env_headers e)) received))
             received (client_addr sx (eh_meta (env_headers e)))
             (processing_enabled c \<and> has_feature project MetricsExtraction))
          (env_items e))"

section \<open>User reports\<close>

record user_report =
  ur_event_id :: "128 word"
  ur_name :: string
  ur_email :: string
  ur_comments :: string

definition process_user_report_item ::
  "(bytes \<Rightarrow> 'e + user_report) \<Rightarrow> (user_report \<Rightarrow> 'e + bytes) \<Rightarrow> item \<Rightarrow> bool \<times> item" where
  "process_user_report_item from_json to_json it =
     (if item_ty it \<noteq> IT_UserReport then (True, it)
      else
        (case from_json (item_payload it) of
           Inl _ \<Rightarrow> (False, it)
         | Inr report \<Rightarrow>
             (case to_json report of
                Inl _ \<Rightarrow> (False, it)
              | Inr json \<Rightarrow> (True, set_payload CT_Json json it))))"

definition process_user_reports ::
  "(bytes \<Rightarrow> 'e + user_report) \<Rightarrow> (user_report \<Rightarrow> 'e + bytes) \<Rightarrow>
   ('id, 'time, 'j, 'trace) envelope \<Rightarrow> ('id, 'time, 'j, 'trace) envelope" where
  "process_user_reports from_json to_json e = retain_items (process_user_report_item from_json to_json) e"

section \<open>Properties\<close>

text \<open>The levels of a status are nested, so that crashed sessions are counted as errors too.\<close>

lemma status_levels: "is_fatal s \<Longrightarrow> is_error s" "is_error s \<Longrightarrow> is_terminal s"
  by (auto simp: is_fatal_def is_error_def is_terminal_def)

text \<open>
  A correction moves the sender's clock to the receiver's: an event at the time of sending happened
  at the time of receiving, and distances are kept.
\<close>

lemma drift_session_shift:
  assumes "cdp_correction p = Some (clock_correction_new sent received)" and "drift_process_session p s = Some s'"
  shows "su_timestamp s' - received = su_timestamp s - sent" "su_started s' - received = su_started s - sent"
  using assms
  by (auto simp: drift_process_session_def clock_correction_new_def date_time_add_def split: option.splits if_splits)

lemma drift_minimum:
  "is_drifted (drift_at_least MINIMUM_CLOCK_DRIFT (clock_drift_new sent received)) \<longleftrightarrow>
     (\<exists>s. sent = Some s \<and> 3300 * ns \<le> \<bar>received - s\<bar>)"
proof -
  have "3300 \<le> \<bar>num_seconds d\<bar> \<longleftrightarrow> 3300 * ns \<le> \<bar>d\<bar>" for d
  proof (cases "d < 0")
    case True
    have "3300 \<le> - d div ns \<longleftrightarrow> 3300 * ns \<le> - d" by (simp add: ns_def) linarith
    moreover have "0 \<le> - d div ns" using True by (simp add: ns_def pos_imp_zdiv_nonneg_iff)
    ultimately show ?thesis using True by (simp add: num_seconds_def)
  next
    case False
    have "3300 \<le> d div ns \<longleftrightarrow> 3300 * ns \<le> d" by (simp add: ns_def) linarith
    moreover have "0 \<le> d div ns" using False by (simp add: ns_def pos_imp_zdiv_nonneg_iff)
    ultimately show ?thesis using False by (simp add: num_seconds_def)
  qed
  then show ?thesis
    by (cases sent) (simp_all add: is_drifted_def drift_at_least_def clock_drift_new_def correction_at_least_def
        clock_correction_new_def MINIMUM_CLOCK_DRIFT_def duration_as_secs_def nanos_per_sec_def)
qed

text \<open>
  The seconds of a metric wrap around when the correction leaves the range: a timestamp near zero
  from a sender whose clock runs ahead ends up in the far future.
\<close>

lemma drift_unix_wraps:
  "drift_process_unix (drift_at_least MINIMUM_CLOCK_DRIFT (clock_drift_new (Some (7200 * ns)) 0)) 100 = - 7100"
  by (simp add: drift_process_unix_def drift_at_least_def clock_drift_new_def correction_at_least_def ns_def
      clock_correction_new_def MINIMUM_CLOCK_DRIFT_def duration_as_secs_def nanos_per_sec_def num_seconds_def Let_def)

text \<open>What a session that is passed on satisfies.\<close>

definition session_accepted ::
  "('ip, 'e) session_ext \<Rightarrow> relay_config \<Rightarrow> date_time \<Rightarrow> session_update \<Rightarrow> bool" where
  "session_accepted sn c received s \<longleftrightarrow>
     su_started s \<le> su_timestamp s \<and>
     \<bar>received - su_started s\<bar> \<le> max_session_secs_in_past c * ns \<and>
     \<bar>received - su_timestamp s\<bar> \<le> max_session_secs_in_past c * ns \<and>
     su_sequence s \<noteq> - 1 \<and>
     sn_validate_release sn (sa_release (su_attributes s)) \<and>
     (\<forall>env. sa_environment (su_attributes s) = Some env \<longrightarrow> sn_validate_environment sn env)"

lemma fix_steps:
  assumes "fix_ip_address sn ip (fix_environment sn (s2, ch2)) = (s, ch)"
  shows "su_timestamp s = su_timestamp s2" "su_started s = su_started s2" "su_sequence s = su_sequence s2"
    "sa_release (su_attributes s) = sa_release (su_attributes s2)"
    "sa_environment (su_attributes s) = Some env \<Longrightarrow> sn_validate_environment sn env"
    "\<not> ch \<Longrightarrow> \<not> ch2 \<and> s = s2"
  using assms
  by (auto simp: fix_ip_address_def fix_environment_def split: option.splits if_splits)

lemma process_session_item_sound:
  assumes "process_session_item sn c drift received ip em it = Some (keep, it', ms)" and "item_ty it = IT_Session" and keep
  shows "\<exists>s. session_accepted sn c received s \<and>
    (it' = it \<and> sn_parse sn (item_payload it) = Inr s \<or> (\<exists>json. sn_to_json sn s = Inr json \<and> it' = set_payload CT_Json json it))"
proof -
  obtain s0 where s0: "sn_parse sn (item_payload it) = Inr s0" "su_sequence s0 \<noteq> - 1"
    using assms by (auto simp: process_session_item_def split: sum.splits if_splits)
  then obtain s1 where s1: "drift_process_session drift s0 = Some s1"
    using assms by (auto simp: process_session_item_def split: option.splits)
  obtain s2 ch2 where s2: "fix_timestamp (s1, is_drifted drift) = (s2, ch2)" by fastforce
  obtain s ch where s: "fix_ip_address sn ip (fix_environment sn (s2, ch2)) = (s, ch)" by fastforce
  have ok: "\<not> session_too_old c received s2" "\<not> session_in_future c received s2"
      "sn_validate_release sn (sa_release (su_attributes s2))"
    using assms s0 s1 s2 s by (auto simp: process_session_item_def split: if_splits)
  have "su_sequence s1 = su_sequence s0" "\<not> is_drifted drift \<Longrightarrow> s1 = s0"
    using s1 by (auto simp: drift_process_session_def is_drifted_def split: option.splits)
  then have "su_started s2 \<le> su_timestamp s2" "su_sequence s2 \<noteq> - 1" "\<not> ch2 \<Longrightarrow> s2 = s0"
    using s2 s0(2) by (auto simp: fix_timestamp_def split: if_splits)
  then have "session_accepted sn c received s" "\<not> ch \<Longrightarrow> s = s0"
    using ok fix_steps [OF s]
    by (auto simp: session_accepted_def session_too_old_def session_in_future_def abs_le_iff)
  moreover have "if ch then \<exists>json. sn_to_json sn s = Inr json \<and> it' = set_payload CT_Json json it else it' = it"
    using assms s0 s1 s2 s ok by (auto simp: process_session_item_def Let_def split: sum.splits if_splits)
  ultimately show ?thesis using s0(1) by (auto split: if_splits)
qed

lemma process_session_item_type:
  "process_session_item sn c drift received ip em it = Some (keep, it', ms) \<Longrightarrow> item_ty it' = item_ty it"
  "process_session_item sn c drift received ip em it = Some (keep, it', ms) \<Longrightarrow> item_ty it \<noteq> IT_Session \<Longrightarrow> keep \<and> it' = it \<and> ms = []"
  by (auto simp: process_session_item_def item_ty_def set_payload_def Let_def split: sum.splits option.splits if_splits prod.splits)

lemma session_loop_items:
  assumes "session_loop (process_session_item sn c drift received ip em) its = Some (its', ms)"
  shows "filter (\<lambda>it. item_ty it \<noteq> IT_Session) its' = filter (\<lambda>it. item_ty it \<noteq> IT_Session) its \<and>
    (\<forall>it' \<in> set its'. item_ty it' = IT_Session \<longrightarrow> (\<exists>it \<in> set its. \<exists>s. session_accepted sn c received s \<and>
      (it' = it \<and> sn_parse sn (item_payload it) = Inr s \<or> (\<exists>json. sn_to_json sn s = Inr json \<and> it' = set_payload CT_Json json it)))) \<and>
    (\<not> em \<longrightarrow> ms = [])"
  using assms
proof (induction its arbitrary: its' ms)
  case (Cons it its)
  then obtain keep it1 m1 its1 ms1 where step: "process_session_item sn c drift received ip em it = Some (keep, it1, m1)"
      and rest: "session_loop (process_session_item sn c drift received ip em) its = Some (its1, ms1)"
      and eq: "its' = (if keep then it1 # its1 else its1)" "ms = m1 @ ms1"
    by (auto split: option.splits)
  have m1: "\<not> em \<Longrightarrow> m1 = []"
    using step by (auto simp: process_session_item_def Let_def split: sum.splits option.splits if_splits prod.splits)
  show ?case
    using Cons.IH [OF rest] eq m1 process_session_item_type [OF step] process_session_item_sound [OF step]
    by auto
qed simp


text \<open>User reports are written back in their normal form or removed; other items stay.\<close>

lemma process_user_reports_items:
  "env_headers (process_user_reports fj tj e) = env_headers e \<and>
   filter (\<lambda>it. item_ty it \<noteq> IT_UserReport) (env_items (process_user_reports fj tj e)) =
     filter (\<lambda>it. item_ty it \<noteq> IT_UserReport) (env_items e) \<and>
   (\<forall>it' \<in> set (env_items (process_user_reports fj tj e)). item_ty it' = IT_UserReport \<longrightarrow>
      (\<exists>it \<in> set (env_items e). \<exists>r json. fj (item_payload it) = Inr r \<and> tj r = Inr json \<and> it' = set_payload CT_Json json it))"
proof -
  have "filter (\<lambda>it. item_ty it \<noteq> IT_UserReport) (retain_mut (process_user_report_item fj tj) its) =
      filter (\<lambda>it. item_ty it \<noteq> IT_UserReport) its" for its
    by (induction its)
      (auto simp: process_user_report_item_def item_ty_def set_payload_def Let_def split: sum.splits)
  moreover have "it' \<in> set (retain_mut (process_user_report_item fj tj) its) \<Longrightarrow> item_ty it' = IT_UserReport \<Longrightarrow>
      \<exists>it \<in> set its. \<exists>r json. fj (item_payload it) = Inr r \<and> tj r = Inr json \<and> it' = set_payload CT_Json json it" for its it'
    by (induction its) (auto simp: process_user_report_item_def split: sum.splits if_splits)
  ultimately show ?thesis by (simp add: process_user_reports_def retain_items_def)
qed

section \<open>Examples\<close>

definition example_session :: "date_time \<Rightarrow> session_update" where
  "example_session started =
     \<lparr>su_session_id = 1, su_distinct_id = None, su_sequence = 7, su_init = True, su_timestamp = 0, su_started = started,
      su_duration = None, su_status = SS_Ok, su_errors = 0,
      su_attributes = \<lparr>sa_release = ''a@1'', sa_environment = Some ''x/y'', sa_ip_address = Some ''{{auto}}'',
                       sa_user_agent = None\<rparr>\<rparr>"

definition example_session_ext :: "date_time \<Rightarrow> (nat, nat) session_ext" where
  "example_session_ext started =
     \<lparr>sn_parse = (\<lambda>_. Inr (example_session started)), sn_to_json = (\<lambda>_. Inr [1]), sn_validate_release = (\<lambda>_. True),
      sn_validate_environment = (\<lambda>env. env \<noteq> ''x/y''), sn_ip_to_string = (\<lambda>_. ''10.0.0.1''),
      sn_uuid_to_string = (\<lambda>_. ''u''), sn_hash = (\<lambda>_. 0)\<rparr>"

definition session_envelope :: "(nat, date_time, nat, nat) envelope" where
  "session_envelope = add_item (item_new IT_Session) (from_request None example_meta)"

lemmas session_example_defs =
  example_session_ext_def example_session_def session_envelope_def add_item_def from_request_def item_new_def item_ty_def
  process_session_item_def drift_process_session_def drift_at_least_def clock_drift_new_def is_drifted_def
  fix_timestamp_def fix_environment_def fix_ip_address_def session_too_old_def session_in_future_def
  process_sessions_def set_payload_def Let_def

lemma default_session_limits:
  "max_session_secs_in_past (config_default host n) = 432000" "max_secs_in_future (config_default host n) = 60"
  by (simp_all add: max_session_secs_in_past_def max_secs_in_future_def config_default_def config_values_default_def
      processing_section_default_def)

text \<open>
  The bound on sessions in the future is the maximum age: with the default configuration, a
  session that starts two hours from now is passed on, although the configured future
  is a minute.
\<close>

lemma future_session_passes:
  "process_session_item (example_session_ext (7200 * ns)) (config_default host n) (clock_drift_new None 0) 0 None False
     (item_new IT_Session) = Some (True, set_payload CT_Json [1] (item_new IT_Session), [])"
  using default_session_limits [of host n] by (simp add: session_example_defs ns_def)


end
