(* ===== verification/Form_Data.thy ===== *)
theory Form_Data
  imports Sampling
begin

text \<open>
  Form data of crash reports (\<open>relay-server/src/utils/multipart.rs\<close> and \<open>param_parser.rs\<close>, and
  \<open>merge_formdata\<close> of \<open>relay-server/src/actors/envelopes.rs\<close>): the parts of a multipart request become
  attachments and one item of length-prefixed strings; when the envelope is processed the
  entries are read back and merged into a JSON event. The multipart parser of the web
  framework is represented by the stream of parts it yields; parsing JSON is an argument.
\<close>

section \<open>Length-prefixed strings\<close>

definition to_le_bytes :: "nat \<Rightarrow> bytes" where
  "to_le_bytes n = map (\<lambda>i. word_of_nat (n div 256 ^ i)) [0, 1, 2, 3]"

definition from_le_bytes :: "bytes \<Rightarrow> nat" where
  "from_le_bytes bs = foldr (\<lambda>b acc. unat b + 256 * acc) bs 0"

definition write_string :: "string \<Rightarrow> bytes" where
  "write_string s = to_le_bytes (length s) @ as_bytes s"

text \<open>The consuming functions return the rest of the data, also when they fail.\<close>

definition split_front :: "bytes \<Rightarrow> nat \<Rightarrow> bytes option \<times> bytes" where
  "split_front data len = (if length data < len then (None, []) else (Some (take len data), drop len data))"

definition consume_len :: "bytes \<Rightarrow> nat option \<times> bytes" where
  "consume_len data =
     (case split_front data 4 of
        (None, rest) \<Rightarrow> (None, rest)
      | (Some prefix4, rest) \<Rightarrow> (Some (from_le_bytes prefix4), rest))"

definition consume_string :: "bytes \<Rightarrow> string option \<times> bytes" where
  "consume_string data =
     (case consume_len data of
        (None, rest) \<Rightarrow> (None, rest)
      | (Some len, rest) \<Rightarrow>
          (case split_front rest len of
             (None, rest') \<Rightarrow> (None, rest')
           | (Some bs, rest') \<Rightarrow> (from_utf8 bs, rest')))"

type_synonym form_data_entry = "string \<times> string"

definition entry_to_writer :: "form_data_entry \<Rightarrow> bytes" where
  "entry_to_writer e = write_string (fst e) @ write_string (snd e)"

definition entry_read :: "bytes \<Rightarrow> form_data_entry option \<times> bytes" where
  "entry_read data =
     (case consume_string data of
        (None, rest) \<Rightarrow> (None, rest)
      | (Some key, rest) \<Rightarrow>
          (case consume_string rest of
             (None, rest') \<Rightarrow> (None, rest')
           | (Some v, rest') \<Rightarrow> (Some (key, v), rest')))"

definition form_append :: "string \<Rightarrow> string \<Rightarrow> bytes \<Rightarrow> bytes" where
  "form_append key v data = data @ entry_to_writer (key, v)"

definition form_into_item :: "bytes \<Rightarrow> item" where
  "form_into_item data = set_payload CT_Text data (item_new IT_FormData)"

lemma consume_string_shorter:
  assumes "data \<noteq> []"
  shows "length (snd (consume_string data)) < length data"
  using assms
  by (auto simp: consume_string_def consume_len_def split_front_def split: option.splits)

lemma entry_read_shorter:
  assumes "data \<noteq> []"
  shows "length (snd (entry_read data)) < length data"
proof -
  obtain k rest where k: "consume_string data = (k, rest)" by fastforce
  have shorter: "length rest < length data" using consume_string_shorter [OF assms] by (simp add: k)
  have "length (snd (consume_string rest)) \<le> length rest"
    using consume_string_shorter [of rest]
    by (cases "rest = []") (auto simp: consume_string_def consume_len_def split_front_def)
  then show ?thesis
    using shorter by (auto simp: entry_read_def k split: option.splits prod.splits)
qed

text \<open>\<open>FormDataIter::next\<close>: entries that cannot be read are skipped.\<close>

function form_next :: "bytes \<Rightarrow> form_data_entry option \<times> bytes" where
  "form_next data =
     (if data = [] then (None, [])
      else
        (case entry_read data of
           (Some entry, rest) \<Rightarrow> (Some entry, rest)
         | (None, rest) \<Rightarrow> form_next rest))"
  by pat_completeness auto
termination
proof (relation "measure length")
  fix data :: bytes and entry rest
  assume "data \<noteq> []" "(entry, rest) = entry_read data" "entry = None"
  then show "(rest, data) \<in> measure length" using entry_read_shorter [of data] by (metis in_measure snd_conv)
qed simp

declare form_next.simps [simp del]

lemma form_next_shorter: "form_next data = (Some e, rest) \<Longrightarrow> length rest < length data"
proof (induction data rule: form_next.induct)
  case (1 data)
  have "data \<noteq> []" using "1.prems" by (auto simp: form_next.simps [of data])
  obtain eo r where r: "entry_read data = (eo, r)" by fastforce
  have shorter: "length r < length data" using entry_read_shorter [OF \<open>data \<noteq> []\<close>] by (simp add: r)
  show ?case
  proof (cases eo)
    case None
    then show ?thesis
      using "1.IH" [of eo r] "1.prems" r shorter \<open>data \<noteq> []\<close> by (simp add: form_next.simps [of data])
  next
    case (Some a)
    then show ?thesis using "1.prems" r shorter \<open>data \<noteq> []\<close> by (simp add: form_next.simps [of data])
  qed
qed

function form_entries :: "bytes \<Rightarrow> form_data_entry list" where
  "form_entries data =
     (case form_next data of
        (None, _) \<Rightarrow> []
      | (Some entry, rest) \<Rightarrow> entry # form_entries rest)"
  by pat_completeness auto
termination
proof (relation "measure length")
  fix data :: bytes and eo rest entry
  assume "(eo, rest) = form_next data" "eo = Some entry"
  then show "(rest, data) \<in> measure length" using form_next_shorter [of data entry rest] by simp
qed simp

declare form_entries.simps [simp del]

section \<open>Round trip of form data\<close>

lemma as_bytes_length [simp]: "length (as_bytes s) = length s"
  by (simp add: as_bytes_def)

lemma char_of_as_bytes [simp]: "map char_of_byte (as_bytes s) = s"
proof -
  have "char_of_byte (word_of_nat (of_char c)) = c" for c :: char
    by (simp add: char_of_byte_def unsigned_of_nat take_bit_eq_mod)
  then show ?thesis by (simp add: as_bytes_def comp_def)
qed

lemma le_bytes_roundtrip:
  assumes "n < 2 ^ 32"
  shows "from_le_bytes (to_le_bytes n) = n"
proof -
  have d: "n div 65536 = n div 256 div 256" "n div 16777216 = n div 256 div 256 div 256"
    by (simp_all add: div_mult2_eq [symmetric])
  have m: "m mod 256 + 256 * (m div 256) = m" for m :: nat by simp
  have "n mod 256 + (256 * (n div 256 mod 256) + (65536 * (n div 65536 mod 256) + 16777216 * (n div 16777216))) = n"
    unfolding d using m [of n] m [of "n div 256"] m [of "n div 256 div 256"] by linarith
  then show ?thesis
    using assms by (simp add: from_le_bytes_def to_le_bytes_def unsigned_of_nat take_bit_eq_mod)
qed

lemma to_le_bytes_length [simp]: "length (to_le_bytes n) = 4"
  by (simp add: to_le_bytes_def)

definition form_string :: "string \<Rightarrow> bool" where
  "form_string s \<longleftrightarrow> length s < 2 ^ 32 \<and> utf8_valid (as_bytes s)"

lemma consume_write:
  assumes "form_string s"
  shows "consume_string (write_string s @ rest) = (Some s, rest)"
  using assms le_bytes_roundtrip [of "length s"]
  by (simp add: consume_string_def consume_len_def split_front_def write_string_def form_string_def from_utf8_def)

text \<open>The item made of the entries of a form, in order of arrival.\<close>

definition form_write :: "form_data_entry list \<Rightarrow> bytes" where
  "form_write entries = foldl (\<lambda>data e. form_append (fst e) (snd e) data) [] entries"

lemma form_write_concat: "form_write entries = concat (map entry_to_writer entries)"
proof -
  have "foldl (\<lambda>data e. form_append (fst e) (snd e) data) acc entries = acc @ concat (map entry_to_writer entries)" for acc
    by (induction entries arbitrary: acc) (simp_all add: form_append_def)
  then show ?thesis by (simp add: form_write_def)
qed

definition form_entry_ok :: "form_data_entry \<Rightarrow> bool" where
  "form_entry_ok e \<longleftrightarrow> form_string (fst e) \<and> form_string (snd e)"

lemma form_entries_Cons:
  assumes "form_entry_ok e"
  shows "form_entries (entry_to_writer e @ rest) = e # form_entries rest"
proof -
  have "entry_to_writer e @ rest \<noteq> []" by (simp add: entry_to_writer_def write_string_def to_le_bytes_def)
  moreover have "entry_read (entry_to_writer e @ rest) = (Some e, rest)"
    using assms by (cases e) (simp add: entry_read_def entry_to_writer_def form_entry_ok_def consume_write)
  ultimately have "form_next (entry_to_writer e @ rest) = (Some e, rest)" by (simp add: form_next.simps)
  then show ?thesis by (subst form_entries.simps) simp
qed

lemma form_entries_concat:
  "list_all form_entry_ok entries \<Longrightarrow> form_entries (concat (map entry_to_writer entries)) = entries"
  by (induction entries) (simp_all add: form_entries_Cons, simp add: form_entries.simps form_next.simps)

section \<open>Multipart requests\<close>

text \<open>
  \<open>String::from_utf8_lossy\<close>: every maximal part of an ill-formed sequence becomes the replacement
  character.
\<close>

definition replacement_char :: bytes where
  "replacement_char = [0xEF, 0xBF, 0xBD]"

fun utf8_lossy :: "bytes \<Rightarrow> bytes" where
  "utf8_lossy [] = []"
| "utf8_lossy (a # rest) =
     (if a < 0x80 then a # utf8_lossy rest
      else if 0xC2 \<le> a \<and> a \<le> 0xDF then
        (case rest of
           b # r \<Rightarrow> if utf8_cont b then a # b # utf8_lossy r else replacement_char @ utf8_lossy rest
         | [] \<Rightarrow> replacement_char)
      else if 0xE0 \<le> a \<and> a \<le> 0xEF then
        (case rest of
           b # r \<Rightarrow>
             if utf8_lead3 a b then
               (case r of
                  c # r' \<Rightarrow> if utf8_cont c then a # b # c # utf8_lossy r' else replacement_char @ utf8_lossy r
                | [] \<Rightarrow> replacement_char)
             else replacement_char @ utf8_lossy rest
         | [] \<Rightarrow> replacement_char)
      else if 0xF0 \<le> a \<and> a \<le> 0xF4 then
        (case rest of
           b # r \<Rightarrow>
             if utf8_lead4 a b then
               (case r of
                  c # r' \<Rightarrow>
                    if utf8_cont c then
                      (case r' of
                         d # r'' \<Rightarrow>
                           if utf8_cont d then a # b # c # d # utf8_lossy r'' else replacement_char @ utf8_lossy r'
                       | [] \<Rightarrow> replacement_char)
                    else replacement_char @ utf8_lossy r
                | [] \<Rightarrow> replacement_char)
             else replacement_char @ utf8_lossy rest
         | [] \<Rightarrow> replacement_char)
      else replacement_char @ utf8_lossy rest)"

definition from_utf8_lossy :: "bytes \<Rightarrow> string" where
  "from_utf8_lossy bs = map char_of_byte (utf8_lossy bs)"

text \<open>
  The streams of the web framework: parts, and chunks of a field, followed by an error when the
  stream fails. Nothing is read behind an error.
\<close>

datatype 'e multipart_error = Overflow | InvalidMultipart 'e

datatype 'e multipart_item =
    MI_Nested "'e multipart_item list" "'e option"
  | MI_Field (mf_content_type: string) (mf_name: "string option") (mf_filename: "string option")
      (mf_chunks: "bytes list") (mf_error: "'e option")

text \<open>\<open>get_multipart_boundary\<close>: the first non-empty line, if it starts with two dashes.\<close>

definition is_line_break :: "u8 \<Rightarrow> bool" where
  "is_line_break b \<longleftrightarrow> b = 13 \<or> b = 10"

definition get_multipart_boundary :: "bytes \<Rightarrow> string option" where
  "get_multipart_boundary data =
     (let line = takeWhile (\<lambda>b. \<not> is_line_break b) (dropWhile is_line_break data)
      in if 2 < length line \<and> take 2 line = as_bytes ''--'' then from_utf8 (drop 2 line) else None)"

definition stream_end :: "'e option \<Rightarrow> 'a \<Rightarrow> 'e multipart_error + 'a" where
  "stream_end err x = (case err of Some e \<Rightarrow> Inl (InvalidMultipart e) | None \<Rightarrow> Inr x)"

fun consume_field :: "nat \<Rightarrow> bytes \<Rightarrow> bytes list \<Rightarrow> 'e option \<Rightarrow> 'e multipart_error + bytes" where
  "consume_field max_size body [] err = stream_end err body"
| "consume_field max_size body (chunk # chunks) err =
     (if length body + length chunk > max_size then Inl Overflow
      else consume_field max_size (body @ chunk) chunks err)"

record multipart_items =
  mi_items :: "item list"
  mi_remaining_size :: nat
  mi_form_data :: bytes
  mi_infer_type :: "string option \<Rightarrow> attachment_type"

definition multipart_items_new :: "nat \<Rightarrow> multipart_items" where
  "multipart_items_new max_size =
     \<lparr>mi_items = [], mi_remaining_size = max_size, mi_form_data = [], mi_infer_type = (\<lambda>_. attachment_type_default)\<rparr>"

definition infer_attachment_type :: "(string option \<Rightarrow> attachment_type) \<Rightarrow> multipart_items \<Rightarrow> multipart_items" where
  "infer_attachment_type f content = content\<lparr>mi_infer_type := f\<rparr>"

definition add_field :: "string \<Rightarrow> string option \<Rightarrow> string option \<Rightarrow> bytes \<Rightarrow> multipart_items \<Rightarrow> multipart_items" where
  "add_field content_type field_name file_name data content =
     (let content = content\<lparr>mi_remaining_size := mi_remaining_size content - length data\<rparr>
      in case file_name of
           Some f \<Rightarrow>
             content\<lparr>mi_items := mi_items content @
               [set_filename f (set_payload (content_type_from_string content_type) data
                  (set_attachment_type (mi_infer_type content field_name) (item_new IT_Attachment)))]\<rparr>
         | None \<Rightarrow>
             (case field_name of
                Some name \<Rightarrow>
                  content\<lparr>mi_form_data := form_append name (from_utf8_lossy data) (mi_form_data content)\<rparr>
              | None \<Rightarrow> content))"

fun consume_item :: "multipart_items \<Rightarrow> 'e multipart_item \<Rightarrow> 'e multipart_error + multipart_items"
  and consume_stream ::
    "multipart_items \<Rightarrow> 'e multipart_item list \<Rightarrow> 'e option \<Rightarrow> 'e multipart_error + multipart_items" where
  "consume_item content (MI_Nested nested err) = consume_stream content nested err"
| "consume_item content (MI_Field ct name file chunks err) =
     (case consume_field (mi_remaining_size content) [] chunks err of
        Inl e \<Rightarrow> Inl e
      | Inr data \<Rightarrow> Inr (add_field ct name file data content))"
| "consume_stream content [] err = stream_end err content"
| "consume_stream content (it # items) err =
     (case consume_item content it of
        Inl e \<Rightarrow> Inl e
      | Inr content' \<Rightarrow> consume_stream content' items err)"

text \<open>\<open>MultipartItems::handle_request\<close>, from the boundary header and the stream of parts.\<close>

definition handle_request ::
  "multipart_items \<Rightarrow> 'e + 'e multipart_item list \<times> 'e option \<Rightarrow> 'e multipart_error + item list" where
  "handle_request content request =
     (case request of
        Inl e \<Rightarrow> Inl (InvalidMultipart e)
      | Inr (items, err) \<Rightarrow>
          (case consume_stream content items err of
             Inl e \<Rightarrow> Inl e
           | Inr content' \<Rightarrow>
               let form = form_into_item (mi_form_data content')
               in Inr (mi_items content' @ (if item_len form = 0 then [] else [form]))))"

section \<open>What a multipart request becomes\<close>

text \<open>The fields of a stream in order, nested ones included, and their data.\<close>

fun item_fields :: "'e multipart_item \<Rightarrow> 'e multipart_item list" where
  "item_fields (MI_Nested nested err) = concat (map item_fields nested)"
| "item_fields (MI_Field ct name file chunks err) = [MI_Field ct name file chunks err]"

abbreviation stream_fields :: "'e multipart_item list \<Rightarrow> 'e multipart_item list" where
  "stream_fields items \<equiv> concat (map item_fields items)"

definition field_data :: "'e multipart_item \<Rightarrow> bytes" where
  "field_data f = concat (mf_chunks f)"

text \<open>A stream without errors, and what its fields add to the items and to the form.\<close>

fun item_sound :: "'e multipart_item \<Rightarrow> bool" where
  "item_sound (MI_Nested nested err) \<longleftrightarrow> err = None \<and> list_all item_sound nested"
| "item_sound (MI_Field ct name file chunks err) \<longleftrightarrow> err = None"

definition total_size :: "'e multipart_item list \<Rightarrow> nat" where
  "total_size fs = sum_list (map (\<lambda>f. length (field_data f)) fs)"

definition form_entry_of :: "'e multipart_item \<Rightarrow> form_data_entry option" where
  "form_entry_of f =
     (if mf_filename f = None
      then map_option (\<lambda>name. (name, from_utf8_lossy (field_data f))) (mf_name f) else None)"

definition form_fields :: "'e multipart_item list \<Rightarrow> form_data_entry list" where
  "form_fields fs = List.map_filter form_entry_of fs"

definition attachment_of :: "(string option \<Rightarrow> attachment_type) \<Rightarrow> 'e multipart_item \<Rightarrow> item option" where
  "attachment_of infer f =
     map_option (\<lambda>file. set_filename file (set_payload (content_type_from_string (mf_content_type f)) (field_data f)
         (set_attachment_type (infer (mf_name f)) (item_new IT_Attachment)))) (mf_filename f)"


fun consume_fields :: "multipart_items \<Rightarrow> 'e multipart_item list \<Rightarrow> 'e multipart_error + multipart_items" where
  "consume_fields content [] = Inr content"
| "consume_fields content (f # fs) =
     (if length (field_data f) > mi_remaining_size content then Inl Overflow
      else consume_fields (add_field (mf_content_type f) (mf_name f) (mf_filename f) (field_data f) content) fs)"

lemma consume_fields_append:
  "consume_fields content (fs @ gs) =
     (case consume_fields content fs of Inl e \<Rightarrow> Inl e | Inr content' \<Rightarrow> consume_fields content' gs)"
  by (induction content fs rule: consume_fields.induct) auto

lemma consume_field_exact:
  "length body \<le> max_size \<Longrightarrow> consume_field max_size body chunks None =
     (if length body + length (concat chunks) > max_size then Inl Overflow else Inr (body @ concat chunks))"
  by (induction max_size body chunks "None :: 'e option" rule: consume_field.induct) (auto simp: stream_end_def)

lemma consume_flat:
  fixes it :: "'e multipart_item" and items :: "'e multipart_item list"
  shows "item_sound it \<Longrightarrow> consume_item content it = consume_fields content (item_fields it)"
  "list_all item_sound items \<Longrightarrow> err = None \<Longrightarrow> consume_stream content items err = consume_fields content (stream_fields items)"
proof (induction content it and content items err rule: consume_item_consume_stream.induct)
  case (2 content ct name fname chunks err)
  then show ?case by (simp add: consume_field_exact field_data_def)
next
  case (4 content it items err)
  then show ?case
    by (cases "consume_fields content (item_fields it)") (simp_all add: consume_fields_append)
qed (auto simp: stream_end_def)

lemma consume_fields_exact:
  "consume_fields content fs =
     (if total_size fs \<le> mi_remaining_size content
      then Inr (content\<lparr>mi_items := mi_items content @ List.map_filter (attachment_of (mi_infer_type content)) fs,
                        mi_remaining_size := mi_remaining_size content - total_size fs,
                        mi_form_data := mi_form_data content @ concat (map entry_to_writer (form_fields fs))\<rparr>)
      else Inl Overflow)"
proof (induction content fs rule: consume_fields.induct)
  case (2 content f fs)
  define content' where "content' = add_field (mf_content_type f) (mf_name f) (mf_filename f) (field_data f) content"
  have c: "mi_remaining_size content' = mi_remaining_size content - length (field_data f)"
      "mi_infer_type content' = mi_infer_type content"
      "mi_items content' = mi_items content @ List.map_filter (attachment_of (mi_infer_type content)) [f]"
      "mi_form_data content' = mi_form_data content @ concat (map entry_to_writer (form_fields [f]))"
    by (auto simp: content'_def add_field_def attachment_of_def form_fields_def form_entry_of_def form_append_def
        map_filter_simps Let_def split: option.splits)
  show ?case
    using 2 c
    by (auto simp: total_size_def content'_def [symmetric] form_fields_def map_filter_simps
        intro!: multipart_items.equality split: option.splits)
qed (simp add: total_size_def form_fields_def map_filter_simps)

section \<open>Lossy decoding\<close>

lemma utf8_valid_seq:
  "a < 0x80 \<Longrightarrow> utf8_valid (a # rest) \<longleftrightarrow> utf8_valid rest"
  "\<not> a < 0x80 \<Longrightarrow> 0xC2 \<le> a \<Longrightarrow> a \<le> 0xDF \<Longrightarrow> utf8_cont b \<Longrightarrow> utf8_valid (a # b # rest) \<longleftrightarrow> utf8_valid rest"
  "0xE0 \<le> a \<Longrightarrow> utf8_lead3 a b \<Longrightarrow> utf8_cont c \<Longrightarrow> utf8_valid (a # b # c # rest) \<longleftrightarrow> utf8_valid rest"
  "0xF0 \<le> a \<Longrightarrow> utf8_lead4 a b \<Longrightarrow> utf8_cont c \<Longrightarrow> utf8_cont d \<Longrightarrow> utf8_valid (a # b # c # d # rest) \<longleftrightarrow> utf8_valid rest"
  subgoal by (cases "a # rest" rule: utf8_valid.cases) auto
  subgoal by (cases "a # b # rest" rule: utf8_valid.cases) auto
  subgoal
  proof -
    assume "0xE0 \<le> a" "utf8_lead3 a b" "utf8_cont c"
    moreover from this have "\<not> a < 0x80" "\<not> a \<le> 0xDF" by unat_arith+
    ultimately show ?thesis by (cases "a # b # c # rest" rule: utf8_valid.cases) auto
  qed
  subgoal
  proof -
    assume a: "0xF0 \<le> a" "utf8_lead4 a b" "utf8_cont c" "utf8_cont d"
    moreover from this have "\<not> a < 0x80" "\<not> a \<le> 0xDF" "\<not> a \<le> 0xEF" "a \<noteq> 0xE0" "a \<noteq> 0xED" by unat_arith+
    moreover from this have "\<not> utf8_lead3 a b" by (simp add: utf8_lead3_def)
    ultimately show ?thesis by (cases "a # b # c # d # rest" rule: utf8_valid.cases) auto
  qed
  done

lemma utf8_valid_replacement: "utf8_valid (replacement_char @ rest) \<longleftrightarrow> utf8_valid rest"
  by (simp add: replacement_char_def utf8_valid_seq(3) utf8_lead3_def utf8_cont_def)

text \<open>One step of the lossy decoder writes a whole sequence, of the input or the replacement.\<close>

definition lossy_step :: "bytes \<Rightarrow> bytes \<Rightarrow> bool" where
  "lossy_step bs out \<longleftrightarrow>
     (\<exists>pre rest. length rest < length bs \<and> out = pre @ utf8_lossy rest \<and> (\<forall>t. utf8_valid (pre @ t) \<longleftrightarrow> utf8_valid t))"

declare utf8_lossy.simps(2) [simp del]

lemma lossy_stepI:
  "\<lbrakk>length rest < length bs; \<And>t. utf8_valid (pre @ t) \<longleftrightarrow> utf8_valid t\<rbrakk> \<Longrightarrow> lossy_step bs (pre @ utf8_lossy rest)"
  by (auto simp: lossy_step_def)

lemma lossy_step_replace:
  "length rest < length bs \<Longrightarrow> lossy_step bs (replacement_char @ utf8_lossy rest)"
  "bs \<noteq> [] \<Longrightarrow> lossy_step bs replacement_char"
  using lossy_stepI [of rest bs replacement_char] lossy_stepI [of "[]" bs replacement_char]
  by (simp_all add: utf8_valid_replacement)

lemmas lossy_step_seq =
  lossy_stepI [where pre = "[a]" for a, unfolded append.simps] lossy_stepI [where pre = "[a, b]" for a b, unfolded append.simps]
  lossy_stepI [where pre = "[a, b, c]" for a b c, unfolded append.simps]
  lossy_stepI [where pre = "[a, b, c, d]" for a b c d, unfolded append.simps]

lemma lossy_step_cases:
  assumes "\<not> a < 0x80 \<Longrightarrow> 0xC2 \<le> a \<Longrightarrow> a \<le> 0xDF \<Longrightarrow> lossy_step (a # rest)
      (case rest of
         b # r \<Rightarrow> if utf8_cont b then a # b # utf8_lossy r else replacement_char @ utf8_lossy rest
       | [] \<Rightarrow> replacement_char)"
    and "0xE0 \<le> a \<Longrightarrow> lossy_step (a # rest)
      (case rest of
         b # r \<Rightarrow>
           if utf8_lead3 a b then
             (case r of
                c # r' \<Rightarrow> if utf8_cont c then a # b # c # utf8_lossy r' else replacement_char @ utf8_lossy r
              | [] \<Rightarrow> replacement_char)
           else replacement_char @ utf8_lossy rest
       | [] \<Rightarrow> replacement_char)"
    and "0xF0 \<le> a \<Longrightarrow> lossy_step (a # rest)
      (case rest of
         b # r \<Rightarrow>
           if utf8_lead4 a b then
             (case r of
                c # r' \<Rightarrow>
                  if utf8_cont c then
                    (case r' of
                       d # r'' \<Rightarrow>
                         if utf8_cont d then a # b # c # d # utf8_lossy r'' else replacement_char @ utf8_lossy r'
                     | [] \<Rightarrow> replacement_char)
                  else replacement_char @ utf8_lossy r
              | [] \<Rightarrow> replacement_char)
           else replacement_char @ utf8_lossy rest
       | [] \<Rightarrow> replacement_char)"
  shows "lossy_step (a # rest) (utf8_lossy (a # rest))"
proof -
  have "a < 0x80 \<Longrightarrow> lossy_step (a # rest) (a # utf8_lossy rest)"
    by (rule lossy_step_seq(1)) (simp_all add: utf8_valid_seq(1))
  moreover have "lossy_step (a # rest) (replacement_char @ utf8_lossy rest)"
    by (rule lossy_step_replace) simp
  ultimately show ?thesis
    using assms unfolding utf8_lossy.simps(2) [of a rest] by presburger
qed

lemma lossy_step: "lossy_step (a # rest) (utf8_lossy (a # rest))"
proof (rule lossy_step_cases, goal_cases)
  case 1
  then show ?case
    by (cases rest) (simp_all add: lossy_step_replace lossy_step_seq(2) utf8_valid_seq(2))
next
  case 2
  then show ?case
    by (auto split: list.split simp: utf8_valid_seq(3) intro!: lossy_step_replace lossy_step_seq(3))
next
  case 3
  then show ?case
    by (auto split: list.split simp: utf8_valid_seq(4) simp del: utf8_valid.simps intro!: lossy_step_replace lossy_step_seq(4))
qed

lemma utf8_lossy_valid: "utf8_valid (utf8_lossy bs)"
proof (induction bs rule: measure_induct_rule [of length])
  case (less bs)
  then show ?case
    using lossy_step [of "hd bs" "tl bs"] by (cases bs) (auto simp: lossy_step_def)
qed

section \<open>Requests and their entries\<close>

lemma as_bytes_char_of [simp]: "as_bytes (map char_of_byte bs) = bs"
proof -
  have "word_of_nat (of_char (char_of_byte b)) = b" for b :: u8
    using unsigned_less [of b, where ?'a = nat]
    by (simp add: char_of_byte_def of_char_of)
  then show ?thesis by (simp add: as_bytes_def comp_def)
qed

lemma entry_size: "length (entry_to_writer e) = 8 + length (fst e) + length (snd e)"
  by (simp add: entry_to_writer_def write_string_def)

lemma entries_small:
  assumes "e \<in> set entries" and "length (concat (map entry_to_writer entries)) < n"
  shows "length (entry_to_writer e) < n"
  using assms by (induction entries) auto

lemma form_fields_ok:
  assumes "\<forall>f \<in> set fs. \<forall>name. mf_name f = Some name \<longrightarrow> utf8_valid (as_bytes name)"
    and "length (form_write (form_fields fs)) < 2 ^ 32"
  shows "list_all form_entry_ok (form_fields fs)"
  unfolding list_all_iff
proof
  fix e assume e: "e \<in> set (form_fields fs)"
  have "length (entry_to_writer e) < 2 ^ 32"
    using entries_small [OF e] assms(2) by (simp add: form_write_concat)
  moreover have "utf8_valid (as_bytes (fst e)) \<and> utf8_valid (as_bytes (snd e))"
    using e assms(1)
    by (auto simp: form_fields_def form_entry_of_def List.map_filter_def from_utf8_lossy_def utf8_lossy_valid split: if_splits)
  ultimately show "form_entry_ok e" by (simp add: form_entry_ok_def form_string_def entry_size)
qed

text \<open>C28: a multipart request within its size limit becomes one attachment per file, in order and with
  the data of all its chunks, and one form data item if there are plain fields; reading that item
  back yields every plain field with its decoded value, in order. A request that exceeds the
  limit is refused.\<close>

theorem multipart_form_roundtrip:
  fixes items :: "'e multipart_item list" and infer :: "string option \<Rightarrow> attachment_type"
  assumes "list_all item_sound items"
    and "\<forall>f \<in> set (stream_fields items). \<forall>name. mf_name f = Some name \<longrightarrow> utf8_valid (as_bytes name)"
    and "length (form_write (form_fields (stream_fields items))) < 2 ^ 32"
  defines "fs \<equiv> stream_fields items" and "form \<equiv> form_into_item (form_write (form_fields (stream_fields items)))"
  shows "handle_request (infer_attachment_type infer (multipart_items_new max_size)) (Inr (items, None)) =
           (if total_size fs > max_size then Inl Overflow
            else Inr (List.map_filter (attachment_of infer) fs @ (if form_fields fs = [] then [] else [form]))) \<and>
         form_entries (item_payload form) = form_fields fs"
proof
  have small: "length (form_write (form_fields fs)) \<le> 2 ^ 32 - 1" using assms(3) by (simp add: fs_def)
  have payload: "item_payload form = form_write (form_fields fs)"
    using small by (simp add: form_def fs_def form_into_item_def set_payload_def Let_def)
  show "form_entries (item_payload form) = form_fields fs"
    using form_entries_concat [OF form_fields_ok [OF assms(2,3)]] payload by (simp add: form_write_concat fs_def)
  have "item_len form = 0 \<longleftrightarrow> form_fields fs = []"
    using payload by (cases "form_fields fs") (simp_all add: item_len_def form_write_concat entry_size)
  then show "handle_request (infer_attachment_type infer (multipart_items_new max_size)) (Inr (items, None)) =
      (if total_size fs > max_size then Inl Overflow
       else Inr (List.map_filter (attachment_of infer) fs @ (if form_fields fs = [] then [] else [form])))"
    using assms(1) payload
    by (simp add: handle_request_def consume_flat(2) consume_fields_exact multipart_items_new_def
        infer_attachment_type_def fs_def form_def form_write_concat)
qed

theorem multipart_form_roundtrip_witness:
  "handle_request (infer_attachment_type (\<lambda>_. AT_Minidump) (multipart_items_new 5))
     (Inr ([MI_Nested [MI_Field ''text/plain'' (Some ''a'') None [[0x78], [0xFF]] None] None,
            MI_Field ''text/plain'' (Some ''f'') (Some ''d.dmp'') [[1, 2, 3]] (None :: nat option)], None)) =
   Inr ([set_filename ''d.dmp'' (set_payload CT_Text [1, 2, 3] (set_attachment_type AT_Minidump (item_new IT_Attachment))),
         form_into_item (form_write [(''a'', [CHR ''x'', CHR 0xEF, CHR 0xBF, CHR 0xBD])])])"
proof -
  let ?items = "[MI_Nested [MI_Field ''text/plain'' (Some ''a'') None [[0x78], [0xFF]] None] None,
            MI_Field ''text/plain'' (Some ''f'') (Some ''d.dmp'') [[1, 2, 3]] (None :: nat option)]"
  have fs: "form_fields (stream_fields ?items) = [(''a'', [CHR ''x'', CHR 0xEF, CHR 0xBF, CHR 0xBD])]"
    by code_simp
  have ct: "content_type_from_string ''text/plain'' = CT_Text" by code_simp
  show ?thesis
    using multipart_form_roundtrip [of ?items "\<lambda>_. AT_Minidump" 5]
    by (simp add: fs fs [simplified] form_write_concat entry_size total_size_def field_data_def attachment_of_def
        map_filter_simps as_bytes_def ct)
qed

end
