(* ===== verification/Form_Merge.thy ===== *)
theory Form_Merge
  imports Form_Data
begin

text \<open>
  Form entries as an event (\<open>relay-server/src/utils/param_parser.rs\<close> and \<open>merge_formdata\<close> of
  \<open>relay-server/src/actors/envelopes.rs\<close>): JSON payloads, payloads in numbered chunks, nested keys and
  plain fields are merged into one JSON object. Parsing JSON is an argument.
\<close>

section \<open>Nested values\<close>

fun update_nested_value :: "json \<Rightarrow> string list \<Rightarrow> string \<Rightarrow> json" where
  "update_nested_value (J_Object m) [] v = J_Object m"
| "update_nested_value (J_Object m) [key] v = J_Object (bt_upsert str_le key (\<lambda>x. x) (J_String v) m)"
| "update_nested_value (J_Object m) (key # rest) v =
     J_Object (bt_upsert str_le key (\<lambda>x. update_nested_value x rest v) (update_nested_value (J_Object []) rest v) m)"
| "update_nested_value other path v = other"

fun merge_values :: "json \<Rightarrow> json \<Rightarrow> json"
  and merge_entries :: "(string, json) btree_map \<Rightarrow> (string \<times> json) list \<Rightarrow> (string, json) btree_map" where
  "merge_values (J_Object a) (J_Object b) = J_Object (merge_entries a b)"
| "merge_values J_Null b = b"
| "merge_values a b = a"
| "merge_entries a [] = a"
| "merge_entries a ((k, v) # b) =
     merge_entries (bt_upsert str_le k (\<lambda>x. merge_values x v) (merge_values J_Null v) a) b"

section \<open>Keys of form fields\<close>

datatype indexing_state = LookingForLeftParenthesis | Accumulating nat | Starting

text \<open>The loop of \<open>get_indexes\<close> at byte \<open>idx\<close>, with the slices found so far.\<close>

fun indexes_loop :: "string \<Rightarrow> indexing_state \<Rightarrow> nat \<Rightarrow> string \<Rightarrow> string list \<Rightarrow> unit + string list" where
  "indexes_loop full st idx [] ret_vals = Inr ret_vals"
| "indexes_loop full Starting idx (by # bytes) ret_vals =
     indexes_loop full (if by = CHR ''['' then Accumulating (idx + 1) else Starting) (idx + 1) bytes ret_vals"
| "indexes_loop full LookingForLeftParenthesis idx (by # bytes) ret_vals =
     (if by = CHR ''['' then indexes_loop full (Accumulating (idx + 1)) (idx + 1) bytes ret_vals
      else if by = CHR ''='' then Inr ret_vals
      else Inl ())"
| "indexes_loop full (Accumulating start_idx) idx (by # bytes) ret_vals =
     (if by = CHR '']''
      then indexes_loop full LookingForLeftParenthesis (idx + 1) bytes
             (ret_vals @ [take (idx - start_idx) (drop start_idx full)])
      else indexes_loop full (Accumulating start_idx) (idx + 1) bytes ret_vals)"

definition get_indexes :: "string \<Rightarrow> unit + string list" where
  "get_indexes full = indexes_loop full Starting 0 full []"

definition starts_with :: "string \<Rightarrow> string \<Rightarrow> bool" where
  "starts_with pre s \<longleftrightarrow> take (length pre) s = pre"

definition get_sentry_entry_indexes :: "string \<Rightarrow> string list option" where
  "get_sentry_entry_indexes param_name =
     (if starts_with ''sentry['' param_name
      then (case get_indexes param_name of Inr keys \<Rightarrow> Some keys | Inl _ \<Rightarrow> None)
      else None)"

text \<open>The prefix is stripped and the rest parsed as \<open>usize\<close>.\<close>

definition get_sentry_chunk_index :: "string \<Rightarrow> string \<Rightarrow> nat option" where
  "get_sentry_chunk_index key pre =
     (if starts_with pre key then parse_unsigned 64 (drop (length pre) key) else None)"

section \<open>Chunks\<close>

text \<open>
  \<open>ChunkedFormDataAggregator\<close> with its parts. A vector of string slices (16 bytes each) holds at most
  \<open>isize::MAX\<close> bytes; growing it beyond panics, and so does an index whose successor
  overflows.
\<close>

definition max_parts :: nat where
  "max_parts = (2 ^ 63 - 1) div 16"

definition resize :: "nat \<Rightarrow> 'a \<Rightarrow> 'a list \<Rightarrow> 'a list" where
  "resize n x xs = take n xs @ replicate (n - length xs) x"

definition chunk_insert :: "nat \<Rightarrow> string \<Rightarrow> string list \<Rightarrow> string list option" where
  "chunk_insert index v parts =
     (if index \<ge> length parts
      then (if index + 1 > max_parts then None else Some ((resize (index + 1) [] parts)[index := v]))
      else Some (parts[index := v]))"

definition chunks_join :: "string list \<Rightarrow> string" where
  "chunks_join parts = concat parts"

section \<open>Merging form data\<close>

text \<open>\<open>None\<close> stands for a panic of the aggregator.\<close>

definition merge_entry ::
  "(string \<Rightarrow> json option) \<Rightarrow> form_data_entry \<Rightarrow> json \<times> string list \<Rightarrow> (json \<times> string list) option" where
  "merge_entry from_json entry acc =
     (let (key, v) = entry; (target, parts) = acc
      in if key = ''sentry'' \<or> starts_with ''sentry___'' key
         then Some (case from_json v of Some event \<Rightarrow> merge_values target event | None \<Rightarrow> target, parts)
         else
           (case get_sentry_chunk_index key ''sentry__'' of
              Some index \<Rightarrow> map_option (\<lambda>parts'. (target, parts')) (chunk_insert index v parts)
            | None \<Rightarrow>
                (case get_sentry_entry_indexes key of
                   Some keys \<Rightarrow> Some (update_nested_value target keys v, parts)
                 | None \<Rightarrow> Some (update_nested_value target [''extra'', key] v, parts))))"

fun merge_entry_loop ::
  "(string \<Rightarrow> json option) \<Rightarrow> form_data_entry list \<Rightarrow> json \<times> string list \<Rightarrow> (json \<times> string list) option" where
  "merge_entry_loop from_json [] acc = Some acc"
| "merge_entry_loop from_json (e # es) acc =
     (case merge_entry from_json e acc of
        None \<Rightarrow> None
      | Some acc' \<Rightarrow> merge_entry_loop from_json es acc')"

definition merge_formdata :: "(string \<Rightarrow> json option) \<Rightarrow> json \<Rightarrow> item \<Rightarrow> json option" where
  "merge_formdata from_json target it =
     (case merge_entry_loop from_json (form_entries (item_payload it)) (target, []) of
        None \<Rightarrow> None
      | Some (target', parts) \<Rightarrow>
          Some (if parts = [] then target'
                else (case from_json (chunks_join parts) of
                        Some event \<Rightarrow> merge_values target' event
                      | None \<Rightarrow> target')))"

section \<open>Keys\<close>

definition bracket :: "string \<Rightarrow> string" where
  "bracket k = ''['' @ k @ '']''"

lemma bracket_append: "bracket k @ rest = CHR ''['' # k @ CHR '']'' # rest" "length (bracket k) = length k + 2"
  by (simp_all add: bracket_def)

lemma accumulate:
  assumes "CHR '']'' \<notin> set k" and "full = pre @ done @ k @ CHR '']'' # rest" and "start = length pre"
  shows "indexes_loop full (Accumulating start) (start + length done) (k @ CHR '']'' # rest) ret =
    indexes_loop full LookingForLeftParenthesis (start + length (done @ k) + 1) rest (ret @ [done @ k])"
  using assms
proof (induction k arbitrary: "done")
  case (Cons c k)
  then show ?case using Cons.IH [of "done @ [c]"] by auto
qed simp

lemma indexes_brackets:
  assumes "list_all (\<lambda>k. CHR '']'' \<notin> set k) ks" and "full = pre @ concat (map bracket ks)"
  shows "indexes_loop full LookingForLeftParenthesis (length pre) (concat (map bracket ks)) ret = Inr (ret @ ks)"
  using assms
proof (induction ks arbitrary: pre ret)
  case (Cons k ks)
  have "indexes_loop full (Accumulating (length pre + 1)) (length pre + 1) (k @ CHR '']'' # concat (map bracket ks)) ret =
      indexes_loop full LookingForLeftParenthesis (length (pre @ bracket k)) (concat (map bracket ks)) (ret @ [k])"
    using accumulate [of k full "pre @ ''[''" "[]" "concat (map bracket ks)" "length pre + 1" ret] Cons.prems
    by (simp add: bracket_append)
  then show ?case
    using Cons.IH [of "pre @ bracket k" "ret @ [k]"] Cons.prems by (simp add: bracket_append)
qed simp

text \<open>The nested key of a path is read back as the path.\<close>

lemma nested_key_roundtrip:
  assumes "list_all (\<lambda>k. CHR '']'' \<notin> set k) (k # ks)"
  shows "get_sentry_entry_indexes (''sentry'' @ concat (map bracket (k # ks))) = Some (k # ks)"
proof -
  let ?full = "''sentry'' @ concat (map bracket (k # ks))"
  have "get_indexes ?full = indexes_loop ?full (Accumulating 7) 7 (k @ CHR '']'' # concat (map bracket ks)) []"
    by (simp add: get_indexes_def bracket_append numeral_eq_Suc)
  also have "\<dots> = indexes_loop ?full LookingForLeftParenthesis (length (''sentry'' @ bracket k)) (concat (map bracket ks)) [k]"
    using accumulate [of k ?full "''sentry[''" "[]" "concat (map bracket ks)" 7 "[]"] assms by (simp add: bracket_append add.commute numeral_eq_Suc)
  also have "\<dots> = Inr (k # ks)"
    using indexes_brackets [of ks ?full "''sentry'' @ bracket k" "[k]"] assms by simp
  finally show ?thesis by (simp add: get_sentry_entry_indexes_def starts_with_def bracket_append)
qed

text \<open>An index chosen by the client can exceed what a vector can hold.\<close>

lemma chunk_index_panics:
  "get_sentry_chunk_index ''sentry__18446744073709551615'' ''sentry__'' = Some 18446744073709551615"
  "chunk_insert 18446744073709551615 v [] = None"
  by (simp_all add: get_sentry_chunk_index_def starts_with_def parse_unsigned_def is_digit_def digit_val_def
      chunk_insert_def max_parts_def)

section \<open>Earlier values win\<close>

text \<open>Objects are ordered maps at every depth, as \<open>serde_json::Map\<close> guarantees.\<close>

fun json_wf :: "json \<Rightarrow> bool" where
  "json_wf (J_Object m) \<longleftrightarrow> bt_inv str_le m \<and> list_all (\<lambda>(k, v). json_wf v) m"
| "json_wf (J_Array xs) \<longleftrightarrow> list_all json_wf xs"
| "json_wf _ \<longleftrightarrow> True"

fun json_at :: "json \<Rightarrow> string list \<Rightarrow> json option" where
  "json_at v [] = Some v"
| "json_at (J_Object m) (k # ks) = (case bt_get m k of Some v \<Rightarrow> json_at v ks | None \<Rightarrow> None)"
| "json_at _ (k # ks) = None"

definition json_leaf :: "json \<Rightarrow> bool" where
  "json_leaf v \<longleftrightarrow> v \<noteq> J_Null \<and> (\<forall>m. v \<noteq> J_Object m)"

text \<open>\<open>b\<close> extends \<open>a\<close>: every leaf of \<open>a\<close> is found at the same place in \<open>b\<close>.\<close>

definition extends :: "json \<Rightarrow> json \<Rightarrow> bool" where
  "extends a b \<longleftrightarrow> (\<forall>path v. json_at a path = Some v \<and> json_leaf v \<longrightarrow> json_at b path = Some v)"

lemma extends_refl [simp]: "extends a a"
  by (simp add: extends_def)

lemma extends_trans: "extends a b \<Longrightarrow> extends b c \<Longrightarrow> extends a c"
  by (simp add: extends_def)

lemma extends_null [simp]: "extends J_Null b"
proof -
  have "json_at J_Null path = Some v \<Longrightarrow> v = J_Null" for path v by (cases path) auto
  then show ?thesis by (auto simp: extends_def json_leaf_def)
qed

lemma extends_object:
  assumes "\<And>k v. bt_get m k = Some v \<Longrightarrow> \<exists>v'. bt_get m' k = Some v' \<and> extends v v'"
  shows "extends (J_Object m) (J_Object m')"
  unfolding extends_def
proof (intro allI impI)
  fix path v assume a: "json_at (J_Object m) path = Some v \<and> json_leaf v"
  then show "json_at (J_Object m') path = Some v"
  proof (cases path)
    case (Cons k ks)
    then obtain x where "bt_get m k = Some x" "json_at x ks = Some v" using a by (auto split: option.splits)
    then show ?thesis using assms [of k x] a Cons by (auto simp: extends_def)
  qed (auto simp: json_leaf_def)
qed

lemma json_wf_get: "json_wf (J_Object m) \<Longrightarrow> bt_get m k = Some v \<Longrightarrow> json_wf v"
  by (auto simp: bt_get_def list_all_iff dest!: map_of_SomeD)

lemma bt_upsert_all:
  assumes "list_all (\<lambda>(k, v). P v) m" and "P d" and "\<And>v. P v \<Longrightarrow> P (f v)"
  shows "list_all (\<lambda>(k, v). P v) (bt_upsert le k f d m)"
  using assms by (induction le k f d m rule: bt_upsert.induct) auto

lemma upsert_wf:
  assumes "json_wf (J_Object m)" and "json_wf d" and "\<And>v. json_wf v \<Longrightarrow> json_wf (f v)"
  shows "json_wf (J_Object (bt_upsert str_le k f d m))"
  using assms by (simp add: str_keys.bt_upsert_inv bt_upsert_all)

lemma upsert_extends:
  assumes "json_wf (J_Object m)" and "\<And>v. json_wf v \<Longrightarrow> extends v (f v)"
  shows "extends (J_Object m) (J_Object (bt_upsert str_le k f d m))"
proof (rule extends_object)
  fix a v assume v: "bt_get m a = Some v"
  have "json_wf v" using json_wf_get [OF assms(1) v] .
  then show "\<exists>v'. bt_get (bt_upsert str_le k f d m) a = Some v' \<and> extends v v'"
    using v assms by (auto simp: str_keys.bt_upsert_get)
qed

lemma update_nested_extends:
  "json_wf t \<Longrightarrow> json_wf (update_nested_value t path v) \<and> extends t (update_nested_value t path v)"
proof (induction t path v rule: update_nested_value.induct)
  case (3 m key k2 rest v)
  have "json_wf (update_nested_value (J_Object []) (k2 # rest) v)" using "3.IH"(2) by simp
  then have "json_wf (J_Object (bt_upsert str_le key (\<lambda>x. update_nested_value x (k2 # rest) v)
      (update_nested_value (J_Object []) (k2 # rest) v) m))"
    using 3 by (intro upsert_wf) auto
  then show ?case using 3 by (auto intro!: upsert_extends simp del: json_wf.simps)
next
  case (2 m key v)
  have "json_wf (J_Object (bt_upsert str_le key (\<lambda>x. x) (J_String v) m))" using 2 by (intro upsert_wf) auto
  then show ?case using 2 by (auto intro!: upsert_extends simp del: json_wf.simps)
qed auto

lemma merge_extends:
  "json_wf a \<Longrightarrow> json_wf b \<Longrightarrow> json_wf (merge_values a b) \<and> extends a (merge_values a b)"
  "json_wf (J_Object m) \<Longrightarrow> list_all (\<lambda>(k, v). json_wf v) es \<Longrightarrow>
     json_wf (J_Object (merge_entries m es)) \<and> extends (J_Object m) (J_Object (merge_entries m es))"
proof (induction a b and m es rule: merge_values_merge_entries.induct)
  case (5 a k v b)
  let ?m = "bt_upsert str_le k (\<lambda>x. merge_values x v) (merge_values J_Null v) a"
  have v: "json_wf v" and b: "list_all (\<lambda>(k, v). json_wf v) b" using "5.prems" by auto
  have m: "json_wf (J_Object ?m)" using "5.prems"(1) "5.IH"(1) v by (intro upsert_wf) auto
  have "extends (J_Object a) (J_Object ?m)" using "5.prems"(1) "5.IH"(1) v by (intro upsert_extends) auto
  then show ?case using "5.IH"(3) m b extends_trans by auto
qed auto

text \<open>C29: form fields never overwrite each other. Merging the form data of an item into a JSON target keeps
  every value the target already has, other than null and objects, at its path; objects are only
  extended, and the result is well formed. The same holds between any two entries: what
  an earlier entry has set, later entries leave alone.\<close>

theorem merge_formdata_keeps:
  assumes "\<forall>s v. from_json s = Some v \<longrightarrow> json_wf v" and "json_wf target"
    and "merge_formdata from_json target it = Some result"
  shows "json_wf result \<and> (\<forall>path v. json_at target path = Some v \<and> json_leaf v \<longrightarrow> json_at result path = Some v) \<and>
         (\<forall>es1 es2 mid parts. form_entries (item_payload it) = es1 @ es2 \<and>
            merge_entry_loop from_json es1 (target, []) = Some (mid, parts) \<longrightarrow>
            (\<forall>path v. json_at mid path = Some v \<and> json_leaf v \<longrightarrow> json_at result path = Some v))"
proof -
  have step: "json_wf t' \<and> extends t t'"
    if "merge_entry from_json e (t, ps) = Some (t', ps')" and "json_wf t" for e t ps t' ps'
    using that assms(1) update_nested_extends merge_extends(1)
    by (auto simp: merge_entry_def Let_def split: if_splits option.splits prod.splits)
  have loop: "json_wf t' \<and> extends t t'"
    if "merge_entry_loop from_json es (t, ps) = Some (t', ps')" and "json_wf t" for es t ps t' ps'
    using that
  proof (induction es arbitrary: t ps)
    case (Cons e es)
    then obtain t1 ps1 where e: "merge_entry from_json e (t, ps) = Some (t1, ps1)"
        "merge_entry_loop from_json es (t1, ps1) = Some (t', ps')" by (auto split: option.splits)
    then show ?case using step [OF e(1)] Cons extends_trans by blast
  qed simp
  have append: "merge_entry_loop from_json (es1 @ es2) acc =
      Option.bind (merge_entry_loop from_json es1 acc) (merge_entry_loop from_json es2)" for es1 es2 acc
    by (induction es1 arbitrary: acc) (auto split: option.splits)
  obtain t' ps' where t': "merge_entry_loop from_json (form_entries (item_payload it)) (target, []) = Some (t', ps')"
    using assms(3) by (auto simp: merge_formdata_def split: option.splits)
  have last: "json_wf result \<and> extends t' result"
    using assms t' loop [OF t' assms(2)] merge_extends(1) by (auto simp: merge_formdata_def split: if_splits option.splits)
  have "extends mid result" if "form_entries (item_payload it) = es1 @ es2"
      "merge_entry_loop from_json es1 (target, []) = Some (mid, parts)" for es1 es2 mid parts
  proof -
    have "merge_entry_loop from_json es2 (mid, parts) = Some (t', ps')" using t' that by (simp add: append)
    then show ?thesis using loop loop [OF that(2) assms(2)] last extends_trans by blast
  qed
  moreover have "extends target result" using loop [OF t' assms(2)] last extends_trans by blast
  ultimately show ?thesis using last by (auto simp: extends_def)
qed

theorem merge_formdata_keeps_witness:
  "merge_formdata (\<lambda>_. Some (J_Object [(''extra'', J_Object [(''a'', J_Null)])])) (J_Object [])
     (form_into_item (form_write [(''a'', ''1''), (''sentry'', ''x''), (''a'', ''2'')])) =
     Some (J_Object [(''extra'', J_Object [(''a'', J_String ''1'')])])"
proof -
  let ?fj = "\<lambda>_ :: string. Some (J_Object [(''extra'', J_Object [(''a'', J_Null)])])"
  let ?it = "form_into_item (form_write [(''a'', ''1''), (''sentry'', ''x''), (''a'', ''2'')])"
  have r: "merge_formdata ?fj (J_Object []) ?it = Some (J_Object [(''extra'', J_Object [(''a'', J_String ''1'')])])"
  proof -
    have "item_payload ?it = form_write [(''a'', ''1''), (''sentry'', ''x''), (''a'', ''2'')]"
      by (simp add: form_into_item_def set_payload_def Let_def form_write_concat entry_size)
    then have "form_entries (item_payload ?it) = [(''a'', ''1''), (''sentry'', ''x''), (''a'', ''2'')]"
      using form_entries_concat [of "[(''a'', ''1''), (''sentry'', ''x''), (''a'', ''2'')]"]
      by (simp add: form_write_concat form_entry_ok_def form_string_def as_bytes_def)
    moreover have "merge_entry_loop ?fj [(''a'', ''1''), (''sentry'', ''x''), (''a'', ''2'')] (J_Object [], []) =
        Some (J_Object [(''extra'', J_Object [(''a'', J_String ''1'')])], [])"
      by (simp add: merge_entry_def starts_with_def get_sentry_chunk_index_def get_sentry_entry_indexes_def)
    ultimately show ?thesis by (simp add: merge_formdata_def)
  qed
  have "json_wf (J_Object [(''extra'', J_Object [(''a'', J_String ''1'')])])"
    using merge_formdata_keeps [of ?fj "J_Object []" ?it] r by (simp add: bt_inv_def)
  then show ?thesis using r by simp
qed

end
