(* ===== verification/Event_Extraction.thy ===== *)
theory Event_Extraction
  imports Sessions Form_Merge
begin

text \<open>
  The first half of the envelope processor (\<open>relay-server/src/actors/envelopes.rs\<close>): its state and errors,
  and how the event payload is taken out of the items of an envelope, including crash reports of
  the Unreal Engine (\<open>relay-server/src/utils/unreal.rs\<close>). Of the event schema the model has the fields that
  this code reads or writes; the others are kept together in one component. Deserialization of events,
  security reports and native crash files are arguments.
\<close>

section \<open>Events\<close>

record 'r breadcrumb =
  bc_timestamp :: "date_time option"
  bc_other :: 'r

record event_metrics =
  em_event :: "u64 option"
  em_minidump :: "u64 option"
  em_applecrashreport :: "u64 option"
  em_attachment :: "u64 option"
  em_sample_rates :: "relay_value option list option"

definition event_metrics_default :: event_metrics where
  "event_metrics_default =
     \<lparr>em_event = None, em_minidump = None, em_applecrashreport = None, em_attachment = None, em_sample_rates = None\<rparr>"

text \<open>
  The errors of the timestamp are those of the clock drift correction, with the sender's and the
  receiver's time.
\<close>

record 'r full_event = event +
  fe_timestamp :: "date_time option"
  fe_timestamp_errors :: "(date_time \<times> date_time) list"
  fe_tags :: "(string \<times> string) list option"
  fe_breadcrumbs :: "'r breadcrumb option list option"
  fe_metrics :: "event_metrics option"
  fe_measurements :: "(string \<times> f64 option) list option"
  fe_breakdowns :: "(string \<times> (string \<times> f64 option) list option) list option"
  fe_other :: 'r

definition event_default :: "'r \<Rightarrow> 'r full_event" where
  "event_default other =
     \<lparr>ev_id = None, ev_ty = None, ev_logentry = None, ev_release = None, ev_environment = None, ev_user = None,
      ev_request = None, ev_exceptions = None, ev_csp = None, fe_timestamp = None, fe_timestamp_errors = [],
      fe_tags = None, fe_breadcrumbs = None, fe_metrics = None, fe_measurements = None, fe_breakdowns = None,
      fe_other = other\<rparr>"

section \<open>Third-party code and generated code\<close>

datatype security_report_type = SRT_ExpectCt | SRT_ExpectStaple | SRT_Hpkp | SRT_Csp

datatype unreal_file_type =
    UFT_Minidump | UFT_AppleCrashReport | UFT_Log | UFT_Config | UFT_Context | UFT_Unknown

record unreal_file =
  uf_ty :: unreal_file_type
  uf_name :: string
  uf_data :: bytes

record 'r unreal_context =
  uc_game_data :: "string \<rightharpoonup> bytes"
  uc_runtime :: "(string option \<times> string option) option"
  uc_other :: 'r

text \<open>
  Parsers are generated or belong to other crates. Reading a breadcrumb from MessagePack consumes
  its marker byte and \<open>n\<close> more, if it yields \<open>n\<close>. The runtime properties of an Unreal
  context are the description of the user and the user name.
\<close>

record ('e, 'r) extract_ext =
  xx_event_from_json :: "bytes \<Rightarrow> 'e + 'r full_event option"
  xx_event_from_msgpack :: "bytes \<Rightarrow> 'e + 'r full_event option"
  xx_event_from_value :: "json \<Rightarrow> 'r full_event option"
  xx_json_from_str :: "string \<Rightarrow> json option"
  xx_breadcrumb :: "bytes \<Rightarrow> 'e + 'r breadcrumb option \<times> nat"
  xx_default_other :: 'r
  xx_security_type :: "bytes \<Rightarrow> 'e + security_report_type option"
  xx_apply_security :: "security_report_type \<Rightarrow> bytes \<Rightarrow> 'r full_event \<Rightarrow> 'e + 'r full_event"
  xx_unreal_crash :: "bytes \<Rightarrow> 'e + unreal_file list"
  xx_unreal_context :: "bytes \<Rightarrow> 'e + 'r unreal_context"
  xx_unreal_logs :: "bytes \<Rightarrow> nat \<Rightarrow> 'e + 'r breadcrumb list"
  xx_merge_unreal_context :: "'r unreal_context \<Rightarrow> 'r full_event \<Rightarrow> 'r full_event"
  xx_user_report_to_json :: "user_report \<Rightarrow> 'e + bytes"

section \<open>Errors and state\<close>

text \<open>\<open>PE_Panic\<close> is a panic of the worker; it is not an error of the source.\<close>

datatype 'e process_error =
    PE_InvalidJson 'e | PE_InvalidMsgpack 'e | PE_InvalidUnrealReport 'e | PE_PayloadTooLarge
  | PE_InvalidTransaction | PE_ProcessingFailed 'e | PE_DuplicateItem item_type | PE_NoEventPayload
  | PE_ScheduleFailed | PE_ProjectFailed | PE_MissingProjectId | PE_InvalidSecurityType
  | PE_InvalidSecurityReport 'e | PE_Rejected discard_reason | PE_EventFiltered filter_stat_key
  | PE_SerializeFailed 'e | PE_SendFailed 'e | PE_StoreFailed 'e | PE_RateLimited rate_limits
  | PE_QuotasFailed 'e | PE_Timeout | PE_TraceSampled rule_id | PE_EventSampled rule_id
  | PE_Panic

fun error_to_outcome :: "'e process_error \<Rightarrow> outcome option" where
  "error_to_outcome PE_PayloadTooLarge = Some (OC_Invalid DR_TooLarge)"
| "error_to_outcome (PE_InvalidJson _) = Some (OC_Invalid DR_InvalidJson)"
| "error_to_outcome (PE_InvalidMsgpack _) = Some (OC_Invalid DR_InvalidMsgpack)"
| "error_to_outcome (PE_Rejected reason) = Some (OC_Invalid reason)"
| "error_to_outcome PE_InvalidSecurityType = Some (OC_Invalid DR_SecurityReportType)"
| "error_to_outcome (PE_InvalidSecurityReport _) = Some (OC_Invalid DR_SecurityReport)"
| "error_to_outcome PE_InvalidTransaction = Some (OC_Invalid DR_InvalidTransaction)"
| "error_to_outcome (PE_DuplicateItem _) = Some (OC_Invalid DR_DuplicateItem)"
| "error_to_outcome PE_NoEventPayload = Some (OC_Invalid DR_NoEventPayload)"
| "error_to_outcome (PE_InvalidUnrealReport _) = Some (OC_Invalid DR_ProcessUnreal)"
| "error_to_outcome (PE_EventFiltered key) = Some (OC_Filtered key)"
| "error_to_outcome (PE_TraceSampled rid) = Some (OC_FilteredSampling rid)"
| "error_to_outcome (PE_EventSampled rid) = Some (OC_FilteredSampling rid)"
| "error_to_outcome (PE_RateLimited _) = None"
| "error_to_outcome (PE_SendFailed _) = None"
| "error_to_outcome _ = Some (OC_Invalid DR_Internal)"

type_synonym event_id = "128 word"
type_synonym 'j proc_envelope = "(event_id, date_time, 'j, trace_ctx) envelope"

record ('j, 'r) process_state =
  pr_envelope :: "'j proc_envelope"
  pr_event :: "'r full_event option"
  pr_metrics :: event_metrics
  pr_sample_rates :: "relay_value option"
  pr_rate_limits :: rate_limits
  pr_extracted_metrics :: "metric list"
  pr_project_state :: project_state
  pr_project_id :: project_id
  pr_received_at :: date_time

definition state_creates_event :: "('j, 'r) process_state \<Rightarrow> bool" where
  "state_creates_event st \<longleftrightarrow> list_ex creates_event (env_items (pr_envelope st))"

definition has_event :: "('j, 'r) process_state \<Rightarrow> bool" where
  "has_event st \<longleftrightarrow> pr_event st \<noteq> None"

definition state_event_type :: "('j, 'r) process_state \<Rightarrow> event_type option" where
  "state_event_type st =
     map_option (\<lambda>e. case ev_ty e of Some ty \<Rightarrow> ty | None \<Rightarrow> event_type_default) (pr_event st)"

definition event_category :: "('j, 'r) process_state \<Rightarrow> data_category option" where
  "event_category st = map_option data_category_from_event_type (state_event_type st)"

definition remove_event :: "('j, 'r) process_state \<Rightarrow> ('j, 'r) process_state" where
  "remove_event st = st\<lparr>pr_event := None\<rparr>"

text \<open>The operator for errors that end the pipeline.\<close>

definition try_op :: "'e + 'a \<Rightarrow> ('a \<Rightarrow> 'e + 'b) \<Rightarrow> 'e + 'b" where
  "try_op r f = (case r of Inl e \<Rightarrow> Inl e | Inr x \<Rightarrow> f x)"

definition map_err :: "('e \<Rightarrow> 'f) \<Rightarrow> 'e + 'a \<Rightarrow> 'f + 'a" where
  "map_err f r = (case r of Inl e \<Rightarrow> Inl (f e) | Inr x \<Rightarrow> Inr x)"

lemma try_op_simps [simp]: "try_op (Inr x) f = f x" "try_op (Inl e) f = Inl e"
  by (simp_all add: try_op_def)

lemma map_err_simps [simp]: "map_err g (Inr x) = Inr x" "map_err g (Inl e) = Inl (g e)"
  by (simp_all add: map_err_def)

lemma try_op_Inr: "try_op r f = Inr y \<longleftrightarrow> (\<exists>x. r = Inr x \<and> f x = Inr y)"
  by (cases r) auto

lemma map_err_Inr: "map_err g r = Inr y \<longleftrightarrow> r = Inr y"
  by (cases r) auto

section \<open>Unreal crash reports\<close>

definition get_event_item :: "('e, 'r) extract_ext \<Rightarrow> bytes \<Rightarrow> 'e + item option" where
  "get_event_item xx data =
     try_op (xx_unreal_context xx data) (\<lambda>context.
       Inr (case uc_game_data context ''__sentry'' of
              Some json \<Rightarrow> if json \<noteq> [] then Some (set_payload CT_Json json (item_new IT_Event)) else None
            | None \<Rightarrow> None))"

definition unreal_types :: "unreal_file \<Rightarrow> content_type \<times> attachment_type" where
  "unreal_types f =
     (case uf_ty f of
        UFT_Minidump \<Rightarrow> (CT_Minidump, AT_Minidump)
      | UFT_AppleCrashReport \<Rightarrow> (CT_Text, AT_AppleCrashReport)
      | UFT_Log \<Rightarrow> (CT_Text, AT_UnrealLogs)
      | UFT_Config \<Rightarrow> (CT_OctetStream, AT_Attachment)
      | UFT_Context \<Rightarrow> (CT_Xml, AT_UnrealContext)
      | UFT_Unknown \<Rightarrow>
          if uf_name f = ''__sentry-event'' then (CT_MsgPack, AT_EventPayload)
          else if uf_name f = ''__sentry-breadcrumb1'' \<or> uf_name f = ''__sentry-breadcrumb2'' then (CT_MsgPack, AT_Breadcrumbs)
          else (CT_OctetStream, AT_Attachment))"

fun expand_files :: "('e, 'r) extract_ext \<Rightarrow> bool \<Rightarrow> unreal_file list \<Rightarrow> 'j proc_envelope \<Rightarrow> 'e + 'j proc_envelope" where
  "expand_files xx found [] e = Inr e"
| "expand_files xx found (f # fs) e =
     (let (content_type, attachment_type) = unreal_types f;
          attachment = set_attachment_type attachment_type
            (set_payload content_type (uf_data f) (set_filename (uf_name f) (item_new IT_Attachment)))
      in if \<not> found \<and> attachment_type = AT_UnrealContext
         then try_op (get_event_item xx (uf_data f)) (\<lambda>event_item.
                case event_item of
                  Some it \<Rightarrow> expand_files xx True fs (add_item attachment (add_item it e))
                | None \<Rightarrow> expand_files xx found fs (add_item attachment e))
         else expand_files xx found fs (add_item attachment e))"

definition expand_unreal_envelope :: "('e, 'r) extract_ext \<Rightarrow> item \<Rightarrow> 'j proc_envelope \<Rightarrow> 'e + 'j proc_envelope" where
  "expand_unreal_envelope xx unreal_item e =
     try_op (xx_unreal_crash xx (item_payload unreal_item)) (\<lambda>files.
       expand_files xx (get_item_by (\<lambda>it. item_ty it = IT_Event) e \<noteq> None) files e)"

definition expand_unreal :: "('e, 'r) extract_ext \<Rightarrow> ('j, 'r) process_state \<Rightarrow> 'e process_error + ('j, 'r) process_state" where
  "expand_unreal xx st =
     (case take_item_by (\<lambda>it. item_ty it = IT_UnrealReport) (pr_envelope st) of
        (None, e) \<Rightarrow> Inr st
      | (Some it, e) \<Rightarrow>
          try_op (map_err PE_InvalidUnrealReport (expand_unreal_envelope xx it e)) (\<lambda>e'. Inr (st\<lparr>pr_envelope := e'\<rparr>)))"

definition add_tag :: "string \<Rightarrow> string \<Rightarrow> 'r full_event \<Rightarrow> 'r full_event" where
  "add_tag k v ev = ev\<lparr>fe_tags := Some ((case fe_tags ev of Some ts \<Rightarrow> ts | None \<Rightarrow> []) @ [(k, v)])\<rparr>"

definition merge_unreal_user_info :: "string \<Rightarrow> 'r full_event \<Rightarrow> 'r full_event" where
  "merge_unreal_user_info user_info ev =
     (let parts = split_on (CHR ''|'') user_info;
          set_user = (\<lambda>v ev. ev\<lparr>ev_user := Some ((case ev_user ev of
                         Some u \<Rightarrow> u | None \<Rightarrow> \<lparr>us_id = None, us_segment = None, us_ip_address = None\<rparr>)\<lparr>us_id := Some v\<rparr>)\<rparr>)
      in case parts of
           [] \<Rightarrow> ev
         | [u] \<Rightarrow> set_user u ev
         | [u, a] \<Rightarrow> add_tag ''epic_account_id'' a (set_user u ev)
         | u # a # m # _ \<Rightarrow> add_tag ''machine_id'' m (add_tag ''epic_account_id'' a (set_user u ev)))"

definition MAX_NUM_UNREAL_LOGS :: nat where
  "MAX_NUM_UNREAL_LOGS = 40"

definition merge_unreal_logs :: "('e, 'r) extract_ext \<Rightarrow> bytes \<Rightarrow> 'r full_event \<Rightarrow> 'e + 'r full_event" where
  "merge_unreal_logs xx data ev =
     try_op (xx_unreal_logs xx data MAX_NUM_UNREAL_LOGS) (\<lambda>logs.
       Inr (ev\<lparr>fe_breadcrumbs := Some ((case fe_breadcrumbs ev of Some bs \<Rightarrow> bs | None \<Rightarrow> []) @ map Some logs)\<rparr>))"

text \<open>The description is taken out of the context.\<close>

definition get_unreal_user_report ::
  "('e, 'r) extract_ext \<Rightarrow> event_id \<Rightarrow> 'r unreal_context \<Rightarrow> item option \<times> 'r unreal_context" where
  "get_unreal_user_report xx eid context =
     (case uc_runtime context of
        Some (Some user_description, username) \<Rightarrow>
          let context' = context\<lparr>uc_runtime := Some (None, username)\<rparr>;
              report = \<lparr>ur_event_id = eid, ur_name = (case username of Some n \<Rightarrow> n | None \<Rightarrow> ''unknown''), ur_email = [],
                        ur_comments = user_description\<rparr>
          in (case xx_user_report_to_json xx report of
                Inl _ \<Rightarrow> (None, context')
              | Inr json \<Rightarrow> (Some (set_payload CT_Json json (item_new IT_UserReport)), context'))
      | _ \<Rightarrow> (None, context))"

definition envelope_event_id :: "'j proc_envelope \<Rightarrow> event_id" where
  "envelope_event_id e = (case eh_event_id (env_headers e) of Some i \<Rightarrow> i | None \<Rightarrow> 0)"

definition process_unreal_envelope ::
  "('e, 'r) extract_ext \<Rightarrow> 'r full_event option \<Rightarrow> 'j proc_envelope \<Rightarrow> 'e + 'r full_event option \<times> 'j proc_envelope" where
  "process_unreal_envelope xx event e =
     (let user_header = (case envelope_get_header ''unreal_user_id'' e of Some (V_String s) \<Rightarrow> Some s | _ \<Rightarrow> None);
          context_item = get_item_by (\<lambda>it. item_attachment_type it = Some AT_UnrealContext) e;
          logs_item = get_item_by (\<lambda>it. item_attachment_type it = Some AT_UnrealLogs) e
      in if user_header = None \<and> context_item = None \<and> logs_item = None then Inr (event, e)
         else
           let ev0 = (case event of Some ev \<Rightarrow> ev | None \<Rightarrow> event_default (xx_default_other xx));
               ev1 = (case user_header of Some u \<Rightarrow> merge_unreal_user_info u ev0 | None \<Rightarrow> ev0)
           in try_op (case logs_item of Some it \<Rightarrow> merge_unreal_logs xx (item_payload it) ev1 | None \<Rightarrow> Inr ev1) (\<lambda>ev2.
                case context_item of
                  None \<Rightarrow> Inr (Some ev2, e)
                | Some it \<Rightarrow>
                    try_op (xx_unreal_context xx (item_payload it)) (\<lambda>context.
                      let (report, context') = get_unreal_user_report xx (envelope_event_id e) context;
                          e' = (case report of Some r \<Rightarrow> add_item r e | None \<Rightarrow> e)
                      in Inr (Some (xx_merge_unreal_context xx context' ev2), e'))))"

definition process_unreal :: "('e, 'r) extract_ext \<Rightarrow> ('j, 'r) process_state \<Rightarrow> 'e process_error + ('j, 'r) process_state" where
  "process_unreal xx st =
     try_op (map_err PE_InvalidUnrealReport (process_unreal_envelope xx (pr_event st) (pr_envelope st))) (\<lambda>(event, e).
       Inr (st\<lparr>pr_event := event, pr_envelope := e\<rparr>))"

section \<open>Extracting the event\<close>

definition event_from_json_payload ::
  "('e, 'r) extract_ext \<Rightarrow> item \<Rightarrow> event_type option \<Rightarrow> 'e process_error + 'r full_event option \<times> nat" where
  "event_from_json_payload xx it event_type =
     try_op (map_err PE_InvalidJson (xx_event_from_json xx (item_payload it))) (\<lambda>event.
       Inr (map_option (\<lambda>ev. ev\<lparr>ev_ty := event_type\<rparr>) event, item_len it))"

fun event_type_of_report :: "security_report_type \<Rightarrow> event_type" where
  "event_type_of_report SRT_Csp = ET_Csp"
| "event_type_of_report SRT_ExpectCt = ET_ExpectCt"
| "event_type_of_report SRT_ExpectStaple = ET_ExpectStaple"
| "event_type_of_report SRT_Hpkp = ET_Hpkp"

definition header_str :: "string \<Rightarrow> item \<Rightarrow> string option" where
  "header_str name it = (case item_get_header name it of Some (V_String s) \<Rightarrow> Some s | _ \<Rightarrow> None)"

definition event_from_security_report ::
  "('e, 'r) extract_ext \<Rightarrow> item \<Rightarrow> 'e process_error + 'r full_event option \<times> nat" where
  "event_from_security_report xx it =
     try_op (map_err PE_InvalidJson (xx_security_type xx (item_payload it))) (\<lambda>ty.
       case ty of
         None \<Rightarrow> Inl PE_InvalidSecurityType
       | Some report_type \<Rightarrow>
           try_op (map_err PE_InvalidSecurityReport
                 (xx_apply_security xx report_type (item_payload it) (event_default (xx_default_other xx)))) (\<lambda>ev0.
             let ev1 = (case header_str ''sentry_release'' it of Some r \<Rightarrow> ev0\<lparr>ev_release := Some r\<rparr> | None \<Rightarrow> ev0);
                 ev2 = (case header_str ''sentry_environment'' it of Some n \<Rightarrow> ev1\<lparr>ev_environment := Some n\<rparr> | None \<Rightarrow> ev1)
             in Inr (Some (ev2\<lparr>ev_ty := Some (event_type_of_report report_type)\<rparr>), item_len it)))"

text \<open>Attachments of events may be empty and must not exceed the size of an event.\<close>

definition extract_attached_event ::
  "('e, 'r) extract_ext \<Rightarrow> relay_config \<Rightarrow> item option \<Rightarrow> 'e process_error + 'r full_event option" where
  "extract_attached_event xx c it =
     (case it of
        None \<Rightarrow> Inr (Some (event_default (xx_default_other xx)))
      | Some i \<Rightarrow>
          if item_len i = 0 then Inr (Some (event_default (xx_default_other xx)))
          else if item_len i > max_event_size c then Inl PE_PayloadTooLarge
          else map_err PE_InvalidMsgpack (xx_event_from_msgpack xx (item_payload i)))"

function breadcrumbs_loop ::
  "(bytes \<Rightarrow> 'e + 'r breadcrumb option \<times> nat) \<Rightarrow> bytes \<Rightarrow> 'e + 'r breadcrumb option list" where
  "breadcrumbs_loop read data =
     (if data = [] then Inr []
      else
        (case read data of
           Inl e \<Rightarrow> Inl e
         | Inr (b, n) \<Rightarrow>
             (case breadcrumbs_loop read (drop (n + 1) data) of
                Inl e \<Rightarrow> Inl e
              | Inr bs \<Rightarrow> Inr (b # bs))))"
  by pat_completeness auto
termination
  by (relation "measure (\<lambda>(read, data). length data)") auto

declare breadcrumbs_loop.simps [simp del]

definition parse_msgpack_breadcrumbs ::
  "('e, 'r) extract_ext \<Rightarrow> relay_config \<Rightarrow> item option \<Rightarrow> 'e process_error + 'r breadcrumb option list" where
  "parse_msgpack_breadcrumbs xx c it =
     (case it of
        None \<Rightarrow> Inr []
      | Some i \<Rightarrow>
          if item_len i = 0 then Inr []
          else if item_len i > max_event_size c then Inl PE_PayloadTooLarge
          else map_err PE_InvalidMsgpack (breadcrumbs_loop (xx_breadcrumb xx) (item_payload i)))"

text \<open>The last timestamp of a list of breadcrumbs; a missing one is smaller than any.\<close>

definition last_timestamp :: "'r breadcrumb option list \<Rightarrow> date_time option" where
  "last_timestamp bs =
     (case List.map_filter (\<lambda>b. Option.bind b bc_timestamp) (rev bs) of [] \<Rightarrow> None | t # _ \<Rightarrow> Some t)"

definition timestamp_less :: "date_time option \<Rightarrow> date_time option \<Rightarrow> bool" where
  "timestamp_less a b \<longleftrightarrow> (case (a, b) of (None, Some _) \<Rightarrow> True | (Some x, Some y) \<Rightarrow> x < y | _ \<Rightarrow> False)"

definition merge_breadcrumbs ::
  "'r breadcrumb option list \<Rightarrow> 'r breadcrumb option list \<Rightarrow> 'r breadcrumb option list" where
  "merge_breadcrumbs bs1 bs2 =
     (let (b1, b2) = (if timestamp_less (last_timestamp bs2) (last_timestamp bs1) then (bs2, bs1) else (bs1, bs2));
          max_length = max (length b1) (length b2);
          all = b1 @ b2
      in if length all > max_length then drop (length all - max_length) all else all)"

definition event_from_attachments ::
  "('e, 'r) extract_ext \<Rightarrow> relay_config \<Rightarrow> item option \<Rightarrow> item option \<Rightarrow> item option \<Rightarrow>
   'e process_error + 'r full_event option \<times> nat" where
  "event_from_attachments xx c event_item item1 item2 =
     (let len_of = (\<lambda>it. case it of Some i \<Rightarrow> item_len i | None \<Rightarrow> 0);
          len = len_of event_item + len_of item1 + len_of item2
      in try_op (extract_attached_event xx c event_item) (\<lambda>event.
         try_op (parse_msgpack_breadcrumbs xx c item1) (\<lambda>bs1.
         try_op (parse_msgpack_breadcrumbs xx c item2) (\<lambda>bs2.
           let bs = merge_breadcrumbs bs1 bs2
           in Inr (if bs = [] then event
                   else Some ((case event of Some ev \<Rightarrow> ev | None \<Rightarrow> event_default (xx_default_other xx))
                                \<lparr>fe_breadcrumbs := Some bs\<rparr>), len)))))"

definition is_duplicate :: "relay_config \<Rightarrow> item \<Rightarrow> bool" where
  "is_duplicate c it =
     (case item_ty it of
        IT_Event \<Rightarrow> True
      | IT_Transaction \<Rightarrow> True
      | IT_Security \<Rightarrow> True
      | IT_FormData \<Rightarrow> True
      | IT_RawSecurity \<Rightarrow> True
      | IT_UnrealReport \<Rightarrow> processing_enabled c
      | IT_Attachment \<Rightarrow> False
      | IT_UserReport \<Rightarrow> False
      | IT_Session \<Rightarrow> False
      | IT_Sessions \<Rightarrow> False
      | IT_Metrics \<Rightarrow> False
      | IT_MetricBuckets \<Rightarrow> False)"

record taken_items =
  ti_event :: "item option"
  ti_transaction :: "item option"
  ti_security :: "item option"
  ti_raw_security :: "item option"
  ti_form :: "item option"
  ti_attachment :: "item option"
  ti_breadcrumbs1 :: "item option"
  ti_breadcrumbs2 :: "item option"

definition take_items :: "'j proc_envelope \<Rightarrow> taken_items \<times> 'j proc_envelope" where
  "take_items e0 =
     (let (event, e1) = take_item_by (\<lambda>it. item_ty it = IT_Event) e0;
          (transaction, e2) = take_item_by (\<lambda>it. item_ty it = IT_Transaction) e1;
          (security, e3) = take_item_by (\<lambda>it. item_ty it = IT_Security) e2;
          (raw_security, e4) = take_item_by (\<lambda>it. item_ty it = IT_RawSecurity) e3;
          (form, e5) = take_item_by (\<lambda>it. item_ty it = IT_FormData) e4;
          (attachment, e6) = take_item_by (\<lambda>it. item_attachment_type it = Some AT_EventPayload) e5;
          (breadcrumbs1, e7) = take_item_by (\<lambda>it. item_attachment_type it = Some AT_Breadcrumbs) e6;
          (breadcrumbs2, e8) = take_item_by (\<lambda>it. item_attachment_type it = Some AT_Breadcrumbs) e7
      in (\<lparr>ti_event = event, ti_transaction = transaction, ti_security = security, ti_raw_security = raw_security,
           ti_form = form, ti_attachment = attachment, ti_breadcrumbs1 = breadcrumbs1, ti_breadcrumbs2 = breadcrumbs2\<rparr>,
          e8))"

text \<open>The event, its length, and the sample rates of the item, if the item is asked for them.\<close>

definition event_from_items ::
  "('e, 'r) extract_ext \<Rightarrow> relay_config \<Rightarrow> taken_items \<Rightarrow>
   'e process_error + ('r full_event option \<times> nat) \<times> relay_value option option" where
  "event_from_items xx c t =
     (let with_rates = (\<lambda>it f. let (rates, it') = take_sample_rates it in try_op (f it') (\<lambda>r. Inr (r, Some rates)))
      in case (if ti_event t \<noteq> None then ti_event t else ti_security t) of
           Some it \<Rightarrow> with_rates it (\<lambda>it. event_from_json_payload xx it None)
         | None \<Rightarrow>
         (case ti_transaction t of
           Some it \<Rightarrow> with_rates it (\<lambda>it. event_from_json_payload xx it (Some ET_Transaction))
         | None \<Rightarrow>
         (case ti_raw_security t of
           Some it \<Rightarrow> with_rates it (event_from_security_report xx)
         | None \<Rightarrow>
           if ti_attachment t \<noteq> None \<or> ti_breadcrumbs1 t \<noteq> None \<or> ti_breadcrumbs2 t \<noteq> None
           then try_op (event_from_attachments xx c (ti_attachment t) (ti_breadcrumbs1 t) (ti_breadcrumbs2 t)) (\<lambda>r. Inr (r, None))
           else
         (case ti_form t of
           Some it \<Rightarrow>
             (case merge_formdata (xx_json_from_str xx) (J_Object []) it of
                None \<Rightarrow> Inl PE_Panic
              | Some v \<Rightarrow> Inr ((xx_event_from_value xx v, item_len it), None))
         | None \<Rightarrow> Inr ((None, 0), None)))))"

definition extract_event ::
  "('e, 'r) extract_ext \<Rightarrow> relay_config \<Rightarrow> ('j, 'r) process_state \<Rightarrow> 'e process_error + ('j, 'r) process_state" where
  "extract_event xx c st =
     (let (t, e) = take_items (pr_envelope st)
      in case get_item_by (is_duplicate c) e of
           Some duplicate \<Rightarrow> Inl (PE_DuplicateItem (item_ty duplicate))
         | None \<Rightarrow>
             try_op (event_from_items xx c t) (\<lambda>((event, event_len), rates).
               Inr (st\<lparr>pr_envelope := e, pr_event := event,
                       pr_sample_rates := (case rates of Some r \<Rightarrow> r | None \<Rightarrow> pr_sample_rates st),
                       pr_metrics := (pr_metrics st)\<lparr>em_event := Some (word_of_nat event_len)\<rparr>\<rparr>)))"

section \<open>Breadcrumbs\<close>

text \<open>
  Merging keeps the order within each list, puts the list that ends earlier first, and keeps the
  newest breadcrumbs up to the longer of the two lists.
\<close>

lemma merge_breadcrumbs_eq:
  "merge_breadcrumbs a b =
     drop (min (length a) (length b)) (if timestamp_less (last_timestamp b) (last_timestamp a) then b @ a else a @ b)"
proof -
  have "length a + length b - max (length a) (length b) = min (length a) (length b)" by linarith
  moreover have "length b + length a - max (length b) (length a) = min (length a) (length b)" by linarith
  moreover have "\<not> max (length a) (length b) < length a + length b \<Longrightarrow> min (length a) (length b) = 0" by linarith
  ultimately show ?thesis by (auto simp: merge_breadcrumbs_def Let_def max.commute)
qed

lemma merge_breadcrumbs_length: "length (merge_breadcrumbs a b) = max (length a) (length b)"
  by (auto simp: merge_breadcrumbs_eq)

section \<open>What extraction takes and leaves\<close>

definition opt_list :: "'a option \<Rightarrow> 'a list" where
  "opt_list x = (case x of Some y \<Rightarrow> [y] | None \<Rightarrow> [])"

definition taken_list :: "taken_items \<Rightarrow> item list" where
  "taken_list t =
     concat (map opt_list
       [ti_event t, ti_transaction t, ti_security t, ti_raw_security t, ti_form t, ti_attachment t, ti_breadcrumbs1 t,
        ti_breadcrumbs2 t])"

lemma take_item_mset:
  assumes "take_item_by cond e = (r, e')"
  shows "env_headers e' = env_headers e" "mset (env_items e) = mset (env_items e') + mset (opt_list r)"
    "r = List.find cond (env_items e)" "r = Some it \<Longrightarrow> cond it"
  using take_item_by_removes_one [OF assms]
  by (auto simp: opt_list_def find_None_iff2 split: option.splits)

lemma take_items_exact:
  assumes "take_items e = (t, e')"
  shows "env_headers e' = env_headers e" "mset (env_items e) = mset (env_items e') + mset (taken_list t)"
    "ti_event t = List.find (\<lambda>it. item_ty it = IT_Event) (env_items e)"
proof -
  obtain r1 e1 where 1: "take_item_by (\<lambda>it. item_ty it = IT_Event) e = (r1, e1)" by fastforce
  obtain r2 e2 where 2: "take_item_by (\<lambda>it. item_ty it = IT_Transaction) e1 = (r2, e2)" by fastforce
  obtain r3 e3 where 3: "take_item_by (\<lambda>it. item_ty it = IT_Security) e2 = (r3, e3)" by fastforce
  obtain r4 e4 where 4: "take_item_by (\<lambda>it. item_ty it = IT_RawSecurity) e3 = (r4, e4)" by fastforce
  obtain r5 e5 where 5: "take_item_by (\<lambda>it. item_ty it = IT_FormData) e4 = (r5, e5)" by fastforce
  obtain r6 e6 where 6: "take_item_by (\<lambda>it. item_attachment_type it = Some AT_EventPayload) e5 = (r6, e6)" by fastforce
  obtain r7 e7 where 7: "take_item_by (\<lambda>it. item_attachment_type it = Some AT_Breadcrumbs) e6 = (r7, e7)" by fastforce
  obtain r8 e8 where 8: "take_item_by (\<lambda>it. item_attachment_type it = Some AT_Breadcrumbs) e7 = (r8, e8)" by fastforce
  note steps = 1 2 3 4 5 6 7 8
  have t: "t = \<lparr>ti_event = r1, ti_transaction = r2, ti_security = r3, ti_raw_security = r4, ti_form = r5, ti_attachment = r6,
      ti_breadcrumbs1 = r7, ti_breadcrumbs2 = r8\<rparr>" and e': "e' = e8"
    using assms by (simp_all add: take_items_def steps)
  show "env_headers e' = env_headers e" using steps [THEN take_item_mset(1)] e' by simp
  show "ti_event t = List.find (\<lambda>it. item_ty it = IT_Event) (env_items e)" using take_item_mset(3) [OF 1] t by simp
  have "mset (env_items e) = mset (env_items e8) + mset (opt_list r8) + mset (opt_list r7) +
      mset (opt_list r6) + mset (opt_list r5) + mset (opt_list r4) +
      mset (opt_list r3) + mset (opt_list r2) + mset (opt_list r1)"
    using steps [THEN take_item_mset(2)] by simp
  then show "mset (env_items e) = mset (env_items e') + mset (taken_list t)"
    by (simp add: taken_list_def t e' ac_simps)
qed

definition event_types :: "item_type set" where
  "event_types = {IT_Event, IT_Transaction, IT_Security, IT_RawSecurity}"

lemma extract_event_left:
  assumes "extract_event xx c st = Inr st'" and "it \<in> set (env_items (pr_envelope st'))"
  shows "item_ty it \<notin> event_types \<and> item_ty it \<noteq> IT_FormData \<and> (processing_enabled c \<longrightarrow> item_ty it \<noteq> IT_UnrealReport)"
proof -
  obtain t e where t: "take_items (pr_envelope st) = (t, e)" by fastforce
  have none: "get_item_by (is_duplicate c) e = None"
    using assms by (auto simp: extract_event_def t split: option.splits)
  then have "pr_envelope st' = e" using assms by (auto simp: extract_event_def t try_op_Inr)
  then show ?thesis
    using none assms(2) by (auto simp: get_item_by_def find_None_iff is_duplicate_def event_types_def split: item_type.splits)
qed

lemma extract_event_keeps:
  assumes "extract_event xx c st = Inr st'"
  shows "pr_project_state st' = pr_project_state st \<and> env_headers (pr_envelope st') = env_headers (pr_envelope st)"
proof -
  obtain t e where t: "take_items (pr_envelope st) = (t, e)" by fastforce
  have "pr_project_state st' = pr_project_state st \<and> pr_envelope st' = e"
    using assms by (auto simp: extract_event_def t try_op_Inr split: option.splits)
  then show ?thesis using take_items_exact(1) [OF t] by simp
qed


text \<open>The type of an event is cleared, although the comment at the call says it is retained.\<close>

lemma event_type_cleared:
  "event_from_json_payload xx it None = Inr (Some ev, len) \<Longrightarrow> ev_ty ev = None"
  by (auto simp: event_from_json_payload_def try_op_Inr map_err_Inr)

section \<open>Examples\<close>

definition example_extract :: "(nat, unit) extract_ext" where
  "example_extract =
     \<lparr>xx_event_from_json = (\<lambda>_. Inr (Some ((event_default ())\<lparr>ev_ty := Some ET_Error\<rparr>))),
      xx_event_from_msgpack = (\<lambda>_. Inr None), xx_event_from_value = (\<lambda>_. None), xx_json_from_str = (\<lambda>_. None),
      xx_breadcrumb = (\<lambda>_. Inl 0), xx_default_other = (), xx_security_type = (\<lambda>_. Inl 0),
      xx_apply_security = (\<lambda>_ _ _. Inl 0), xx_unreal_crash = (\<lambda>_. Inl 0), xx_unreal_context = (\<lambda>_. Inl 0),
      xx_unreal_logs = (\<lambda>_ _. Inl 0), xx_merge_unreal_context = (\<lambda>_ ev. ev), xx_user_report_to_json = (\<lambda>_. Inl 0)\<rparr>"

definition example_process_envelope :: "nat proc_envelope" where
  "example_process_envelope =
     add_item (item_new IT_Attachment) (add_item (item_new IT_Event) (from_request (Some 5) example_meta))"

definition example_process_state :: "(nat, unit) process_state" where
  "example_process_state =
     \<lparr>pr_envelope = example_process_envelope, pr_event = None, pr_metrics = event_metrics_default,
      pr_sample_rates = None, pr_rate_limits = rate_limits_new, pr_extracted_metrics = [],
      pr_project_state = state_missing 0, pr_project_id = 1, pr_received_at = 0\<rparr>"

lemmas extract_example_defs =
  example_process_state_def example_process_envelope_def example_extract_def add_item_def from_request_def
  item_new_def item_ty_def item_attachment_type_def take_item_by_def swap_remove_def


end
