(* ===== verification/Envelope_Processor.thy ===== *)
theory Envelope_Processor
  imports Event_Extraction
begin

text \<open>
  The second half of the envelope processor (\<open>relay-server/src/actors/envelopes.rs\<close>, with the feature
  \<open>processing\<close>): placeholders, finalization with clock drift, sampling, metrics, filters, quotas, data
  scrubbing, serialization and the pipeline of these stages. The normalization of events for storage,
  the PII processors and the readers of native crash files are arguments of the pipeline: the
  statements hold whatever they do.
\<close>

section \<open>Arguments\<close>

text \<open>\<open>StoreConfig\<close> of \<open>relay-general/src/store/mod.rs\<close>.\<close>

record store_config =
  sc_project_id :: "u64 option"
  sc_client_ip :: "string option"
  sc_client :: "string option"
  sc_key_id :: "string option"
  sc_protocol_version :: "string option"
  sc_grouping_config :: "json option"
  sc_user_agent :: "string option"
  sc_received_at :: "date_time option"
  sc_sent_at :: "date_time option"
  sc_max_secs_in_future :: "int option"
  sc_max_secs_in_past :: "int option"
  sc_enable_trimming :: "bool option"
  sc_is_renormalize :: "bool option"
  sc_remove_other :: "bool option"
  sc_normalize_user_agent :: "bool option"
  sc_breakdowns :: "json option"

record ('ip, 'e, 'r) process_ext =
  px_sampling :: "'ip sampling_ext"
  px_session :: "('ip, 'e) session_ext"
  px_extract :: "('e, 'r) extract_ext"
  px_user_report_from_json :: "bytes \<Rightarrow> 'e + user_report"
  px_sample_rate :: "relay_value option \<Rightarrow> relay_value option"
  px_shift_other :: "signed_duration \<Rightarrow> 'r \<Rightarrow> 'r option"
  px_store :: "store_config \<Rightarrow> 'r full_event \<Rightarrow> 'e + 'r full_event option"
  px_process_minidump :: "bytes \<Rightarrow> 'r full_event \<Rightarrow> 'r full_event"
  px_process_apple_crash_report :: "bytes \<Rightarrow> 'r full_event \<Rightarrow> 'r full_event"
  px_pii :: "json \<Rightarrow> 'r full_event \<Rightarrow> 'e + 'r full_event option"
  px_datascrubbing_config :: "data_scrubbing_config \<Rightarrow> json option"
  px_scrub_minidump :: "json \<Rightarrow> string \<Rightarrow> bytes \<Rightarrow> ('e + bool) \<times> bytes"
  px_scrub_attachment :: "json \<Rightarrow> string \<Rightarrow> bytes \<Rightarrow> bytes"
  px_event_to_json :: "'r full_event \<Rightarrow> 'e + bytes"

text \<open>The rate limiter of the worker: the limiter, the times it reads, and its Redis.\<close>

record ('s, 'e) redis_env =
  re_limiter :: redis_rate_limiter
  re_now :: instant
  re_timestamp :: unix_timestamp
  re_client :: "'e + unit"
  re_invoke :: "'s \<Rightarrow> script_quota list \<Rightarrow> ('e + bool list) \<times> 's"

section \<open>Before the pipeline\<close>

definition set_project_id :: "project_id \<Rightarrow> 'j proc_envelope \<Rightarrow> 'j proc_envelope" where
  "set_project_id pid e =
     (let m = eh_meta (env_headers e)
      in e\<lparr>env_headers := (env_headers e)\<lparr>eh_meta := m\<lparr>rm_dsn := (rm_dsn m)\<lparr>dsn_project_id := Some pid\<rparr>\<rparr>\<rparr>\<rparr>)"

definition prepare_state ::
  "instant \<Rightarrow> system_time \<Rightarrow> 'j proc_envelope \<Rightarrow> project_state \<Rightarrow> instant \<Rightarrow>
   'e process_error + ('j, 'r) process_state" where
  "prepare_state now system_now e project start_time =
     (let e1 = (case pc_event_retention (st_config project) of Some r \<Rightarrow> set_retention r e | None \<Rightarrow> e)
      in case (case st_project_id project of
                 Some i \<Rightarrow> Some i | None \<Rightarrow> dsn_project_id (rm_dsn (eh_meta (env_headers e1)))) of
           None \<Rightarrow> Inl PE_MissingProjectId
         | Some pid \<Rightarrow>
             Inr \<lparr>pr_envelope = set_project_id pid e1, pr_event = None, pr_metrics = event_metrics_default,
                  pr_sample_rates = None, pr_rate_limits = rate_limits_new, pr_extracted_metrics = [],
                  pr_project_state = project, pr_project_id = pid,
                  pr_received_at = instant_to_system_time now system_now start_time\<rparr>)"

section \<open>Stages\<close>

definition get_or_insert_event :: "('e, 'r) extract_ext \<Rightarrow> ('j, 'r) process_state \<Rightarrow> 'r full_event" where
  "get_or_insert_event xx st = (case pr_event st of Some ev \<Rightarrow> ev | None \<Rightarrow> event_default (xx_default_other xx))"

definition create_placeholders ::
  "('ip, 'e, 'r) process_ext \<Rightarrow> ('j, 'r) process_state \<Rightarrow> ('j, 'r) process_state" where
  "create_placeholders px st =
     (let ev = get_or_insert_event (px_extract px) st
      in case get_item_by (\<lambda>it. item_attachment_type it = Some AT_Minidump) (pr_envelope st) of
           Some it \<Rightarrow>
             st\<lparr>pr_metrics := (pr_metrics st)\<lparr>em_minidump := Some (word_of_nat (item_len it))\<rparr>,
                pr_event := Some (px_process_minidump px (item_payload it) ev)\<rparr>
         | None \<Rightarrow>
             (case get_item_by (\<lambda>it. item_attachment_type it = Some AT_AppleCrashReport) (pr_envelope st) of
                Some it \<Rightarrow>
                  st\<lparr>pr_metrics := (pr_metrics st)\<lparr>em_applecrashreport := Some (word_of_nat (item_len it))\<rparr>,
                     pr_event := Some (px_process_apple_crash_report px (item_payload it) ev)\<rparr>
              | None \<Rightarrow> st))"

text \<open>The metrics of the event with the size of all plain attachments and the sample rates.\<close>

definition final_metrics ::
  "('ip, 'e, 'r) process_ext \<Rightarrow> ('j, 'r) process_state \<Rightarrow> event_metrics" where
  "final_metrics px st =
     (let attachment_size = sum_list (map (\<lambda>it. word_of_nat (item_len it) :: u64)
            (filter (\<lambda>it. item_attachment_type it = Some AT_Attachment) (env_items (pr_envelope st))));
          m1 = (if attachment_size > 0 then (pr_metrics st)\<lparr>em_attachment := Some attachment_size\<rparr> else pr_metrics st)
      in case pr_sample_rates st of
           Some (V_Array rates) \<Rightarrow>
             m1\<lparr>em_sample_rates :=
               Some ((case em_sample_rates m1 of Some rs \<Rightarrow> rs | None \<Rightarrow> []) @ map (px_sample_rate px) rates)\<rparr>
         | _ \<Rightarrow> m1)"

text \<open>
  \<open>ClockDriftProcessor\<close> on an event: every timestamp is shifted and the correction is recorded. Dates
  that leave their range are a panic.
\<close>

fun shift_timestamp :: "signed_duration \<Rightarrow> date_time option \<Rightarrow> date_time option option" where
  "shift_timestamp d None = Some None"
| "shift_timestamp d (Some t) = map_option Some (date_time_add t d)"

fun shift_breadcrumbs :: "signed_duration \<Rightarrow> 'r breadcrumb option list \<Rightarrow> 'r breadcrumb option list option" where
  "shift_breadcrumbs d [] = Some []"
| "shift_breadcrumbs d (None # bs) = map_option (\<lambda>bs'. None # bs') (shift_breadcrumbs d bs)"
| "shift_breadcrumbs d (Some b # bs) =
     (case shift_timestamp d (bc_timestamp b) of
        None \<Rightarrow> None
      | Some t \<Rightarrow> map_option (\<lambda>bs'. Some (b\<lparr>bc_timestamp := t\<rparr>) # bs') (shift_breadcrumbs d bs))"

definition drift_process_event ::
  "('ip, 'e, 'r) process_ext \<Rightarrow> clock_drift_processor \<Rightarrow> 'r full_event \<Rightarrow> 'r full_event option" where
  "drift_process_event px p ev =
     (case cdp_correction p of
        None \<Rightarrow> Some ev
      | Some c \<Rightarrow>
          let d = cc_drift c
          in case (shift_timestamp d (fe_timestamp ev), px_shift_other px d (fe_other ev),
                   (case fe_breadcrumbs ev of None \<Rightarrow> Some None | Some bs \<Rightarrow> map_option Some (shift_breadcrumbs d bs))) of
               (Some t, Some other, Some bs) \<Rightarrow>
                 Some (ev\<lparr>fe_timestamp := t, fe_other := other, fe_breadcrumbs := bs,
                          fe_timestamp_errors := fe_timestamp_errors ev @ [(cc_sent_at c, cdp_received_at p)]\<rparr>)
             | _ \<Rightarrow> None)"

definition finalize_event ::
  "('ip, 'e, 'r) process_ext \<Rightarrow> relay_config \<Rightarrow> ('j, 'r) process_state \<Rightarrow> 'e process_error + ('j, 'r) process_state" where
  "finalize_event px c st =
     (case pr_event st of
        None \<Rightarrow> if processing_enabled c then Inl PE_NoEventPayload else Inr st
      | Some ev0 \<Rightarrow>
          let is_transaction = (state_event_type st = Some ET_Transaction);
              ev1 = ev0\<lparr>ev_id := Some (envelope_event_id (pr_envelope st))\<rparr>;
              ev2 = (if processing_enabled c then ev1\<lparr>fe_metrics := Some (final_metrics px st)\<rparr> else ev1);
              st2 = (if processing_enabled c
                     then st\<lparr>pr_metrics := event_metrics_default, pr_sample_rates := None\<rparr> else st);
              sent_at = (case eh_sent_at (env_headers (pr_envelope st)) of
                           Some t \<Rightarrow> Some t
                         | None \<Rightarrow> if is_transaction then fe_timestamp ev2 else None);
              drift = drift_at_least MINIMUM_CLOCK_DRIFT (clock_drift_new sent_at (pr_received_at st))
          in case drift_process_event px drift ev2 of
               None \<Rightarrow> Inl PE_Panic
             | Some ev \<Rightarrow> Inr (st2\<lparr>pr_event := Some ev\<rparr>))"

definition sample_event_stage ::
  "('ip, 'e, 'r) process_ext \<Rightarrow> relay_config \<Rightarrow> ('j, 'r) process_state \<Rightarrow> 'e process_error + ('j, 'r) process_state" where
  "sample_event_stage px c st =
     (case sample_event (px_sampling px) (processing_enabled c) (map_option event.truncate (pr_event st)) (pr_envelope st)
             (pc_dynamic_sampling (st_config (pr_project_state st))) of
        Inl (EventSampled rid) \<Rightarrow> Inl (PE_EventSampled rid)
      | Inr _ \<Rightarrow> Inr st)"

definition store_config_of ::
  "('ip, 'e, 'r) process_ext \<Rightarrow> relay_config \<Rightarrow> ('j, 'r) process_state \<Rightarrow> store_config" where
  "store_config_of px c st =
     (let e = pr_envelope st; m = eh_meta (env_headers e); project = pr_project_state st
      in \<lparr>sc_project_id = Some (pr_project_id st),
          sc_client_ip = map_option (sn_ip_to_string (px_session px)) (client_addr (px_sampling px) m),
          sc_client = rm_client m,
          sc_key_id = map_option show_u64 (Option.bind (get_public_key_config project) pkc_numeric_id),
          sc_protocol_version = Some (show_nat (unat (rm_version m))),
          sc_grouping_config = pc_grouping_config (st_config project),
          sc_user_agent = rm_user_agent m,
          sc_received_at = Some (pr_received_at st),
          sc_sent_at = eh_sent_at (env_headers e),
          sc_max_secs_in_future = Some (max_secs_in_future c),
          sc_max_secs_in_past = Some (max_secs_in_past c),
          sc_enable_trimming = Some True,
          sc_is_renormalize = Some False,
          sc_remove_other = Some True,
          sc_normalize_user_agent = Some True,
          sc_breakdowns = pc_breakdowns_v2 (st_config project)\<rparr>)"

text \<open>\<open>process_value\<close> does nothing when there is no event.\<close>

definition process_event_value ::
  "('r full_event \<Rightarrow> 'e + 'r full_event option) \<Rightarrow> 'r full_event option \<Rightarrow> 'e + 'r full_event option" where
  "process_event_value f event = (case event of None \<Rightarrow> Inr None | Some ev \<Rightarrow> f ev)"

definition store_process_event ::
  "('ip, 'e, 'r) process_ext \<Rightarrow> relay_config \<Rightarrow> ('j, 'r) process_state \<Rightarrow> 'e process_error + ('j, 'r) process_state" where
  "store_process_event px c st =
     try_op (map_err (\<lambda>_. PE_InvalidTransaction) (process_event_value (px_store px (store_config_of px c st)) (pr_event st)))
       (\<lambda>event. Inr (st\<lparr>pr_event := event\<rparr>))"

definition measurement_metrics ::
  "string \<Rightarrow> unix_timestamp \<Rightarrow> (string, string) btree_map \<Rightarrow> (string \<times> f64 option) list \<Rightarrow> metric list" where
  "measurement_metrics pre timestamp tags ms =
     List.map_filter (\<lambda>(name, v).
       map_option (\<lambda>m. session_metric (pre @ name) MU_None (MV_Distribution m) timestamp tags) v) ms"

definition transaction_metrics :: "'r full_event \<Rightarrow> metric list" where
  "transaction_metrics ev =
     (case Option.bind (fe_timestamp ev) (\<lambda>t. unix_from_datetime (t div ns)) of
        None \<Rightarrow> []
      | Some timestamp \<Rightarrow>
          let tags1 = (case ev_release ev of Some r \<Rightarrow> bt_insert str_le ''release'' r [] | None \<Rightarrow> []);
              tags = (case ev_environment ev of Some n \<Rightarrow> bt_insert str_le ''environment'' n tags1 | None \<Rightarrow> tags1)
          in (case fe_measurements ev of Some ms \<Rightarrow> measurement_metrics ''measurement.'' timestamp tags ms | None \<Rightarrow> []) @
             (case fe_breakdowns ev of
                Some bds \<Rightarrow>
                  concat (map (\<lambda>(breakdown, ms).
                    case ms of
                      Some ms \<Rightarrow> measurement_metrics (''breakdown.'' @ breakdown @ ''.'') timestamp tags ms
                    | None \<Rightarrow> []) bds)
              | None \<Rightarrow> []))"

definition extract_transaction_metrics ::
  "('j, 'r) process_state \<Rightarrow> 'e process_error + ('j, 'r) process_state" where
  "extract_transaction_metrics st =
     (if \<not> has_feature (pr_project_state st) MetricsExtraction then Inr st
      else
        (case pr_event st of
           Some ev \<Rightarrow> Inr (st\<lparr>pr_extracted_metrics := pr_extracted_metrics st @ transaction_metrics ev\<rparr>)
         | None \<Rightarrow> Inl PE_NoEventPayload))"

definition filter_event ::
  "('ip, 'e, 'r) process_ext \<Rightarrow> ('j, 'r) process_state \<Rightarrow> 'e process_error + ('j, 'r) process_state" where
  "filter_event px st =
     (case pr_event st of
        None \<Rightarrow> Inl PE_NoEventPayload
      | Some ev \<Rightarrow>
          try_op (map_err PE_EventFiltered
                (should_filter (sx_filter (px_sampling px)) (event.truncate ev)
                   (client_addr (px_sampling px) (eh_meta (env_headers (pr_envelope st))))
                   (pc_filter_settings (st_config (pr_project_state st)))))
            (\<lambda>_. Inr st))"

text \<open>The check passed to the envelope limiter notes whether the event is limited.\<close>

definition quota_check ::
  "('s, 'e) redis_env \<Rightarrow> quota list \<Rightarrow> data_category option \<Rightarrow> ('s \<times> bool, 'e rate_limiting_error) check_fn" where
  "quota_check r quotas category = (\<lambda>(s, removed) scope quantity.
     case is_rate_limited (re_limiter r) (re_now r) (re_timestamp r) (re_client r) (re_invoke r) quotas s scope quantity of
       (Inl e, s') \<Rightarrow> (Inl e, (s', removed))
     | (Inr limits, s') \<Rightarrow>
         (Inr limits, (s', removed \<or> Some (item_category scope) = category \<and> is_limited (re_now r) limits)))"

fun quota_error :: "'e rate_limiting_error \<Rightarrow> 'e process_error" where
  "quota_error (RLE_Redis e) = PE_QuotasFailed e"
| "quota_error RLE_Panic = PE_Panic"

definition enforce_quotas ::
  "('s, 'e) redis_env option \<Rightarrow> instant \<Rightarrow> system_time \<Rightarrow> ('j, 'r) process_state \<Rightarrow> 's \<Rightarrow>
   ('e process_error + ('j, 'r) process_state) \<times> 's \<times> event_id track_outcome list" where
  "enforce_quotas limiter now system_now st s =
     (case limiter of
        None \<Rightarrow> (Inr st, s, [])
      | Some r \<Rightarrow>
          let quotas = pc_quotas (st_config (pr_project_state st));
              category = event_category st;
              el0 = limiter_new (quota_check r quotas category);
              el = (case category of Some cat \<Rightarrow> assume_event cat el0 | None \<Rightarrow> el0);
              scoping = state_scope_request (pr_project_state st) (eh_meta (env_headers (pr_envelope st)))
          in if quotas = [] then (Inr st, s, [])
             else
               (case enforce el scoping (pr_envelope st) (s, False) of
                  (Inl e, _, (s', _)) \<Rightarrow> (Inl (quota_error e), s', [])
                | (Inr (enf, limits), e', (s', removed)) \<Rightarrow>
                    let st1 = st\<lparr>pr_envelope := e', pr_rate_limits := limits\<rparr>
                    in (Inr (if removed then remove_event st1 else st1), s', track_outcomes now system_now enf e' scoping)))"

definition scrub_with ::
  "('ip, 'e, 'r) process_ext \<Rightarrow> json option \<Rightarrow> 'r full_event option \<Rightarrow> 'e process_error + 'r full_event option" where
  "scrub_with px config event =
     (case config of
        None \<Rightarrow> Inr event
      | Some cfg \<Rightarrow> map_err PE_ProcessingFailed (process_event_value (px_pii px cfg) event))"

definition scrub_event ::
  "('ip, 'e, 'r) process_ext \<Rightarrow> project_config \<Rightarrow> 'r full_event option \<Rightarrow> 'e process_error + 'r full_event option" where
  "scrub_event px pc event =
     try_op (scrub_with px (pc_pii_config pc) event)
       (scrub_with px (px_datascrubbing_config px (pc_datascrubbing_settings pc)))"

fun modify_first :: "('a \<Rightarrow> bool) \<Rightarrow> ('a \<Rightarrow> 'a) \<Rightarrow> 'a list \<Rightarrow> 'a list" where
  "modify_first P f [] = []"
| "modify_first P f (x # xs) = (if P x then f x # xs else x # modify_first P f xs)"

definition scrub_minidump_item :: "('ip, 'e, 'r) process_ext \<Rightarrow> json \<Rightarrow> item \<Rightarrow> item" where
  "scrub_minidump_item px cfg it =
     (let filename = (case ih_filename (item_headers it) of Some f \<Rightarrow> f | None \<Rightarrow> []);
          payload = (case px_scrub_minidump px cfg filename (item_payload it) of
                       (Inr _, p) \<Rightarrow> p
                     | (Inl _, p) \<Rightarrow> px_scrub_attachment px cfg filename p);
          content_type = (case ih_content_type (item_headers it) of Some ct \<Rightarrow> ct | None \<Rightarrow> CT_Minidump)
      in set_payload content_type payload it)"

definition scrub_attachments ::
  "('ip, 'e, 'r) process_ext \<Rightarrow> ('j, 'r) process_state \<Rightarrow> ('j, 'r) process_state" where
  "scrub_attachments px st =
     (case pc_pii_config (st_config (pr_project_state st)) of
        None \<Rightarrow> st
      | Some cfg \<Rightarrow>
          st\<lparr>pr_envelope := (pr_envelope st)\<lparr>env_items :=
               modify_first (\<lambda>it. item_attachment_type it = Some AT_Minidump) (scrub_minidump_item px cfg)
                 (env_items (pr_envelope st))\<rparr>\<rparr>)"

definition event_item :: "event_type \<Rightarrow> bytes \<Rightarrow> relay_value option \<Rightarrow> item" where
  "event_item ty data rates =
     (let it = set_payload CT_Json data (item_new (item_type_from_event_type ty))
      in case rates of Some r \<Rightarrow> set_sample_rates r it | None \<Rightarrow> it)"

definition serialize_event ::
  "('ip, 'e, 'r) process_ext \<Rightarrow> ('j, 'r) process_state \<Rightarrow> 'e process_error + ('j, 'r) process_state" where
  "serialize_event px st =
     try_op (map_err PE_SerializeFailed (case pr_event st of Some ev \<Rightarrow> px_event_to_json px ev | None \<Rightarrow> Inr (as_bytes ''null'')))
       (\<lambda>data.
         let ty = (case state_event_type st of Some t \<Rightarrow> t | None \<Rightarrow> event_type_default)
         in Inr (st\<lparr>pr_sample_rates := None,
                    pr_envelope := add_item (event_item ty data (pr_sample_rates st)) (pr_envelope st)\<rparr>))"

section \<open>The pipeline\<close>

definition process_event_stages ::
  "('ip, 'e, 'r) process_ext \<Rightarrow> relay_config \<Rightarrow> ('j, 'r) process_state \<Rightarrow> 'e process_error + ('j, 'r) process_state" where
  "process_event_stages px c st =
     (let processing = processing_enabled c; xx = px_extract px
      in try_op (if processing then expand_unreal xx st else Inr st) (\<lambda>st1.
         try_op (extract_event xx c st1) (\<lambda>st2.
         try_op (if processing then process_unreal xx st2 else Inr st2) (\<lambda>st3.
         try_op (finalize_event px c (if processing then create_placeholders px st3 else st3)) (\<lambda>st4.
         try_op (sample_event_stage px c st4) (\<lambda>st5.
           if processing
           then try_op (store_process_event px c st5) (\<lambda>st6.
                try_op (extract_transaction_metrics st6) (filter_event px))
           else Inr st5))))))"

definition emit_event ::
  "('ip, 'e, 'r) process_ext \<Rightarrow> ('j, 'r) process_state \<Rightarrow> 'e process_error + ('j, 'r) process_state" where
  "emit_event px st =
     (if has_event st
      then try_op (scrub_event px (st_config (pr_project_state st)) (pr_event st)) (\<lambda>event.
             serialize_event px (st\<lparr>pr_event := event\<rparr>))
      else Inr st)"

record 'j process_response =
  rsp_envelope :: "'j proc_envelope option"
  rsp_rate_limits :: rate_limits
  rsp_metrics :: "metric list"

definition response_from :: "('j, 'r) process_state \<Rightarrow> 'j process_response" where
  "response_from st =
     \<lparr>rsp_envelope = (if env_items (pr_envelope st) = [] then None else Some (pr_envelope st)),
      rsp_rate_limits = pr_rate_limits st, rsp_metrics = pr_extracted_metrics st\<rparr>"

definition process_items ::
  "('ip, 'e, 'r) process_ext \<Rightarrow> relay_config \<Rightarrow> ('j, 'r) process_state \<Rightarrow> 'e process_error + ('j, 'r) process_state" where
  "process_items px c st =
     (case process_sessions (px_session px) (px_sampling px) c (pr_project_state st) (pr_received_at st) (pr_envelope st) of
        None \<Rightarrow> Inl PE_Panic
      | Some (e, ms) \<Rightarrow>
          Inr (st\<lparr>pr_envelope := process_user_reports (px_user_report_from_json px)
                                   (xx_user_report_to_json (px_extract px)) e,
                  pr_extracted_metrics := pr_extracted_metrics st @ ms\<rparr>))"

definition process_state ::
  "('ip, 'e, 'r) process_ext \<Rightarrow> relay_config \<Rightarrow> ('s, 'e) redis_env option \<Rightarrow> instant \<Rightarrow> system_time \<Rightarrow>
   ('j, 'r) process_state \<Rightarrow> 's \<Rightarrow> ('e process_error + 'j process_response) \<times> 's \<times> event_id track_outcome list" where
  "process_state px c limiter now system_now st s =
     (case try_op (process_items px c st) (\<lambda>st1.
             if state_creates_event st1 then process_event_stages px c st1 else Inr st1) of
        Inl e \<Rightarrow> (Inl e, s, [])
      | Inr st2 \<Rightarrow>
          (case (if processing_enabled c then enforce_quotas limiter now system_now st2 s else (Inr st2, s, [])) of
             (Inl e, s', outcomes) \<Rightarrow> (Inl e, s', outcomes)
           | (Inr st3, s', outcomes) \<Rightarrow>
               (try_op (emit_event px st3) (\<lambda>st4. Inr (response_from (scrub_attachments px st4))), s', outcomes)))"

definition process ::
  "('ip, 'e, 'r) process_ext \<Rightarrow> relay_config \<Rightarrow> ('s, 'e) redis_env option \<Rightarrow> instant \<Rightarrow> system_time \<Rightarrow>
   'j proc_envelope \<Rightarrow> project_state \<Rightarrow> instant \<Rightarrow> 's \<Rightarrow>
   ('e process_error + 'j process_response) \<times> 's \<times> event_id track_outcome list" where
  "process px c limiter now system_now e project start_time s =
     (case prepare_state now system_now e project start_time of
        Inl err \<Rightarrow> (Inl err, s, [])
      | Inr st \<Rightarrow> process_state px c limiter now system_now st s)"

section \<open>Items through the stages\<close>

text \<open>No item of the envelope carries an event payload, and the project is as given.\<close>

definition without_events :: "project_state \<Rightarrow> ('j, 'r) process_state \<Rightarrow> bool" where
  "without_events project st \<longleftrightarrow>
     pr_project_state st = project \<and> (\<forall>it \<in> set (env_items (pr_envelope st)). item_ty it \<notin> event_types)"

named_theorems stage_keeps

lemma process_unreal_keeps [stage_keeps]:
  assumes "process_unreal xx st = Inr st'" and "without_events project st"
  shows "without_events project st'"
proof -
  obtain ev e where r: "process_unreal_envelope xx (pr_event st) (pr_envelope st) = Inr (ev, e)"
      and st': "st' = st\<lparr>pr_event := ev, pr_envelope := e\<rparr>"
    using assms(1) by (auto simp: process_unreal_def try_op_Inr map_err_Inr)
  have "set (env_items e) \<subseteq> set (env_items (pr_envelope st)) \<union> {it. item_ty it = IT_UserReport}"
    using r
    by (auto simp: process_unreal_envelope_def Let_def try_op_Inr get_unreal_user_report_def add_item_def item_ty_def
        set_payload_def item_new_def split: if_splits option.splits prod.splits sum.splits)
  then show ?thesis using assms(2) by (auto simp: without_events_def st' event_types_def)
qed

lemma create_placeholders_keeps [stage_keeps]:
  "without_events project st \<Longrightarrow> without_events project (create_placeholders px st)"
  by (simp add: create_placeholders_def without_events_def Let_def split: option.splits)

lemma finalize_event_keeps [stage_keeps]:
  "finalize_event px c st = Inr st' \<Longrightarrow> without_events project st \<Longrightarrow> without_events project st'"
  by (auto simp: finalize_event_def without_events_def Let_def split: option.splits if_splits)

lemma sample_event_stage_keeps [stage_keeps]:
  "sample_event_stage px c st = Inr st' \<Longrightarrow> without_events project st \<Longrightarrow> without_events project st'"
  by (auto simp: sample_event_stage_def split: sum.splits processing_error.splits)

lemma store_process_event_keeps [stage_keeps]:
  "store_process_event px c st = Inr st' \<Longrightarrow> without_events project st \<Longrightarrow> without_events project st'"
  by (auto simp: store_process_event_def try_op_Inr without_events_def)

lemma extract_transaction_metrics_keeps [stage_keeps]:
  "extract_transaction_metrics st = Inr st' \<Longrightarrow> without_events project st \<Longrightarrow> without_events project st'"
  by (auto simp: extract_transaction_metrics_def without_events_def split: if_splits option.splits)

lemma filter_event_keeps [stage_keeps]:
  "filter_event px st = Inr st' \<Longrightarrow> without_events project st \<Longrightarrow> without_events project st'"
  by (auto simp: filter_event_def try_op_Inr split: option.splits)

lemma process_event_stages_without_events:
  fixes px :: "('ip, 'e, 'r) process_ext"
  assumes "process_event_stages px c st = Inr st'"
  shows "without_events (pr_project_state st) st'"
proof -
  let ?p = "processing_enabled c" and ?xx = "px_extract px"
  obtain st1 st2 st3 st4 st5 where
      1: "(if ?p then expand_unreal ?xx st else Inr st) = Inr st1" and
      2: "extract_event ?xx c st1 = Inr st2" and
      3: "(if ?p then process_unreal ?xx st2 else Inr st2) = Inr st3" and
      4: "finalize_event px c (if ?p then create_placeholders px st3 else st3) = Inr st4" and
      5: "sample_event_stage px c st4 = Inr st5" and
      6: "(if ?p then try_op (store_process_event px c st5) (\<lambda>st6. try_op (extract_transaction_metrics st6) (filter_event px))
           else Inr st5) = Inr st'"
    using assms unfolding process_event_stages_def Let_def try_op_Inr by blast
  have "pr_project_state st1 = pr_project_state st"
    using 1 by (auto simp: expand_unreal_def try_op_Inr split: if_splits prod.splits option.splits)
  then have "without_events (pr_project_state st) st2"
    using extract_event_left [OF 2] extract_event_keeps [OF 2] by (simp add: without_events_def)
  then have "without_events (pr_project_state st) st3" using 3 process_unreal_keeps by (auto split: if_splits)
  then have "without_events (pr_project_state st) st5"
    using 4 5 finalize_event_keeps sample_event_stage_keeps create_placeholders_keeps by (metis (full_types))
  moreover have "st' = st5 \<or> (\<exists>st6 st7. store_process_event px c st5 = Inr st6 \<and>
      (extract_transaction_metrics st6 :: 'e process_error + _) = Inr st7 \<and> filter_event px st7 = Inr st')"
    using 6 by (auto simp: try_op_Inr split: if_splits)
  ultimately show ?thesis by (blast intro: stage_keeps)
qed

lemma creates_event_types: "item_ty it \<in> event_types \<Longrightarrow> creates_event it"
  by (auto simp: event_types_def creates_event_def)

lemma retain_types:
  assumes "enforce lim sc e s = (Inr (enf, limits), e', s')" and "it' \<in> set (env_items e')"
  shows "\<exists>it \<in> set (env_items e). item_ty it' = item_ty it"
proof -
  have "item_ty (snd (retain_item enf it)) = item_ty it" for it
    using retain_item_snd [of enf it] by (auto simp: item_ty_def set_rate_limited_def)
  then show ?thesis using enforce_InrD(2) [OF assms(1)] assms(2) by auto
qed

text \<open>The two ways in which \<open>enforce_quotas\<close> succeeds.\<close>

lemma enforce_quotas_cases:
  assumes "enforce_quotas limiter now system_now st s = (Inr st', s', outcomes)"
  obtains "st' = st" "s' = s"
  | r el enf limits e' removed where "limiter = Some r"
      "el = (case event_category st of
               Some cat \<Rightarrow> assume_event cat (limiter_new (quota_check r (pc_quotas (st_config (pr_project_state st))) (event_category st)))
             | None \<Rightarrow> limiter_new (quota_check r (pc_quotas (st_config (pr_project_state st))) (event_category st)))"
      "enforce el (state_scope_request (pr_project_state st) (eh_meta (env_headers (pr_envelope st)))) (pr_envelope st) (s, False) =
         (Inr (enf, limits), e', (s', removed))"
      "st' = (if removed then remove_event (st\<lparr>pr_envelope := e', pr_rate_limits := limits\<rparr>)
              else st\<lparr>pr_envelope := e', pr_rate_limits := limits\<rparr>)"
proof (cases "limiter = None \<or> pc_quotas (st_config (pr_project_state st)) = []")
  case True
  then show ?thesis using that(1) assms by (auto simp: enforce_quotas_def Let_def split: option.splits)
next
  case False
  then obtain r where r: "limiter = Some r" "pc_quotas (st_config (pr_project_state st)) \<noteq> []" by auto
  then show ?thesis
    using that(2) assms by (auto simp: enforce_quotas_def Let_def split: prod.splits sum.splits)
qed

lemma enforce_quotas_keeps:
  assumes "enforce_quotas limiter now system_now st s = (Inr st', s', outcomes)" and "without_events project st"
  shows "without_events project st'"
  using assms(1)
proof (cases rule: enforce_quotas_cases)
  case 1
  then show ?thesis using assms(2) by simp
next
  case (2 r el enf limits e' removed)
  then show ?thesis
    using assms(2) retain_types [OF 2(3)] by (fastforce simp: without_events_def remove_event_def)
qed

section \<open>What leaves the processor\<close>

text \<open>An item with an event payload that went through data scrubbing.\<close>

definition scrubbed_item :: "('ip, 'e, 'r) process_ext \<Rightarrow> project_config \<Rightarrow> item \<Rightarrow> bool" where
  "scrubbed_item px pc it \<longleftrightarrow>
     (\<exists>ev event data ty rates. scrub_event px pc (Some ev) = Inr event \<and>
        (case event of Some ev' \<Rightarrow> px_event_to_json px ev' = Inr data | None \<Rightarrow> data = as_bytes ''null'') \<and>
        it = event_item ty data rates)"

lemma event_item_types: "item_attachment_type (event_item ty data rates) = None"
  by (cases rates)
    (simp_all add: event_item_def item_attachment_type_def set_payload_def set_sample_rates_def item_new_def Let_def
      split: relay_value.splits)

lemma emit_event_items:
  assumes "emit_event px st = Inr st'" and "without_events project st"
  shows "pr_project_state st' = project \<and> pr_rate_limits st' = pr_rate_limits st \<and>
    (env_items (pr_envelope st') = env_items (pr_envelope st) \<and> pr_event st = None \<or>
     (\<exists>it. env_items (pr_envelope st') = env_items (pr_envelope st) @ [it] \<and> scrubbed_item px (st_config project) it))"
proof (cases "pr_event st")
  case None
  then show ?thesis using assms by (auto simp: emit_event_def has_event_def without_events_def)
next
  case (Some ev)
  then obtain event where ev: "scrub_event px (st_config project) (Some ev) = Inr event"
      and ser: "serialize_event px (st\<lparr>pr_event := event\<rparr>) = Inr st'"
    using assms by (auto simp: emit_event_def has_event_def without_events_def try_op_Inr)
  obtain data ty where data: "(case event of Some ev' \<Rightarrow> px_event_to_json px ev' | None \<Rightarrow> Inr (as_bytes ''null'')) = Inr data"
      and st': "st' = st\<lparr>pr_event := event, pr_sample_rates := None,
        pr_envelope := add_item (event_item ty data (pr_sample_rates st)) (pr_envelope st)\<rparr>"
    using ser by (auto simp: serialize_event_def try_op_Inr map_err_Inr Let_def)
  have "scrubbed_item px (st_config project) (event_item ty data (pr_sample_rates st))"
    unfolding scrubbed_item_def using ev data
    by (intro exI [of _ ev] exI [of _ event] exI [of _ data] exI [of _ ty] exI [of _ "pr_sample_rates st"])
      (auto split: option.splits)
  then show ?thesis using assms(2) by (simp add: st' add_item_def without_events_def)
qed

lemma modify_first_append: "\<not> P x \<Longrightarrow> modify_first P f (xs @ [x]) = modify_first P f xs @ [x]"
  by (induction xs) auto

lemma modify_first_keeps:
  assumes "\<And>x. Q x \<Longrightarrow> Q (f x)" and "\<forall>x \<in> set xs. Q x"
  shows "\<forall>x \<in> set (modify_first P f xs). Q x"
  using assms(2) by (induction xs) (auto simp: assms(1))

text \<open>No event leaves the processor unscrubbed. If processing succeeds, the envelope it returns has at most
  one item with an event payload, and that item is the serialization of an event to which both the PII
  rules of the project and its data scrubbing settings have been applied.\<close>

lemma process_items_scrubbed:
  fixes px :: "('ip, 'e, 'r) process_ext"
  assumes "process px c limiter now system_now e project start_time s = (Inr rsp, s', outcomes)"
    and "rsp_envelope rsp = Some e'"
  shows "\<exists>its. (\<forall>it \<in> set its. item_ty it \<notin> event_types) \<and>
           (env_items e' = its \<or> (\<exists>it. env_items e' = its @ [it] \<and> scrubbed_item px (st_config project) it))"
proof -
  obtain st where st: "prepare_state now system_now e project start_time = (Inr st :: 'e process_error + _)"
      and run: "process_state px c limiter now system_now st s = (Inr rsp, s', outcomes)"
    using assms(1) by (auto simp: process_def split: sum.splits)
  have project: "pr_project_state st = project"
    using st by (auto simp: prepare_state_def Let_def split: option.splits)
  obtain st1 st2 where 1: "process_items px c st = Inr st1"
      and 2: "(if state_creates_event st1 then process_event_stages px c st1 else Inr st1) = Inr st2"
    using run by (auto simp: process_state_def try_op_Inr split: sum.splits)
  obtain st3 outcomes3 where 3: "(if processing_enabled c then enforce_quotas limiter now system_now st2 s else (Inr st2, s, [])) =
      (Inr st3, s', outcomes3)"
      and r: "try_op (emit_event px st3) (\<lambda>st4. Inr (response_from (scrub_attachments px st4))) = Inr rsp"
    using run 1 2 by (auto simp: process_state_def split: sum.splits prod.splits)
  obtain st4 where 4: "emit_event px st3 = Inr st4" and rsp: "rsp = response_from (scrub_attachments px st4)"
    using r by (auto simp: try_op_Inr)
  have p1: "pr_project_state st1 = project" using 1 project by (auto simp: process_items_def split: option.splits)
  have "without_events project st2"
  proof (cases "state_creates_event st1")
    case True
    then show ?thesis using 2 process_event_stages_without_events p1 by fastforce
  next
    case False
    then show ?thesis
      using 2 p1 creates_event_types by (auto simp: without_events_def state_creates_event_def list_ex_iff)
  qed
  then have w3: "without_events project st3" using 3 enforce_quotas_keeps by (fastforce split: if_splits)
  let ?f = "\<lambda>its. case pc_pii_config (st_config project) of None \<Rightarrow> its
      | Some cfg \<Rightarrow> modify_first (\<lambda>it. item_attachment_type it = Some AT_Minidump) (scrub_minidump_item px cfg) its"
  have e': "env_items e' = ?f (env_items (pr_envelope st4))"
    using assms(2) emit_event_items [OF 4 w3]
    by (auto simp: rsp response_from_def scrub_attachments_def split: if_splits option.splits)
  have ty: "item_ty (scrub_minidump_item px cfg it) = item_ty it" for cfg it
    by (simp add: scrub_minidump_item_def item_ty_def set_payload_def Let_def)
  have none: "\<forall>it \<in> set (env_items (pr_envelope st3)). item_ty it \<notin> event_types" using w3 by (simp add: without_events_def)
  have types: "\<forall>it \<in> set (?f (env_items (pr_envelope st3))). item_ty it \<notin> event_types"
  proof (cases "pc_pii_config (st_config project)")
    case (Some cfg)
    have "\<forall>it \<in> set (modify_first P (scrub_minidump_item px cfg) (env_items (pr_envelope st3))). item_ty it \<notin> event_types" for P
      using none by (rule modify_first_keeps [rotated]) (simp add: ty)
    then show ?thesis by (simp add: Some)
  qed (simp add: none)
  have app: "?f (xs @ [it]) = ?f xs @ [it]" if "scrubbed_item px (st_config project) it" for xs it
  proof -
    have "item_attachment_type it = None" using that event_item_types by (auto simp: scrubbed_item_def)
    then show ?thesis by (simp add: modify_first_append split: option.splits)
  qed
  consider "env_items (pr_envelope st4) = env_items (pr_envelope st3)"
    | it where "env_items (pr_envelope st4) = env_items (pr_envelope st3) @ [it]" "scrubbed_item px (st_config project) it"
    using emit_event_items [OF 4 w3] by blast
  then show ?thesis
  proof cases
    case 1
    then show ?thesis using e' types by metis
  next
    case (2 it)
    have "env_items e' = ?f (env_items (pr_envelope st3)) @ [it]" using trans [OF e' [unfolded 2(1)] app [OF 2(2)]] .
    then show ?thesis using types 2(2) by blast
  qed
qed

text \<open>The check for the event decides whether it is removed.\<close>

lemma quota_check_flag:
  "quota_check r quotas category (s, removed) scope n = (x, (s', removed')) \<Longrightarrow> removed \<Longrightarrow> removed'"
  by (auto simp: quota_check_def split: prod.splits sum.splits)

lemma execute_flag:
  assumes "execute (quota_check r quotas (Some cat)) summary sc (s, False) = (Inr (enf, limits), (s', removed))"
    and "sum_event_category summary = Some cat"
    and "is_rate_limited (re_limiter r) (re_now r) (re_timestamp r) (re_client r) (re_invoke r) quotas s (scoping_item sc cat) 1 =
           (Inr event_limits, s1)"
    and "is_limited (re_now r) event_limits"
  shows removed
proof -
  have check: "quota_check r quotas (Some cat) (s, False) (scoping_item sc cat) 1 = (Inr event_limits, (s1, True))"
    using assms(3,4) by (simp add: quota_check_def scoping_item_def)
  show ?thesis
    using assms(1,2) check
    by (auto simp: execute_def execute_event_def execute_attachments_def execute_sessions_def Let_def
        split: prod.splits sum.splits if_splits dest!: quota_check_flag)
qed


section \<open>Examples\<close>

definition example_px :: "(nat, nat, unit) process_ext" where
  "example_px =
     \<lparr>px_sampling = example_sx, px_session = example_session_ext 0, px_extract = example_extract,
      px_user_report_from_json = (\<lambda>_. Inl 0), px_sample_rate = (\<lambda>v. v), px_shift_other = (\<lambda>_ r. Some r),
      px_store = (\<lambda>_ ev. Inr (Some ev)), px_process_minidump = (\<lambda>_ ev. ev), px_process_apple_crash_report = (\<lambda>_ ev. ev),
      px_pii = (\<lambda>_ ev. Inr (Some (ev\<lparr>ev_user := None\<rparr>))), px_datascrubbing_config = (\<lambda>_. None),
      px_scrub_minidump = (\<lambda>_ _ bs. (Inr True, bs)), px_scrub_attachment = (\<lambda>_ _ bs. bs), px_event_to_json = (\<lambda>_. Inr [1])\<rparr>"

definition example_pii_project :: project_state where
  "example_pii_project = (state_missing 0)\<lparr>st_config := project_config_default\<lparr>pc_pii_config := Some (J_Bool True)\<rparr>\<rparr>"

definition example_prepared :: "(nat, unit) process_state" where
  "example_prepared = example_process_state\<lparr>pr_project_state := example_pii_project, pr_project_id := 42,
     pr_received_at := instant_to_system_time 0 0 0\<rparr>"

lemma default_processing: "\<not> processing_enabled (config_default host n)"
  by (simp add: processing_enabled_def config_default_def config_values_default_def processing_section_default_def)

lemma example_prepare:
  "prepare_state 0 0 example_process_envelope example_pii_project 0 = (Inr example_prepared :: nat process_error + _)"
  by (simp add: prepare_state_def example_prepared_def example_pii_project_def state_missing_def project_config_default_def
      set_project_id_def extract_example_defs example_meta_def)

lemma example_items: "process_items example_px (config_default [] 1) example_prepared = Inr example_prepared"
  by (simp add: process_items_def example_prepared_def process_sessions_def process_session_item_def process_user_reports_def
      retain_items_def process_user_report_item_def extract_example_defs Let_def)

lemma example_stages:
  "\<exists>st ev. process_event_stages example_px (config_default [] 1) example_prepared = Inr st \<and> pr_event st = Some ev \<and>
     pr_project_state st = example_pii_project \<and> env_items (pr_envelope st) = [item_new IT_Attachment]"
  by (simp add: process_event_stages_def example_prepared_def default_processing extract_event_def take_items_def get_item_by_def
      is_duplicate_def event_from_items_def event_from_json_payload_def take_sample_rates_def finalize_event_def
      drift_process_event_def drift_at_least_def clock_drift_new_def state_event_type_def event_type_default_def event_default_def
      sample_event_stage_def sample_event_def should_keep_event_def example_px_def extract_example_defs
      example_pii_project_def project_config_default_def Let_def)

lemma event_item_ty: "item_ty (event_item ty data rates) \<in> event_types"
  by (cases ty; cases rates)
    (auto simp: event_item_def item_ty_def set_payload_def set_sample_rates_def item_new_def event_types_def Let_def
      split: relay_value.splits)

lemma example_run:
  obtains rsp e' it where "process example_px (config_default [] 1) (None :: (unit, nat) redis_env option) 0 0
      example_process_envelope example_pii_project 0 () = (Inr rsp, (), [])"
    and "rsp_envelope rsp = Some e'" and "env_items e' = [item_new IT_Attachment, it]" and "item_ty it \<in> event_types"
proof -
  have c: "state_creates_event example_prepared"
    by (simp add: state_creates_event_def example_prepared_def extract_example_defs creates_event_def)
  obtain st ev where st: "process_event_stages example_px (config_default [] 1) example_prepared = Inr st" "pr_event st = Some ev"
      "pr_project_state st = example_pii_project" "env_items (pr_envelope st) = [item_new IT_Attachment]"
    using example_stages by blast
  have run: "process example_px (config_default [] 1) (None :: (unit, nat) redis_env option) 0 0 example_process_envelope
      example_pii_project 0 () = (try_op (emit_event example_px st) (\<lambda>st4. Inr (response_from (scrub_attachments example_px st4))), (), [])"
    by (simp add: process_def example_prepare process_state_def example_items c st(1) default_processing del: One_nat_def)
  obtain st4 ty where st4: "emit_event example_px st = Inr st4" "pr_project_state st4 = example_pii_project"
      "env_items (pr_envelope st4) = [item_new IT_Attachment, event_item ty [1] (pr_sample_rates st)]"
    by (simp add: emit_event_def has_event_def st scrub_event_def scrub_with_def process_event_value_def serialize_event_def
        example_pii_project_def example_px_def project_config_default_def add_item_def Let_def)
  define it where "it = event_item ty [1] (pr_sample_rates st)"
  have it: "item_attachment_type it = None" "item_attachment_type (item_new IT_Attachment) = None" "item_ty it \<in> event_types"
    using event_item_types event_item_ty by (simp_all add: it_def item_attachment_type_def item_new_def)
  obtain rsp e' where run: "process example_px (config_default [] 1) (None :: (unit, nat) redis_env option) 0 0
      example_process_envelope example_pii_project 0 () = (Inr rsp, (), [])"
      and e': "rsp_envelope rsp = Some e'" "env_items e' = [item_new IT_Attachment, it]" 
    using run st4 it by (simp add: response_from_def scrub_attachments_def example_pii_project_def project_config_default_def flip: it_def)
  then show ?thesis using that it(3) by blast
qed

definition example_quota_state :: "(nat, unit) process_state" where
  "example_quota_state = example_process_state\<lparr>pr_event := Some (event_default ()),
     pr_project_state := (state_missing 0)\<lparr>st_config := project_config_default\<lparr>pc_quotas := [example_quota (Some 0) None]\<rparr>\<rparr>\<rparr>"

definition example_redis :: "(unit, nat) redis_env" where
  "example_redis = \<lparr>re_limiter = \<lparr>max_limit = None\<rparr>, re_now = 0, re_timestamp = 0, re_client = Inl 7, re_invoke = (\<lambda>s _. (Inl 7, s))\<rparr>"

definition example_rejection :: "item_scoping \<Rightarrow> rate_limits" where
  "example_rejection i = rate_limits_add rate_limits_new
     (rate_limit_from_quota (example_quota (Some 0) None) (item_scope i) (limiter_retry_after \<lparr>max_limit = None\<rparr> 0 REJECT_ALL_SECS))"

lemma example_quota_rejects:
  "is_rate_limited (re_limiter example_redis) (re_now example_redis) (re_timestamp example_redis) (re_client example_redis)
     (re_invoke example_redis) [example_quota (Some 0) None] s i n = (Inr (example_rejection i), s)"
  by (simp add: is_rate_limited_def example_redis_def example_quota_def quota_matches_def quota_matches_scope_def
     matches_categories_def example_rejection_def)

lemma example_rejection_limited: "is_limited (re_now example_redis) (example_rejection i)"
  by (simp add: is_limited_def example_rejection_def rate_limits_add_def rate_limits_new_def example_quota_def
    rate_limit_from_quota_def example_redis_def limiter_retry_after_def expired_def REJECT_ALL_SECS_def
    remaining_def retry_after_from_secs_def instant_checked_add_def duration_from_secs_def
    instant_representable_def nanos_per_sec_def)

lemma example_rejection_not_Nil [simp]: "example_rejection i \<noteq> []"
  using example_rejection_limited [of i] by (auto simp: is_limited_def)


end
