(* ===== verification/Project_Cache.thy ===== *)
theory Project_Cache
  imports Project_State "HOL-Library.AList"
begin

text \<open>
  The project cache (\<open>relay-server/src/actors/project.rs\<close> and \<open>project_cache.rs\<close>): a project with
  its cached state, the channel on which requests wait for a fetch, cached rate limits and
  its metrics aggregator; the cache actor with its messages, fetches from the local, Redis
  and upstream sources, and eviction. A oneshot channel is the list of the waiting
  receivers; dropping its sender answers them with an error. Messages between actors and
  answers to receivers are explicit values.
\<close>

section \<open>Projects\<close>

datatype project_error = FetchFailed | ScheduleFailed

text \<open>The answer of a handler: at once, or later to a receiver.\<close>

datatype ('a, 'e) response = Reply "'e + 'a" | Future nat

datatype aggregator_state = AS_Unknown | AS_Available nat | AS_Unavailable

record state_channel =
  ch_receivers :: "nat list"
  ch_no_cache :: bool

definition state_channel_new :: state_channel where
  "state_channel_new = \<lparr>ch_receivers = [], ch_no_cache = False\<rparr>"

record project =
  pj_last_updated_at :: instant
  pj_project_key :: project_key
  pj_aggregator :: aggregator_state
  pj_state :: "project_state option"
  pj_state_channel :: "state_channel option"
  pj_rate_limits :: rate_limits
  pj_last_no_cache :: instant

definition project_new :: "instant \<Rightarrow> project_key \<Rightarrow> project" where
  "project_new now key =
     \<lparr>pj_last_updated_at = now, pj_project_key = key, pj_aggregator = AS_Unknown, pj_state = None,
      pj_state_channel = None, pj_rate_limits = rate_limits_new, pj_last_no_cache = now\<rparr>"

definition merge_rate_limits :: "rate_limits \<Rightarrow> project \<Rightarrow> project" where
  "merge_rate_limits ls p = p\<lparr>pj_rate_limits := rate_limits_merge (pj_rate_limits p) ls\<rparr>"

definition refresh_updated_timestamp :: "instant \<Rightarrow> project \<Rightarrow> project" where
  "refresh_updated_timestamp now p = p\<lparr>pj_last_updated_at := now\<rparr>"

text \<open>Messages to aggregators; \<open>addr\<close> is the address of an aggregator that is started on demand.\<close>

datatype aggregator_message =
    StartAggregator nat project_key aggregator_config
  | AggInsertMetrics nat "metric list"
  | AggMergeBuckets nat "bucket list"

definition get_or_create_aggregator ::
  "relay_config \<Rightarrow> nat \<Rightarrow> project \<Rightarrow> nat option \<times> project \<times> aggregator_message list" where
  "get_or_create_aggregator c addr p =
     (let (p', msgs) =
            (if pj_aggregator p = AS_Unknown
             then (p\<lparr>pj_aggregator := AS_Available addr\<rparr>,
                   [StartAggregator addr (pj_project_key p) (cv_aggregator (rc_values c))])
             else (p, []))
      in ((case pj_aggregator p' of AS_Available a \<Rightarrow> Some a | _ \<Rightarrow> None), p', msgs))"

definition project_merge_buckets ::
  "relay_config \<Rightarrow> nat \<Rightarrow> bucket list \<Rightarrow> project \<Rightarrow> project \<times> aggregator_message list" where
  "project_merge_buckets c addr buckets p =
     (case get_or_create_aggregator c addr p of
        (Some a, p', msgs) \<Rightarrow> (p', msgs @ [AggMergeBuckets a buckets])
      | (None, p', msgs) \<Rightarrow> (p', msgs))"

definition project_insert_metrics ::
  "relay_config \<Rightarrow> nat \<Rightarrow> metric list \<Rightarrow> project \<Rightarrow> project \<times> aggregator_message list" where
  "project_insert_metrics c addr metrics p =
     (case get_or_create_aggregator c addr p of
        (Some a, p', msgs) \<Rightarrow> (p', msgs @ [AggInsertMetrics a metrics])
      | (None, p', msgs) \<Rightarrow> (p', msgs))"

definition update_aggregator ::
  "instant \<Rightarrow> relay_config \<Rightarrow> nat \<Rightarrow> project \<Rightarrow> project \<times> aggregator_message list" where
  "update_aggregator now c addr p =
     (case pj_state p of
        None \<Rightarrow> (p, [])
      | Some st \<Rightarrow>
          let metrics_allowed = (check_disabled now c st = Inr ()) in
          if metrics_allowed \<and> pj_aggregator p = AS_Unavailable
          then (case get_or_create_aggregator c addr p of (_, p', msgs) \<Rightarrow> (p', msgs))
          else if \<not> metrics_allowed then (p\<lparr>pj_aggregator := AS_Unavailable\<rparr>, [])
          else (p, []))"

text \<open>
  The third component lists the \<open>UpdateProjectState\<close> messages sent to the cache, by their
  \<open>no_cache\<close> flag; \<open>w\<close> names the receiver if the answer comes later.
\<close>

definition throttle_no_cache :: "instant \<Rightarrow> bool \<Rightarrow> project \<Rightarrow> bool \<times> project" where
  "throttle_no_cache now no_cache p =
     (if no_cache
      then if elapsed now (pj_last_no_cache p) < duration_from_secs 1 then (False, p)
           else (True, p\<lparr>pj_last_no_cache := now\<rparr>)
      else (False, p))"

definition request_channel :: "bool \<Rightarrow> state_channel option \<Rightarrow> state_channel \<times> bool list" where
  "request_channel no_cache channel =
     (case channel of
        Some ch \<Rightarrow>
          if ch_no_cache ch \<or> \<not> no_cache then (ch, []) else (ch\<lparr>ch_no_cache := no_cache\<rparr>, [no_cache])
      | None \<Rightarrow> (state_channel_new\<lparr>ch_no_cache := no_cache\<rparr>, [no_cache]))"

definition cached_state :: "instant \<Rightarrow> relay_config \<Rightarrow> bool \<Rightarrow> project \<Rightarrow> (project_state \<times> outdated) option" where
  "cached_state now c no_cache p =
     (case pj_state p of
        None \<Rightarrow> None
      | Some st \<Rightarrow>
          if no_cache \<or> state_outdated now c st = HardOutdated then None
          else Some (st, state_outdated now c st))"

definition get_or_fetch_state ::
  "instant \<Rightarrow> relay_config \<Rightarrow> nat \<Rightarrow> bool \<Rightarrow> project \<Rightarrow>
   (project_state, project_error) response \<times> project \<times> bool list" where
  "get_or_fetch_state now c w no_cache0 p0 =
     (case throttle_no_cache now no_cache0 p0 of
        (no_cache, p) \<Rightarrow>
          (case cached_state now c no_cache p of
             Some (st, Updated) \<Rightarrow> (Reply (Inr st), p, [])
           | cached \<Rightarrow>
               (case request_channel no_cache (pj_state_channel p) of
                  (channel, requests) \<Rightarrow>
                    (case cached of
                       Some (st, _) \<Rightarrow> (Reply (Inr st), p\<lparr>pj_state_channel := Some channel\<rparr>, requests)
                     | None \<Rightarrow>
                         (Future w,
                          p\<lparr>pj_state_channel :=
                              Some (channel\<lparr>ch_receivers := ch_receivers channel @ [w]\<rparr>)\<rparr>,
                          requests)))))"

type_synonym answer = "nat \<times> (project_error + project_state)"

definition update_state ::
  "instant \<Rightarrow> relay_config \<Rightarrow> nat \<Rightarrow> project_state option \<Rightarrow> bool \<Rightarrow> project \<Rightarrow>
   project \<times> answer list \<times> aggregator_message list" where
  "update_state now c addr state_result no_cache p =
     (case pj_state_channel p of
        None \<Rightarrow> (p, [], [])
      | Some channel \<Rightarrow>
          if ch_no_cache channel \<and> \<not> no_cache then (p, [], [])
          else
            (case update_aggregator now c addr (p\<lparr>pj_state_channel := None, pj_state := state_result\<rparr>) of
               (p', msgs) \<Rightarrow>
                 (p',
                  map (\<lambda>w. (w, case state_result of Some st \<Rightarrow> Inr st | None \<Rightarrow> Inl FetchFailed))
                    (ch_receivers channel),
                  msgs)))"

definition project_scoping :: "project \<Rightarrow> scoping option" where
  "project_scoping p =
     Option.bind (pj_state p) (\<lambda>st.
       Option.bind (st_project_id st) (\<lambda>pid.
         Some \<lparr>organization_id = (case st_organization_id st of Some org \<Rightarrow> org | None \<Rightarrow> 0),
               project_id = pid, project_key = pj_project_key p,
               key_id = Option.bind (get_public_key_config st) pkc_numeric_id\<rparr>))"

definition project_scope_request :: "project \<Rightarrow> full_meta \<Rightarrow> scoping" where
  "project_scope_request p m =
     (case pj_state p of Some st \<Rightarrow> state_scope_request st m | None \<Rightarrow> get_partial_scoping m)"

record ('id, 'time, 'j, 'trace) checked_envelope =
  chk_envelope :: "('id, 'time, 'j, 'trace) envelope option"
  chk_rate_limits :: rate_limits

definition check_envelope_scoped ::
  "'ip filter_ext \<Rightarrow> instant \<Rightarrow> system_time \<Rightarrow> relay_config \<Rightarrow> ('id, 'time, 'j, 'trace) envelope \<Rightarrow> scoping \<Rightarrow>
   project \<Rightarrow>
   (discard_reason + ('id, 'time, 'j, 'trace) checked_envelope) \<times> project \<times> 'id track_outcome list" where
  "check_envelope_scoped fx now system_now c e sc p =
     (case (case pj_state p of
              Some st \<Rightarrow> check_request fx now c st (eh_meta (env_headers e))
            | None \<Rightarrow> Inr ()) of
        Inl reason \<Rightarrow> (Inl reason, p, [])
      | Inr _ \<Rightarrow>
          let p' = p\<lparr>pj_rate_limits := clean_expired now (pj_rate_limits p)\<rparr>;
              quotas = (case pj_state p' of Some st \<Rightarrow> pc_quotas (st_config st) | None \<Rightarrow> []);
              limiter = limiter_new (quotas_check now (pj_rate_limits p') quotas)
          in (case enforce limiter sc e () of
                (Inl reason, _, _) \<Rightarrow> (Inl reason, p', [])
              | (Inr (enforcement, rate_limits), e', _) \<Rightarrow>
                  (Inr \<lparr>chk_envelope = (if env_items e' = [] then None else Some e'),
                        chk_rate_limits = rate_limits\<rparr>,
                   p', track_outcomes now system_now enforcement e' sc)))"

record ('id, 'time, 'j, 'trace) check_envelope_response =
  cer_result :: "discard_reason + ('id, 'time, 'j, 'trace) checked_envelope"
  cer_scoping :: scoping

definition check_envelope ::
  "'ip filter_ext \<Rightarrow> instant \<Rightarrow> system_time \<Rightarrow> relay_config \<Rightarrow> ('id, 'time, 'j, 'trace) envelope \<Rightarrow> project \<Rightarrow>
   ('id, 'time, 'j, 'trace) check_envelope_response \<times> project \<times> 'id track_outcome list" where
  "check_envelope fx now system_now c e p =
     (let sc = project_scope_request p (eh_meta (env_headers e)) in
      case check_envelope_scoped fx now system_now c e sc p of
        (result, p', outcomes) \<Rightarrow> (\<lparr>cer_result = result, cer_scoping = sc\<rparr>, p', outcomes))"

section \<open>The cache\<close>

record project_cache =
  pch_projects :: "(project_key \<times> project) list"

definition evict_stale_project_caches ::
  "instant \<Rightarrow> relay_config \<Rightarrow> project_cache \<Rightarrow> project_cache \<times> answer list" where
  "evict_stale_project_caches now c pch =
     (let delta = 2 * project_cache_expiry c + project_grace_period c;
          keep = (\<lambda>(key, entry). pj_last_updated_at entry + int delta > now)
      in (pch\<lparr>pch_projects := filter keep (pch_projects pch)\<rparr>,
          concat (map (\<lambda>(key, entry). case pj_state_channel entry of
              Some ch \<Rightarrow> map (\<lambda>w. (w, Inl FetchFailed)) (ch_receivers ch)
            | None \<Rightarrow> []) (filter (\<lambda>kp. \<not> keep kp) (pch_projects pch)))))"

definition get_or_create_project :: "instant \<Rightarrow> project_key \<Rightarrow> project_cache \<Rightarrow> project" where
  "get_or_create_project now key pch =
     (case map_of (pch_projects pch) key of Some p \<Rightarrow> p | None \<Rightarrow> project_new now key)"

definition put_project :: "project_key \<Rightarrow> project \<Rightarrow> project_cache \<Rightarrow> project_cache" where
  "put_project key p pch = pch\<lparr>pch_projects := AList.update key p (pch_projects pch)\<rparr>"

text \<open>
  Where a state comes from: a local file, the mode of the relay, Redis if configured, and
  finally the upstream. \<open>Inl\<close> is a failed mailbox or request.
\<close>

definition resolve_project_state ::
  "instant \<Rightarrow> relay_mode \<Rightarrow> 'e + project_state option \<Rightarrow> ('e + project_state option) option \<Rightarrow>
   'e + ('e + project_state) \<Rightarrow> project_state option" where
  "resolve_project_state now mode local redis upstream =
     (case local of
        Inl _ \<Rightarrow> None
      | Inr (Some st) \<Rightarrow> Some st
      | Inr None \<Rightarrow>
          (case mode of
             RM_Proxy \<Rightarrow> Some (state_allowed now)
           | RM_Static \<Rightarrow> Some (state_missing now)
           | RM_Capture \<Rightarrow> Some (state_allowed now)
           | RM_Managed \<Rightarrow>
               (case (case redis of Some r \<Rightarrow> r | None \<Rightarrow> Inr None) of
                  Inl _ \<Rightarrow> None
                | Inr (Some st) \<Rightarrow> Some st
                | Inr None \<Rightarrow>
                    (case upstream of
                       Inl _ \<Rightarrow> None
                     | Inr (Inl _) \<Rightarrow> None
                     | Inr (Inr st) \<Rightarrow> Some st))))"

text \<open>\<open>Handler<UpdateProjectState>\<close>: the part before the fetch and the part after it.\<close>

definition handle_update_project_state ::
  "instant \<Rightarrow> project_key \<Rightarrow> project_cache \<Rightarrow> project_cache" where
  "handle_update_project_state now key pch =
     put_project key (refresh_updated_timestamp now (get_or_create_project now key pch)) pch"

definition finish_update_project_state ::
  "instant \<Rightarrow> relay_config \<Rightarrow> nat \<Rightarrow> project_key \<Rightarrow> bool \<Rightarrow> project_state option \<Rightarrow> project_cache \<Rightarrow>
   project_cache \<times> answer list \<times> aggregator_message list" where
  "finish_update_project_state now c addr key no_cache state_result pch =
     (case update_state now c addr state_result no_cache (get_or_create_project now key pch) of
        (p, answers, msgs) \<Rightarrow> (put_project key p pch, answers, msgs))"

definition handle_get_project_state ::
  "instant \<Rightarrow> relay_config \<Rightarrow> nat \<Rightarrow> project_key \<Rightarrow> bool \<Rightarrow> project_cache \<Rightarrow>
   (project_state, project_error) response \<times> project_cache \<times> bool list" where
  "handle_get_project_state now c w key no_cache pch =
     (case get_or_fetch_state now c w no_cache (get_or_create_project now key pch) of
        (r, p, requests) \<Rightarrow> (r, put_project key p pch, requests))"

definition handle_get_cached_project_state ::
  "instant \<Rightarrow> project_key \<Rightarrow> project_cache \<Rightarrow> project_state option \<times> project_cache" where
  "handle_get_cached_project_state now key pch =
     (let p = get_or_create_project now key pch in (pj_state p, put_project key p pch))"

text \<open>
  \<open>Handler<CheckEnvelope>\<close>: without fetching, the envelope is checked at once; with fetching,
  the check is the continuation of the project state request.
\<close>

definition handle_check_envelope_cached ::
  "'ip filter_ext \<Rightarrow> instant \<Rightarrow> system_time \<Rightarrow> relay_config \<Rightarrow> nat \<Rightarrow> project_key \<Rightarrow>
   ('id, 'time, 'j, 'trace) envelope \<Rightarrow> project_cache \<Rightarrow>
   ('id, 'time, 'j, 'trace) check_envelope_response \<times> project_cache \<times> bool list \<times> 'id track_outcome list" where
  "handle_check_envelope_cached fx now system_now c w key e pch =
     (case get_or_fetch_state now c w False (get_or_create_project now key pch) of
        (_, p, requests) \<Rightarrow>
          (case check_envelope fx now system_now c e p of
             (r, p', outcomes) \<Rightarrow> (r, put_project key p' pch, requests, outcomes)))"

definition handle_check_envelope_fetched ::
  "instant \<Rightarrow> relay_config \<Rightarrow> nat \<Rightarrow> project_key \<Rightarrow> ('id, 'time, 'j, 'trace) envelope \<Rightarrow> project_cache \<Rightarrow>
   (project_state, project_error) response \<times> project_cache \<times> bool list" where
  "handle_check_envelope_fetched now c w key e pch =
     handle_get_project_state now c w key (rm_no_cache (eh_meta (env_headers e))) pch"

definition check_envelope_continue ::
  "'ip filter_ext \<Rightarrow> instant \<Rightarrow> system_time \<Rightarrow> relay_config \<Rightarrow> project_key \<Rightarrow>
   ('id, 'time, 'j, 'trace) envelope \<Rightarrow> project_error + project_state \<Rightarrow> project_cache \<Rightarrow>
   (project_error + ('id, 'time, 'j, 'trace) check_envelope_response) \<times> project_cache \<times> 'id track_outcome list" where
  "check_envelope_continue fx now system_now c key e result pch =
     (case result of
        Inl err \<Rightarrow> (Inl err, pch, [])
      | Inr _ \<Rightarrow>
          (case check_envelope fx now system_now c e (get_or_create_project now key pch) of
             (r, p, outcomes) \<Rightarrow> (Inr r, put_project key p pch, outcomes)))"

definition handle_update_rate_limits ::
  "instant \<Rightarrow> project_key \<Rightarrow> rate_limits \<Rightarrow> project_cache \<Rightarrow> project_cache" where
  "handle_update_rate_limits now key ls pch =
     put_project key (merge_rate_limits ls (get_or_create_project now key pch)) pch"

definition cache_insert_metrics ::
  "instant \<Rightarrow> relay_config \<Rightarrow> nat \<Rightarrow> project_key \<Rightarrow> metric list \<Rightarrow> project_cache \<Rightarrow>
   project_cache \<times> aggregator_message list" where
  "cache_insert_metrics now c addr key metrics pch =
     (case project_insert_metrics c addr metrics (get_or_create_project now key pch) of
        (p, msgs) \<Rightarrow> (put_project key p pch, msgs))"

definition cache_merge_buckets ::
  "instant \<Rightarrow> relay_config \<Rightarrow> nat \<Rightarrow> project_key \<Rightarrow> bucket list \<Rightarrow> project_cache \<Rightarrow>
   project_cache \<times> aggregator_message list" where
  "cache_merge_buckets now c addr key buckets pch =
     (case project_merge_buckets c addr buckets (get_or_create_project now key pch) of
        (p, msgs) \<Rightarrow> (put_project key p pch, msgs))"

text \<open>
  \<open>Handler<FlushBuckets>\<close>: buckets go back to the aggregator, are dropped, or are sent with
  the envelope manager, whose answer decides.
\<close>

datatype flush_answer =
    FlushReturn "bucket list"
  | FlushDone
  | FlushSend "bucket list" scoping project_key

definition cache_flush_buckets ::
  "instant \<Rightarrow> relay_config \<Rightarrow> nat \<Rightarrow> flush_buckets \<Rightarrow> project_cache \<Rightarrow>
   flush_answer \<times> project_cache \<times> bool list" where
  "cache_flush_buckets now c w m pch =
     (let key = fb_project_key m;
          p = get_or_create_project now key pch;
          outd = (case pj_state p of Some st \<Rightarrow> state_outdated now c st | None \<Rightarrow> HardOutdated);
          (p', requests) =
            (if outd \<noteq> Updated
             then (case get_or_fetch_state now c w False p of (_, p', requests) \<Rightarrow> (p', requests))
             else (p, []));
          pch' = put_project key p' pch
      in if outd = HardOutdated then (FlushReturn (fb_buckets m), pch', requests)
         else
           (case (pj_state p', project_scoping p') of
              (Some st, Some sc) \<Rightarrow>
                if check_disabled now c st \<noteq> Inr () then (FlushDone, pch', requests)
                else (FlushSend (fb_buckets m) sc key, pch', requests)
            | _ \<Rightarrow> (FlushReturn (fb_buckets m), pch', requests)))"

definition flush_send_result :: "'mb + (bucket list + unit) \<Rightarrow> bucket list + unit" where
  "flush_send_result r =
     (case r of
        Inr (Inr _) \<Rightarrow> Inr ()
      | Inr (Inl buckets) \<Rightarrow> Inl buckets
      | Inl _ \<Rightarrow> Inr ())"

section \<open>The cache as a system\<close>

text \<open>
  The cache with its environment: \<open>UpdateProjectState\<close> messages in the mailbox, fetches in
  progress, the number of receivers handed out and the answers they got. A receiver that
  is answered at once appears among the answers right away. A caller that drops its
  receiver (flushing buckets, checking against the cached state) is still counted.
\<close>

record cache_system =
  sy_cache :: project_cache
  sy_mailbox :: "(project_key \<times> bool) list"
  sy_running :: "(project_key \<times> bool) list"
  sy_issued :: nat
  sy_answers :: "answer list"

definition system_init :: cache_system where
  "system_init = \<lparr>sy_cache = \<lparr>pch_projects = []\<rparr>, sy_mailbox = [], sy_running = [], sy_issued = 0,
                  sy_answers = []\<rparr>"

fun answer_now :: "nat \<Rightarrow> (project_state, project_error) response \<Rightarrow> answer list" where
  "answer_now w (Reply r) = [(w, r)]"
| "answer_now w (Future _) = []"

text \<open>A request with receiver \<open>sy_issued s\<close> on a project.\<close>

definition system_request ::
  "project_key \<Rightarrow> (project_state, project_error) response \<Rightarrow> project_cache \<Rightarrow> bool list \<Rightarrow> cache_system \<Rightarrow> cache_system" where
  "system_request key r pch requests s =
     s\<lparr>sy_cache := pch, sy_mailbox := sy_mailbox s @ map (Pair key) requests,
       sy_issued := Suc (sy_issued s), sy_answers := sy_answers s @ answer_now (sy_issued s) r\<rparr>"

definition sys_get ::
  "relay_config \<Rightarrow> instant \<Rightarrow> project_key \<Rightarrow> bool \<Rightarrow> cache_system \<Rightarrow> cache_system" where
  "sys_get c now key no_cache s =
     (case handle_get_project_state now c (sy_issued s) key no_cache (sy_cache s) of
        (r, pch, requests) \<Rightarrow> system_request key r pch requests s)"

definition sys_check_cached ::
  "'ip filter_ext \<Rightarrow> relay_config \<Rightarrow> instant \<Rightarrow> system_time \<Rightarrow> project_key \<Rightarrow>
   ('id, 'time, 'j, 'trace) envelope \<Rightarrow> cache_system \<Rightarrow> cache_system" where
  "sys_check_cached fx c now system_now key e s =
     (case handle_check_envelope_cached fx now system_now c (sy_issued s) key e (sy_cache s) of
        (_, pch, requests, _) \<Rightarrow>
          system_request key
            (fst (get_or_fetch_state now c (sy_issued s) False (get_or_create_project now key (sy_cache s))))
            pch requests s)"

definition sys_flush :: "relay_config \<Rightarrow> instant \<Rightarrow> flush_buckets \<Rightarrow> cache_system \<Rightarrow> cache_system" where
  "sys_flush c now m s =
     (let p = get_or_create_project now (fb_project_key m) (sy_cache s) in
      case cache_flush_buckets now c (sy_issued s) m (sy_cache s) of
        (_, pch, requests) \<Rightarrow>
          if (case pj_state p of Some st \<Rightarrow> state_outdated now c st | None \<Rightarrow> HardOutdated) = Updated
          then s\<lparr>sy_cache := pch\<rparr>
          else system_request (fb_project_key m) (fst (get_or_fetch_state now c (sy_issued s) False p))
                 pch requests s)"

definition sys_evict :: "relay_config \<Rightarrow> instant \<Rightarrow> cache_system \<Rightarrow> cache_system" where
  "sys_evict c now s =
     (case evict_stale_project_caches now c (sy_cache s) of
        (pch, answers) \<Rightarrow> s\<lparr>sy_cache := pch, sy_answers := sy_answers s @ answers\<rparr>)"

definition sys_deliver :: "instant \<Rightarrow> project_key \<times> bool \<Rightarrow> cache_system \<Rightarrow> cache_system" where
  "sys_deliver now m s =
     s\<lparr>sy_cache := handle_update_project_state now (fst m) (sy_cache s),
       sy_mailbox := remove1 m (sy_mailbox s), sy_running := m # sy_running s\<rparr>"

definition sys_finish ::
  "relay_config \<Rightarrow> instant \<Rightarrow> nat \<Rightarrow> project_key \<times> bool \<Rightarrow> project_state option \<Rightarrow> cache_system \<Rightarrow> cache_system" where
  "sys_finish c now addr m state_result s =
     (case finish_update_project_state now c addr (fst m) (snd m) state_result (sy_cache s) of
        (pch, answers, _) \<Rightarrow>
          s\<lparr>sy_cache := pch, sy_running := remove1 m (sy_running s), sy_answers := sy_answers s @ answers\<rparr>)"

text \<open>Progress of a fetch: a message is delivered or a fetch ends, with any result.\<close>

inductive cache_progress :: "relay_config \<Rightarrow> cache_system \<Rightarrow> cache_system \<Rightarrow> bool" for c where
  deliver: "m \<in> set (sy_mailbox s) \<Longrightarrow> cache_progress c s (sys_deliver now m s)"
| finish: "m \<in> set (sy_running s) \<Longrightarrow> cache_progress c s (sys_finish c now addr m state_result s)"

text \<open>The states after any sequence of messages; \<open>arrivals\<close> are the envelopes that may arrive.\<close>

inductive cache_reachable ::
  "'ip filter_ext \<Rightarrow> relay_config \<Rightarrow> ('id, 'time, 'j, 'trace) envelope set \<Rightarrow> cache_system \<Rightarrow> bool"
  for fx c arrivals where
  init: "cache_reachable fx c arrivals system_init"
| get: "cache_reachable fx c arrivals s \<Longrightarrow> cache_reachable fx c arrivals (sys_get c now key no_cache s)"
| check_cached: "cache_reachable fx c arrivals s \<Longrightarrow> e \<in> arrivals \<Longrightarrow>
    cache_reachable fx c arrivals (sys_check_cached fx c now system_now key e s)"
| flush: "cache_reachable fx c arrivals s \<Longrightarrow> cache_reachable fx c arrivals (sys_flush c now m s)"
| get_cached: "cache_reachable fx c arrivals s \<Longrightarrow>
    cache_reachable fx c arrivals (s\<lparr>sy_cache := snd (handle_get_cached_project_state now key (sy_cache s))\<rparr>)"
| check_continue: "cache_reachable fx c arrivals s \<Longrightarrow> e \<in> arrivals \<Longrightarrow>
    cache_reachable fx c arrivals
      (s\<lparr>sy_cache := fst (snd (check_envelope_continue fx now system_now c key e result (sy_cache s)))\<rparr>)"
| rate_limits: "cache_reachable fx c arrivals s \<Longrightarrow>
    cache_reachable fx c arrivals (s\<lparr>sy_cache := handle_update_rate_limits now key ls (sy_cache s)\<rparr>)"
| insert_metrics: "cache_reachable fx c arrivals s \<Longrightarrow>
    cache_reachable fx c arrivals (s\<lparr>sy_cache := fst (cache_insert_metrics now c addr key metrics (sy_cache s))\<rparr>)"
| merge_buckets: "cache_reachable fx c arrivals s \<Longrightarrow>
    cache_reachable fx c arrivals (s\<lparr>sy_cache := fst (cache_merge_buckets now c addr key buckets (sy_cache s))\<rparr>)"
| evict: "cache_reachable fx c arrivals s \<Longrightarrow> cache_reachable fx c arrivals (sys_evict c now s)"
| progress: "cache_reachable fx c arrivals s \<Longrightarrow> cache_progress c s s' \<Longrightarrow> cache_reachable fx c arrivals s'"

section \<open>Receivers\<close>

definition project_receivers :: "project \<Rightarrow> nat list" where
  "project_receivers p = (case pj_state_channel p of Some ch \<Rightarrow> ch_receivers ch | None \<Rightarrow> [])"

definition cache_receivers :: "project_cache \<Rightarrow> nat list" where
  "cache_receivers pch = concat (map (\<lambda>kp. project_receivers (snd kp)) (pch_projects pch))"

text \<open>
  Every receiver is answered once or waits in one channel, and every open channel has its
  request under way.
\<close>

definition channel_pending :: "(project_key \<times> bool) set \<Rightarrow> project_key \<Rightarrow> project \<Rightarrow> bool" where
  "channel_pending reqs key p =
     (case pj_state_channel p of Some ch \<Rightarrow> (key, ch_no_cache ch) \<in> reqs | None \<Rightarrow> True)"

definition all_pending :: "(project_key \<times> bool) set \<Rightarrow> project_cache \<Rightarrow> bool" where
  "all_pending reqs pch \<longleftrightarrow> (\<forall>(key, p) \<in> set (pch_projects pch). channel_pending reqs key p)"

definition cache_inv :: "cache_system \<Rightarrow> bool" where
  "cache_inv s \<longleftrightarrow>
     mset (map fst (sy_answers s)) + mset (cache_receivers (sy_cache s)) = mset [0..<sy_issued s] \<and>
     all_pending (set (sy_mailbox s) \<union> set (sy_running s)) (sy_cache s) \<and>
     distinct (map fst (pch_projects (sy_cache s)))"

lemma get_or_create_channel:
  assumes "all_pending reqs pch"
  shows "channel_pending reqs key (get_or_create_project now key pch)"
  using assms
  by (auto simp: all_pending_def get_or_create_project_def channel_pending_def project_new_def
      split: option.splits dest: map_of_SomeD)

lemma cache_receivers_put:
  "mset (cache_receivers (put_project key p pch)) + mset (project_receivers (get_or_create_project now key pch)) =
   mset (cache_receivers pch) + mset (project_receivers p)"
proof -
  have "mset (concat (map (\<lambda>kp. project_receivers (snd kp)) (AList.update key p xs))) +
        mset (case map_of xs key of Some q \<Rightarrow> project_receivers q | None \<Rightarrow> []) =
        mset (concat (map (\<lambda>kp. project_receivers (snd kp)) xs)) + mset (project_receivers p)" for xs
    by (induction xs) (auto simp: ac_simps)
  from this [of "pch_projects pch"] show ?thesis
    by (simp add: cache_receivers_def put_project_def get_or_create_project_def project_receivers_def
        project_new_def split: option.splits)
qed

lemma distinct_put:
  "distinct (map fst (pch_projects pch)) \<Longrightarrow> distinct (map fst (pch_projects (put_project key p pch)))"
  by (simp add: put_project_def distinct_update)

text \<open>Requests of the changed project may change with it.\<close>

lemma channels_put:
  assumes "all_pending reqs pch" and "distinct (map fst (pch_projects pch))"
    and "\<And>k nc. k \<noteq> key \<Longrightarrow> (k, nc) \<in> reqs \<Longrightarrow> (k, nc) \<in> reqs'" and "channel_pending reqs' key p"
  shows "all_pending reqs' (put_project key p pch)"
proof -
  have "channel_pending reqs' k q" if "(k, q) \<in> set (AList.update key p (pch_projects pch))" for k q
  proof (cases "k = key")
    case True
    have "map_of (AList.update key p (pch_projects pch)) k = Some q"
      using that assms(2) by (simp add: distinct_update)
    then show ?thesis using True assms(4) by (simp add: update_conv')
  next
    case False
    have "map_of (AList.update key p (pch_projects pch)) k = Some q"
      using that assms(2) by (simp add: distinct_update)
    then have "(k, q) \<in> set (pch_projects pch)" using False by (simp add: update_conv' map_of_SomeD)
    then show ?thesis
      using assms(1) assms(3) [OF False] by (auto simp: all_pending_def channel_pending_def split: option.splits)
  qed
  then show ?thesis by (auto simp: all_pending_def put_project_def)
qed

text \<open>Operations that leave the channel alone.\<close>

lemma cache_inv_put_same:
  assumes "cache_inv s" and "pj_state_channel p = pj_state_channel (get_or_create_project now key (sy_cache s))"
  shows "cache_inv (s\<lparr>sy_cache := put_project key p (sy_cache s)\<rparr>)"
proof -
  let ?reqs = "set (sy_mailbox s) \<union> set (sy_running s)"
  have inv: "mset (map fst (sy_answers s)) + mset (cache_receivers (sy_cache s)) = mset [0..<sy_issued s]"
    "all_pending ?reqs (sy_cache s)" "distinct (map fst (pch_projects (sy_cache s)))"
    using assms(1) by (simp_all only: cache_inv_def)
  have r: "project_receivers p = project_receivers (get_or_create_project now key (sy_cache s))"
    using assms(2) by (simp add: project_receivers_def)
  have "channel_pending ?reqs key p"
    using get_or_create_channel [OF inv(2), of key now] assms(2) by (simp add: channel_pending_def)
  from channels_put [OF inv(2) inv(3) _ this] show ?thesis
    using inv(1) distinct_put [OF inv(3)] cache_receivers_put [of key p "sy_cache s" now] by (simp add: cache_inv_def r)
qed

text \<open>Requests: a receiver is registered or answered at once, and a new channel comes with a request.\<close>

lemma throttle_channel: "throttle_no_cache now no_cache p = (nc, p') \<Longrightarrow> pj_state_channel p' = pj_state_channel p"
  by (auto simp: throttle_no_cache_def split: if_splits)

lemma request_channel_receivers:
  assumes "request_channel no_cache channel = (ch, requests)"
  shows "ch_receivers ch = (case channel of Some ch \<Rightarrow> ch_receivers ch | None \<Rightarrow> [])"
proof (cases channel)
  case None
  then show ?thesis using assms by (auto simp: request_channel_def state_channel_new_def)
next
  case (Some old)
  then show ?thesis
    using assms by (cases "ch_no_cache old \<or> \<not> no_cache") (auto simp: request_channel_def)
qed

lemma request_channel_pending:
  assumes "request_channel no_cache channel = (ch, requests)"
    and "case channel of Some ch \<Rightarrow> (key, ch_no_cache ch) \<in> reqs | None \<Rightarrow> True"
  shows "(key, ch_no_cache ch) \<in> reqs \<union> Pair key ` set requests"
proof (cases channel)
  case None
  then have "state_channel_new\<lparr>ch_no_cache := no_cache\<rparr> = ch" and req: "requests = [no_cache]"
    using assms(1) by (simp_all add: request_channel_def)
  then have "ch_no_cache ch = no_cache" by force
  with req show ?thesis by simp
next
  case (Some old)
  show ?thesis
  proof (cases "ch_no_cache old \<or> \<not> no_cache")
    case True
    then have "ch = old" using assms(1) Some by (simp add: request_channel_def)
    then show ?thesis using assms(2) Some by simp
  next
    case False
    then have "old\<lparr>ch_no_cache := no_cache\<rparr> = ch" and req: "requests = [no_cache]"
      using assms(1) Some by (simp_all add: request_channel_def)
    then have "ch_no_cache ch = no_cache" by force
    with req show ?thesis by simp
  qed
qed

text \<open>The three ways a request ends: an up to date state, an old state, or waiting.\<close>

lemma get_or_fetch_state_cases:
  assumes "get_or_fetch_state now c w no_cache p = (r, p', requests)"
  obtains (updated) st where "r = Reply (Inr st)" "pj_state_channel p' = pj_state_channel p" "requests = []"
  | (old) st nc ch where "r = Reply (Inr st)" "request_channel nc (pj_state_channel p) = (ch, requests)"
      "pj_state_channel p' = Some ch"
  | (wait) nc ch where "r = Future w" "request_channel nc (pj_state_channel p) = (ch, requests)"
      "pj_state_channel p' = Some (ch\<lparr>ch_receivers := ch_receivers ch @ [w]\<rparr>)"
proof -
  obtain nc p1 where t: "throttle_no_cache now no_cache p = (nc, p1)" by fastforce
  note ch = throttle_channel [OF t]
  obtain chn reqs where rc: "request_channel nc (pj_state_channel p) = (chn, reqs)" by fastforce
  show thesis
  proof (cases "cached_state now c nc p1")
    case None
    then have "r = Future w \<and> request_channel nc (pj_state_channel p) = (chn, requests) \<and>
        pj_state_channel p' = Some (chn\<lparr>ch_receivers := ch_receivers chn @ [w]\<rparr>)"
      using assms rc by (auto simp: get_or_fetch_state_def t ch)
    then show ?thesis using wait by blast
  next
    case (Some so)
    obtain st outd where so: "so = (st, outd)" by fastforce
    show ?thesis
    proof (cases "outd = Updated")
      case True
      then have "r = Reply (Inr st) \<and> pj_state_channel p' = pj_state_channel p \<and> requests = []"
        using assms Some so ch by (auto simp: get_or_fetch_state_def t)
      then show ?thesis using updated by blast
    next
      case False
      then have "r = Reply (Inr st) \<and> request_channel nc (pj_state_channel p) = (chn, requests) \<and>
          pj_state_channel p' = Some chn"
        using assms Some so rc by (cases outd) (auto simp: get_or_fetch_state_def t ch)
      then show ?thesis using old by blast
    qed
  qed
qed

lemma get_or_fetch_state_channel:
  assumes "get_or_fetch_state now c w no_cache p = (r, p', requests)" and "channel_pending reqs key p"
  shows "mset (project_receivers p') + mset (map fst (answer_now w r)) = add_mset w (mset (project_receivers p))"
      (is ?thesis1)
    and "channel_pending (reqs \<union> Pair key ` set requests) key p'" (is ?thesis2)
proof -
  have "?thesis1 \<and> ?thesis2"
    using assms(1)
  proof (cases rule: get_or_fetch_state_cases)
    case (updated st)
    with assms(2) show ?thesis by (simp add: project_receivers_def channel_pending_def)
  next
    case (old st nc ch)
    note recv = request_channel_receivers [OF old(2)]
    have "(key, ch_no_cache ch) \<in> reqs \<union> Pair key ` set requests"
      by (rule request_channel_pending [OF old(2)]) (use assms(2) in \<open>simp add: channel_pending_def\<close>)
    with old recv show ?thesis by (simp add: project_receivers_def channel_pending_def)
  next
    case (wait nc ch)
    note recv = request_channel_receivers [OF wait(2)]
    have "(key, ch_no_cache ch) \<in> reqs \<union> Pair key ` set requests"
      by (rule request_channel_pending [OF wait(2)]) (use assms(2) in \<open>simp add: channel_pending_def\<close>)
    with wait recv show ?thesis by (simp add: project_receivers_def channel_pending_def)
  qed
  then show ?thesis1 ?thesis2 by simp_all
qed

lemma cache_inv_request:
  assumes "cache_inv s"
    and "get_or_fetch_state now c (sy_issued s) no_cache (get_or_create_project now key (sy_cache s)) = (r, p, requests)"
    and "pj_state_channel p' = pj_state_channel p"
  shows "cache_inv (system_request key r (put_project key p' (sy_cache s)) requests s)"
proof -
  let ?reqs = "set (sy_mailbox s) \<union> set (sy_running s)" and ?w = "sy_issued s"
  let ?A = "mset (cache_receivers (put_project key p' (sy_cache s)))"
  let ?a = "mset (map fst (answer_now ?w r))" and ?C = "mset (cache_receivers (sy_cache s))"
  let ?O = "mset (project_receivers (get_or_create_project now key (sy_cache s)))"
  have inv: "mset (map fst (sy_answers s)) + ?C = mset [0..<?w]" "all_pending ?reqs (sy_cache s)"
    "distinct (map fst (pch_projects (sy_cache s)))"
    using assms(1) by (simp_all only: cache_inv_def)
  note step = get_or_fetch_state_channel [OF assms(2) get_or_create_channel [OF inv(2)]]
  have r: "project_receivers p' = project_receivers p" and
    ch: "channel_pending (?reqs \<union> Pair key ` set requests) key p'"
    using assms(3) step(2) by (simp_all add: project_receivers_def channel_pending_def)
  have pend: "all_pending (?reqs \<union> Pair key ` set requests) (put_project key p' (sy_cache s))"
    by (rule channels_put [OF inv(2) inv(3) _ ch]) simp
  have "?A + ?a + ?O = (?A + ?O) + ?a" by (simp only: ac_simps)
  also have "\<dots> = ?C + (mset (project_receivers p) + ?a)"
    using cache_receivers_put [of key p' "sy_cache s" now] by (simp only: r ac_simps)
  also have "\<dots> = add_mset ?w ?C + ?O" by (simp only: step(1)) simp
  finally have "?A + ?a = add_mset ?w ?C" by (simp only: add_right_cancel)
  then have acc: "mset (map fst (sy_answers s)) + ?a + ?A = add_mset ?w (mset (map fst (sy_answers s)) + ?C)"
    by (metis (no_types, lifting) add.assoc add.commute union_mset_add_mset_right)
  have "mset (map fst (sy_answers s @ answer_now ?w r)) + ?A = add_mset ?w (mset [0..<?w])"
    using acc inv(1) by (simp only: map_append mset_append)
  then have "mset (map fst (sy_answers s @ answer_now ?w r)) + ?A = mset [0..<Suc ?w]" by simp
  then show ?thesis
    using pend distinct_put [OF inv(3), of key p']
    by (simp only: cache_inv_def system_request_def) (simp add: Un_ac)
qed

text \<open>The end of a fetch: it answers the whole channel, or is superseded and changes nothing.\<close>

lemma get_or_create_aggregator_channel:
  "get_or_create_aggregator c addr p = (a, p', msgs) \<Longrightarrow> pj_state_channel p' = pj_state_channel p"
  by (auto simp: get_or_create_aggregator_def split: if_splits)

lemma update_aggregator_channel:
  "update_aggregator now c addr p = (p', msgs) \<Longrightarrow> pj_state_channel p' = pj_state_channel p"
proof (cases "pj_state p")
  case (Some st)
  obtain a q ms where g: "get_or_create_aggregator c addr p = (a, q, ms)" by (metis prod_cases3)
  assume "update_aggregator now c addr p = (p', msgs)"
  with Some g have "p' = q \<or> p' = p\<lparr>pj_aggregator := AS_Unavailable\<rparr> \<or> p' = p"
    by (simp add: update_aggregator_def Let_def split: if_splits)
  then show ?thesis using get_or_create_aggregator_channel [OF g] by auto
qed (simp add: update_aggregator_def)

lemma update_state_cases:
  assumes "update_state now c addr state_result nc p = (p', answers, msgs)"
  obtains (closed) "pj_state_channel p = None" "p' = p" "answers = []" "msgs = []"
  | (superseded) ch where "pj_state_channel p = Some ch" "ch_no_cache ch" "\<not> nc" "p' = p" "answers = []" "msgs = []"
  | (answered) ch where "pj_state_channel p = Some ch" "ch_no_cache ch \<longrightarrow> nc" "pj_state_channel p' = None"
      "answers = map (\<lambda>w. (w, case state_result of Some st \<Rightarrow> Inr st | None \<Rightarrow> Inl FetchFailed)) (ch_receivers ch)"
proof (cases "pj_state_channel p")
  case None
  then have "(p, [], []) = (p', answers, msgs)" using assms by (simp add: update_state_def)
  then show thesis using closed [OF None] by blast
next
  case (Some ch)
  show thesis
  proof (cases "ch_no_cache ch \<and> \<not> nc")
    case True
    then have "(p, [], []) = (p', answers, msgs)" using assms Some by (simp add: update_state_def)
    then show thesis using superseded [OF Some] True by blast
  next
    case False
    obtain q m where u: "update_aggregator now c addr (p\<lparr>pj_state_channel := None, pj_state := state_result\<rparr>) = (q, m)"
      by fastforce
    then have "pj_state_channel q = None" using update_aggregator_channel by fastforce
    moreover have "(q, map (\<lambda>w. (w, case state_result of Some st \<Rightarrow> Inr st | None \<Rightarrow> Inl FetchFailed)) (ch_receivers ch), m) =
        (p', answers, msgs)"
      using assms Some False u by (simp add: update_state_def)
    ultimately show thesis using answered [OF Some] False by blast
  qed
qed

lemma update_state_receivers:
  assumes "update_state now c addr state_result nc p = (p', answers, msgs)"
  shows "map fst answers @ project_receivers p' = project_receivers p"
  using assms by (cases rule: update_state_cases) (simp_all add: project_receivers_def comp_def)

lemma update_state_pending:
  assumes "update_state now c addr state_result nc p = (p', answers, msgs)" and "channel_pending reqs key p"
    and "\<And>x. x \<in> reqs \<Longrightarrow> x \<noteq> (key, nc) \<Longrightarrow> x \<in> reqs'"
  shows "channel_pending reqs' key p'"
  using assms(1)
proof (cases rule: update_state_cases)
  case (superseded ch)
  then show ?thesis using assms(2) assms(3) [of "(key, ch_no_cache ch)"] by (simp add: channel_pending_def)
qed (simp_all add: channel_pending_def)

lemma in_remove1: "x \<in> set xs \<Longrightarrow> x \<noteq> y \<Longrightarrow> x \<in> set (remove1 y xs)"
  by simp

lemma cache_inv_finish:
  assumes "cache_inv s"
  shows "cache_inv (sys_finish c now addr m state_result s)"
proof -
  let ?reqs = "set (sy_mailbox s) \<union> set (sy_running s)"
  let ?reqs' = "set (sy_mailbox s) \<union> set (remove1 m (sy_running s))"
  let ?p = "get_or_create_project now (fst m) (sy_cache s)"
  obtain p' answers msgs where u: "update_state now c addr state_result (snd m) ?p = (p', answers, msgs)"
    by (metis prod_cases3)
  have inv: "mset (map fst (sy_answers s)) + mset (cache_receivers (sy_cache s)) = mset [0..<sy_issued s]"
    "all_pending ?reqs (sy_cache s)" "distinct (map fst (pch_projects (sy_cache s)))"
    using assms by (simp_all only: cache_inv_def)
  have ch: "channel_pending ?reqs' (fst m) p'"
    by (rule update_state_pending [OF u get_or_create_channel [OF inv(2)]]) auto
  have pend: "all_pending ?reqs' (put_project (fst m) p' (sy_cache s))"
    by (rule channels_put [OF inv(2) inv(3) _ ch]) (use in_remove1 [of _ _ m] in fastforce)
  have "mset (cache_receivers (put_project (fst m) p' (sy_cache s))) + mset (map fst answers) +
        mset (project_receivers p') = mset (cache_receivers (sy_cache s)) + mset (project_receivers p')"
    using cache_receivers_put [of "fst m" p' "sy_cache s" now] update_state_receivers [OF u]
    by (metis (no_types, lifting) add.assoc mset_append)
  then have "mset (cache_receivers (put_project (fst m) p' (sy_cache s))) + mset (map fst answers) =
      mset (cache_receivers (sy_cache s))" by (simp only: add_right_cancel)
  from inv(1) [folded this] have "mset (map fst (sy_answers s @ answers)) +
      mset (cache_receivers (put_project (fst m) p' (sy_cache s))) = mset [0..<sy_issued s]"
    by (simp add: ac_simps)
  then show ?thesis
    using pend distinct_put [OF inv(3), of "fst m" p']
    by (simp add: cache_inv_def sys_finish_def finish_update_project_state_def u)
qed

lemma cache_inv_deliver:
  assumes "cache_inv s" and "m \<in> set (sy_mailbox s)"
  shows "cache_inv (sys_deliver now m s)"
proof -
  let ?p = "refresh_updated_timestamp now (get_or_create_project now (fst m) (sy_cache s))"
  have "cache_inv (s\<lparr>sy_cache := put_project (fst m) ?p (sy_cache s)\<rparr>)"
    by (rule cache_inv_put_same [OF assms(1)]) (simp add: refresh_updated_timestamp_def)
  moreover have "set (sy_mailbox s) \<union> set (sy_running s) \<subseteq> set (remove1 m (sy_mailbox s)) \<union> set (m # sy_running s)"
    by (auto simp: in_remove1)
  ultimately show ?thesis
    by (auto simp: cache_inv_def sys_deliver_def handle_update_project_state_def all_pending_def
        channel_pending_def split: option.splits)
qed

text \<open>Eviction answers the receivers of the dropped channels.\<close>

lemma concat_map_filter_partition:
  "mset (concat (map f (filter P xs))) + mset (concat (map f (filter (\<lambda>x. \<not> P x) xs))) = mset (concat (map f xs))"
  by (induction xs) (auto simp: ac_simps)

lemma evict_answers:
  assumes "evict_stale_project_caches now c pch = (pch', answers)"
  shows "mset (map fst answers) + mset (cache_receivers pch') = mset (cache_receivers pch)"
    and "\<forall>(w, r) \<in> set answers. r = Inl FetchFailed"
    and "set (pch_projects pch') \<subseteq> set (pch_projects pch)"
    and "distinct (map fst (pch_projects pch)) \<Longrightarrow> distinct (map fst (pch_projects pch'))"
proof -
  let ?delta = "2 * project_cache_expiry c + project_grace_period c"
  let ?keep = "\<lambda>(key :: project_key, entry). pj_last_updated_at entry + int ?delta > now"
  have pch': "pch' = pch\<lparr>pch_projects := filter ?keep (pch_projects pch)\<rparr>"
    and ans: "answers = concat (map (\<lambda>kp. map (\<lambda>w. (w, Inl FetchFailed)) (project_receivers (snd kp)))
                (filter (\<lambda>kp. \<not> ?keep kp) (pch_projects pch)))"
    using assms by (auto simp: evict_stale_project_caches_def Let_def project_receivers_def
        intro!: arg_cong [where f = concat] split: option.splits)
  have "map fst answers = concat (map (\<lambda>kp. project_receivers (snd kp)) (filter (\<lambda>kp. \<not> ?keep kp) (pch_projects pch)))"
    by (simp add: ans map_concat comp_def)
  then show "mset (map fst answers) + mset (cache_receivers pch') = mset (cache_receivers pch)"
    using concat_map_filter_partition [of "\<lambda>kp. project_receivers (snd kp)" ?keep "pch_projects pch"]
    by (simp add: pch' cache_receivers_def ac_simps)
  show "\<forall>(w, r) \<in> set answers. r = Inl FetchFailed" by (auto simp: ans)
  show "set (pch_projects pch') \<subseteq> set (pch_projects pch)" by (auto simp: pch')
  show "distinct (map fst (pch_projects pch)) \<Longrightarrow> distinct (map fst (pch_projects pch'))"
    by (simp add: pch' distinct_map_filter)
qed

lemma cache_inv_evict:
  assumes "cache_inv s"
  shows "cache_inv (sys_evict c now s)"
proof -
  obtain pch answers where e: "evict_stale_project_caches now c (sy_cache s) = (pch, answers)" by fastforce
  note ev = evict_answers [OF e]
  have inv: "mset (map fst (sy_answers s)) + mset (cache_receivers (sy_cache s)) = mset [0..<sy_issued s]"
    using assms by (simp only: cache_inv_def)
  have "mset (map fst (sy_answers s @ answers)) + mset (cache_receivers pch) = mset [0..<sy_issued s]"
    using inv by (simp only: map_append mset_append ev(1) [symmetric]) (simp add: ac_simps)
  then show ?thesis
    using assms ev(3,4) by (auto simp: cache_inv_def sys_evict_def e all_pending_def)
qed

lemma check_envelope_scoped_project:
  assumes "check_envelope_scoped fx now system_now c e sc p = (r, p', outcomes)"
  shows "pj_state_channel p' = pj_state_channel p" and "pj_state p' = pj_state p"
proof -
  have "p' = p \<or> p' = p\<lparr>pj_rate_limits := clean_expired now (pj_rate_limits p)\<rparr>"
    using assms by (auto simp only: check_envelope_scoped_def Let_def split: sum.splits prod.splits option.splits)
  then show "pj_state_channel p' = pj_state_channel p" and "pj_state p' = pj_state p" by auto
qed

lemma check_envelope_project:
  assumes "check_envelope fx now system_now c e p = (r, p', outcomes)"
  shows "pj_state_channel p' = pj_state_channel p"
  using assms check_envelope_scoped_project(1)
  by (fastforce simp: check_envelope_def Let_def split: prod.splits)

lemma cache_inv_get:
  assumes "cache_inv s"
  shows "cache_inv (sys_get c now key no_cache s)"
proof -
  obtain r p requests where
    "get_or_fetch_state now c (sy_issued s) no_cache (get_or_create_project now key (sy_cache s)) = (r, p, requests)"
    by (metis prod_cases3)
  from cache_inv_request [OF assms this refl] this show ?thesis
    by (simp add: sys_get_def handle_get_project_state_def)
qed

lemma cache_inv_check_cached:
  assumes "cache_inv s"
  shows "cache_inv (sys_check_cached fx c now system_now key e s)"
proof -
  obtain r p requests where
    g: "get_or_fetch_state now c (sy_issued s) False (get_or_create_project now key (sy_cache s)) = (r, p, requests)"
    by (metis prod_cases3)
  obtain r' p' outcomes where k: "check_envelope fx now system_now c e p = (r', p', outcomes)"
    by (metis prod_cases3)
  from cache_inv_request [OF assms g check_envelope_project [OF k]] g k show ?thesis
    by (simp add: sys_check_cached_def handle_check_envelope_cached_def)
qed

lemma cache_inv_flush:
  assumes "cache_inv s"
  shows "cache_inv (sys_flush c now m s)"
proof -
  let ?p = "get_or_create_project now (fb_project_key m) (sy_cache s)"
  let ?outd = "case pj_state ?p of Some st \<Rightarrow> state_outdated now c st | None \<Rightarrow> HardOutdated"
  obtain r p requests where g: "get_or_fetch_state now c (sy_issued s) False ?p = (r, p, requests)"
    by (metis prod_cases3)
  obtain fa pch reqs where f: "cache_flush_buckets now c (sy_issued s) m (sy_cache s) = (fa, pch, reqs)"
    by (metis prod_cases3)
  show ?thesis
  proof (cases "?outd = Updated")
    case True
    then have "pch = put_project (fb_project_key m) ?p (sy_cache s)"
      using f by (auto simp: cache_flush_buckets_def Let_def split: option.splits if_splits)
    with cache_inv_put_same [OF assms refl] True f show ?thesis by (simp add: sys_flush_def Let_def)
  next
    case False
    then have "pch = put_project (fb_project_key m) p (sy_cache s)" "reqs = requests"
      using f g by (auto simp: cache_flush_buckets_def Let_def split: option.splits if_splits)
    with cache_inv_request [OF assms g refl] False f g show ?thesis by (simp add: sys_flush_def Let_def)
  qed
qed

lemma cache_inv_get_cached:
  assumes "cache_inv s"
  shows "cache_inv (s\<lparr>sy_cache := snd (handle_get_cached_project_state now key (sy_cache s))\<rparr>)"
  using cache_inv_put_same [OF assms refl] by (simp add: handle_get_cached_project_state_def Let_def)

lemma cache_inv_continue:
  assumes "cache_inv s"
  shows "cache_inv (s\<lparr>sy_cache := fst (snd (check_envelope_continue fx now system_now c key e result (sy_cache s)))\<rparr>)"
proof (cases result)
  case (Inl err)
  then show ?thesis using assms by (simp add: check_envelope_continue_def)
next
  case (Inr st)
  obtain r p outcomes where
    k: "check_envelope fx now system_now c e (get_or_create_project now key (sy_cache s)) = (r, p, outcomes)"
    by (metis prod_cases3)
  from cache_inv_put_same [OF assms check_envelope_project [OF k]] k Inr show ?thesis
    by (simp add: check_envelope_continue_def)
qed

lemma project_metrics_channel:
  "project_insert_metrics c addr metrics p = (p', msgs) \<Longrightarrow> pj_state_channel p' = pj_state_channel p"
  "project_merge_buckets c addr buckets p = (p', msgs) \<Longrightarrow> pj_state_channel p' = pj_state_channel p"
  using get_or_create_aggregator_channel [of c addr p]
  by (auto simp only: project_insert_metrics_def project_merge_buckets_def split: prod.splits option.splits)

lemma cache_inv_metrics:
  assumes "cache_inv s"
  shows "cache_inv (s\<lparr>sy_cache := fst (cache_insert_metrics now c addr key metrics (sy_cache s))\<rparr>)"
    and "cache_inv (s\<lparr>sy_cache := fst (cache_merge_buckets now c addr key buckets (sy_cache s))\<rparr>)"
  using cache_inv_put_same [OF assms project_metrics_channel(1)] cache_inv_put_same [OF assms project_metrics_channel(2)]
  by (simp_all add: cache_insert_metrics_def cache_merge_buckets_def split: prod.splits)

lemma cache_inv_rate_limits:
  assumes "cache_inv s"
  shows "cache_inv (s\<lparr>sy_cache := handle_update_rate_limits now key ls (sy_cache s)\<rparr>)"
  unfolding handle_update_rate_limits_def
  by (rule cache_inv_put_same [OF assms]) (simp add: merge_rate_limits_def)

lemma cache_inv_progress: "cache_progress c s s' \<Longrightarrow> cache_inv s \<Longrightarrow> cache_inv s'"
  by (auto elim!: cache_progress.cases intro: cache_inv_deliver cache_inv_finish)

lemma cache_inv_init: "cache_inv system_init"
  by (simp add: cache_inv_def system_init_def cache_receivers_def all_pending_def)

lemmas cache_inv_intros =
  cache_inv_init cache_inv_get cache_inv_check_cached cache_inv_flush cache_inv_get_cached cache_inv_continue
  cache_inv_metrics cache_inv_rate_limits cache_inv_evict

lemma cache_reachable_inv: "cache_reachable fx c arrivals s \<Longrightarrow> cache_inv s"
  by (induction rule: cache_reachable.induct) (blast intro: cache_inv_intros cache_inv_progress)+

section \<open>Every request is answered\<close>

definition fetch_work :: "cache_system \<Rightarrow> nat" where
  "fetch_work s = 2 * length (sy_mailbox s) + length (sy_running s)"

lemma length_remove1_Suc: "m \<in> set xs \<Longrightarrow> length xs = Suc (length (remove1 m xs))"
  using length_pos_if_in_set [of m xs] by (simp add: length_remove1)

lemma cache_progress_work: "cache_progress c s s' \<Longrightarrow> fetch_work s' < fetch_work s"
proof (induction rule: cache_progress.induct)
  case (deliver m s now)
  then show ?case using length_remove1_Suc [of m "sy_mailbox s"] by (simp add: fetch_work_def sys_deliver_def)
next
  case (finish m s now addr state_result)
  then show ?case
    using length_remove1_Suc [of m "sy_running s"] by (simp add: fetch_work_def sys_finish_def split: prod.splits)
qed

lemma cache_progress_wf: "wfp (cache_progress c)\<inverse>\<inverse>"
  by (rule wfp_if_convertible_to_nat [of _ fetch_work]) (simp add: cache_progress_work)

lemma cache_progress_issued: "cache_progress c s s' \<Longrightarrow> sy_issued s' = sy_issued s"
  by (auto elim!: cache_progress.cases simp: sys_deliver_def sys_finish_def split: prod.splits)

lemma cache_idle: "\<nexists>s'. cache_progress c s s' \<Longrightarrow> sy_mailbox s = [] \<and> sy_running s = []"
  using cache_progress.deliver [of "hd (sy_mailbox s)"] cache_progress.finish [of "hd (sy_running s)"]
  by (meson hd_in_set)

lemma idle_no_receivers:
  assumes "all_pending {} pch"
  shows "cache_receivers pch = []"
  using assms by (auto simp: all_pending_def cache_receivers_def channel_pending_def project_receivers_def
      split: option.splits)

definition example_config :: relay_config where
  "example_config = config_default ''127.0.0.1'' 4"

lemma request_channel_no_cache:
  assumes "request_channel True channel = (ch, requests)"
  shows "ch_no_cache ch"
proof (cases channel)
  case None
  then have "state_channel_new\<lparr>ch_no_cache := True\<rparr> = ch" using assms by (simp add: request_channel_def)
  then show ?thesis by force
next
  case (Some old)
  then have "(if ch_no_cache old then old else old\<lparr>ch_no_cache := True\<rparr>) = ch"
    using assms by (simp add: request_channel_def split: if_splits)
  then show ?thesis by (force split: if_splits)
qed

lemma update_aggregator_state: "update_aggregator now c addr p = (p', msgs) \<Longrightarrow> pj_state p' = pj_state p"
proof (cases "pj_state p")
  case (Some st)
  assume "update_aggregator now c addr p = (p', msgs)"
  with Some have "p' = fst (snd (get_or_create_aggregator c addr p)) \<or>
      p' = p\<lparr>pj_aggregator := AS_Unavailable\<rparr> \<or> p' = p"
    by (simp add: update_aggregator_def Let_def split: if_splits prod.splits)
  then show ?thesis by (auto simp: get_or_create_aggregator_def Let_def split: if_splits)
qed (simp add: update_aggregator_def)

lemma update_state_result:
  assumes "update_state now c addr res True p = (q, answers, msgs)" and "pj_state_channel p = Some ch"
  shows "pj_state q = res"
proof -
  obtain q' ms where u: "update_aggregator now c addr (p\<lparr>pj_state_channel := None, pj_state := res\<rparr>) = (q', ms)"
    by fastforce
  then have "q = q'" using assms by (simp add: update_state_def)
  then show ?thesis using update_aggregator_state [OF u] by simp
qed

text \<open>C8: whatever messages the cache has handled before, its fetches come to an end: there is no
  infinite sequence of deliveries and fetch results, and when none is left, every receiver
  ever handed out has been answered exactly once, whatever the fetches returned, whichever
  were superseded by a fetch without caches and whatever was evicted in between.\<close>

theorem cache_answers_all:
  assumes "cache_reachable fx c arrivals s" and "(cache_progress c)\<^sup>*\<^sup>* s s'"
    and "\<nexists>s''. cache_progress c s' s''"
  shows "wfp (cache_progress c)\<inverse>\<inverse> \<and> sy_issued s' = sy_issued s \<and>
         mset (map fst (sy_answers s')) = mset [0..<sy_issued s]"
proof -
  have "cache_inv s' \<and> sy_issued s' = sy_issued s"
    using assms(2) cache_reachable_inv [OF assms(1)]
    by (induction rule: rtranclp_induct) (auto simp: cache_progress_issued intro: cache_inv_progress)
  then show ?thesis
    using cache_idle [OF assms(3)] cache_progress_wf idle_no_receivers [of "sy_cache s'"]
    by (simp add: cache_inv_def)
qed

theorem cache_answers_all_witness:
  "let key = ProjectKey ''a94ae32be2584e0bbd7a4cbb95971fee'';
       s = sys_get example_config 0 key True (sys_get example_config 0 key False system_init);
       s' = sys_finish example_config 2 0 (key, False) None (sys_deliver 1 (key, False) s)
   in mset (map fst (sy_answers s')) = {#0, 1#}"
proof -
  define key :: project_key where "key = ProjectKey ''a94ae32be2584e0bbd7a4cbb95971fee''"
  define s where "s = sys_get example_config 0 key True (sys_get example_config 0 key False system_init)"
  define m where "m = sys_deliver 1 (key, False) s"
  define s' where "s' = sys_finish example_config 2 0 (key, False) None m"
  note evals = sys_get_def handle_get_project_state_def get_or_fetch_state_def throttle_no_cache_def elapsed_def
    duration_from_secs_def nanos_per_sec_def cached_state_def request_channel_def state_channel_new_def get_or_create_project_def project_new_def
    put_project_def system_request_def system_init_def
  have mailbox: "sy_mailbox s = [(key, False)]" "sy_running s = []" "sy_issued s = 2"
    by (simp_all add: s_def evals)
  then have run: "sy_mailbox m = []" "sy_running m = [(key, False)]"
    by (simp_all add: m_def sys_deliver_def)
  then have idle: "sy_mailbox s' = []" "sy_running s' = []"
    by (simp_all add: s'_def sys_finish_def split: prod.splits)
  have "cache_progress example_config s m" "cache_progress example_config m s'"
    unfolding m_def s'_def by (rule cache_progress.intros, simp add: mailbox run flip: m_def)+
  then have steps: "(cache_progress example_config)\<^sup>*\<^sup>* s s'"
    by (meson r_into_rtranclp rtranclp.rtrancl_into_rtrancl)
  have reach: "cache_reachable (undefined :: nat filter_ext) example_config ({} :: (nat, nat, nat, nat) envelope set) s"
    unfolding s_def by (intro cache_reachable.init cache_reachable.get)
  have "\<nexists>s''. cache_progress example_config s' s''"
    by (auto simp: idle elim!: cache_progress.cases)
  from cache_answers_all [OF reach steps this] mailbox(3)
  have "mset (map fst (sy_answers s')) = mset [0..<2]" by (simp del: mset_upt)
  moreover have "mset [0..<2] = {#0, 1#}" by (simp add: upt_rec del: mset_upt)
  ultimately show ?thesis by (simp add: Let_def flip: key_def s_def m_def s'_def)
qed

text \<open>A request that skips caches and is not throttled waits until a fetch that skips caches
  ends: it is never served from the cached state, the result of a fetch that may use caches
  is discarded and answers nobody, and the first result of a fetch without caches answers
  the request with exactly that result and becomes the new state.\<close>

lemma no_cache_not_downgraded:
  assumes "get_or_fetch_state now c w True p = (r, p', requests)"
    and "duration_from_secs 1 \<le> elapsed now (pj_last_no_cache p)"
  shows "r = Future w \<and>
         update_state now2 c addr res False p' = (p', [], []) \<and>
         (case update_state now2 c addr res True p' of
            (q, answers, msgs) \<Rightarrow>
              pj_state_channel q = None \<and> pj_state q = res \<and>
              (w, case res of Some st \<Rightarrow> Inr st | None \<Rightarrow> Inl FetchFailed) \<in> set answers)"
proof -
  obtain ch rs where rc: "request_channel True (pj_state_channel p) = (ch, rs)" by fastforce
  have nc: "ch_no_cache ch" using request_channel_no_cache [OF rc] .
  have p': "r = Future w" "pj_state_channel p' = Some (ch\<lparr>ch_receivers := ch_receivers ch @ [w]\<rparr>)"
    using assms rc by (auto simp: get_or_fetch_state_def throttle_no_cache_def cached_state_def split: option.splits)
  obtain q answers msgs where u: "update_state now2 c addr res True p' = (q, answers, msgs)" by (metis prod_cases3)
  from u have "pj_state_channel q = None \<and> (w, case res of Some st \<Rightarrow> Inr st | None \<Rightarrow> Inl FetchFailed) \<in> set answers"
    by (cases rule: update_state_cases) (auto simp: p')
  then show ?thesis
    using p' nc u update_state_result [OF u p'(2)] by (simp add: update_state_def)
qed

section \<open>Checking envelopes\<close>

lemma cached_execute_total:
  "\<exists>enf ls. execute (quotas_check now limits quotas) summary sc s = (Inr (enf, ls), s)"
  by (auto simp: execute_def execute_event_def execute_attachments_def execute_sessions_def quotas_check_def
      Let_def split: option.splits)

lemma cached_enforce:
  "\<exists>enf ls. enforce (limiter_new (quotas_check now limits quotas)) sc e s =
       ((Inr (enf, ls), retain_items (retain_item enf) e, s) :: ('e + _) \<times> _) \<and>
     limits_apply sc (reported_categories (summary_compute e)) ls"
proof -
  have "\<exists>enf ls. execute (quotas_check now limits quotas) (summary_compute e) sc s = ((Inr (enf, ls), s) :: ('e + _) \<times> _)"
    by (rule cached_execute_total)
  then obtain enf ls where
    x: "execute (quotas_check now limits quotas) (summary_compute e) sc s = ((Inr (enf, ls), s) :: ('e + _) \<times> _)"
    by blast
  from cached.execute_limits [OF x] show ?thesis
    by (simp add: enforce_effective limiter_new_def effective_summary_def x)
qed

text \<open>C20: an envelope is rejected exactly when the project is known and refuses the request, and then
  nothing changes. Otherwise the project's expired limits are dropped and the response has
  only limits that apply to what the envelope contains; an envelope that is passed on is
  not empty, keeps its headers, and has items of the original, in order and at most marked
  as rate limited.\<close>

theorem check_envelope_sound:
  assumes "check_envelope fx now system_now c e p = (response, p', outcomes)"
  shows "case cer_result response of
           Inl reason \<Rightarrow>
             (\<exists>st. pj_state p = Some st \<and> check_request fx now c st (eh_meta (env_headers e)) = Inl reason) \<and>
             p' = p \<and> outcomes = []
         | Inr checked \<Rightarrow>
             (\<forall>st. pj_state p = Some st \<longrightarrow> check_request fx now c st (eh_meta (env_headers e)) = Inr ()) \<and>
             p' = p\<lparr>pj_rate_limits := clean_expired now (pj_rate_limits p)\<rparr> \<and>
             limits_apply (cer_scoping response) (reported_categories (summary_compute e)) (chk_rate_limits checked) \<and>
             (\<forall>e'. chk_envelope checked = Some e' \<longrightarrow>
                env_items e' \<noteq> [] \<and> env_headers e' = env_headers e \<and>
                subseq (map (set_rate_limited True) (env_items e')) (map (set_rate_limited True) (env_items e)))"
proof -
  let ?sc = "project_scope_request p (eh_meta (env_headers e))"
  let ?p = "p\<lparr>pj_rate_limits := clean_expired now (pj_rate_limits p)\<rparr>"
  let ?quotas = "case pj_state p of Some st \<Rightarrow> pc_quotas (st_config st) | None \<Rightarrow> []"
  let ?check = "case pj_state p of Some st \<Rightarrow> check_request fx now c st (eh_meta (env_headers e)) | None \<Rightarrow> Inr ()"
  have "\<exists>enf ls. enforce (limiter_new (quotas_check now (pj_rate_limits ?p) ?quotas)) ?sc e () =
        ((Inr (enf, ls), retain_items (retain_item enf) e, ()) :: (discard_reason + _) \<times> _) \<and>
      limits_apply ?sc (reported_categories (summary_compute e)) ls"
    by (rule cached_enforce)
  then obtain enf ls where x: "enforce (limiter_new (quotas_check now (pj_rate_limits ?p) ?quotas)) ?sc e () =
      ((Inr (enf, ls), retain_items (retain_item enf) e, ()) :: (discard_reason + _) \<times> _)"
    and ls: "limits_apply ?sc (reported_categories (summary_compute e)) ls"
    by blast
  show ?thesis
  proof (cases ?check)
    case (Inl reason)
    then have "check_envelope fx now system_now c e p = (\<lparr>cer_result = Inl reason, cer_scoping = ?sc\<rparr>, p, [])"
      by (simp add: check_envelope_def check_envelope_scoped_def)
    then show ?thesis using assms Inl by (auto split: option.splits)
  next
    case (Inr u)
    let ?e = "retain_items (retain_item enf) e"
    have "check_envelope fx now system_now c e p =
        (\<lparr>cer_result = Inr \<lparr>chk_envelope = (if env_items ?e = [] then None else Some ?e), chk_rate_limits = ls\<rparr>,
          cer_scoping = ?sc\<rparr>, ?p, track_outcomes now system_now enf ?e ?sc)"
      using x Inr by (simp add: check_envelope_def check_envelope_scoped_def Let_def)
    then show ?thesis
      using assms ls Inr retain_items_subseq [of enf e]
      by (auto split: option.splits if_splits)
  qed
qed

theorem check_envelope_sound_witness:
  "let p = project_new 0 (ProjectKey ''a94ae32be2584e0bbd7a4cbb95971fee'');
       r = check_envelope (undefined :: nat filter_ext) 5 5 example_config (minidump_envelope [example_minidump])
             (p\<lparr>pj_rate_limits := deny DC_Error\<rparr>)
   in \<exists>checked. cer_result (fst r) = Inr checked \<and>
        limits_apply (cer_scoping (fst r)) {DC_Error} (chk_rate_limits checked)"
proof -
  let ?p = "(project_new 0 (ProjectKey ''a94ae32be2584e0bbd7a4cbb95971fee''))\<lparr>pj_rate_limits := deny DC_Error\<rparr>"
  let ?e = "minidump_envelope [example_minidump]"
  obtain r p' outcomes where k: "check_envelope (undefined :: nat filter_ext) 5 5 example_config ?e ?p = (r, p', outcomes)"
    by (metis prod_cases3)
  have cats: "reported_categories (summary_compute ?e) = {DC_Error}"
    by (simp add: limiter_eval reported_categories_def)
  have st: "pj_state ?p = None" by (simp add: project_new_def)
  from check_envelope_sound [OF k] st cats show ?thesis
    by (cases "cer_result r") (simp_all add: k Let_def)
qed

section \<open>Aggregators\<close>

text \<open>An aggregator that was marked unavailable stays unavailable: no new project state brings it
  back, and metrics and buckets of the project are dropped from then on.\<close>

lemma aggregator_stays_unavailable:
  assumes "pj_aggregator p = AS_Unavailable"
  shows "pj_aggregator (fst (update_state now c addr res nc p)) = AS_Unavailable \<and>
         project_insert_metrics c addr metrics p = (p, []) \<and>
         project_merge_buckets c addr buckets p = (p, [])"
proof -
  have "pj_aggregator (fst (update_aggregator now c addr q)) = AS_Unavailable" if "pj_aggregator q = AS_Unavailable" for q
    using that by (simp add: update_aggregator_def get_or_create_aggregator_def Let_def split: option.splits)
  then have "pj_aggregator q' = AS_Unavailable" if "update_aggregator now c addr q = (q', msgs)" "pj_aggregator q = AS_Unavailable"
    for q q' msgs using that by (metis fst_conv)
  then show ?thesis
    using assms by (auto simp: update_state_def project_insert_metrics_def project_merge_buckets_def
        get_or_create_aggregator_def split: option.splits prod.splits)
qed

end
