(* ===== verification/Batched_Fetch.thy ===== *)
theory Batched_Fetch
  imports Project_Cache
begin

text \<open>
  What the upstream project source and the relay key cache share: the retry backoff of
  \<open>relay-common/src/retry.rs\<close>, whose counter is also the flag that a fetch is scheduled, and
  the protocol around it. Requests register channels and schedule a fetch if none is
  scheduled; a timer takes channels and starts the fetch; its end answers channels or puts
  them back and schedules again. The protocol is the system \<open>fetcher_reachable\<close> over the
  operations of the actor, and the locale \<open>batched_fetcher\<close> has the laws the actor owes it.
\<close>

section \<open>Retry backoff\<close>

text \<open>
  The crate \<open>backoff\<close> is a parameter: its reset and its next interval, which is missing once
  the configured maximum of elapsed time has passed.
\<close>

record 'b backoff_ext =
  be_reset :: "'b \<Rightarrow> 'b"
  be_next :: "'b \<Rightarrow> duration option \<times> 'b"

record 'b retry_backoff =
  rb_backoff :: 'b
  rb_attempt :: nat

definition retry_backoff_new :: "'b \<Rightarrow> 'b retry_backoff" where
  "retry_backoff_new backoff = \<lparr>rb_backoff = backoff, rb_attempt = 0\<rparr>"

definition backoff_reset :: "'b backoff_ext \<Rightarrow> 'b retry_backoff \<Rightarrow> 'b retry_backoff" where
  "backoff_reset bx b = \<lparr>rb_backoff = be_reset bx (rb_backoff b), rb_attempt = 0\<rparr>"

definition backoff_started :: "'b retry_backoff \<Rightarrow> bool" where
  "backoff_started b \<longleftrightarrow> rb_attempt b > 0"

text \<open>\<open>None\<close> is the panic of \<open>unwrap\<close>.\<close>

definition next_backoff :: "'b backoff_ext \<Rightarrow> 'b retry_backoff \<Rightarrow> (duration \<times> 'b retry_backoff) option" where
  "next_backoff bx b =
     (if rb_attempt b = 0 then Some (0, b\<lparr>rb_attempt := rb_attempt b + 1\<rparr>)
      else (case be_next bx (rb_backoff b) of
              (None, _) \<Rightarrow> None
            | (Some d, backoff) \<Rightarrow> Some (d, \<lparr>rb_backoff = backoff, rb_attempt = rb_attempt b + 1\<rparr>)))"

text \<open>
  Without a maximum of elapsed time, which is how the code configures it, the crate always
  has a next interval.
\<close>

definition backoff_unlimited :: "'b backoff_ext \<Rightarrow> bool" where
  "backoff_unlimited bx \<longleftrightarrow> (\<forall>b. fst (be_next bx b) \<noteq> None)"

lemma next_backoff_started: "next_backoff bx b = Some (d, b') \<Longrightarrow> backoff_started b'"
  by (auto simp: next_backoff_def backoff_started_def split: if_splits prod.splits option.splits)

lemma next_backoff_total:
  assumes "backoff_unlimited bx"
  shows "\<exists>d b'. next_backoff bx b = Some (d, b')"
proof -
  from assms have "fst (be_next bx (rb_backoff b)) \<noteq> None" by (simp add: backoff_unlimited_def)
  then obtain d backoff where "be_next bx (rb_backoff b) = (Some d, backoff)"
    by (cases "be_next bx (rb_backoff b)") auto
  then show ?thesis by (simp add: next_backoff_def)
qed

lemma backoff_reset_started [simp]: "\<not> backoff_started (backoff_reset bx b)"
  by (simp add: backoff_reset_def backoff_started_def)

lemma next_backoff_reset [simp]:
  "next_backoff bx (backoff_reset bx b) = Some (0, \<lparr>rb_backoff = be_reset bx (rb_backoff b), rb_attempt = 1\<rparr>)"
  by (simp add: next_backoff_def backoff_reset_def)

section \<open>The fetch protocol\<close>

text \<open>
  The actor's state with the timers that are scheduled and the fetches in flight. A request
  and the end of a fetch return the delay of the timer they schedule, if any; starting a
  fetch returns the fetch, if there is anything to fetch.
\<close>

record ('s, 'f) fetcher =
  ft_actor :: 's
  ft_timers :: "duration list"
  ft_running :: "'f list"

inductive fetcher_reachable ::
  "('m \<Rightarrow> 's \<Rightarrow> ('s \<times> duration option) option) \<Rightarrow> ('x \<Rightarrow> 's \<Rightarrow> ('s \<times> 'f option) option) \<Rightarrow>
   ('r \<Rightarrow> 'f \<Rightarrow> 's \<Rightarrow> ('s \<times> duration option) option) \<Rightarrow> 's \<Rightarrow> ('s, 'f) fetcher \<Rightarrow> bool"
  for request begin_fetch end_fetch init where
  init: "fetcher_reachable request begin_fetch end_fetch init
           \<lparr>ft_actor = init, ft_timers = [], ft_running = []\<rparr>"
| request: "fetcher_reachable request begin_fetch end_fetch init s \<Longrightarrow>
    request m (ft_actor s) = Some (a, timer) \<Longrightarrow>
    fetcher_reachable request begin_fetch end_fetch init
      (s\<lparr>ft_actor := a, ft_timers := ft_timers s @ (case timer of Some d \<Rightarrow> [d] | None \<Rightarrow> [])\<rparr>)"
| timer: "fetcher_reachable request begin_fetch end_fetch init s \<Longrightarrow> d \<in> set (ft_timers s) \<Longrightarrow>
    begin_fetch x (ft_actor s) = Some (a, fetch) \<Longrightarrow>
    fetcher_reachable request begin_fetch end_fetch init
      \<lparr>ft_actor = a, ft_timers = remove1 d (ft_timers s),
       ft_running = ft_running s @ (case fetch of Some f \<Rightarrow> [f] | None \<Rightarrow> [])\<rparr>"
| finished: "fetcher_reachable request begin_fetch end_fetch init s \<Longrightarrow> f \<in> set (ft_running s) \<Longrightarrow>
    end_fetch r f (ft_actor s) = Some (a, timer) \<Longrightarrow>
    fetcher_reachable request begin_fetch end_fetch init
      \<lparr>ft_actor = a, ft_timers = ft_timers s @ (case timer of Some d \<Rightarrow> [d] | None \<Rightarrow> []),
       ft_running = remove1 f (ft_running s)\<rparr>"

text \<open>
  The laws: a request schedules exactly if nothing has started, and registers a channel only
  in a started actor; a timer always finds channels to fetch; the end of a fetch schedules
  and leaves the actor started exactly if channels wait.
\<close>

locale batched_fetcher =
  fixes started :: "'s \<Rightarrow> bool" and waiting :: "'s \<Rightarrow> bool" and nonempty :: "'f \<Rightarrow> bool"
    and request :: "'m \<Rightarrow> 's \<Rightarrow> ('s \<times> duration option) option"
    and begin_fetch :: "'x \<Rightarrow> 's \<Rightarrow> ('s \<times> 'f option) option"
    and end_fetch :: "'r \<Rightarrow> 'f \<Rightarrow> 's \<Rightarrow> ('s \<times> duration option) option"
    and init :: 's
  assumes init_idle: "\<not> started init" "\<not> waiting init"
    and request_schedules: "request m a = Some (a', Some d) \<Longrightarrow> \<not> started a \<and> started a' \<and> waiting a'"
    and request_keeps: "request m a = Some (a', None) \<Longrightarrow> started a' = started a"
    and request_waiting: "request m a = Some (a', timer) \<Longrightarrow> waiting a \<Longrightarrow> waiting a'"
    and request_started: "request m a = Some (a', timer) \<Longrightarrow> waiting a' \<Longrightarrow> waiting a \<or> started a'"
    and begin_some: "begin_fetch x a = Some (a', fetch) \<Longrightarrow> waiting a \<Longrightarrow>
          (\<exists>f. fetch = Some f \<and> nonempty f) \<and> started a' = started a"
    and end_schedules: "end_fetch r f a = Some (a', timer) \<Longrightarrow> nonempty f \<Longrightarrow>
          (timer \<noteq> None \<longleftrightarrow> waiting a') \<and> started a' = waiting a'"
begin

definition fetcher_inv :: "('s, 'f) fetcher \<Rightarrow> bool" where
  "fetcher_inv s \<longleftrightarrow>
     length (ft_timers s) + length (ft_running s) = (if started (ft_actor s) then 1 else 0) \<and>
     (waiting (ft_actor s) \<longrightarrow> started (ft_actor s)) \<and>
     (ft_timers s \<noteq> [] \<longrightarrow> waiting (ft_actor s)) \<and>
     (\<forall>f \<in> set (ft_running s). nonempty f)"

lemma inv_request:
  assumes "fetcher_inv s" and "request m (ft_actor s) = Some (a, timer)"
  shows "fetcher_inv (s\<lparr>ft_actor := a, ft_timers := ft_timers s @ (case timer of Some d \<Rightarrow> [d] | None \<Rightarrow> [])\<rparr>)"
proof (cases timer)
  case None
  with assms request_keeps [of m "ft_actor s" a] request_waiting [OF assms(2)] request_started [OF assms(2)]
  show ?thesis by (auto simp: fetcher_inv_def)
next
  case (Some d)
  with assms request_schedules [of m "ft_actor s" a d] show ?thesis by (auto simp: fetcher_inv_def)
qed

lemma inv_timer:
  assumes "fetcher_inv s" and "d \<in> set (ft_timers s)" and "begin_fetch x (ft_actor s) = Some (a, fetch)"
  shows "fetcher_inv \<lparr>ft_actor = a, ft_timers = remove1 d (ft_timers s),
           ft_running = ft_running s @ (case fetch of Some f \<Rightarrow> [f] | None \<Rightarrow> [])\<rparr>"
proof -
  have w: "waiting (ft_actor s)" "started (ft_actor s)" using assms(1,2) by (auto simp: fetcher_inv_def)
  from begin_some [OF assms(3) w(1)] obtain f where f: "fetch = Some f" "nonempty f" "started a" using w by auto
  have "length (ft_timers s) > 0" using assms(2) by (auto dest: length_pos_if_in_set)
  moreover have "length (ft_timers s) + length (ft_running s) = 1" using assms(1) w by (simp add: fetcher_inv_def)
  ultimately have "ft_timers s = [d]" "ft_running s = []"
    using assms(2) by (cases "ft_timers s"; auto)+
  then show ?thesis using f by (simp add: fetcher_inv_def)
qed

lemma inv_finished:
  assumes "fetcher_inv s" and "f \<in> set (ft_running s)" and "end_fetch r f (ft_actor s) = Some (a, timer)"
  shows "fetcher_inv \<lparr>ft_actor = a, ft_timers = ft_timers s @ (case timer of Some d \<Rightarrow> [d] | None \<Rightarrow> []),
           ft_running = remove1 f (ft_running s)\<rparr>"
proof -
  have "length (ft_running s) > 0" using assms(2) by (auto dest: length_pos_if_in_set)
  moreover have "length (ft_timers s) + length (ft_running s) \<le> 1" using assms(1) by (simp add: fetcher_inv_def)
  ultimately have "ft_timers s = []" "ft_running s = [f]"
    using assms(2) by (cases "ft_running s"; auto)+
  moreover have "nonempty f" using assms(1,2) by (auto simp: fetcher_inv_def)
  ultimately show ?thesis
    using end_schedules [OF assms(3)] by (cases timer) (auto simp: fetcher_inv_def)
qed

lemma reachable_inv: "fetcher_reachable request begin_fetch end_fetch init s \<Longrightarrow> fetcher_inv s"
proof (induction rule: fetcher_reachable.induct)
  case init
  then show ?case by (simp add: fetcher_inv_def init_idle)
qed (blast intro: inv_request inv_timer inv_finished)+

text \<open>Exactly one timer or fetch is under way while the actor is started, and none otherwise.\<close>

lemma one_fetch:
  assumes "fetcher_reachable request begin_fetch end_fetch init s"
  shows "length (ft_timers s) + length (ft_running s) = (if started (ft_actor s) then 1 else 0)"
  using reachable_inv [OF assms] by (simp add: fetcher_inv_def)

text \<open>While a channel waits, a timer or a fetch that serves it is under way.\<close>

lemma not_stuck:
  assumes "fetcher_reachable request begin_fetch end_fetch init s" and "waiting (ft_actor s)"
  shows "ft_timers s \<noteq> [] \<or> ft_running s \<noteq> []"
  using reachable_inv [OF assms(1)] assms(2) by (auto simp: fetcher_inv_def)

text \<open>A timer never fires without channels to fetch.\<close>

lemma timer_useful:
  assumes "fetcher_reachable request begin_fetch end_fetch init s" and "ft_timers s \<noteq> []"
    and "begin_fetch x (ft_actor s) = Some (a, fetch)"
  shows "fetch \<noteq> None"
  using reachable_inv [OF assms(1)] assms(2) begin_some [OF assms(3)] by (auto simp: fetcher_inv_def)

end

end
