(* ===== verification/Upstream_Relay.thy ===== *)
theory Upstream_Relay
  imports Batched_Fetch
begin

text \<open>
  The upstream actor (\<open>relay-server/src/actors/upstream.rs\<close>): authentication with the upstream
  and its renewal, network outage detection with its check loop, two request queues by
  priority with a bound on requests in flight, retries, and the classification of
  responses. The HTTP client is the environment: a sent request is an action, and its
  response arrives as an event. Timers and messages to the actor itself are actions, too.
\<close>

section \<open>Errors and responses\<close>

datatype http_error = HE_Overflow | HE_Reqwest (he_is_timeout: bool) | HE_Io | HE_Json | HE_Custom

definition http_is_network_error :: "http_error \<Rightarrow> bool" where
  "http_is_network_error err =
     (case err of
        HE_Io \<Rightarrow> True
      | HE_Reqwest is_timeout \<Rightarrow> is_timeout
      | HE_Json \<Rightarrow> False
      | HE_Overflow \<Rightarrow> False
      | HE_Custom \<Rightarrow> False)"

datatype relay_error_action = REA_Stop | REA_None

record upstream_rate_limits =
  url_retry_after :: retry_after
  url_rate_limits :: string

datatype upstream_request_error =
    UE_NoCredentials
  | UE_SendFailed
  | UE_Http http_error
  | UE_RateLimited upstream_rate_limits
  | UE_ResponseError nat relay_error_action
  | UE_ChannelClosed

definition is_network_error :: "upstream_request_error \<Rightarrow> bool" where
  "is_network_error err =
     (case err of
        UE_SendFailed \<Rightarrow> True
      | UE_ResponseError code _ \<Rightarrow> code \<in> {502, 503, 504}
      | UE_Http http \<Rightarrow> http_is_network_error http
      | _ \<Rightarrow> False)"

definition is_permanent_rejection :: "upstream_request_error \<Rightarrow> bool" where
  "is_permanent_rejection err =
     (case err of UE_ResponseError status action \<Rightarrow> status = 403 \<and> action = REA_Stop | _ \<Rightarrow> False)"

definition is_received :: "upstream_request_error \<Rightarrow> bool" where
  "is_received err =
     (case err of
        UE_RateLimited _ \<Rightarrow> True
      | UE_ResponseError _ _ \<Rightarrow> \<not> is_network_error err
      | UE_Http _ \<Rightarrow> \<not> is_network_error err
      | UE_NoCredentials \<Rightarrow> False
      | UE_SendFailed \<Rightarrow> False
      | UE_ChannelClosed \<Rightarrow> False)"

definition upstream_rate_limits_new :: "instant \<Rightarrow> upstream_rate_limits" where
  "upstream_rate_limits_new now = \<lparr>url_retry_after = retry_after_from_secs now 0, url_rate_limits = ''''\<rparr>"

definition with_retry_after :: "instant \<Rightarrow> string option \<Rightarrow> upstream_rate_limits \<Rightarrow> upstream_rate_limits" where
  "with_retry_after now header limits =
     (case Option.bind header (retry_after_from_str now) of
        Some retry_after \<Rightarrow> limits\<lparr>url_retry_after := retry_after\<rparr>
      | None \<Rightarrow> limits)"

definition with_rate_limits :: "string \<Rightarrow> upstream_rate_limits \<Rightarrow> upstream_rate_limits" where
  "with_rate_limits header limits = limits\<lparr>url_rate_limits := header\<rparr>"

definition limits_scope :: "instant \<Rightarrow> scoping \<Rightarrow> upstream_rate_limits \<Rightarrow> rate_limits" where
  "limits_scope now sc limits =
     (let ls = parse_rate_limits now sc (url_rate_limits limits) in
      if \<not> is_limited now ls
      then rate_limits_add ls
             \<lparr>limit_categories = [], limit_scope = rate_limit_scope_for_quota sc QS_Key, limit_reason_code = None,
              limit_retry_after = url_retry_after limits\<rparr>
      else ls)"

text \<open>
  A response: its status, the headers the actor reads, where only valid UTF-8 counts, and
  the relay action of its JSON body, if that parses.
\<close>

record upstream_response =
  res_status :: nat
  res_retry_after :: "string option"
  res_rate_limits :: "string option list"
  res_json :: "relay_error_action option"

definition status_is_success :: "nat \<Rightarrow> bool" where
  "status_is_success status \<longleftrightarrow> 200 \<le> status \<and> status < 300"

fun join_sep :: "string \<Rightarrow> string list \<Rightarrow> string" where
  "join_sep sep [] = []"
| "join_sep sep [s] = s"
| "join_sep sep (s # rest) = s @ sep @ join_sep sep rest"

definition handle_response ::
  "instant \<Rightarrow> upstream_response \<Rightarrow> bool \<Rightarrow> upstream_request_error + upstream_response" where
  "handle_response now response intercept_status_errors =
     (let status = res_status response in
      if \<not> intercept_status_errors \<or> status_is_success status then Inr response
      else if status = 429
      then Inl (UE_RateLimited
                  (with_rate_limits (join_sep '', '' (List.map_filter id (res_rate_limits response)))
                    (with_retry_after now (res_retry_after response) (upstream_rate_limits_new now))))
      else Inl (UE_ResponseError status
                  (case res_json response of Some action \<Rightarrow> action | None \<Rightarrow> REA_None)))"

section \<open>Requests\<close>

datatype auth_state = Unknown | Registering | Registered | Renewing | Denied

definition is_authenticated :: "auth_state \<Rightarrow> bool" where
  "is_authenticated a \<longleftrightarrow> a = Registered \<or> a = Renewing"

datatype enqueue_position = EP_Front | EP_Back

datatype request_priority = RP_Immediate | RP_High | RP_Low

definition priority_name :: "request_priority \<Rightarrow> string" where
  "priority_name p = (case p of RP_Immediate \<Rightarrow> ''immediate'' | RP_High \<Rightarrow> ''high'' | RP_Low \<Rightarrow> ''low'')"

record request_config =
  urc_priority :: request_priority
  urc_retry :: bool
  urc_intercept_status_errors :: bool
  urc_set_relay_id :: bool

text \<open>
  Who waits for the response: a client, the connection check, or the two steps of the
  registration with the interval of its backoff.
\<close>

datatype request_kind = RK_Client | RK_Check | RK_Challenge duration | RK_Register duration

record upstream_request =
  rq_id :: nat
  rq_config :: request_config
  rq_kind :: request_kind
  rq_path :: string
  rq_build_error :: "upstream_request_error option"
  rq_previous_retries :: nat

definition contains_str :: "string \<Rightarrow> string \<Rightarrow> bool" where
  "contains_str s part \<longleftrightarrow> sublist part s"

definition route_name :: "upstream_request \<Rightarrow> string" where
  "route_name r =
     (if contains_str (rq_path r) ''/outcomes/'' then ''outcomes''
      else if contains_str (rq_path r) ''/envelope/'' then ''envelope''
      else if contains_str (rq_path r) ''/projectids/'' then ''project_ids''
      else if contains_str (rq_path r) ''/projectconfigs/'' then ''project_configs''
      else if contains_str (rq_path r) ''/publickeys/'' then ''public_keys''
      else if contains_str (rq_path r) ''/challenge/'' then ''challenge''
      else if contains_str (rq_path r) ''/response/'' then ''response''
      else if contains_str (rq_path r) ''/live/'' then ''check_live''
      else ''unknown'')"

definition retries_bucket :: "upstream_request \<Rightarrow> string" where
  "retries_bucket r =
     (let n = rq_previous_retries r in
      if n = 0 then ''0'' else if n = 1 then ''1'' else if n = 2 then ''2''
      else if 3 \<le> n \<and> n \<le> 10 then ''few'' else ''many'')"

section \<open>The actor\<close>

record 'b upstream_relay =
  up_auth_backoff :: "'b retry_backoff"
  up_auth_state :: auth_state
  up_outage_backoff :: "'b retry_backoff"
  up_first_error :: "instant option"
  up_max_inflight :: nat
  up_num_inflight :: nat
  up_high :: "upstream_request list"
  up_low :: "upstream_request list"

type_synonym send_result = "upstream_request_error + upstream_response"

datatype upstream_action =
    Send upstream_request
  | Answer upstream_request send_result
  | Pump
  | CheckLater duration
  | AuthLater duration

definition upstream_relay_new :: "'b \<Rightarrow> relay_config \<Rightarrow> 'b upstream_relay" where
  "upstream_relay_new backoff c =
     \<lparr>up_auth_backoff = retry_backoff_new backoff, up_auth_state = Unknown,
      up_outage_backoff = retry_backoff_new backoff, up_first_error = None,
      up_max_inflight = max_concurrent_requests c, up_num_inflight = 0, up_high = [], up_low = []\<rparr>"

definition should_authenticate :: "relay_config \<Rightarrow> bool" where
  "should_authenticate c \<longleftrightarrow> cfg_relay_mode c = RM_Managed"

definition renew_auth_interval :: "relay_config \<Rightarrow> 'b upstream_relay \<Rightarrow> duration option" where
  "renew_auth_interval c u =
     (if should_authenticate c \<and> \<not> processing_enabled c \<and> up_auth_state u \<noteq> Denied
      then http_auth_interval c else None)"

definition should_renew_auth :: "relay_config \<Rightarrow> 'b upstream_relay \<Rightarrow> bool" where
  "should_renew_auth c u \<longleftrightarrow> renew_auth_interval c u \<noteq> None"

definition is_network_outage :: "'b upstream_relay \<Rightarrow> bool" where
  "is_network_outage u = backoff_started (up_outage_backoff u)"

definition auth_state_error :: "relay_config \<Rightarrow> 'b upstream_relay \<Rightarrow> bool" where
  "auth_state_error c u \<longleftrightarrow>
     \<not> should_authenticate c \<or> up_auth_state u = Registered \<and> \<not> should_renew_auth c u \<or>
     up_auth_state u = Denied"

definition is_ready :: "relay_config \<Rightarrow> 'b upstream_relay \<Rightarrow> bool" where
  "is_ready c u =
     (if is_network_outage u then False
      else (case up_auth_state u of
              Registering \<Rightarrow> False
            | Denied \<Rightarrow> False
            | Unknown \<Rightarrow> \<not> should_authenticate c
            | Registered \<Rightarrow> True
            | Renewing \<Rightarrow> True))"

definition reset_network_error :: "'b backoff_ext \<Rightarrow> 'b upstream_relay \<Rightarrow> 'b upstream_relay" where
  "reset_network_error bx u =
     u\<lparr>up_first_error := None, up_outage_backoff := backoff_reset bx (up_outage_backoff u)\<rparr>"

definition upstream_connection_check ::
  "'b backoff_ext \<Rightarrow> 'b upstream_relay \<Rightarrow> ('b upstream_relay \<times> upstream_action list) option" where
  "upstream_connection_check bx u =
     (case next_backoff bx (up_outage_backoff u) of
        None \<Rightarrow> None
      | Some (d, b) \<Rightarrow> Some (u\<lparr>up_outage_backoff := b\<rparr>, [CheckLater d]))"

definition handle_network_error ::
  "'b backoff_ext \<Rightarrow> instant \<Rightarrow> relay_config \<Rightarrow> 'b upstream_relay \<Rightarrow>
   ('b upstream_relay \<times> upstream_action list) option" where
  "handle_network_error bx now c u =
     (let first_error = (case up_first_error u of Some t \<Rightarrow> t | None \<Rightarrow> now);
          u1 = u\<lparr>up_first_error := Some first_error\<rparr>
      in if first_error + int (http_outage_grace_period c) > now then Some (u1, [])
         else if \<not> backoff_started (up_outage_backoff u1) then upstream_connection_check bx u1
         else Some (u1, []))"

definition send_request :: "upstream_request \<Rightarrow> 'b upstream_relay \<Rightarrow> 'b upstream_relay \<times> upstream_action list" where
  "send_request r u =
     (case rq_build_error r of
        Some err \<Rightarrow> (u, [Answer r (Inl err)])
      | None \<Rightarrow> (u\<lparr>up_num_inflight := up_num_inflight u + 1\<rparr>, [Send r]))"

definition enqueue ::
  "upstream_request \<Rightarrow> enqueue_position \<Rightarrow> 'b upstream_relay \<Rightarrow> 'b upstream_relay \<times> upstream_action list" where
  "enqueue r pos u =
     (case urc_priority (rq_config r) of
        RP_Immediate \<Rightarrow> send_request r u
      | RP_Low \<Rightarrow>
          (u\<lparr>up_low := (case pos of EP_Front \<Rightarrow> r # up_low u | EP_Back \<Rightarrow> up_low u @ [r])\<rparr>, [Pump])
      | RP_High \<Rightarrow>
          (u\<lparr>up_high := (case pos of EP_Front \<Rightarrow> r # up_high u | EP_Back \<Rightarrow> up_high u @ [r])\<rparr>, [Pump]))"

definition handle_http_response ::
  "'b backoff_ext \<Rightarrow> instant \<Rightarrow> relay_config \<Rightarrow> upstream_request \<Rightarrow> send_result \<Rightarrow> 'b upstream_relay \<Rightarrow>
   ('b upstream_relay \<times> upstream_action list) option" where
  "handle_http_response bx now c r result u =
     (case result of
        Inl err \<Rightarrow>
          if is_network_error err
          then (case handle_network_error bx now c u of
                  None \<Rightarrow> None
                | Some (u1, acts) \<Rightarrow>
                    if urc_retry (rq_config r)
                    then (case enqueue (r\<lparr>rq_previous_retries := rq_previous_retries r + 1\<rparr>) EP_Back u1 of
                            (u2, acts2) \<Rightarrow> Some (u2, acts @ acts2))
                    else Some (u1, acts @ [Answer r result]))
          else Some (reset_network_error bx u, [Answer r result])
      | Inr _ \<Rightarrow> Some (reset_network_error bx u, [Answer r result]))"

definition enqueue_request ::
  "nat \<Rightarrow> request_config \<Rightarrow> request_kind \<Rightarrow> string \<Rightarrow> upstream_request_error option \<Rightarrow> 'b upstream_relay \<Rightarrow>
   'b upstream_relay \<times> upstream_action list" where
  "enqueue_request rid cfg kind path build_error u =
     enqueue \<lparr>rq_id = rid, rq_config = cfg, rq_kind = kind, rq_path = path, rq_build_error = build_error,
              rq_previous_retries = 0\<rparr> EP_Front u"

text \<open>\<open>None\<close> in the second component: there are no credentials, and the query fails at once.\<close>

definition enqueue_query ::
  "relay_config \<Rightarrow> nat \<Rightarrow> bool \<Rightarrow> request_priority \<Rightarrow> request_kind \<Rightarrow> string \<Rightarrow>
   upstream_request_error option \<Rightarrow> 'b upstream_relay \<Rightarrow>
   'b upstream_relay \<times> upstream_action list option" where
  "enqueue_query c rid retry priority kind path build_error u =
     (let cfg = \<lparr>urc_priority = priority, urc_retry = retry, urc_intercept_status_errors = True,
                 urc_set_relay_id = True\<rparr>
      in (case rc_credentials c of
            None \<Rightarrow> (u, None)
          | Some _ \<Rightarrow>
              (case enqueue_request rid cfg kind path build_error u of (u', acts) \<Rightarrow> (u', Some acts))))"

text \<open>\<open>PumpHttpMessageQueue\<close>: the end of a list is the back of the queue.\<close>

function pump_loop :: "'b upstream_relay \<Rightarrow> 'b upstream_relay \<times> upstream_action list" where
  "pump_loop u =
     (if up_num_inflight u < up_max_inflight u
      then if up_high u \<noteq> []
           then (case send_request (last (up_high u)) (u\<lparr>up_high := butlast (up_high u)\<rparr>) of
                   (u1, acts) \<Rightarrow> (case pump_loop u1 of (u2, acts2) \<Rightarrow> (u2, acts @ acts2)))
           else if up_low u \<noteq> []
           then (case send_request (last (up_low u)) (u\<lparr>up_low := butlast (up_low u)\<rparr>) of
                   (u1, acts) \<Rightarrow> (case pump_loop u1 of (u2, acts2) \<Rightarrow> (u2, acts @ acts2)))
           else (u, [])
      else (u, []))"
  by pat_completeness auto
termination
  by (relation "measure (\<lambda>u. length (up_high u) + length (up_low u))")
    (auto simp: send_request_def split: option.splits)

declare pump_loop.simps [simp del]

definition handle_pump :: "relay_config \<Rightarrow> 'b upstream_relay \<Rightarrow> 'b upstream_relay \<times> upstream_action list" where
  "handle_pump c u = (if \<not> is_ready c u then (u, []) else pump_loop u)"

definition handle_tracked_finished :: "'b upstream_relay \<Rightarrow> 'b upstream_relay \<times> upstream_action list" where
  "handle_tracked_finished u = (u\<lparr>up_num_inflight := up_num_inflight u - 1\<rparr>, [Pump])"

definition check_config :: request_config where
  "check_config = \<lparr>urc_priority = RP_Immediate, urc_retry = False, urc_intercept_status_errors = True,
                   urc_set_relay_id = True\<rparr>"

definition handle_check ::
  "nat \<Rightarrow> upstream_request_error option \<Rightarrow> 'b upstream_relay \<Rightarrow> 'b upstream_relay \<times> upstream_action list" where
  "handle_check rid build_error u = enqueue_request rid check_config RK_Check ''/api/0/relays/live/'' build_error u"

definition check_finished ::
  "'b backoff_ext \<Rightarrow> upstream_request_error + unit \<Rightarrow> 'b upstream_relay \<Rightarrow>
   ('b upstream_relay \<times> upstream_action list) option" where
  "check_finished bx result u =
     (case result of
        Inl err \<Rightarrow> if is_network_error err then upstream_connection_check bx u else Some (u, [Pump])
      | Inr _ \<Rightarrow> Some (u, [Pump]))"

section \<open>Authentication\<close>

definition relay_started ::
  "'b backoff_ext \<Rightarrow> relay_config \<Rightarrow> 'b upstream_relay \<Rightarrow> 'b upstream_relay \<times> upstream_action list" where
  "relay_started bx c u =
     (u\<lparr>up_auth_backoff := backoff_reset bx (up_auth_backoff u),
        up_outage_backoff := backoff_reset bx (up_outage_backoff u)\<rparr>,
      if should_authenticate c then [AuthLater 0] else [])"

definition handle_authenticate ::
  "'b backoff_ext \<Rightarrow> relay_config \<Rightarrow> nat \<Rightarrow> upstream_request_error option \<Rightarrow> 'b upstream_relay \<Rightarrow>
   ('b upstream_relay \<times> upstream_action list) option" where
  "handle_authenticate bx c rid build_error u =
     (if auth_state_error c u \<or> rc_credentials c = None then Some (u, [])
      else
        let u1 = u\<lparr>up_auth_state := (if is_authenticated (up_auth_state u) then Renewing else Registering)\<rparr>
        in (case next_backoff bx (up_auth_backoff u1) of
              None \<Rightarrow> None
            | Some (interval, b) \<Rightarrow>
                (case enqueue_query c rid False RP_Immediate (RK_Challenge interval)
                        ''/api/0/relays/register/challenge/'' build_error (u1\<lparr>up_auth_backoff := b\<rparr>) of
                   (u2, Some acts) \<Rightarrow> Some (u2, acts)
                 | (u2, None) \<Rightarrow> Some (u2, []))))"

definition authentication_failed ::
  "upstream_request_error \<Rightarrow> duration \<Rightarrow> 'b upstream_relay \<Rightarrow> 'b upstream_relay \<times> upstream_action list" where
  "authentication_failed err interval u =
     (if is_permanent_rejection err then (u\<lparr>up_auth_state := Denied\<rparr>, [])
      else (if \<not> is_network_error err then u\<lparr>up_auth_state := Registering\<rparr> else u, [AuthLater interval]))"

definition challenge_finished ::
  "relay_config \<Rightarrow> nat \<Rightarrow> upstream_request_error option \<Rightarrow> duration \<Rightarrow> upstream_request_error + unit \<Rightarrow>
   'b upstream_relay \<Rightarrow> 'b upstream_relay \<times> upstream_action list" where
  "challenge_finished c rid build_error interval result u =
     (case result of
        Inl err \<Rightarrow> authentication_failed err interval u
      | Inr _ \<Rightarrow>
          (case enqueue_query c rid False RP_Immediate (RK_Register interval)
                  ''/api/0/relays/register/response/'' build_error u of
             (u', Some acts) \<Rightarrow> (u', acts)
           | (u', None) \<Rightarrow> authentication_failed UE_NoCredentials interval u'))"

definition register_finished ::
  "'b backoff_ext \<Rightarrow> relay_config \<Rightarrow> duration \<Rightarrow> upstream_request_error + unit \<Rightarrow> 'b upstream_relay \<Rightarrow>
   'b upstream_relay \<times> upstream_action list" where
  "register_finished bx c interval result u =
     (case result of
        Inl err \<Rightarrow> authentication_failed err interval u
      | Inr _ \<Rightarrow>
          let u' = u\<lparr>up_auth_state := Registered, up_auth_backoff := backoff_reset bx (up_auth_backoff u)\<rparr>
          in (u', (case renew_auth_interval c u' of Some d \<Rightarrow> [AuthLater d] | None \<Rightarrow> []) @ [Pump]))"

section \<open>The actor with its environment\<close>

text \<open>
  Requests with a running HTTP transfer, requests whose response is being read, pending
  messages and timers by number, answers of the internal requests that were not yet looked
  at, the number of requests so far and all answers.
\<close>

record 'b upstream_system =
  ys_relay :: "'b upstream_relay"
  ys_inflight :: "upstream_request list"
  ys_responding :: "upstream_request list"
  ys_tracked :: nat
  ys_pumps :: nat
  ys_checks :: nat
  ys_auths :: nat
  ys_waiting :: "(upstream_request \<times> send_result) list"
  ys_issued :: nat
  ys_answers :: "(nat \<times> send_result) list"

fun run_action :: "upstream_action \<Rightarrow> 'b upstream_system \<Rightarrow> 'b upstream_system" where
  "run_action (Send r) s = s\<lparr>ys_inflight := ys_inflight s @ [r]\<rparr>"
| "run_action (Answer r res) s =
     s\<lparr>ys_answers := ys_answers s @ [(rq_id r, res)],
       ys_waiting := (if rq_kind r = RK_Client then ys_waiting s else ys_waiting s @ [(r, res)])\<rparr>"
| "run_action Pump s = s\<lparr>ys_pumps := ys_pumps s + 1\<rparr>"
| "run_action (CheckLater d) s = s\<lparr>ys_checks := ys_checks s + 1\<rparr>"
| "run_action (AuthLater d) s = s\<lparr>ys_auths := ys_auths s + 1\<rparr>"

definition run_actions :: "'b upstream_relay \<times> upstream_action list \<Rightarrow> 'b upstream_system \<Rightarrow> 'b upstream_system" where
  "run_actions step s = fold run_action (snd step) (s\<lparr>ys_relay := fst step\<rparr>)"

definition upstream_system_new :: "'b backoff_ext \<Rightarrow> 'b \<Rightarrow> relay_config \<Rightarrow> 'b upstream_system" where
  "upstream_system_new bx backoff c =
     run_actions (relay_started bx c (upstream_relay_new backoff c))
       \<lparr>ys_relay = upstream_relay_new backoff c, ys_inflight = [], ys_responding = [], ys_tracked = 0, ys_pumps = 0,
        ys_checks = 0, ys_auths = 0, ys_waiting = [], ys_issued = 0, ys_answers = []\<rparr>"

text \<open>
  What the actor sees of a transfer: an error of the client, or a response it classifies.
\<close>

definition transfer_result ::
  "instant \<Rightarrow> upstream_request \<Rightarrow> upstream_request_error + upstream_response \<Rightarrow> send_result" where
  "transfer_result now r transfer =
     (case transfer of
        Inl err \<Rightarrow> Inl err
      | Inr response \<Rightarrow> handle_response now response (urc_intercept_status_errors (rq_config r)))"

text \<open>The body of a successful response is parsed or consumed, which may fail.\<close>

definition body_result :: "send_result \<Rightarrow> http_error option \<Rightarrow> upstream_request_error + unit" where
  "body_result res body_error =
     (case res of
        Inl err \<Rightarrow> Inl err
      | Inr _ \<Rightarrow> (case body_error of Some err \<Rightarrow> Inl (UE_Http err) | None \<Rightarrow> Inr ()))"

inductive upstream_step ::
  "'b backoff_ext \<Rightarrow> relay_config \<Rightarrow> 'b upstream_system \<Rightarrow> 'b upstream_system \<Rightarrow> bool"
  for bx c where
  submit: "upstream_step bx c s
    (run_actions (enqueue_request (ys_issued s) cfg RK_Client path build_error (ys_relay s))
      (s\<lparr>ys_issued := ys_issued s + 1\<rparr>))"
| pump: "ys_pumps s > 0 \<Longrightarrow>
    upstream_step bx c s (run_actions (handle_pump c (ys_relay s)) (s\<lparr>ys_pumps := ys_pumps s - 1\<rparr>))"
| transferred: "r \<in> set (ys_inflight s) \<Longrightarrow>
    upstream_step bx c s
      (s\<lparr>ys_inflight := remove1 r (ys_inflight s), ys_responding := ys_responding s @ [r],
         ys_tracked := ys_tracked s + 1\<rparr>)"
| tracked: "ys_tracked s > 0 \<Longrightarrow>
    upstream_step bx c s
      (run_actions (handle_tracked_finished (ys_relay s)) (s\<lparr>ys_tracked := ys_tracked s - 1\<rparr>))"
| respond: "r \<in> set (ys_responding s) \<Longrightarrow>
    handle_http_response bx now c r (transfer_result now r transfer) (ys_relay s) = Some step \<Longrightarrow>
    upstream_step bx c s (run_actions step (s\<lparr>ys_responding := remove1 r (ys_responding s)\<rparr>))"
| check: "ys_checks s > 0 \<Longrightarrow>
    upstream_step bx c s
      (run_actions (handle_check (ys_issued s) None (ys_relay s))
        (s\<lparr>ys_checks := ys_checks s - 1, ys_issued := ys_issued s + 1\<rparr>))"
| checked: "(r, res) \<in> set (ys_waiting s) \<Longrightarrow> rq_kind r = RK_Check \<Longrightarrow>
    check_finished bx (body_result res body_error) (ys_relay s) = Some step \<Longrightarrow>
    upstream_step bx c s (run_actions step (s\<lparr>ys_waiting := remove1 (r, res) (ys_waiting s)\<rparr>))"
| authenticate: "ys_auths s > 0 \<Longrightarrow>
    handle_authenticate bx c (ys_issued s) build_error (ys_relay s) = Some step \<Longrightarrow>
    upstream_step bx c s
      (run_actions step
        (s\<lparr>ys_auths := ys_auths s - 1,
           ys_issued := (if auth_state_error c (ys_relay s) \<or> rc_credentials c = None
                         then ys_issued s else ys_issued s + 1)\<rparr>))"
| challenged: "(r, res) \<in> set (ys_waiting s) \<Longrightarrow> rq_kind r = RK_Challenge interval \<Longrightarrow>
    upstream_step bx c s
      (run_actions
        (challenge_finished c (ys_issued s) build_error interval (body_result res body_error) (ys_relay s))
        (s\<lparr>ys_waiting := remove1 (r, res) (ys_waiting s),
           ys_issued := (case body_result res body_error of
                           Inl _ \<Rightarrow> ys_issued s
                         | Inr _ \<Rightarrow> if rc_credentials c = None then ys_issued s else ys_issued s + 1)\<rparr>))"
| registered: "(r, res) \<in> set (ys_waiting s) \<Longrightarrow> rq_kind r = RK_Register interval \<Longrightarrow>
    upstream_step bx c s
      (run_actions (register_finished bx c interval (body_result res body_error) (ys_relay s))
        (s\<lparr>ys_waiting := remove1 (r, res) (ys_waiting s)\<rparr>))"

inductive upstream_reachable ::
  "'b backoff_ext \<Rightarrow> relay_config \<Rightarrow> 'b \<Rightarrow> 'b upstream_system \<Rightarrow> bool" for bx c backoff where
  init: "upstream_reachable bx c backoff (upstream_system_new bx backoff c)"
| step: "upstream_reachable bx c backoff s \<Longrightarrow> upstream_step bx c s s' \<Longrightarrow> upstream_reachable bx c backoff s'"

section \<open>Effects of the handlers\<close>

text \<open>The requests a list of actions sends and answers, and the requests the actor holds.\<close>

fun sent :: "upstream_action list \<Rightarrow> upstream_request list" where
  "sent [] = []"
| "sent (Send r # acts) = r # sent acts"
| "sent (_ # acts) = sent acts"

fun answered :: "upstream_action list \<Rightarrow> (upstream_request \<times> send_result) list" where
  "answered [] = []"
| "answered (Answer r res # acts) = (r, res) # answered acts"
| "answered (_ # acts) = answered acts"

fun pumped :: "upstream_action list \<Rightarrow> nat" where
  "pumped [] = 0"
| "pumped (Pump # acts) = Suc (pumped acts)"
| "pumped (_ # acts) = pumped acts"

fun checks_set :: "upstream_action list \<Rightarrow> nat" where
  "checks_set [] = 0"
| "checks_set (CheckLater d # acts) = Suc (checks_set acts)"
| "checks_set (_ # acts) = checks_set acts"

lemma action_lists_append [simp]:
  "sent (xs @ ys) = sent xs @ sent ys" "answered (xs @ ys) = answered xs @ answered ys"
  "pumped (xs @ ys) = pumped xs + pumped ys" "checks_set (xs @ ys) = checks_set xs + checks_set ys"
  by (induction xs rule: sent.induct; simp)+

definition queued :: "'b upstream_relay \<Rightarrow> upstream_request list" where
  "queued u = up_high u @ up_low u"

lemma run_actions_fields:
  "ys_relay (run_actions (u, acts) s) = u"
  "ys_inflight (run_actions (u, acts) s) = ys_inflight s @ sent acts"
  "ys_answers (run_actions (u, acts) s) = ys_answers s @ map (\<lambda>(r, res). (rq_id r, res)) (answered acts)"
  "ys_waiting (run_actions (u, acts) s) = ys_waiting s @ filter (\<lambda>(r, _). rq_kind r \<noteq> RK_Client) (answered acts)"
  "ys_pumps (run_actions (u, acts) s) = ys_pumps s + pumped acts"
  "ys_checks (run_actions (u, acts) s) = ys_checks s + checks_set acts"
  "ys_responding (run_actions (u, acts) s) = ys_responding s"
  "ys_tracked (run_actions (u, acts) s) = ys_tracked s"
  "ys_issued (run_actions (u, acts) s) = ys_issued s"
proof -
  have *: "let s' = fold run_action acts s in
        ys_relay s' = ys_relay s \<and> ys_inflight s' = ys_inflight s @ sent acts \<and>
        ys_answers s' = ys_answers s @ map (\<lambda>(r, res). (rq_id r, res)) (answered acts) \<and>
        ys_waiting s' = ys_waiting s @ filter (\<lambda>(r, _). rq_kind r \<noteq> RK_Client) (answered acts) \<and>
        ys_pumps s' = ys_pumps s + pumped acts \<and> ys_checks s' = ys_checks s + checks_set acts \<and>
        ys_responding s' = ys_responding s \<and> ys_tracked s' = ys_tracked s \<and> ys_issued s' = ys_issued s"
    for s :: "'b upstream_system"
  proof (induction acts arbitrary: s)
    case (Cons a acts)
    then show ?case by (cases a) (simp_all add: Let_def)
  qed simp
  note all = * [of "s\<lparr>ys_relay := u\<rparr>", unfolded Let_def]
  show "ys_relay (run_actions (u, acts) s) = u"
    "ys_inflight (run_actions (u, acts) s) = ys_inflight s @ sent acts"
    "ys_answers (run_actions (u, acts) s) = ys_answers s @ map (\<lambda>(r, res). (rq_id r, res)) (answered acts)"
    "ys_waiting (run_actions (u, acts) s) = ys_waiting s @ filter (\<lambda>(r, _). rq_kind r \<noteq> RK_Client) (answered acts)"
    "ys_pumps (run_actions (u, acts) s) = ys_pumps s + pumped acts"
    "ys_checks (run_actions (u, acts) s) = ys_checks s + checks_set acts"
    "ys_responding (run_actions (u, acts) s) = ys_responding s"
    "ys_tracked (run_actions (u, acts) s) = ys_tracked s"
    "ys_issued (run_actions (u, acts) s) = ys_issued s"
    using all by (simp_all add: run_actions_def)
qed

text \<open>
  The contract of a handler that is given the requests \<open>rs\<close>: every request it has or is given
  is queued, sent or answered, the counter grows by the requests sent, and only client
  requests are queued.
\<close>

definition internal_immediate :: "upstream_request \<Rightarrow> bool" where
  "internal_immediate r \<longleftrightarrow>
     rq_kind r = RK_Client \<or> urc_priority (rq_config r) = RP_Immediate \<and> \<not> urc_retry (rq_config r)"

definition client_queue :: "'b upstream_relay \<Rightarrow> bool" where
  "client_queue u \<longleftrightarrow> (\<forall>r \<in> set (queued u). rq_kind r = RK_Client)"

definition ids :: "upstream_request list \<Rightarrow> nat multiset" where
  "ids rs = mset (map rq_id rs)"

lemma ids_simps [simp]: "ids [] = {#}" "ids (r # rs) = add_mset (rq_id r) (ids rs)" "ids (xs @ ys) = ids xs + ids ys"
  by (simp_all add: ids_def)

lemma ids_butlast: "xs \<noteq> [] \<Longrightarrow> ids xs = add_mset (rq_id (last xs)) (ids (butlast xs))"
  by (metis append_butlast_last_id ids_simps union_mset_add_mset_right add.right_neutral)

definition effect_ok ::
  "upstream_request list \<Rightarrow> 'b upstream_relay \<Rightarrow> 'b upstream_relay \<times> upstream_action list \<Rightarrow> bool" where
  "effect_ok rs u step \<longleftrightarrow>
     (case step of (u', acts) \<Rightarrow>
        ids (queued u') + ids (sent acts) + ids (map fst (answered acts)) = ids rs + ids (queued u) \<and>
        up_num_inflight u' = up_num_inflight u + length (sent acts) \<and>
        up_max_inflight u' = up_max_inflight u \<and>
        ((\<forall>r \<in> set rs. internal_immediate r) \<longrightarrow> client_queue u \<longrightarrow>
           client_queue u' \<and> (\<forall>r \<in> set (sent acts). internal_immediate r)))"

lemma effect_ok_refl [simp]: "effect_ok [] u (u, [])"
  by (simp add: effect_ok_def)

lemma send_request_effect: "effect_ok [r] u (send_request r u)"
  by (auto simp: effect_ok_def send_request_def queued_def client_queue_def split: option.splits)

lemma enqueue_effect: "effect_ok [r] u (enqueue r pos u)"
proof (cases "urc_priority (rq_config r) = RP_Immediate")
  case True
  then show ?thesis using send_request_effect by (simp add: enqueue_def)
next
  case False
  then show ?thesis
    by (cases "urc_priority (rq_config r)"; cases pos)
      (auto simp: effect_ok_def enqueue_def queued_def client_queue_def internal_immediate_def ac_simps)
qed

text \<open>The contract only reads the queues and the counters, so steps compose.\<close>

lemma effect_ok_cong:
  assumes "effect_ok rs u (u', acts)"
    and "queued v = queued u" "up_num_inflight v = up_num_inflight u" "up_max_inflight v = up_max_inflight u"
    and "queued v' = queued u'" "up_num_inflight v' = up_num_inflight u'" "up_max_inflight v' = up_max_inflight u'"
    and "sent acts' = sent acts" "answered acts' = answered acts"
  shows "effect_ok rs v (v', acts')"
  using assms(1) unfolding effect_ok_def client_queue_def prod.case assms(2-) .

lemma effect_ok_answer:
  assumes "queued u' = queued u" "up_num_inflight u' = up_num_inflight u" "up_max_inflight u' = up_max_inflight u"
    and "sent acts = []" "map fst (answered acts) = rs"
  shows "effect_ok rs u (u', acts)"
  using assms by (simp add: effect_ok_def client_queue_def)

text \<open>What the outage handling leaves alone.\<close>

definition same_requests :: "'b upstream_relay \<Rightarrow> 'b upstream_relay \<Rightarrow> bool" where
  "same_requests u u' \<longleftrightarrow>
     queued u' = queued u \<and> up_num_inflight u' = up_num_inflight u \<and> up_max_inflight u' = up_max_inflight u"

lemma same_requests_simps [simp]:
  "same_requests u u" "same_requests u (reset_network_error bx u)"
  "same_requests u (u\<lparr>up_auth_state := a\<rparr>)" "same_requests u (u\<lparr>up_auth_backoff := b\<rparr>)"
  "same_requests u (u\<lparr>up_auth_state := a, up_auth_backoff := b\<rparr>)"
  by (simp_all add: same_requests_def reset_network_error_def queued_def)

lemma upstream_connection_check_effect:
  assumes "upstream_connection_check bx u = Some (u', acts)"
  shows "same_requests u u'" "\<exists>d. acts = [CheckLater d]" "is_network_outage u'" "up_auth_state u' = up_auth_state u"
  using assms next_backoff_started [of bx "up_outage_backoff u"]
  by (auto simp: upstream_connection_check_def same_requests_def queued_def is_network_outage_def split: option.splits)

lemma handle_network_error_effect:
  assumes "handle_network_error bx now c u = Some (u', acts)"
  shows "same_requests u u'" "sent acts = []" "answered acts = []" "pumped acts = 0"
    and "up_auth_state u' = up_auth_state u" "is_network_outage u' \<longrightarrow> is_network_outage u \<or> checks_set acts > 0"
    and "is_network_outage u \<longrightarrow> is_network_outage u'"
proof -
  let ?u = "u\<lparr>up_first_error := Some (case up_first_error u of Some t \<Rightarrow> t | None \<Rightarrow> now)\<rparr>"
  have same: "same_requests u ?u" "up_auth_state ?u = up_auth_state u" "is_network_outage ?u = is_network_outage u"
    by (simp_all add: same_requests_def queued_def is_network_outage_def)
  have "(?u, []) = (u', acts) \<or> upstream_connection_check bx ?u = Some (u', acts)"
    using assms unfolding handle_network_error_def Let_def by (metis option.inject)
  then consider "u' = ?u" "acts = []" | "upstream_connection_check bx ?u = Some (u', acts)" by blast
  then have "same_requests u u' \<and> sent acts = [] \<and> answered acts = [] \<and> pumped acts = 0 \<and>
      up_auth_state u' = up_auth_state u \<and> (is_network_outage u' \<longrightarrow> is_network_outage u \<or> checks_set acts > 0) \<and>
      (is_network_outage u \<longrightarrow> is_network_outage u')"
  proof cases
    case 1
    then show ?thesis using same by simp
  next
    case 2
    from upstream_connection_check_effect [OF 2] same show ?thesis by (auto simp: same_requests_def)
  qed
  then show "same_requests u u'" "sent acts = []" "answered acts = []" "pumped acts = 0"
    "up_auth_state u' = up_auth_state u" "is_network_outage u' \<longrightarrow> is_network_outage u \<or> checks_set acts > 0"
    "is_network_outage u \<longrightarrow> is_network_outage u'" by simp_all
qed

lemma handle_http_response_effect:
  assumes "handle_http_response bx now c r result u = Some (u', acts)"
  shows "effect_ok [r] u (u', acts)"
proof (cases "\<exists>err. result = Inl err \<and> is_network_error err")
  case False
  then have "u' = reset_network_error bx u" "acts = [Answer r result]"
    using assms by (auto simp: handle_http_response_def split: sum.splits)
  then show ?thesis
    using same_requests_simps(2) [of u bx] by (auto simp: same_requests_def intro: effect_ok_answer)
next
  case True
  then obtain u1 acts1 where n: "handle_network_error bx now c u = Some (u1, acts1)"
    using assms by (auto simp: handle_http_response_def split: option.splits)
  note ne = handle_network_error_effect [OF n]
  show ?thesis
  proof (cases "urc_retry (rq_config r)")
    case True
    let ?r = "r\<lparr>rq_previous_retries := rq_previous_retries r + 1\<rparr>"
    obtain acts2 where q: "enqueue ?r EP_Back u1 = (u', acts2)" and acts: "acts = acts1 @ acts2"
      using assms \<open>\<exists>err. _\<close> n True by (auto simp: handle_http_response_def split: prod.splits)
    have "effect_ok [?r] u1 (u', acts2)" using enqueue_effect [of ?r u1 EP_Back] by (simp only: q)
    then have "effect_ok [r] u1 (u', acts2)" by (simp add: effect_ok_def internal_immediate_def)
    then show ?thesis
      by (rule effect_ok_cong) (use ne acts in \<open>simp_all add: same_requests_def\<close>)
  next
    case False
    then have "u' = u1" "acts = acts1 @ [Answer r result]"
      using assms \<open>\<exists>err. _\<close> n by (auto simp: handle_http_response_def)
    then show ?thesis using ne by (intro effect_ok_answer) (simp_all add: same_requests_def)
  qed
qed

section \<open>The queues\<close>

text \<open>The order in which requests leave the queues.\<close>

definition send_order :: "'b upstream_relay \<Rightarrow> upstream_request list" where
  "send_order u = rev (up_high u) @ rev (up_low u)"

definition pop_request :: "'b upstream_relay \<Rightarrow> 'b upstream_relay" where
  "pop_request u = (if up_high u \<noteq> [] then u\<lparr>up_high := butlast (up_high u)\<rparr> else u\<lparr>up_low := butlast (up_low u)\<rparr>)"

lemma rev_butlast: "xs \<noteq> [] \<Longrightarrow> rev xs = last xs # rev (butlast xs)"
  by (metis append_butlast_last_id rev_eq_Cons_iff rev_rev_ident)

lemma send_order_pop:
  assumes "send_order u \<noteq> []"
  shows "send_order u = hd (send_order u) # send_order (pop_request u)"
proof (cases "up_high u = []")
  case True
  then show ?thesis
    using assms by (simp add: send_order_def pop_request_def hd_rev)
next
  case False
  then show ?thesis by (simp add: send_order_def pop_request_def rev_butlast [of "up_high u"])
qed

lemma pump_loop_unfold:
  "pump_loop u =
     (if up_num_inflight u < up_max_inflight u \<and> send_order u \<noteq> []
      then (case send_request (hd (send_order u)) (pop_request u) of
              (u1, acts) \<Rightarrow> (case pump_loop u1 of (u2, acts2) \<Rightarrow> (u2, acts @ acts2)))
      else (u, []))"
proof (cases "up_high u = []")
  case True
  then show ?thesis
    by (subst pump_loop.simps) (simp add: send_order_def pop_request_def hd_rev)
next
  case False
  then show ?thesis
    by (subst pump_loop.simps) (simp add: send_order_def pop_request_def hd_rev)
qed

fun action_request :: "upstream_action \<Rightarrow> upstream_request list" where
  "action_request (Send r) = [r]"
| "action_request (Answer r _) = [r]"
| "action_request _ = []"

text \<open>What sending from the queues does not touch.\<close>

definition same_status :: "'b upstream_relay \<Rightarrow> 'b upstream_relay \<Rightarrow> bool" where
  "same_status u u' \<longleftrightarrow>
     up_auth_state u' = up_auth_state u \<and> up_outage_backoff u' = up_outage_backoff u \<and>
     up_max_inflight u' = up_max_inflight u"

lemma same_status_ready: "same_status u u' \<Longrightarrow> is_ready c u' = is_ready c u \<and> is_network_outage u' = is_network_outage u"
  by (simp add: same_status_def is_ready_def is_network_outage_def)

lemma same_status_trans: "same_status u v \<Longrightarrow> same_status v w \<Longrightarrow> same_status u w"
  by (simp add: same_status_def)

lemma send_request_status:
  assumes "send_request r u = (u', acts)"
  shows "same_status u u'" "send_order u' = send_order u" "concat (map action_request acts) = [r]"
    "pumped acts = 0" "checks_set acts = 0" "up_num_inflight u' \<le> up_num_inflight u + 1"
  using assms by (auto simp: send_request_def same_status_def send_order_def split: option.splits)

lemma pop_request_status [simp]:
  "same_status u (pop_request u)" "up_num_inflight (pop_request u) = up_num_inflight u"
  by (simp_all add: same_status_def pop_request_def)

lemma pump_loop_order:
  assumes "pump_loop u = (u', acts)"
  shows "concat (map action_request acts) @ send_order u' = send_order u \<and>
         (up_num_inflight u' < up_max_inflight u' \<longrightarrow> send_order u' = []) \<and>
         up_num_inflight u' \<le> max (up_num_inflight u) (up_max_inflight u) \<and>
         same_status u u' \<and> pumped acts = 0 \<and> checks_set acts = 0"
  using assms
proof (induction "length (send_order u)" arbitrary: u u' acts)
  case 0
  then show ?case by (simp add: pump_loop_unfold [of u] same_status_def)
next
  case (Suc n)
  show ?case
  proof (cases "up_num_inflight u < up_max_inflight u")
    case False
    then show ?thesis using Suc.prems by (simp add: pump_loop_unfold [of u] same_status_def)
  next
    case True
    let ?r = "hd (send_order u)"
    obtain u1 acts1 where s: "send_request ?r (pop_request u) = (u1, acts1)" by fastforce
    have ne: "send_order u \<noteq> []" using Suc.hyps(2) by auto
    obtain acts2 where p: "pump_loop u1 = (u', acts2)" and acts: "acts = acts1 @ acts2"
      using Suc.prems ne True s by (auto simp: pump_loop_unfold [of u] split: prod.splits)
    note st = send_request_status [OF s]
    have order: "send_order u = ?r # send_order u1"
      using send_order_pop [of u] Suc.hyps(2) st(2) by fastforce
    have same: "same_status u u1" using same_status_trans [OF pop_request_status(1) st(1)] .
    have "n = length (send_order u1)" using Suc.hyps(2) arg_cong [OF order, of length] by simp
    from Suc.hyps(1) [OF this p] order same st True acts show ?thesis
      by (auto simp: same_status_def)
  qed
qed

lemma ids_order: "ids (send_order u) = ids (queued u)"
  by (simp add: send_order_def queued_def ids_def)

lemma queued_order: "set (queued u) = set (send_order u)"
  by (auto simp: send_order_def queued_def)

lemma effect_ok_seq:
  assumes "effect_ok [r] u1 (u2, acts2)" and "effect_ok [] u2 (u3, acts3)"
    and "ids (queued u) = add_mset (rq_id r) (ids (queued u1))" "up_num_inflight u1 = up_num_inflight u"
    and "up_max_inflight u1 = up_max_inflight u" and "set (queued u) = insert r (set (queued u1))"
  shows "effect_ok [] u (u3, acts2 @ acts3)"
proof -
  have q: "client_queue u \<Longrightarrow> internal_immediate r \<and> client_queue u1"
    using assms(6) by (simp add: client_queue_def internal_immediate_def)
  have three: "ids (queued u3) + ids (sent acts3) + ids (map fst (answered acts3)) = ids (queued u2)"
    using assms(2) by (simp add: effect_ok_def)
  have two: "ids (queued u2) + ids (sent acts2) + ids (map fst (answered acts2)) = ids (queued u)"
    using assms(1,3) by (simp add: effect_ok_def)
  have "ids (queued u3) + ids (sent (acts2 @ acts3)) + ids (map fst (answered (acts2 @ acts3))) =
      (ids (queued u3) + ids (sent acts3) + ids (map fst (answered acts3))) + ids (sent acts2) +
      ids (map fst (answered acts2))" by (simp add: ac_simps)
  then have "ids (queued u3) + ids (sent (acts2 @ acts3)) + ids (map fst (answered (acts2 @ acts3))) = ids (queued u)"
    by (simp only: three two)
  moreover have "up_num_inflight u3 = up_num_inflight u + length (sent (acts2 @ acts3))"
    "up_max_inflight u3 = up_max_inflight u"
    using assms(1,2,4,5) by (simp_all add: effect_ok_def)
  moreover have "client_queue u3 \<and> (\<forall>r \<in> set (sent (acts2 @ acts3)). internal_immediate r)" if "client_queue u"
    using q [OF that] assms(1,2) by (auto simp: effect_ok_def)
  ultimately show ?thesis by (simp add: effect_ok_def)
qed

lemma pump_loop_effect: "effect_ok [] u (pump_loop u)"
proof (induction "length (send_order u)" arbitrary: u)
  case 0
  then show ?case by (simp add: pump_loop_unfold [of u])
next
  case (Suc n)
  show ?case
  proof (cases "up_num_inflight u < up_max_inflight u")
    case False
    then show ?thesis by (simp add: pump_loop_unfold [of u])
  next
    case True
    let ?r = "hd (send_order u)"
    obtain u1 acts1 where s: "send_request ?r (pop_request u) = (u1, acts1)" by fastforce
    obtain u2 acts2 where p: "pump_loop u1 = (u2, acts2)" by fastforce
    note st = send_request_status [OF s]
    have order: "send_order u = ?r # send_order (pop_request u)" using send_order_pop [of u] Suc.hyps(2) by fastforce
    have "n = length (send_order u1)" using Suc.hyps(2) arg_cong [OF order, of length] st(2) by simp
    from Suc.hyps(1) [OF this] have IH: "effect_ok [] u1 (u2, acts2)" by (simp add: p)
    have snd: "effect_ok [?r] (pop_request u) (u1, acts1)" using send_request_effect [of ?r "pop_request u"] by (simp add: s)
    have ids: "ids (queued u) = add_mset (rq_id ?r) (ids (queued (pop_request u)))"
      using arg_cong [OF order, of ids] by (simp add: ids_order)
    have set: "set (queued u) = insert ?r (set (queued (pop_request u)))"
      using arg_cong [OF order, of set] by (simp add: queued_order)
    have "effect_ok [] u (u2, acts1 @ acts2)"
      by (rule effect_ok_seq [OF snd IH ids _ _ set]) (simp_all add: pop_request_def)
    moreover have "pump_loop u = (u2, acts1 @ acts2)"
      using True Suc.hyps(2) s p by (subst pump_loop_unfold) auto
    ultimately show ?thesis by simp
  qed
qed

section \<open>Requests are not lost\<close>

definition upstream_inv :: "'b upstream_system \<Rightarrow> bool" where
  "upstream_inv s \<longleftrightarrow>
     up_num_inflight (ys_relay s) = length (ys_inflight s) + ys_tracked s \<and>
     ids (queued (ys_relay s)) + ids (ys_inflight s) + ids (ys_responding s) + mset (map fst (ys_answers s)) =
       mset [0..<ys_issued s] \<and>
     client_queue (ys_relay s) \<and> (\<forall>r \<in> set (ys_inflight s) \<union> set (ys_responding s). internal_immediate r)"

text \<open>A handler that is given the requests \<open>rs\<close>, taken out of the state or new.\<close>

lemma upstream_inv_run:
  assumes "effect_ok rs (ys_relay s) step"
    and "up_num_inflight (ys_relay s) = length (ys_inflight s) + ys_tracked s"
    and "ids (queued (ys_relay s)) + ids (ys_inflight s) + ids (ys_responding s) + mset (map fst (ys_answers s)) + ids rs =
           mset [0..<ys_issued s]"
    and "client_queue (ys_relay s)" and "\<forall>r \<in> set (ys_inflight s) \<union> set (ys_responding s). internal_immediate r"
    and "\<forall>r \<in> set rs. internal_immediate r"
  shows "upstream_inv (run_actions step s)"
proof -
  obtain u acts where st: "step = (u, acts)" by fastforce
  have eff: "ids (queued u) + ids (sent acts) + ids (map fst (answered acts)) = ids rs + ids (queued (ys_relay s))"
    "up_num_inflight u = up_num_inflight (ys_relay s) + length (sent acts)"
    "client_queue u" "\<forall>r \<in> set (sent acts). internal_immediate r"
    using assms(1,4,6) by (simp_all add: effect_ok_def st)
  have ans: "mset (map fst (ys_answers (run_actions step s))) = mset (map fst (ys_answers s)) + ids (map fst (answered acts))"
    by (simp add: st run_actions_fields ids_def case_prod_unfold comp_def)
  have "ids (queued u) + ids (ys_inflight s @ sent acts) + ids (ys_responding s) +
      (mset (map fst (ys_answers s)) + ids (map fst (answered acts))) =
      (ids (queued u) + ids (sent acts) + ids (map fst (answered acts))) +
      (ids (ys_inflight s) + ids (ys_responding s) + mset (map fst (ys_answers s)))"
    by (simp add: ac_simps)
  also have "\<dots> = ids (queued (ys_relay s)) + ids (ys_inflight s) + ids (ys_responding s) +
      mset (map fst (ys_answers s)) + ids rs" by (simp only: eff(1)) (simp add: ac_simps)
  finally have "ids (queued u) + ids (ys_inflight s @ sent acts) + ids (ys_responding s) +
      (mset (map fst (ys_answers s)) + ids (map fst (answered acts))) = mset [0..<ys_issued s]"
    by (simp only: assms(3))
  then show ?thesis
    using eff assms(2,5) ans by (auto simp: upstream_inv_def st run_actions_fields)
qed

lemma ids_remove1: "r \<in> set rs \<Longrightarrow> add_mset (rq_id r) (ids (remove1 r rs)) = ids rs"
  by (induction rs) auto

lemma enqueue_request_effect:
  assumes "kind \<noteq> RK_Client \<longrightarrow> urc_priority cfg = RP_Immediate \<and> \<not> urc_retry cfg"
  obtains r where "rq_id r = rid" "internal_immediate r"
    "effect_ok [r] u (enqueue_request rid cfg kind path build_error u)"
proof -
  let ?r = "\<lparr>rq_id = rid, rq_config = cfg, rq_kind = kind, rq_path = path, rq_build_error = build_error,
      rq_previous_retries = 0\<rparr>"
  have "internal_immediate ?r" using assms by (auto simp: internal_immediate_def)
  with that [of ?r] enqueue_effect [of ?r u EP_Front] show thesis by (simp add: enqueue_request_def)
qed

lemma upstream_inv_new:
  assumes "upstream_inv s" and "rq_id r = ys_issued s" and "internal_immediate r"
    and "effect_ok [r] (ys_relay s) step" and "ys_relay s' = ys_relay s" "ys_inflight s' = ys_inflight s"
    "ys_responding s' = ys_responding s" "ys_tracked s' = ys_tracked s" "ys_answers s' = ys_answers s"
    "ys_issued s' = ys_issued s + 1"
  shows "upstream_inv (run_actions step s')"
  by (rule upstream_inv_run [of "[r]"]) (use assms in \<open>simp_all add: upstream_inv_def\<close>)

lemma upstream_inv_none:
  assumes "upstream_inv s" and "effect_ok [] (ys_relay s) step" and "ys_relay s' = ys_relay s"
    "ys_inflight s' = ys_inflight s" "ys_responding s' = ys_responding s" "ys_tracked s' = ys_tracked s"
    "ys_answers s' = ys_answers s" "ys_issued s' = ys_issued s"
  shows "upstream_inv (run_actions step s')"
  by (rule upstream_inv_run [of "[]"]) (use assms in \<open>simp_all add: upstream_inv_def\<close>)

lemma authentication_failed_effect:
  assumes "authentication_failed err interval u = (u', acts)"
  shows "same_requests u u'" "sent acts = []" "answered acts = []" "up_outage_backoff u' = up_outage_backoff u"
    "is_ready c u' \<longrightarrow> is_ready c u"
  using assms
  by (auto simp: authentication_failed_def same_requests_def queued_def is_ready_def is_network_outage_def split: if_splits)

lemma effect_ok_same:
  "same_requests u u' \<Longrightarrow> sent acts = [] \<Longrightarrow> answered acts = [] \<Longrightarrow> effect_ok [] u (u', acts)"
  by (rule effect_ok_answer) (simp_all add: same_requests_def)

lemma upstream_inv_authenticate:
  assumes "upstream_inv s"
    and "handle_authenticate bx c (ys_issued s) build_error (ys_relay s) = Some step"
  shows "upstream_inv (run_actions step
    (s\<lparr>ys_auths := ys_auths s - 1,
       ys_issued := (if auth_state_error c (ys_relay s) \<or> rc_credentials c = None
                     then ys_issued s else ys_issued s + 1)\<rparr>))"
proof (cases "auth_state_error c (ys_relay s) \<or> rc_credentials c = None")
  case True
  then have "step = (ys_relay s, [])" using assms(2) by (simp add: handle_authenticate_def)
  with True show ?thesis
    by (intro upstream_inv_none [OF assms(1)]) (simp_all add: \<open>step = _\<close>)
next
  case False
  then obtain cred where cred: "rc_credentials c = Some cred" by auto
  let ?u = "(ys_relay s)\<lparr>up_auth_state := (if is_authenticated (up_auth_state (ys_relay s)) then Renewing else Registering)\<rparr>"
  let ?cfg = "\<lparr>urc_priority = RP_Immediate, urc_retry = False, urc_intercept_status_errors = True, urc_set_relay_id = True\<rparr>"
  obtain interval b where nb: "next_backoff bx (up_auth_backoff ?u) = Some (interval, b)"
    and st: "step = enqueue_request (ys_issued s) ?cfg (RK_Challenge interval) ''/api/0/relays/register/challenge/''
        build_error (?u\<lparr>up_auth_backoff := b\<rparr>)"
    using assms(2) False cred
    by (auto simp: handle_authenticate_def enqueue_query_def Let_def split: option.splits prod.splits)
  obtain r where r: "rq_id r = ys_issued s" "internal_immediate r" "effect_ok [r] (?u\<lparr>up_auth_backoff := b\<rparr>) step"
    unfolding st by (rule enqueue_request_effect [of "RK_Challenge interval" ?cfg]) simp_all
  have "effect_ok [r] (ys_relay s) step"
    using r(3) by (simp add: effect_ok_def queued_def client_queue_def split: prod.splits)
  with r(1,2) False show ?thesis by (intro upstream_inv_new [OF assms(1)]) simp_all
qed

lemma upstream_inv_challenged:
  assumes "upstream_inv s"
  shows "upstream_inv (run_actions
    (challenge_finished c (ys_issued s) build_error interval result (ys_relay s))
    (s\<lparr>ys_waiting := waiting,
       ys_issued := (case result of
                       Inl _ \<Rightarrow> ys_issued s
                     | Inr _ \<Rightarrow> if rc_credentials c = None then ys_issued s else ys_issued s + 1)\<rparr>))"
proof (cases "\<exists>cred. result = Inr () \<and> rc_credentials c = Some cred")
  case True
  let ?cfg = "\<lparr>urc_priority = RP_Immediate, urc_retry = False, urc_intercept_status_errors = True, urc_set_relay_id = True\<rparr>"
  have st: "challenge_finished c (ys_issued s) build_error interval result (ys_relay s) =
      enqueue_request (ys_issued s) ?cfg (RK_Register interval) ''/api/0/relays/register/response/'' build_error (ys_relay s)"
    using True by (auto simp: challenge_finished_def enqueue_query_def split: prod.splits)
  obtain r where "rq_id r = ys_issued s" "internal_immediate r"
    "effect_ok [r] (ys_relay s) (challenge_finished c (ys_issued s) build_error interval result (ys_relay s))"
    unfolding st by (rule enqueue_request_effect [of "RK_Register interval" ?cfg]) simp_all
  then show ?thesis using True by (intro upstream_inv_new [OF assms]) auto
next
  case False
  then obtain err where st: "challenge_finished c (ys_issued s) build_error interval result (ys_relay s) =
      authentication_failed err interval (ys_relay s)"
    by (cases result) (auto simp: challenge_finished_def enqueue_query_def Let_def split: option.splits)
  obtain u' acts where f: "authentication_failed err interval (ys_relay s) = (u', acts)" by fastforce
  have "effect_ok [] (ys_relay s) (u', acts)" using authentication_failed_effect [OF f] by (intro effect_ok_same)
  then show ?thesis
    using False unfolding st f by (intro upstream_inv_none [OF assms]) (auto split: sum.splits)
qed

lemma register_finished_effect: "effect_ok [] u (register_finished bx c interval result u)"
proof (cases result)
  case (Inl err)
  obtain u' acts where f: "authentication_failed err interval u = (u', acts)" by fastforce
  then show ?thesis using authentication_failed_effect [OF f] Inl by (simp add: register_finished_def effect_ok_same)
next
  case (Inr x)
  then show ?thesis
    by (auto simp: register_finished_def Let_def intro!: effect_ok_same split: option.splits)
qed

lemma check_finished_cases:
  assumes "check_finished bx result u = Some step"
  obtains (pump) "step = (u, [Pump])" "\<forall>err. result = Inl err \<longrightarrow> \<not> is_network_error err"
  | (again) u' d where "step = (u', [CheckLater d])" "same_requests u u'" "up_auth_state u' = up_auth_state u"
      "is_network_outage u'"
proof (cases "\<exists>err. result = Inl err \<and> is_network_error err")
  case True
  then have "upstream_connection_check bx u = Some step" using assms by (auto simp: check_finished_def)
  moreover obtain u' acts where "step = (u', acts)" by fastforce
  ultimately show thesis using upstream_connection_check_effect [of bx u u' acts] again by auto
next
  case False
  then have "step = (u, [Pump])" using assms by (cases result) (simp_all add: check_finished_def)
  with False show thesis using pump by blast
qed

lemma check_finished_effect:
  assumes "check_finished bx result u = Some step"
  shows "effect_ok [] u step"
  using assms
proof (cases rule: check_finished_cases)
  case pump
  then show ?thesis by (simp add: effect_ok_same)
next
  case (again u' d)
  then show ?thesis by (simp add: effect_ok_same)
qed

lemma upstream_inv_step:
  assumes "upstream_step bx c s s'" and "upstream_inv s"
  shows "upstream_inv s'"
  using assms(1)
proof (cases rule: upstream_step.cases)
  case (submit cfg path build_error)
  obtain r where "rq_id r = ys_issued s" "internal_immediate r"
    "effect_ok [r] (ys_relay s) (enqueue_request (ys_issued s) cfg RK_Client path build_error (ys_relay s))"
    by (rule enqueue_request_effect [of RK_Client cfg]) simp_all
  then show ?thesis unfolding submit by (intro upstream_inv_new [OF assms(2)]) simp_all
next
  case pump
  have "effect_ok [] (ys_relay s) (handle_pump c (ys_relay s))" by (simp add: handle_pump_def pump_loop_effect)
  then show ?thesis unfolding pump by (intro upstream_inv_none [OF assms(2)]) simp_all
next
  case (transferred r)
  have "length (ys_inflight s) = Suc (length (remove1 r (ys_inflight s)))"
    using transferred(2) length_pos_if_in_set [of r "ys_inflight s"] by (simp add: length_remove1)
  moreover have "set (remove1 r (ys_inflight s)) \<subseteq> set (ys_inflight s)" by (rule set_remove1_subset)
  moreover have "\<forall>x \<in> set (remove1 r (ys_inflight s)) \<union> set (ys_responding s @ [r]). internal_immediate x"
    using assms(2) transferred(2) calculation(2) by (auto simp: upstream_inv_def)
  moreover have "ids (ys_inflight s) = add_mset (rq_id r) (ids (remove1 r (ys_inflight s)))"
    using ids_remove1 [OF transferred(2)] by simp
  ultimately show ?thesis
    using assms(2) unfolding transferred(1) upstream_inv_def by simp
next
  case tracked
  then show ?thesis
    using assms(2) by (simp add: upstream_inv_def handle_tracked_finished_def run_actions_def queued_def client_queue_def)
next
  case (respond r now transfer step)
  have "effect_ok [r] (ys_relay s) step"
    using handle_http_response_effect respond(3) by (cases step) auto
  moreover have "internal_immediate r" "set (remove1 r (ys_responding s)) \<subseteq> set (ys_responding s)"
    using assms(2) respond(2) set_remove1_subset [of r "ys_responding s"] by (simp_all add: upstream_inv_def)
  ultimately show ?thesis
    unfolding respond(1)
    by (intro upstream_inv_run [of "[r]"])
      (use assms(2) ids_remove1 [OF respond(2), symmetric] in \<open>auto simp: upstream_inv_def ac_simps\<close>)
next
  case check
  obtain r where "rq_id r = ys_issued s" "internal_immediate r"
    "effect_ok [r] (ys_relay s) (handle_check (ys_issued s) None (ys_relay s))"
    unfolding handle_check_def
    by (rule enqueue_request_effect [of RK_Check check_config]) (simp_all add: check_config_def)
  then show ?thesis unfolding check by (intro upstream_inv_new [OF assms(2)]) simp_all
next
  case (checked r res body_error step)
  show ?thesis
    unfolding checked(1) by (rule upstream_inv_none [OF assms(2) check_finished_effect [OF checked(4)]]) simp_all
next
  case (authenticate build_error step)
  then show ?thesis using upstream_inv_authenticate [OF assms(2)] by blast
next
  case (challenged r res interval build_error body_error)
  then show ?thesis using upstream_inv_challenged [OF assms(2)] by blast
next
  case (registered r res interval body_error)
  show ?thesis
    unfolding registered(1) by (rule upstream_inv_none [OF assms(2) register_finished_effect]) simp_all
qed

lemma upstream_inv_init: "upstream_inv (upstream_system_new bx backoff c)"
  by (simp add: upstream_inv_def upstream_system_new_def run_actions_fields relay_started_def upstream_relay_new_def
      queued_def client_queue_def)

lemma upstream_reachable_inv: "upstream_reachable bx c backoff s \<Longrightarrow> upstream_inv s"
  by (induction rule: upstream_reachable.induct) (auto intro: upstream_inv_init upstream_inv_step)

section \<open>The queues do not get stuck\<close>

text \<open>
  A connection check is open while its timer, its request or its unread answer is there. It
  is running unless that answer already says that the network is back.
\<close>

definition check_transfer :: "'b upstream_system \<Rightarrow> bool" where
  "check_transfer s \<longleftrightarrow>
     ys_checks s > 0 \<or> (\<exists>r \<in> set (ys_inflight s) \<union> set (ys_responding s). rq_kind r = RK_Check)"

definition check_open :: "'b upstream_system \<Rightarrow> bool" where
  "check_open s \<longleftrightarrow> check_transfer s \<or> (\<exists>(r, res) \<in> set (ys_waiting s). rq_kind r = RK_Check)"

definition network_failure :: "send_result \<Rightarrow> bool" where
  "network_failure res = (case res of Inl err \<Rightarrow> is_network_error err | Inr _ \<Rightarrow> False)"

definition check_running :: "'b upstream_system \<Rightarrow> bool" where
  "check_running s \<longleftrightarrow>
     check_transfer s \<or> (\<exists>(r, res) \<in> set (ys_waiting s). rq_kind r = RK_Check \<and> network_failure res)"

definition busy :: "'b upstream_system \<Rightarrow> bool" where
  "busy s \<longleftrightarrow>
     ys_pumps s > 0 \<or> up_max_inflight (ys_relay s) \<le> up_num_inflight (ys_relay s) \<or> check_open s"

definition live_inv :: "relay_config \<Rightarrow> 'b upstream_system \<Rightarrow> bool" where
  "live_inv c s \<longleftrightarrow>
     (is_network_outage (ys_relay s) \<longrightarrow> check_running s) \<and>
     (is_ready c (ys_relay s) \<and> queued (ys_relay s) \<noteq> [] \<longrightarrow> busy s)"

text \<open>Steps that keep every open check.\<close>

definition keeps_checks :: "'b upstream_system \<Rightarrow> 'b upstream_system \<Rightarrow> bool" where
  "keeps_checks s s' \<longleftrightarrow>
     (ys_checks s > 0 \<longrightarrow> check_transfer s') \<and>
     (\<forall>r \<in> set (ys_inflight s) \<union> set (ys_responding s). rq_kind r = RK_Check \<longrightarrow> check_transfer s') \<and>
     (\<forall>(r, res) \<in> set (ys_waiting s). rq_kind r = RK_Check \<longrightarrow> (r, res) \<in> set (ys_waiting s'))"

lemma keeps_checksD:
  assumes "keeps_checks s s'"
  shows "check_running s \<Longrightarrow> check_running s'" and "check_open s \<Longrightarrow> check_open s'"
  using assms by (fastforce simp: keeps_checks_def check_running_def check_open_def check_transfer_def)+

lemma live_inv_mono:
  assumes "live_inv c s" and "keeps_checks s s'"
    and "is_network_outage (ys_relay s') \<longrightarrow> is_network_outage (ys_relay s) \<or> check_running s'"
    and "is_ready c (ys_relay s') \<and> queued (ys_relay s') \<noteq> [] \<longrightarrow>
           is_ready c (ys_relay s) \<and> queued (ys_relay s) \<noteq> [] \<or> busy s'"
    and "up_num_inflight (ys_relay s) \<le> up_num_inflight (ys_relay s')"
    and "up_max_inflight (ys_relay s') = up_max_inflight (ys_relay s)" and "ys_pumps s \<le> ys_pumps s'"
  shows "live_inv c s'"
  using assms keeps_checksD [OF assms(2)] by (fastforce simp: live_inv_def busy_def)

lemma keeps_checks_run:
  assumes "ys_checks s \<le> ys_checks s0" "ys_inflight s0 = ys_inflight s" "ys_responding s0 = ys_responding s"
    and "\<forall>(r, res) \<in> set (ys_waiting s). rq_kind r = RK_Check \<longrightarrow> (r, res) \<in> set (ys_waiting s0)"
  shows "keeps_checks s (run_actions step s0)"
  using assms by (cases step) (auto simp: keeps_checks_def check_transfer_def run_actions_fields)

lemma enqueue_status:
  assumes "enqueue r pos u = (u', acts)"
  shows "same_status u u'" "queued u' = queued u \<or> pumped acts > 0" "up_num_inflight u \<le> up_num_inflight u'"
    "checks_set acts = 0"
  using assms
  by (auto simp: enqueue_def send_request_def same_status_def queued_def split: request_priority.splits option.splits)

lemma live_enqueue:
  assumes "live_inv c s" and "enqueue r pos (ys_relay s) = step"
    and "ys_checks s \<le> ys_checks s0" "ys_inflight s0 = ys_inflight s" "ys_responding s0 = ys_responding s"
    "ys_pumps s0 = ys_pumps s" "ys_waiting s0 = ys_waiting s"
  shows "live_inv c (run_actions step s0)"
proof -
  obtain u' acts where st: "step = (u', acts)" by fastforce
  note en = enqueue_status [OF assms(2) [unfolded st]]
  show ?thesis
    unfolding st
    by (rule live_inv_mono [OF assms(1) keeps_checks_run])
      (use assms(3-) en same_status_ready [OF en(1), of c] in
        \<open>auto simp: run_actions_fields busy_def same_status_def\<close>)
qed

lemma same_requests_status:
  "same_requests u u' \<Longrightarrow> up_num_inflight u' = up_num_inflight u \<and> up_max_inflight u' = up_max_inflight u \<and> queued u' = queued u"
  by (simp add: same_requests_def)

text \<open>Steps of the authentication: the actor does not become ready without a pump.\<close>

lemma live_auth:
  assumes "live_inv c s" and "up_outage_backoff u' = up_outage_backoff (ys_relay s)"
    and "is_ready c u' \<longrightarrow> is_ready c (ys_relay s) \<or> pumped acts > 0" and "queued u' = queued (ys_relay s)"
    and "up_num_inflight (ys_relay s) \<le> up_num_inflight u'" and "up_max_inflight u' = up_max_inflight (ys_relay s)"
    and "ys_checks s0 = ys_checks s" "ys_inflight s0 = ys_inflight s" "ys_responding s0 = ys_responding s"
    "ys_pumps s0 = ys_pumps s"
    and "\<forall>(r, res) \<in> set (ys_waiting s). rq_kind r = RK_Check \<longrightarrow> (r, res) \<in> set (ys_waiting s0)"
  shows "live_inv c (run_actions (u', acts) s0)"
  by (rule live_inv_mono [OF assms(1) keeps_checks_run])
    (use assms(2-) in \<open>auto simp: run_actions_fields busy_def is_network_outage_def\<close>)

text \<open>The end of a transfer.\<close>

lemma check_transfer_respond:
  assumes "check_transfer s" and "rq_kind r \<noteq> RK_Check"
  shows "check_transfer (run_actions step (s\<lparr>ys_responding := remove1 r (ys_responding s)\<rparr>))"
proof -
  obtain u acts where st: "step = (u, acts)" by fastforce
  from assms(1) consider "ys_checks s > 0" | q where "q \<in> set (ys_inflight s)" "rq_kind q = RK_Check"
    | q where "q \<in> set (ys_responding s)" "rq_kind q = RK_Check"
    by (auto simp: check_transfer_def)
  then show ?thesis
  proof cases
    case (3 q)
    then have "q \<in> set (remove1 r (ys_responding s))" using assms(2) by (metis in_set_remove1)
    then show ?thesis using 3 by (auto simp: check_transfer_def st run_actions_fields)
  qed (auto simp: check_transfer_def st run_actions_fields)
qed

lemma waiting_run: "x \<in> set (ys_waiting s) \<Longrightarrow> x \<in> set (ys_waiting (run_actions step s))"
  by (cases step) (simp add: run_actions_fields)

lemma check_respond:
  assumes "rq_kind r = RK_Check \<longrightarrow> (r, result) \<in> set (answered (snd step))"
  shows "check_open s \<Longrightarrow> check_open (run_actions step (s\<lparr>ys_responding := remove1 r (ys_responding s)\<rparr>))"
    and "network_failure result \<Longrightarrow> check_running s \<Longrightarrow>
         check_running (run_actions step (s\<lparr>ys_responding := remove1 r (ys_responding s)\<rparr>))"
proof -
  let ?s = "s\<lparr>ys_responding := remove1 r (ys_responding s)\<rparr>"
  have answer: "(r, result) \<in> set (ys_waiting (run_actions step ?s))" if "rq_kind r = RK_Check"
    using assms that by (cases step) (simp add: run_actions_fields)
  have waiting: "set (ys_waiting s) \<subseteq> set (ys_waiting (run_actions step ?s))"
    using waiting_run [of _ ?s step] by (intro subsetI) simp
  show "check_open (run_actions step ?s)" if "check_open s"
  proof (cases "rq_kind r = RK_Check")
    case True
    then show ?thesis using answer by (auto simp: check_open_def)
  next
    case False
    then show ?thesis
      using that check_transfer_respond [OF _ False, of s step] waiting unfolding check_open_def by blast
  qed
  show "check_running (run_actions step ?s)" if "network_failure result" "check_running s"
  proof (cases "rq_kind r = RK_Check")
    case True
    then show ?thesis using answer that(1) by (auto simp: check_running_def)
  next
    case False
    then show ?thesis
      using that(2) check_transfer_respond [OF _ False, of s step] waiting unfolding check_running_def by blast
  qed
qed

lemma live_respond_ok:
  assumes "live_inv c s" and "r \<in> set (ys_responding s)" and "\<not> network_failure result"
    and "handle_http_response bx now c r result (ys_relay s) = Some step"
  shows "live_inv c (run_actions step (s\<lparr>ys_responding := remove1 r (ys_responding s)\<rparr>))"
proof -
  let ?u = "ys_relay s" and ?s = "run_actions step (s\<lparr>ys_responding := remove1 r (ys_responding s)\<rparr>)"
  have st: "step = (reset_network_error bx ?u, [Answer r result])"
    using assms(3,4) by (cases result) (auto simp: handle_http_response_def network_failure_def)
  have open': "check_open s \<Longrightarrow> check_open ?s"
    by (rule check_respond(1) [of r result]) (simp_all add: st)
  have "\<not> is_network_outage (ys_relay ?s)"
    by (simp add: st run_actions_fields is_network_outage_def reset_network_error_def)
  moreover have "busy ?s" if "is_ready c (ys_relay ?s)" "queued (ys_relay ?s) \<noteq> []"
  proof (cases "is_network_outage ?u")
    case True
    then have "check_open s" using assms(1) by (auto simp: live_inv_def check_running_def check_open_def)
    then show ?thesis using open' by (simp add: busy_def)
  next
    case False
    then have "is_ready c ?u" "queued ?u \<noteq> []"
      using that by (simp_all add: st run_actions_fields is_ready_def reset_network_error_def queued_def split: if_splits)
    then have "busy s" using assms(1) by (simp add: live_inv_def)
    then show ?thesis using open' by (auto simp: busy_def st run_actions_fields reset_network_error_def)
  qed
  ultimately show ?thesis by (simp add: live_inv_def)
qed

lemma live_respond_failed:
  assumes "live_inv c s" and "r \<in> set (ys_responding s)" and "network_failure result"
    and "handle_http_response bx now c r result (ys_relay s) = Some step" and "internal_immediate r"
  shows "live_inv c (run_actions step (s\<lparr>ys_responding := remove1 r (ys_responding s)\<rparr>))"
proof -
  let ?u = "ys_relay s" and ?s = "run_actions step (s\<lparr>ys_responding := remove1 r (ys_responding s)\<rparr>)"
  obtain err where err: "result = Inl err" "is_network_error err"
    using assms(3) by (auto simp: network_failure_def split: sum.splits)
  obtain u1 acts1 where n: "handle_network_error bx now c ?u = Some (u1, acts1)"
    using assms(4) err by (auto simp: handle_http_response_def split: option.splits)
  note ne = handle_network_error_effect [OF n]
  have eff: "\<exists>u' acts2. step = (u', acts1 @ acts2) \<and> same_status u1 u' \<and> up_num_inflight u1 \<le> up_num_inflight u' \<and>
      (queued u' = queued u1 \<or> pumped acts2 > 0) \<and> checks_set acts2 = 0 \<and>
      (rq_kind r = RK_Check \<longrightarrow> (r, result) \<in> set (answered acts2))"
  proof (cases "urc_retry (rq_config r)")
    case True
    let ?r = "r\<lparr>rq_previous_retries := rq_previous_retries r + 1\<rparr>"
    obtain u' acts2 where q: "enqueue ?r EP_Back u1 = (u', acts2)" by fastforce
    then have "step = (u', acts1 @ acts2)" using assms(4) err n True by (simp add: handle_http_response_def)
    moreover have "rq_kind r = RK_Client" using True assms(5) by (simp add: internal_immediate_def)
    ultimately show ?thesis using enqueue_status [OF q] by auto
  next
    case False
    then have "step = (u1, acts1 @ [Answer r result])" using assms(4) err n by (simp add: handle_http_response_def)
    then show ?thesis by (auto simp: same_status_def)
  qed
  then obtain u' acts2 where st: "step = (u', acts1 @ acts2)" and eff': "same_status u1 u'"
    "up_num_inflight u1 \<le> up_num_inflight u'" "queued u' = queued u1 \<or> pumped acts2 > 0" "checks_set acts2 = 0"
    "rq_kind r = RK_Check \<longrightarrow> (r, result) \<in> set (answered acts2)" by blast
  have check: "check_running s \<Longrightarrow> check_running ?s" "check_open s \<Longrightarrow> check_open ?s"
    by (rule check_respond [of r result]; simp add: st eff'(5) ne(3) assms(3))+
  have out: "is_network_outage u' = is_network_outage u1" "is_ready c u' = is_ready c u1"
    using same_status_ready [OF eff'(1)] by simp_all
  have ready: "is_ready c u1 \<Longrightarrow> is_ready c ?u" using ne(5,7) by (auto simp: is_ready_def split: if_splits)
  have started: "checks_set acts1 > 0 \<Longrightarrow> check_running ?s"
    by (simp add: st run_actions_fields check_running_def check_transfer_def)
  have "is_network_outage (ys_relay ?s) \<longrightarrow> check_running ?s"
    using assms(1) check(1) started ne(6) out(1) by (auto simp: st run_actions_fields live_inv_def)
  moreover have "busy ?s" if "is_ready c (ys_relay ?s)" "queued (ys_relay ?s) \<noteq> []"
  proof (cases "pumped acts2 > 0")
    case True
    then show ?thesis by (simp add: st busy_def run_actions_fields)
  next
    case False
    then have "is_ready c ?u" "queued ?u \<noteq> []"
      using that eff'(3) ne(1) ready out(2) by (auto simp: st run_actions_fields same_requests_def)
    then have "busy s" using assms(1) by (simp add: live_inv_def)
    then show ?thesis
      using check(2) eff'(1,2) ne(1) by (auto simp: busy_def st run_actions_fields same_status_def same_requests_def)
  qed
  ultimately show ?thesis by (simp add: live_inv_def)
qed

lemma live_pump:
  assumes "live_inv c s"
  shows "live_inv c (run_actions (handle_pump c (ys_relay s)) (s\<lparr>ys_pumps := ys_pumps s - 1\<rparr>))"
proof -
  let ?u = "ys_relay s" and ?s = "run_actions (handle_pump c (ys_relay s)) (s\<lparr>ys_pumps := ys_pumps s - 1\<rparr>)"
  have checks: "check_running s \<Longrightarrow> check_running ?s"
    by (rule keeps_checksD(1) [OF keeps_checks_run]) auto
  show ?thesis
  proof (cases "is_ready c ?u")
    case False
    then have "ys_relay ?s = ?u" by (simp add: handle_pump_def run_actions_fields)
    then show ?thesis using assms checks False by (simp add: live_inv_def)
  next
    case True
    obtain u' acts where p: "pump_loop ?u = (u', acts)" by fastforce
    note order = pump_loop_order [OF p]
    have rel: "ys_relay ?s = u'" using True by (simp add: handle_pump_def p run_actions_fields)
    have "send_order u' = [] \<longleftrightarrow> queued u' = []" by (auto simp: send_order_def queued_def)
    then have "queued u' \<noteq> [] \<Longrightarrow> busy ?s" using order rel by (auto simp: busy_def not_less)
    moreover have "is_network_outage u' = is_network_outage ?u"
      using same_status_ready order by blast
    ultimately show ?thesis using assms checks rel by (simp add: live_inv_def)
  qed
qed

lemma waiting_other:
  assumes "(r, res) \<in> set (ys_waiting s)" and "rq_kind r \<noteq> RK_Check"
  shows "\<forall>(q, res') \<in> set (ys_waiting s). rq_kind q = RK_Check \<longrightarrow> (q, res') \<in> set (remove1 (r, res) (ys_waiting s))"
  using assms(2) in_set_remove1 [of _ "(r, res)" "ys_waiting s"] by fastforce

lemma live_authenticate:
  assumes "live_inv c s" and "handle_authenticate bx c rid build_error (ys_relay s) = Some step"
    and "ys_checks s0 = ys_checks s" "ys_inflight s0 = ys_inflight s" "ys_responding s0 = ys_responding s"
    "ys_pumps s0 = ys_pumps s" "ys_waiting s0 = ys_waiting s"
  shows "live_inv c (run_actions step s0)"
proof (cases "auth_state_error c (ys_relay s) \<or> rc_credentials c = None")
  case True
  then have st: "step = (ys_relay s, [])" using assms(2) by (simp add: handle_authenticate_def)
  show ?thesis unfolding st by (rule live_auth [OF assms(1)]) (use assms(3-) in auto)
next
  case False
  let ?u = "(ys_relay s)\<lparr>up_auth_state := (if is_authenticated (up_auth_state (ys_relay s)) then Renewing else Registering)\<rparr>"
  obtain b r where st: "send_request r (?u\<lparr>up_auth_backoff := b\<rparr>) = step"
    using assms(2) False
    by (auto simp: handle_authenticate_def enqueue_query_def enqueue_request_def enqueue_def Let_def
        split: option.splits prod.splits)
  obtain u' acts where s: "step = (u', acts)" by fastforce
  note ss = send_request_status(1) [OF st [unfolded s]]
  have q: "queued u' = queued (ys_relay s)" "up_num_inflight (ys_relay s) \<le> up_num_inflight u'"
    using st s by (auto simp: send_request_def queued_def split: option.splits)
  have "is_ready c (?u\<lparr>up_auth_backoff := b\<rparr>) \<longrightarrow> is_ready c (ys_relay s)"
    by (cases "up_auth_state (ys_relay s)") (simp_all add: is_ready_def is_network_outage_def is_authenticated_def)
  then have ready: "is_ready c u' \<longrightarrow> is_ready c (ys_relay s)" using same_status_ready [OF ss] by blast
  show ?thesis
    unfolding s by (rule live_auth [OF assms(1)]) (use assms(3-) q ready ss in \<open>simp_all add: same_status_def case_prod_unfold\<close>)
qed

lemma challenge_finished_status:
  assumes "challenge_finished c rid build_error interval result u = (u', acts)"
  shows "up_outage_backoff u' = up_outage_backoff u \<and> (is_ready c u' \<longrightarrow> is_ready c u) \<and> queued u' = queued u \<and>
         up_num_inflight u \<le> up_num_inflight u' \<and> up_max_inflight u' = up_max_inflight u"
proof (cases "\<exists>cred. result = Inr () \<and> rc_credentials c = Some cred")
  case True
  then obtain r where "send_request r u = (u', acts)"
    using assms by (auto simp: challenge_finished_def enqueue_query_def enqueue_request_def enqueue_def split: prod.splits)
  then show ?thesis
    by (auto simp: send_request_def is_ready_def is_network_outage_def queued_def split: option.splits)
next
  case False
  then obtain err where "authentication_failed err interval u = (u', acts)"
    using assms by (cases result) (auto simp: challenge_finished_def enqueue_query_def Let_def split: option.splits)
  from authentication_failed_effect [OF this] show ?thesis by (simp add: same_requests_def)
qed

lemma register_finished_status:
  assumes "register_finished bx c interval result u = (u', acts)"
  shows "up_outage_backoff u' = up_outage_backoff u \<and>
         (is_ready c u' \<longrightarrow> is_ready c u \<or> pumped acts > 0) \<and> same_requests u u'"
proof (cases result)
  case (Inl err)
  then have "authentication_failed err interval u = (u', acts)" using assms by (simp add: register_finished_def)
  from authentication_failed_effect [OF this] show ?thesis by simp
next
  case (Inr x)
  then show ?thesis using assms by (auto simp: register_finished_def Let_def)
qed

lemma live_step:
  assumes "upstream_step bx c s s'" and "live_inv c s" and "upstream_inv s"
  shows "live_inv c s'"
  using assms(1)
proof (cases rule: upstream_step.cases)
  case (submit cfg path build_error)
  show ?thesis
    unfolding submit enqueue_request_def by (rule live_enqueue [OF assms(2) refl]) simp_all
next
  case pump
  then show ?thesis using live_pump [OF assms(2)] by simp
next
  case (transferred r)
  have "set (ys_inflight s) \<subseteq> insert r (set (remove1 r (ys_inflight s)))"
    by (metis in_set_remove1 insertCI subsetI)
  then have "keeps_checks s s'" by (auto simp: keeps_checks_def check_transfer_def transferred(1))
  then show ?thesis by (rule live_inv_mono [OF assms(2)]) (simp_all add: transferred(1))
next
  case tracked
  have "keeps_checks s s'" unfolding tracked by (rule keeps_checks_run) auto
  then show ?thesis
    using assms(2) keeps_checksD
    by (auto simp: live_inv_def tracked busy_def run_actions_fields handle_tracked_finished_def is_network_outage_def)
next
  case (respond r now transfer step)
  have "internal_immediate r" using assms(3) respond(2) by (simp add: upstream_inv_def)
  then show ?thesis
    using live_respond_ok [OF assms(2) respond(2) _ respond(3)] live_respond_failed [OF assms(2) respond(2) _ respond(3)]
    unfolding respond(1) by blast
next
  case check
  let ?r = "\<lparr>rq_id = ys_issued s, rq_config = check_config, rq_kind = RK_Check, rq_path = ''/api/0/relays/live/'',
      rq_build_error = None, rq_previous_retries = 0\<rparr>"
  have st: "handle_check (ys_issued s) None (ys_relay s) =
      ((ys_relay s)\<lparr>up_num_inflight := up_num_inflight (ys_relay s) + 1\<rparr>, [Send ?r])"
    by (simp add: handle_check_def enqueue_request_def enqueue_def send_request_def check_config_def)
  have "check_transfer s'" by (simp add: check st check_transfer_def run_actions_fields)
  then show ?thesis by (simp add: live_inv_def busy_def check_running_def check_open_def)
next
  case (checked r res body_error step)
  from checked(4) show ?thesis
  proof (cases rule: check_finished_cases)
    case pump
    have "\<not> network_failure res" using pump(2) by (cases res) (auto simp: body_result_def network_failure_def)
    have other: "x \<in> set (ys_waiting s')" if "x \<in> set (ys_waiting s)" "network_failure (snd x)" for x
    proof -
      have "x \<noteq> (r, res)" using that(2) \<open>\<not> network_failure res\<close> by auto
      then have "x \<in> set (remove1 (r, res) (ys_waiting s))" using that(1) by (metis in_set_remove1)
      then show ?thesis by (simp add: checked(1) pump(1) run_actions_fields)
    qed
    have "check_transfer s' = check_transfer s"
      by (simp add: checked(1) pump(1) check_transfer_def run_actions_fields)
    then have "check_running s \<Longrightarrow> check_running s'"
      using other unfolding check_running_def by fastforce
    then show ?thesis
      using assms(2) by (simp add: live_inv_def busy_def checked(1) pump(1) run_actions_fields)
  next
    case (again u' d)
    then have "check_transfer s'" by (simp add: checked(1) check_transfer_def run_actions_fields)
    then show ?thesis by (simp add: live_inv_def busy_def check_running_def check_open_def)
  qed
next
  case (authenticate build_error step)
  show ?thesis unfolding authenticate(1) by (rule live_authenticate [OF assms(2) authenticate(3)]) simp_all
next
  case (challenged r res interval build_error body_error)
  have w: "\<forall>(q, res') \<in> set (ys_waiting s). rq_kind q = RK_Check \<longrightarrow> (q, res') \<in> set (remove1 (r, res) (ys_waiting s))"
    by (rule waiting_other) (use challenged in simp_all)
  obtain u' acts where
    st: "challenge_finished c (ys_issued s) build_error interval (body_result res body_error) (ys_relay s) = (u', acts)"
    by fastforce
  have "up_outage_backoff u' = up_outage_backoff (ys_relay s) \<and> (is_ready c u' \<longrightarrow> is_ready c (ys_relay s)) \<and>
      queued u' = queued (ys_relay s) \<and> up_num_inflight (ys_relay s) \<le> up_num_inflight u' \<and>
      up_max_inflight u' = up_max_inflight (ys_relay s)"
    by (rule challenge_finished_status [OF st])
  then show ?thesis
    unfolding challenged(1) st by (intro live_auth [OF assms(2)]) (use w in auto)
next
  case (registered r res interval body_error)
  have w: "\<forall>(q, res') \<in> set (ys_waiting s). rq_kind q = RK_Check \<longrightarrow> (q, res') \<in> set (remove1 (r, res) (ys_waiting s))"
    by (rule waiting_other) (use registered in simp_all)
  obtain u' acts where st: "register_finished bx c interval (body_result res body_error) (ys_relay s) = (u', acts)"
    by fastforce
  have "up_outage_backoff u' = up_outage_backoff (ys_relay s) \<and>
      (is_ready c u' \<longrightarrow> is_ready c (ys_relay s) \<or> pumped acts > 0) \<and> same_requests (ys_relay s) u'"
    by (rule register_finished_status [OF st])
  then show ?thesis
    unfolding registered(1) st by (intro live_auth [OF assms(2)]) (use w in \<open>auto simp: same_requests_def\<close>)
qed

lemma live_init: "live_inv c (upstream_system_new bx backoff c)"
  by (simp add: live_inv_def upstream_system_new_def run_actions_fields relay_started_def upstream_relay_new_def
      queued_def is_network_outage_def)

lemma upstream_reachable_live: "upstream_reachable bx c backoff s \<Longrightarrow> live_inv c s"
  by (induction rule: upstream_reachable.induct) (auto intro: live_init live_step upstream_reachable_inv)

section \<open>The authentication loop\<close>

text \<open>
  The authentication is one token that is always in one place: a timer, a registration
  request, or its unread answer. It ends with a denial, or with a registration that is not
  renewed.
\<close>

definition auth_kind :: "upstream_request \<Rightarrow> bool" where
  "auth_kind r = (case rq_kind r of RK_Challenge _ \<Rightarrow> True | RK_Register _ \<Rightarrow> True | _ \<Rightarrow> False)"

definition auth_tokens :: "'b upstream_system \<Rightarrow> nat" where
  "auth_tokens s =
     ys_auths s + length (filter auth_kind (ys_inflight s)) + length (filter auth_kind (ys_responding s)) +
     length (filter (\<lambda>(r, _). auth_kind r) (ys_waiting s))"

fun act_tokens :: "upstream_action list \<Rightarrow> nat" where
  "act_tokens [] = 0"
| "act_tokens (AuthLater d # acts) = Suc (act_tokens acts)"
| "act_tokens (Send r # acts) = (if auth_kind r then 1 else 0) + act_tokens acts"
| "act_tokens (Answer r res # acts) = (if auth_kind r then 1 else 0) + act_tokens acts"
| "act_tokens (_ # acts) = act_tokens acts"

lemma act_tokens_append [simp]: "act_tokens (xs @ ys) = act_tokens xs + act_tokens ys"
  by (induction xs rule: act_tokens.induct) simp_all

lemma auth_kind_client: "auth_kind r \<Longrightarrow> rq_kind r \<noteq> RK_Client"
  by (auto simp: auth_kind_def)

lemma auth_tokens_run: "auth_tokens (run_actions (u, acts) s) = auth_tokens s + act_tokens acts"
proof -
  have "auth_tokens (fold run_action acts s) = auth_tokens s + act_tokens acts" for s :: "'b upstream_system"
  proof (induction acts arbitrary: s)
    case (Cons a acts)
    have "auth_tokens (run_action a s) = auth_tokens s + act_tokens [a]"
      using auth_kind_client by (cases a) (auto simp: auth_tokens_def)
    then show ?case using Cons.IH [of "run_action a s"] act_tokens_append [of "[a]" acts] by simp
  qed simp
  from this [of "s\<lparr>ys_relay := u\<rparr>"] show ?thesis by (simp add: run_actions_def auth_tokens_def)
qed

lemma filter_remove1: "x \<in> set xs \<Longrightarrow> length (filter P xs) = length (filter P (remove1 x xs)) + (if P x then 1 else 0)"
  by (induction xs) auto

lemma send_request_tokens:
  "send_request r u = (u', acts) \<Longrightarrow>
   act_tokens acts = (if auth_kind r then 1 else 0) \<and> up_auth_state u' = up_auth_state u"
  by (auto simp: send_request_def split: option.splits)

lemma enqueue_tokens:
  "enqueue r pos u = (u', acts) \<Longrightarrow> auth_kind r \<longrightarrow> urc_priority (rq_config r) = RP_Immediate \<Longrightarrow>
   act_tokens acts = (if auth_kind r then 1 else 0) \<and> up_auth_state u' = up_auth_state u"
  using send_request_tokens by (auto simp: enqueue_def split: request_priority.splits)

lemma pump_loop_actions: "pump_loop u = (u', acts) \<Longrightarrow> \<forall>a \<in> set acts. \<exists>r. action_request a = [r]"
proof (induction "length (send_order u)" arbitrary: u u' acts)
  case 0
  then show ?case by (simp add: pump_loop_unfold [of u])
next
  case (Suc n)
  show ?case
  proof (cases "up_num_inflight u < up_max_inflight u")
    case False
    then show ?thesis using Suc.prems by (simp add: pump_loop_unfold [of u])
  next
    case True
    have ne: "send_order u \<noteq> []" using Suc.hyps(2) by auto
    obtain u1 acts1 where s: "send_request (hd (send_order u)) (pop_request u) = (u1, acts1)" by fastforce
    obtain acts2 where p: "pump_loop u1 = (u', acts2)" and acts: "acts = acts1 @ acts2"
      using Suc.prems ne True s by (auto simp: pump_loop_unfold [of u] split: prod.splits)
    have "n = length (send_order u1)"
      using Suc.hyps(2) arg_cong [OF send_order_pop [OF ne], of length] send_request_status(2) [OF s] by simp
    from Suc.hyps(1) [OF this p] s show ?thesis by (auto simp: acts send_request_def split: option.splits)
  qed
qed

lemma handle_network_error_tokens:
  assumes "handle_network_error bx now c u = Some (u', acts)"
  shows "act_tokens acts = 0" "up_auth_state u' = up_auth_state u"
  using assms
  by (auto simp: handle_network_error_def upstream_connection_check_def Let_def split: if_splits option.splits)

lemma pump_loop_tokens:
  assumes "pump_loop u = (u', acts)" and "client_queue u"
  shows "act_tokens acts = 0 \<and> up_auth_state u' = up_auth_state u"
proof -
  have "set (concat (map action_request acts)) \<subseteq> set (queued u)"
    using pump_loop_order [OF assms(1)] unfolding queued_order by (metis set_append Un_upper1)
  then have "\<forall>r \<in> set (concat (map action_request acts)). \<not> auth_kind r"
    using assms(2) auth_kind_client by (auto simp: client_queue_def)
  moreover have "\<forall>a \<in> set acts. \<exists>r. action_request a = [r]"
    using pump_loop_actions [OF assms(1)] .
  ultimately have "act_tokens acts = 0" by (induction acts rule: act_tokens.induct) auto
  then show ?thesis using pump_loop_order [OF assms(1)] by (simp add: same_status_def)
qed

definition auth_inv :: "relay_config \<Rightarrow> 'b upstream_system \<Rightarrow> bool" where
  "auth_inv c s \<longleftrightarrow>
     auth_tokens s =
       (if up_auth_state (ys_relay s) = Denied \<or>
           up_auth_state (ys_relay s) = Registered \<and> renew_auth_interval c (ys_relay s) = None then 0 else 1)"

text \<open>Steps that are not part of the authentication.\<close>

lemma auth_inv_other:
  assumes "auth_inv c s" and "up_auth_state u' = up_auth_state (ys_relay s)"
    and "auth_tokens s0 + act_tokens acts = auth_tokens s"
  shows "auth_inv c (run_actions (u', acts) s0)"
  using assms by (simp add: auth_inv_def auth_tokens_run run_actions_fields renew_auth_interval_def)

lemma handle_http_response_tokens:
  assumes "handle_http_response bx now c r result u = Some (u', acts)" and "internal_immediate r"
  shows "act_tokens acts = (if auth_kind r then 1 else 0) \<and> up_auth_state u' = up_auth_state u"
proof (cases "network_failure result")
  case False
  then have "(u', acts) = (reset_network_error bx u, [Answer r result])"
    using assms(1) by (cases result) (auto simp: handle_http_response_def network_failure_def)
  then show ?thesis by (simp add: reset_network_error_def)
next
  case True
  then obtain u1 acts1 where n: "handle_network_error bx now c u = Some (u1, acts1)"
    using assms(1) by (auto simp: handle_http_response_def network_failure_def split: option.splits sum.splits)
  have a1: "act_tokens acts1 = 0" "up_auth_state u1 = up_auth_state u"
    using handle_network_error_tokens [OF n] by simp_all
  show ?thesis
  proof (cases "urc_retry (rq_config r)")
    case True
    let ?r = "r\<lparr>rq_previous_retries := rq_previous_retries r + 1\<rparr>"
    have client: "\<not> auth_kind ?r" "\<not> auth_kind r"
      using True assms(2) by (auto simp: internal_immediate_def auth_kind_def)
    obtain acts2 where "enqueue ?r EP_Back u1 = (u', acts2)" "acts = acts1 @ acts2"
      using assms(1) \<open>network_failure result\<close> n True
      by (auto simp: handle_http_response_def network_failure_def split: sum.splits prod.splits)
    then show ?thesis using enqueue_tokens [of ?r EP_Back u1 u' acts2] a1 client by simp
  next
    case False
    then have "u' = u1" "acts = acts1 @ [Answer r result]"
      using assms(1) \<open>network_failure result\<close> n
      by (auto simp: handle_http_response_def network_failure_def split: sum.splits)
    then show ?thesis using a1 by simp
  qed
qed

lemma authentication_failed_tokens:
  assumes "authentication_failed err interval u = (u', acts)" and "up_auth_state u \<notin> {Denied, Registered}"
  shows "act_tokens acts = (if up_auth_state u' = Denied then 0 else 1) \<and> up_auth_state u' \<noteq> Registered"
  using assms by (auto simp: authentication_failed_def split: if_splits)

lemma token_state:
  assumes "auth_inv c s" and "auth_tokens s > 0"
  shows "auth_tokens s = 1" and "up_auth_state (ys_relay s) \<noteq> Denied"
    and "up_auth_state (ys_relay s) = Registered \<Longrightarrow> renew_auth_interval c (ys_relay s) \<noteq> None"
  using assms by (auto simp: auth_inv_def split: if_splits)

text \<open>While a registration request is out, the actor is registering or renewing.\<close>

definition pending_inv :: "'b upstream_system \<Rightarrow> bool" where
  "pending_inv s \<longleftrightarrow>
     ((\<exists>r \<in> set (ys_inflight s) \<union> set (ys_responding s) \<union> fst ` set (ys_waiting s). auth_kind r) \<longrightarrow>
        up_auth_state (ys_relay s) \<in> {Registering, Renewing})"

lemma pending_none:
  assumes "auth_tokens s = ys_auths s"
  shows "\<forall>r \<in> set (ys_inflight s) \<union> set (ys_responding s) \<union> fst ` set (ys_waiting s). \<not> auth_kind r"
  using assms by (auto simp: auth_tokens_def filter_empty_conv)

lemma act_tokens_pos:
  "r \<in> set (sent acts) \<union> fst ` set (answered acts) \<Longrightarrow> auth_kind r \<Longrightarrow> act_tokens acts > 0"
proof (induction acts)
  case (Cons a acts)
  then show ?case by (cases a) (simp_all, blast+)
qed simp

lemma pending_inv_other:
  assumes "pending_inv s" and "up_auth_state u' = up_auth_state (ys_relay s)"
    and "\<forall>r \<in> set (ys_inflight s0) \<union> set (ys_responding s0) \<union> fst ` set (ys_waiting s0). auth_kind r \<longrightarrow>
           r \<in> set (ys_inflight s) \<union> set (ys_responding s) \<union> fst ` set (ys_waiting s)"
    and "act_tokens acts > 0 \<longrightarrow>
           (\<exists>r \<in> set (ys_inflight s) \<union> set (ys_responding s) \<union> fst ` set (ys_waiting s). auth_kind r)"
  shows "pending_inv (run_actions (u', acts) s0)"
proof -
  have new: "\<exists>r \<in> set (ys_inflight s) \<union> set (ys_responding s) \<union> fst ` set (ys_waiting s). auth_kind r"
    if "r \<in> set (sent acts) \<union> fst ` set (answered acts)" "auth_kind r" for r
    using act_tokens_pos [OF that] assms(4) by blast
  have old: "\<exists>r \<in> set (ys_inflight s) \<union> set (ys_responding s) \<union> fst ` set (ys_waiting s). auth_kind r"
    if "r \<in> set (ys_inflight s0 @ sent acts) \<union> set (ys_responding s0) \<union>
          fst ` set (ys_waiting s0 @ filter (\<lambda>(r, _). rq_kind r \<noteq> RK_Client) (answered acts))" "auth_kind r" for r
  proof -
    have "fst ` set (filter (\<lambda>(r, _). rq_kind r \<noteq> RK_Client) (answered acts)) \<subseteq> fst ` set (answered acts)" by auto
    then have "r \<in> set (sent acts) \<union> fst ` set (answered acts) \<or>
        r \<in> set (ys_inflight s0) \<union> set (ys_responding s0) \<union> fst ` set (ys_waiting s0)"
      using that(1) by auto
    then show ?thesis using new [OF _ that(2)] assms(3) that(2) by blast
  qed
  show ?thesis
    unfolding pending_inv_def
  proof
    let ?s = "run_actions (u', acts) s0"
    assume "\<exists>r \<in> set (ys_inflight ?s) \<union> set (ys_responding ?s) \<union> fst ` set (ys_waiting ?s). auth_kind r"
    then obtain r where "r \<in> set (ys_inflight ?s) \<union> set (ys_responding ?s) \<union> fst ` set (ys_waiting ?s)" "auth_kind r"
      by blast
    from old [OF this [unfolded run_actions_fields]]
    show "up_auth_state (ys_relay ?s) \<in> {Registering, Renewing}"
      using assms(1,2) by (simp only: pending_inv_def run_actions_fields)
  qed
qed

definition auth_ok :: "relay_config \<Rightarrow> 'b upstream_system \<Rightarrow> bool" where
  "auth_ok c s \<longleftrightarrow> auth_inv c s \<and> pending_inv s"

lemma auth_ok_authenticate:
  assumes "auth_ok c s" and "ys_auths s > 0" and "should_authenticate c" "rc_credentials c \<noteq> None"
    and "handle_authenticate bx c rid build_error (ys_relay s) = Some step"
    and "ys_auths s0 = ys_auths s - 1" "ys_inflight s0 = ys_inflight s" "ys_responding s0 = ys_responding s"
    "ys_waiting s0 = ys_waiting s"
  shows "auth_ok c (run_actions step s0)"
proof -
  have pos: "auth_tokens s > 0" using assms(2) by (simp add: auth_tokens_def)
  have inv: "auth_inv c s" "pending_inv s" using assms(1) by (simp_all add: auth_ok_def)
  note st = token_state [OF inv(1) pos]
  have none: "auth_tokens s = ys_auths s" "ys_auths s = 1" using st(1) assms(2) by (auto simp: auth_tokens_def)
  have zero: "auth_tokens s0 = 0" using none assms(6-9) by (simp add: auth_tokens_def)
  have ok: "\<not> auth_state_error c (ys_relay s)"
    using st(2,3) assms(3) by (auto simp: auth_state_error_def should_renew_auth_def)
  let ?u = "(ys_relay s)\<lparr>up_auth_state := (if is_authenticated (up_auth_state (ys_relay s)) then Renewing else Registering)\<rparr>"
  obtain b r where sr: "send_request r (?u\<lparr>up_auth_backoff := b\<rparr>) = step" and r: "auth_kind r"
    using assms(4,5) ok
    by (auto simp: handle_authenticate_def enqueue_query_def enqueue_request_def enqueue_def Let_def auth_kind_def
        split: option.splits prod.splits)
  obtain u' acts where s: "step = (u', acts)" by fastforce
  have tok: "act_tokens acts = 1" and auth: "up_auth_state u' = (if is_authenticated (up_auth_state (ys_relay s)) then Renewing else Registering)"
    using send_request_tokens [OF sr [unfolded s]] r by simp_all
  have "auth_inv c (run_actions step s0)"
    using tok auth zero by (simp add: auth_inv_def s auth_tokens_run run_actions_fields)
  moreover have "pending_inv (run_actions step s0)"
    using auth by (simp add: pending_inv_def s run_actions_fields)
  ultimately show ?thesis by (simp add: auth_ok_def)
qed

text \<open>The answer of a registration request is read.\<close>

lemma auth_ok_answer:
  assumes "auth_ok c s" and "(r, res) \<in> set (ys_waiting s)" and "auth_kind r"
    and "act_tokens acts = (if up_auth_state u' = Denied \<or> up_auth_state u' = Registered \<and> renew_auth_interval c u' = None
                            then 0 else 1)"
    and "up_auth_state u' \<in> {Denied, Registered} \<longrightarrow> sent acts = [] \<and> answered acts = []"
    and "up_auth_state (ys_relay s) \<in> {Registering, Renewing} \<longrightarrow> up_auth_state u' \<noteq> Unknown"
    and "ys_auths s0 = ys_auths s" "ys_inflight s0 = ys_inflight s" "ys_responding s0 = ys_responding s"
    "ys_waiting s0 = remove1 (r, res) (ys_waiting s)"
  shows "auth_ok c (run_actions (u', acts) s0)"
proof -
  have inv: "auth_inv c s" "pending_inv s" using assms(1) by (simp_all add: auth_ok_def)
  have "length (filter (\<lambda>(r, _). auth_kind r) (ys_waiting s)) =
      length (filter (\<lambda>(r, _). auth_kind r) (remove1 (r, res) (ys_waiting s))) + 1"
    using filter_remove1 [OF assms(2), of "\<lambda>(r, _). auth_kind r"] assms(3) by simp
  then have tok: "auth_tokens s = auth_tokens s0 + 1" using assms(7-10) by (simp add: auth_tokens_def)
  then have zero: "auth_tokens s0 = 0" using token_state(1) [OF inv(1)] by simp
  then have none: "\<forall>r \<in> set (ys_inflight s0) \<union> set (ys_responding s0) \<union> fst ` set (ys_waiting s0). \<not> auth_kind r"
    by (intro pending_none) (simp add: auth_tokens_def)
  have reg: "up_auth_state (ys_relay s) \<in> {Registering, Renewing}"
    using inv(2) assms(2,3) unfolding pending_inv_def by force
  have "up_auth_state u' \<in> {Registering, Renewing} \<or> up_auth_state u' \<in> {Denied, Registered}"
    using assms(6) reg by (cases "up_auth_state u'") auto
  then have "pending_inv (run_actions (u', acts) s0)"
    using none assms(5) by (auto simp: pending_inv_def run_actions_fields)
  then show ?thesis
    using assms(4) zero by (simp add: auth_ok_def auth_inv_def auth_tokens_run run_actions_fields)
qed

lemma auth_ok_other:
  assumes "auth_ok c s" and "up_auth_state u' = up_auth_state (ys_relay s)"
    and "auth_tokens s0 + act_tokens acts = auth_tokens s" and "ys_auths s \<le> ys_auths s0"
    and "\<forall>r \<in> set (ys_inflight s0) \<union> set (ys_responding s0) \<union> fst ` set (ys_waiting s0). auth_kind r \<longrightarrow>
           r \<in> set (ys_inflight s) \<union> set (ys_responding s) \<union> fst ` set (ys_waiting s)"
  shows "auth_ok c (run_actions (u', acts) s0)"
proof -
  have "\<exists>r \<in> set (ys_inflight s) \<union> set (ys_responding s) \<union> fst ` set (ys_waiting s). auth_kind r"
    if "act_tokens acts > 0"
  proof (rule ccontr)
    assume "\<not> ?thesis"
    then have "\<forall>r \<in> set (ys_inflight s). \<not> auth_kind r" "\<forall>r \<in> set (ys_responding s). \<not> auth_kind r"
      "\<forall>x \<in> set (ys_waiting s). \<not> auth_kind (fst x)" by blast+
    then have "auth_tokens s = ys_auths s" by (simp add: auth_tokens_def case_prod_unfold)
    then show False using assms(3,4) that by (simp add: auth_tokens_def)
  qed
  then show ?thesis
    using assms auth_inv_other [of c s u' s0 acts] pending_inv_other [of s u' s0 acts] by (simp add: auth_ok_def)
qed

lemma authentication_failed_answer:
  assumes "authentication_failed err interval u = (u', acts)" and "up_auth_state u \<in> {Registering, Renewing}"
  shows "act_tokens acts = (if up_auth_state u' = Denied then 0 else 1) \<and> up_auth_state u' \<notin> {Unknown, Registered} \<and>
         sent acts = [] \<and> answered acts = []"
  using assms by (auto simp: authentication_failed_def split: if_splits)

lemma challenge_finished_tokens:
  assumes "challenge_finished c rid build_error interval result u = (u', acts)" and "rc_credentials c \<noteq> None"
    and "up_auth_state u \<in> {Registering, Renewing}"
  shows "act_tokens acts = (if up_auth_state u' = Denied then 0 else 1)" and "up_auth_state u' \<notin> {Unknown, Registered}"
    and "up_auth_state u' = Denied \<longrightarrow> sent acts = [] \<and> answered acts = []"
proof -
  have "act_tokens acts = (if up_auth_state u' = Denied then 0 else 1) \<and> up_auth_state u' \<notin> {Unknown, Registered} \<and>
      (up_auth_state u' = Denied \<longrightarrow> sent acts = [] \<and> answered acts = [])"
  proof (cases result)
    case (Inl err)
    then have "authentication_failed err interval u = (u', acts)" using assms(1) by (simp add: challenge_finished_def)
    from authentication_failed_answer [OF this assms(3)] show ?thesis by simp
  next
    case (Inr x)
    then obtain r where "send_request r u = (u', acts)" "auth_kind r"
      using assms(1,2)
      by (auto simp: challenge_finished_def enqueue_query_def enqueue_request_def enqueue_def auth_kind_def
          split: prod.splits)
    from send_request_tokens [OF this(1)] this(2) assms(3) show ?thesis by auto
  qed
  then show "act_tokens acts = (if up_auth_state u' = Denied then 0 else 1)" "up_auth_state u' \<notin> {Unknown, Registered}"
    "up_auth_state u' = Denied \<longrightarrow> sent acts = [] \<and> answered acts = []" by simp_all
qed

lemma register_finished_tokens:
  assumes "register_finished bx c interval result u = (u', acts)" and "up_auth_state u \<in> {Registering, Renewing}"
  shows "act_tokens acts =
           (if up_auth_state u' = Denied \<or> up_auth_state u' = Registered \<and> renew_auth_interval c u' = None then 0 else 1)"
    and "up_auth_state u' \<noteq> Unknown" and "sent acts = []" "answered acts = []"
proof -
  have "act_tokens acts =
      (if up_auth_state u' = Denied \<or> up_auth_state u' = Registered \<and> renew_auth_interval c u' = None then 0 else 1) \<and>
      up_auth_state u' \<noteq> Unknown \<and> sent acts = [] \<and> answered acts = []"
  proof (cases result)
    case (Inl err)
    then have "authentication_failed err interval u = (u', acts)" using assms(1) by (simp add: register_finished_def)
    from authentication_failed_answer [OF this assms(2)] show ?thesis by auto
  next
    case (Inr x)
    let ?u = "u\<lparr>up_auth_state := Registered, up_auth_backoff := backoff_reset bx (up_auth_backoff u)\<rparr>"
    have "(u', acts) = (?u, (case renew_auth_interval c ?u of Some d \<Rightarrow> [AuthLater d] | None \<Rightarrow> []) @ [Pump])"
      using assms(1) [symmetric] Inr by (simp only: register_finished_def Let_def sum.case)
    then show ?thesis by (cases "renew_auth_interval c ?u") simp_all
  qed
  then show "act_tokens acts =
           (if up_auth_state u' = Denied \<or> up_auth_state u' = Registered \<and> renew_auth_interval c u' = None then 0 else 1)"
    "up_auth_state u' \<noteq> Unknown" "sent acts = []" "answered acts = []" by simp_all
qed

lemma auth_ok_step:
  assumes "upstream_step bx c s s'" and "auth_ok c s" and "upstream_inv s"
    and "should_authenticate c" and "rc_credentials c \<noteq> None"
  shows "auth_ok c s'"
  using assms(1)
proof (cases rule: upstream_step.cases)
  case (submit cfg path build_error)
  let ?r = "\<lparr>rq_id = ys_issued s, rq_config = cfg, rq_kind = RK_Client, rq_path = path, rq_build_error = build_error,
      rq_previous_retries = 0\<rparr>"
  obtain u' acts where e: "enqueue ?r EP_Front (ys_relay s) = (u', acts)" by fastforce
  have "act_tokens acts = 0 \<and> up_auth_state u' = up_auth_state (ys_relay s)"
    using enqueue_tokens [OF e] by (simp add: auth_kind_def)
  then show ?thesis
    unfolding submit enqueue_request_def e by (intro auth_ok_other [OF assms(2)]) (simp_all add: auth_tokens_def)
next
  case pump
  obtain u' acts where p: "handle_pump c (ys_relay s) = (u', acts)" by fastforce
  have "act_tokens acts = 0 \<and> up_auth_state u' = up_auth_state (ys_relay s)"
    using p pump_loop_tokens [of "ys_relay s" u' acts] assms(3)
    by (auto simp: handle_pump_def upstream_inv_def split: if_splits)
  then show ?thesis unfolding pump p by (intro auth_ok_other [OF assms(2)]) (simp_all add: auth_tokens_def)
next
  case (transferred r)
  have "length (filter auth_kind (ys_inflight s)) = length (filter auth_kind (remove1 r (ys_inflight s))) + (if auth_kind r then 1 else 0)"
    by (rule filter_remove1 [OF transferred(2)])
  then have tok: "auth_tokens s' = auth_tokens s" by (simp add: transferred(1) auth_tokens_def)
  have "set (ys_inflight s') \<union> set (ys_responding s') \<subseteq> set (ys_inflight s) \<union> set (ys_responding s)"
    using transferred(2) set_remove1_subset [of r "ys_inflight s"] by (auto simp: transferred(1))
  then show ?thesis
    using assms(2) tok by (auto simp: auth_ok_def auth_inv_def pending_inv_def transferred(1))
next
  case tracked
  show ?thesis
    unfolding tracked handle_tracked_finished_def
    by (rule auth_ok_other [OF assms(2)]) (simp_all add: auth_tokens_def)
next
  case (respond r now transfer step)
  obtain u' acts where st: "step = (u', acts)" by fastforce
  have "internal_immediate r" using assms(3) respond(2) by (simp add: upstream_inv_def)
  from handle_http_response_tokens [OF respond(3) [unfolded st] this]
  have t: "act_tokens acts = (if auth_kind r then 1 else 0)" "up_auth_state u' = up_auth_state (ys_relay s)" by simp_all
  show ?thesis
    unfolding respond(1) st
  proof (rule auth_ok_other [OF assms(2) t(2)])
    show "auth_tokens (s\<lparr>ys_responding := remove1 r (ys_responding s)\<rparr>) + act_tokens acts = auth_tokens s"
      using filter_remove1 [OF respond(2), of auth_kind] t(1) by (simp add: auth_tokens_def)
  qed (use set_remove1_subset [of r "ys_responding s"] in auto)
next
  case check
  have st: "\<exists>r. handle_check (ys_issued s) None (ys_relay s) =
      ((ys_relay s)\<lparr>up_num_inflight := up_num_inflight (ys_relay s) + 1\<rparr>, [Send r]) \<and> \<not> auth_kind r"
    by (simp add: handle_check_def enqueue_request_def enqueue_def send_request_def check_config_def auth_kind_def)
  then obtain r where st: "handle_check (ys_issued s) None (ys_relay s) =
      ((ys_relay s)\<lparr>up_num_inflight := up_num_inflight (ys_relay s) + 1\<rparr>, [Send r])" "\<not> auth_kind r" by blast
  show ?thesis
    unfolding check st(1) by (rule auth_ok_other [OF assms(2)]) (simp_all add: auth_tokens_def st(2))
next
  case (checked r res body_error step)
  obtain u' acts where st: "step = (u', acts)" by fastforce
  have t: "act_tokens acts = 0" "up_auth_state u' = up_auth_state (ys_relay s)"
    using checked(4) by (cases rule: check_finished_cases; simp add: st)+
  have "\<not> auth_kind r" using checked(3) by (simp add: auth_kind_def)
  then have "auth_tokens (s\<lparr>ys_waiting := remove1 (r, res) (ys_waiting s)\<rparr>) + act_tokens acts = auth_tokens s"
    using filter_remove1 [OF checked(2), of "\<lambda>(r, _). auth_kind r"] t(1) by (simp add: auth_tokens_def)
  moreover have "fst ` set (remove1 (r, res) (ys_waiting s)) \<subseteq> fst ` set (ys_waiting s)"
    using set_remove1_subset [of "(r, res)" "ys_waiting s"] by auto
  ultimately show ?thesis
    unfolding checked(1) st by (intro auth_ok_other [OF assms(2) t(2)]) auto
next
  case (authenticate build_error step)
  show ?thesis
    unfolding authenticate(1)
    by (rule auth_ok_authenticate [OF assms(2) authenticate(2) assms(4,5) authenticate(3)]) simp_all
next
  case (challenged r res interval build_error body_error)
  have r: "auth_kind r" using challenged(3) by (simp add: auth_kind_def)
  obtain u' acts where
    st: "challenge_finished c (ys_issued s) build_error interval (body_result res body_error) (ys_relay s) = (u', acts)"
    by fastforce
  have reg: "up_auth_state (ys_relay s) \<in> {Registering, Renewing}"
    using assms(2) challenged(2) r unfolding auth_ok_def pending_inv_def by force
  note t = challenge_finished_tokens [OF st assms(5) reg]
  show ?thesis
    unfolding challenged(1) st by (rule auth_ok_answer [OF assms(2) challenged(2) r]) (use t in auto)
next
  case (registered r res interval body_error)
  have r: "auth_kind r" using registered(3) by (simp add: auth_kind_def)
  obtain u' acts where st: "register_finished bx c interval (body_result res body_error) (ys_relay s) = (u', acts)"
    by fastforce
  have reg: "up_auth_state (ys_relay s) \<in> {Registering, Renewing}"
    using assms(2) registered(2) r unfolding auth_ok_def pending_inv_def by force
  note t = register_finished_tokens [OF st reg]
  show ?thesis
    unfolding registered(1) st by (rule auth_ok_answer [OF assms(2) registered(2) r]) (use t in auto)
qed

lemma auth_ok_init:
  assumes "should_authenticate c"
  shows "auth_ok c (upstream_system_new bx backoff c)"
  using assms
  by (simp add: auth_ok_def auth_inv_def pending_inv_def upstream_system_new_def relay_started_def auth_tokens_run
      run_actions_fields) (simp add: auth_tokens_def upstream_relay_new_def)

lemma upstream_reachable_auth:
  assumes "upstream_reachable bx c backoff s" and "should_authenticate c" and "rc_credentials c \<noteq> None"
  shows "auth_ok c s"
  using assms
  by (induction rule: upstream_reachable.induct) (auto intro: auth_ok_init auth_ok_step upstream_reachable_inv)

section \<open>Properties\<close>

text \<open>C3: in every reachable state each request that was ever submitted is in exactly one place: queued,
  in transfer, being answered, or answered, so none is lost and none is answered twice,
  however often it was retried; and the counter of requests in flight is exact, so that it
  never underflows when a transfer ends.\<close>

theorem upstream_requests_accounted:
  assumes "upstream_reachable bx c backoff s"
  shows "mset (map rq_id (up_high (ys_relay s) @ up_low (ys_relay s) @ ys_inflight s @ ys_responding s)) +
           mset (map fst (ys_answers s)) = mset [0..<ys_issued s] \<and>
         up_num_inflight (ys_relay s) = length (ys_inflight s) + ys_tracked s"
  using upstream_reachable_inv [OF assms] by (simp add: upstream_inv_def queued_def ids_def ac_simps)

text \<open>C13: the queues do not get stuck: whenever the upstream is ready and a request is queued, a pump
  message is under way, a transfer is running or about to be noticed whose end pumps the
  queue, or a connection check is open that does. In a network outage, a connection check
  that has not yet seen the network is always under way.\<close>

theorem upstream_queue_not_stuck:
  assumes "upstream_reachable bx c backoff s" and "0 < up_max_inflight (ys_relay s)"
  shows "(is_ready c (ys_relay s) \<and> up_high (ys_relay s) @ up_low (ys_relay s) \<noteq> [] \<longrightarrow>
            ys_pumps s > 0 \<or> ys_inflight s \<noteq> [] \<or> ys_tracked s > 0 \<or> check_open s) \<and>
         (is_network_outage (ys_relay s) \<longrightarrow> check_running s)"
  using upstream_reachable_live [OF assms(1)] upstream_reachable_inv [OF assms(1)] assms(2)
  by (auto simp: live_inv_def busy_def upstream_inv_def queued_def)


text \<open>C11: in managed mode with credentials the authentication never stops too early and never runs
  twice: exactly one authentication timer, registration request or unread answer of one
  exists in every reachable state, until the upstream denies the relay or the relay is
  registered and does not renew its registration; then there is none. A denied relay is
  never ready.\<close>

theorem authentication_single_loop:
  assumes "upstream_reachable bx c backoff s" and "should_authenticate c" and "rc_credentials c \<noteq> None"
  shows "auth_tokens s =
           (if up_auth_state (ys_relay s) = Denied \<or>
               up_auth_state (ys_relay s) = Registered \<and> renew_auth_interval c (ys_relay s) = None then 0 else 1) \<and>
         (is_ready c (ys_relay s) \<longrightarrow> is_authenticated (up_auth_state (ys_relay s)))"
proof -
  have "auth_inv c s" using upstream_reachable_auth [OF assms] by (simp add: auth_ok_def)
  moreover have "is_ready c (ys_relay s) \<longrightarrow> is_authenticated (up_auth_state (ys_relay s))"
    using assms(2) by (cases "up_auth_state (ys_relay s)") (simp_all add: is_ready_def is_authenticated_def)
  ultimately show ?thesis by (simp add: auth_inv_def)
qed

lemma upsert_covers:
  "\<exists>l' \<in> set (rate_limits_upsert l ls). limit_categories l' = limit_categories l \<and> limit_scope l' = limit_scope l \<and>
     limit_retry_after l \<le> limit_retry_after l'"
  by (induction ls) auto

text \<open>Without usable rate limits in the header of a 429 response, the fallback limit rejects every
  category of the project key for at least the time of the \<open>Retry-After\<close> header, not only the
  category of the request.\<close>

lemma limits_scope_fallback:
  assumes "\<not> is_limited now (parse_rate_limits now sc (url_rate_limits limits))"
  shows "\<exists>l \<in> set (limits_scope now sc limits). url_retry_after limits \<le> limit_retry_after l \<and>
           (\<forall>category. rate_limit_matches l (scoping_item sc category))"
proof -
  let ?l = "\<lparr>limit_categories = [], limit_scope = rate_limit_scope_for_quota sc QS_Key, limit_reason_code = None,
      limit_retry_after = url_retry_after limits\<rparr>"
  obtain l where "l \<in> set (limits_scope now sc limits)" "limit_categories l = []"
      "limit_scope l = RLS_Key (project_key sc)" "url_retry_after limits \<le> limit_retry_after l"
    using assms upsert_covers [of ?l "parse_rate_limits now sc (url_rate_limits limits)"]
    by (auto simp: limits_scope_def Let_def rate_limits_add_def)
  then show ?thesis
    by (auto simp: rate_limit_matches_def rate_limit_matches_scope_def matches_categories_def scoping_item_def)
qed

section \<open>Examples\<close>

definition doubling_backoff :: "nat backoff_ext" where
  "doubling_backoff = \<lparr>be_reset = (\<lambda>_. 1000), be_next = (\<lambda>b. (Some b, 2 * b))\<rparr>"

definition managed_config :: relay_config where
  "managed_config = (config_default ''127.0.0.1'' 4)
     \<lparr>rc_credentials := Some \<lparr>cr_secret_key = [1], cr_public_key = [2], cr_id = 3\<rparr>\<rparr>"

definition proxy_config :: relay_config where
  "proxy_config = (let c = config_default ''127.0.0.1'' 4; v = rc_values c in
     c\<lparr>rc_values := v\<lparr>cv_relay := (cv_relay v)\<lparr>rs_mode := RM_Proxy\<rparr>\<rparr>\<rparr>)"

definition example_request_config :: request_config where
  "example_request_config = \<lparr>urc_priority = RP_Low, urc_retry = True, urc_intercept_status_errors = True,
     urc_set_relay_id = True\<rparr>"

definition example_submitted :: "nat upstream_system" where
  "example_submitted =
     (let s = upstream_system_new doubling_backoff 7 proxy_config
      in run_actions (enqueue_request 0 example_request_config RK_Client ''/api/0/envelope/'' None (ys_relay s))
           (s\<lparr>ys_issued := 1\<rparr>))"

lemma example_submitted_reachable: "upstream_reachable doubling_backoff proxy_config 7 example_submitted"
proof -
  let ?s = "upstream_system_new doubling_backoff 7 proxy_config"
  have "ys_issued ?s = 0"
    by (simp add: upstream_system_new_def relay_started_def run_actions_fields)
  then show ?thesis
    using upstream_reachable.step [OF upstream_reachable.init upstream_step.submit, of doubling_backoff proxy_config 7
        example_request_config "''/api/0/envelope/''" None]
    by (simp add: example_submitted_def Let_def)
qed

lemmas example_upstream_defs =
  example_submitted_def upstream_system_new_def relay_started_def enqueue_request_def enqueue_def
  example_request_config_def upstream_relay_new_def retry_backoff_new_def backoff_reset_def backoff_started_def
  is_ready_def is_network_outage_def should_authenticate_def cfg_relay_mode_def proxy_config_def config_default_def
  config_values_default_def relay_section_default_def max_concurrent_requests_def limits_section_default_def

theorem upstream_requests_accounted_witness:
  "mset (map rq_id (up_high (ys_relay example_submitted) @ up_low (ys_relay example_submitted) @
      ys_inflight example_submitted @ ys_responding example_submitted)) +
    mset (map fst (ys_answers example_submitted)) = mset [0..<ys_issued example_submitted]"
  using upstream_requests_accounted [OF example_submitted_reachable] by blast

theorem upstream_queue_not_stuck_witness:
  "ys_pumps example_submitted > 0 \<or> ys_inflight example_submitted \<noteq> [] \<or> ys_tracked example_submitted > 0 \<or>
   check_open example_submitted"
proof -
  have "0 < up_max_inflight (ys_relay example_submitted)" "is_ready proxy_config (ys_relay example_submitted)"
      "up_low (ys_relay example_submitted) \<noteq> []"
    by (simp_all add: example_upstream_defs Let_def run_actions_fields)
  with upstream_queue_not_stuck [OF example_submitted_reachable] show ?thesis by blast
qed


theorem authentication_single_loop_witness:
  "auth_tokens (upstream_system_new doubling_backoff 7 managed_config) = 1"
proof -
  let ?s = "upstream_system_new doubling_backoff 7 managed_config"
  have "should_authenticate managed_config" "rc_credentials managed_config \<noteq> None"
    by (simp_all add: managed_config_def example_upstream_defs)
  moreover have "up_auth_state (ys_relay ?s) = Unknown"
    by (simp add: upstream_system_new_def run_actions_fields relay_started_def upstream_relay_new_def)
  ultimately show ?thesis
    using authentication_single_loop [OF upstream_reachable.init, of managed_config doubling_backoff 7] by simp
qed

end
