(* ===== verification/Envelope_Manager.thy ===== *)
theory Envelope_Manager
  imports Envelope_Processor Project_Cache Upstream_Relay Metrics_Aggregator
begin

text \<open>
  The envelope manager (\<open>EnvelopeManager\<close> of \<open>relay-server/src/actors/envelopes.rs\<close>), the actor between the
  endpoints and the upstream: it queues envelopes, takes each through the project check, sampling,
  the processor and the submission, and reports outcomes for what is lost. Futures are tasks: a
  task waits for one reply at a time, and replies of different tasks, timeouts and new messages
  interleave in any order.
\<close>

section \<open>Arguments\<close>

text \<open>
  Metric buckets are read and written as JSON; the default protocol version, the names of client and
  server and the texts of errors are constants of other crates or of the build.
\<close>

record ('ip, 'e) manager_ext =
  mx_sampling :: "'ip sampling_ext"
  mx_ip_to_string :: "'ip \<Rightarrow> string"
  mx_hash :: "string \<Rightarrow> u32"
  mx_parse_buckets :: "bytes \<Rightarrow> 'e + bucket list"
  mx_serialize_buckets :: "bucket list \<Rightarrow> 'e + bytes"
  mx_log_error :: "'e process_error \<Rightarrow> string"
  mx_upstream_error :: "upstream_request_error \<Rightarrow> 'e"
  mx_default_version :: u16
  mx_client :: string
  mx_server :: string

section \<open>Messages\<close>

record handle_envelope_fields =
  he_project_key :: project_key
  he_sampling_project_key :: "project_key option"
  he_start_time :: instant

record 'j handle_msg = handle_envelope_fields +
  he_envelope :: "'j proc_envelope"

record process_metrics_msg =
  pm_items :: "item list"
  pm_project_key :: project_key
  pm_start_time :: instant
  pm_sent_at :: "date_time option"

text \<open>
  What the manager and the processor send to other actors. A request holds the envelope; its headers and
  body are built when the upstream actor sends it.
\<close>

datatype 'j effect =
    E_ProcessMetrics process_metrics_msg
  | E_InsertMetrics project_key "metric list"
  | E_MergeBuckets project_key "bucket list"
  | E_UpdateRateLimits project_key rate_limits
  | E_TrackOutcome "event_id track_outcome"
  | E_StoreEnvelope "'j proc_envelope" instant scoping
  | E_SendRequest string "'j proc_envelope"

section \<open>Metrics\<close>

definition process_metrics_item ::
  "('ip, 'e) manager_ext \<Rightarrow> clock_drift_processor \<Rightarrow> unix_timestamp \<Rightarrow> project_key \<Rightarrow> item \<Rightarrow> 'j effect list" where
  "process_metrics_item mx drift default_timestamp key it =
     (if item_ty it = IT_Metrics
      then
        let timestamp = (case ih_timestamp (item_headers it) of Some t \<Rightarrow> t | None \<Rightarrow> default_timestamp);
            metrics = List.map_filter (\<lambda>r. case r of
                Inl _ \<Rightarrow> None
              | Inr m \<Rightarrow> Some (m\<lparr>metric_timestamp := drift_process_unix drift (metric_timestamp m)\<rparr>))
              (parse_metrics_collect (mx_hash mx) timestamp (item_payload it))
        in [E_InsertMetrics key metrics]
      else if item_ty it = IT_MetricBuckets
      then
        (case mx_parse_buckets mx (item_payload it) of
           Inl _ \<Rightarrow> []
         | Inr buckets \<Rightarrow>
             [E_MergeBuckets key (map (\<lambda>b. b\<lparr>b_timestamp := drift_process_unix drift (b_timestamp b)\<rparr>) buckets)])
      else [])"

definition process_metrics ::
  "('ip, 'e) manager_ext \<Rightarrow> instant \<Rightarrow> system_time \<Rightarrow> process_metrics_msg \<Rightarrow> 'j effect list" where
  "process_metrics mx now system_now m =
     (let received = instant_to_system_time now system_now (pm_start_time m);
          default_timestamp = word_of_int (received div ns);
          drift = drift_at_least MINIMUM_CLOCK_DRIFT (clock_drift_new (pm_sent_at m) received)
      in concat (map (process_metrics_item mx drift default_timestamp (pm_project_key m)) (pm_items m)))"

section \<open>The manager\<close>

text \<open>Either a captured envelope or the text of an error.\<close>

type_synonym 'j captured_envelope = "string + 'j proc_envelope"

record 'j envelope_manager =
  mg_active_envelopes :: u32
  mg_captures :: "event_id \<rightharpoonup> 'j captured_envelope"
  mg_store_forwarder :: bool

definition manager_create :: "relay_config \<Rightarrow> 'j envelope_manager" where
  "manager_create c =
     \<lparr>mg_active_envelopes = 0, mg_captures = Map.empty, mg_store_forwarder = processing_enabled c\<rparr>"

definition get_captured_envelope :: "event_id \<Rightarrow> 'j envelope_manager \<Rightarrow> 'j captured_envelope option" where
  "get_captured_envelope i mg = mg_captures mg i"

section \<open>Sending envelopes\<close>

datatype 'e send_envelope_error =
    SE_ScheduleFailed | SE_StoreFailed 'e | SE_SendFailed upstream_request_error | SE_RateLimited rate_limits

definition envelope_path :: "scoping \<Rightarrow> string" where
  "envelope_path sc = ''/api/'' @ show_u64 (scoping.project_id sc) @ ''/envelope/''"

text \<open>\<open>send_envelope\<close> up to the message it sends; captured envelopes need none.\<close>

definition send_envelope ::
  "relay_config \<Rightarrow> 'j proc_envelope \<Rightarrow> scoping \<Rightarrow> instant \<Rightarrow> 'j envelope_manager \<Rightarrow>
   'j effect option \<times> 'j envelope_manager" where
  "send_envelope c e sc start_time mg =
     (if mg_store_forwarder mg then (Some (E_StoreEnvelope e start_time sc), mg)
      else if cfg_relay_mode c = RM_Capture
      then (None,
            case eh_event_id (env_headers e) of
              Some i \<Rightarrow> mg\<lparr>mg_captures := (mg_captures mg)(i \<mapsto> Inr e)\<rparr>
            | None \<Rightarrow> mg)
      else (Some (E_SendRequest (envelope_path sc) e), mg))"

definition auth_header :: "full_meta \<Rightarrow> string" where
  "auth_header m =
     ''Sentry sentry_key='' @ key_bytes (dsn_public_key (rm_dsn m)) @ '', sentry_version='' @ show_nat (unat (rm_version m)) @
     (case rm_client m of Some client \<Rightarrow> '', sentry_client='' @ client | None \<Rightarrow> [])"

text \<open>The headers and the body of the request, built at the time \<open>utc_now\<close>; the body is encoded when it is sent.\<close>

definition build_send_request ::
  "((full_meta, event_id, date_time, 'j, trace_ctx) envelope_headers \<Rightarrow> 'j + bytes) \<Rightarrow> (item_headers \<Rightarrow> 'j + bytes) \<Rightarrow>
   relay_config \<Rightarrow> date_time \<Rightarrow> 'j proc_envelope \<Rightarrow>
   upstream_request_error + http_encoding \<times> (string \<times> string) list \<times> bytes" where
  "build_send_request se_headers se_item c utc_now e0 =
     (let e = set_sent_at utc_now e0; m = eh_meta (env_headers e);
          headers = (case rm_origin m of Some origin \<Rightarrow> [(''Origin'', origin)] | None \<Rightarrow> []) @
                    (case rm_user_agent m of Some user_agent \<Rightarrow> [(''User-Agent'', user_agent)] | None \<Rightarrow> []) @
                    [(''X-Sentry-Auth'', auth_header m), (''X-Forwarded-For'', rm_forwarded_for m),
                     (''Content-Type'', ''application/x-sentry-envelope'')]
      in case envelope_to_vec se_headers se_item e of
           Inl _ \<Rightarrow> Inl (UE_Http HE_Custom)
         | Inr body \<Rightarrow> Inr (hs_encoding (cv_http (rc_values c)), headers, body))"

text \<open>
  The continuations of the two sends: \<open>Inl ()\<close> is an error of the mailbox. Rate limits of the
  upstream are cached on the project.
\<close>

definition store_result :: "unit + ('e + unit) \<Rightarrow> 'e send_envelope_error + unit" where
  "store_result reply =
     (case reply of
        Inl _ \<Rightarrow> Inl SE_ScheduleFailed
      | Inr (Inl e) \<Rightarrow> Inl (SE_StoreFailed e)
      | Inr (Inr _) \<Rightarrow> Inr ())"

definition upstream_result ::
  "instant \<Rightarrow> project_key \<Rightarrow> scoping \<Rightarrow> unit + (upstream_request_error + unit) \<Rightarrow>
   ('e send_envelope_error + unit) \<times> 'j effect list" where
  "upstream_result now key sc reply =
     (case reply of
        Inl _ \<Rightarrow> (Inl SE_ScheduleFailed, [])
      | Inr (Inr _) \<Rightarrow> (Inr (), [])
      | Inr (Inl (UE_RateLimited upstream_limits)) \<Rightarrow>
          let limits = limits_scope now sc upstream_limits
          in (Inl (SE_RateLimited limits), [E_UpdateRateLimits key limits])
      | Inr (Inl err) \<Rightarrow> (Inl (SE_SendFailed err), []))"

definition send_received :: "'e send_envelope_error + unit \<Rightarrow> bool" where
  "send_received result =
     (case result of
        Inr _ \<Rightarrow> True
      | Inl (SE_RateLimited _) \<Rightarrow> True
      | Inl (SE_SendFailed e) \<Rightarrow> is_received e
      | Inl _ \<Rightarrow> False)"

fun send_error :: "('ip, 'e) manager_ext \<Rightarrow> 'e send_envelope_error \<Rightarrow> 'e process_error" where
  "send_error mx SE_ScheduleFailed = PE_ScheduleFailed"
| "send_error mx (SE_StoreFailed e) = PE_StoreFailed e"
| "send_error mx (SE_SendFailed e) = PE_SendFailed (mx_upstream_error mx e)"
| "send_error mx (SE_RateLimited limits) = PE_RateLimited limits"

text \<open>The handler of \<open>SendMetrics\<close>, up to the message it sends; \<open>None\<close> is its panic.\<close>

definition meta_outbound :: "('ip, 'e) manager_ext \<Rightarrow> instant \<Rightarrow> partial_dsn \<Rightarrow> full_meta" where
  "meta_outbound mx now dsn =
     \<lparr>rm_dsn = dsn, rm_client = Some (mx_client mx), rm_version = mx_default_version mx, rm_origin = None,
      rm_remote_addr = None, rm_forwarded_for = [], rm_user_agent = Some (mx_server mx), rm_no_cache = False,
      rm_start_time = now\<rparr>"

definition metrics_envelope ::
  "('ip, 'e) manager_ext \<Rightarrow> relay_config \<Rightarrow> instant \<Rightarrow> scoping \<Rightarrow> bucket list \<Rightarrow> 'j proc_envelope option" where
  "metrics_envelope mx c now sc buckets =
     (let upstream = rs_upstream (cv_relay (rc_values c));
          dsn = \<lparr>dsn_scheme = scheme_display (ud_scheme upstream), dsn_public_key = scoping.project_key sc,
                 dsn_host = ud_host upstream, dsn_port = ud_port upstream, dsn_path = [], dsn_project_id = Some (scoping.project_id sc)\<rparr>
      in case mx_serialize_buckets mx buckets of
           Inl _ \<Rightarrow> None
         | Inr json \<Rightarrow>
             Some (add_item (set_payload CT_Json json (item_new IT_MetricBuckets))
                     (from_request None (meta_outbound mx now dsn))))"

definition send_metrics ::
  "('ip, 'e) manager_ext \<Rightarrow> relay_config \<Rightarrow> instant \<Rightarrow> scoping \<Rightarrow> bucket list \<Rightarrow> 'j envelope_manager \<Rightarrow>
   ('j effect option \<times> 'j envelope_manager) option" where
  "send_metrics mx c now sc buckets mg =
     map_option (\<lambda>e. send_envelope c e sc now mg) (metrics_envelope mx c now sc buckets)"

text \<open>The answer to \<open>SendMetrics\<close>: all buckets, if sending failed.\<close>

definition send_metrics_result :: "bucket list \<Rightarrow> 'e send_envelope_error + unit \<Rightarrow> bucket list + unit" where
  "send_metrics_result buckets result = map_err (\<lambda>_. buckets) result"

section \<open>Queueing\<close>

datatype queue_envelope_error = TooManyEnvelopes

definition is_metric :: "item \<Rightarrow> bool" where
  "is_metric it \<longleftrightarrow> item_ty it = IT_Metrics \<or> item_ty it = IT_MetricBuckets"

function take_metric_items :: "'j proc_envelope \<Rightarrow> item list \<times> 'j proc_envelope" where
  "take_metric_items e =
     (case take_item_by is_metric e of
        (None, e') \<Rightarrow> ([], e')
      | (Some it, e') \<Rightarrow> (case take_metric_items e' of (its, e'') \<Rightarrow> (it # its, e'')))"
  by pat_completeness auto
termination
proof (relation "measure (\<lambda>e. length (env_items e))")
  fix e e' :: "'j proc_envelope" and r it
  assume "(r, e') = take_item_by is_metric e" "r = Some it"
  then have "add_mset it (mset (env_items e')) = mset (env_items e)"
    using take_item_by_removes_one [of is_metric e r e'] by simp
  then have "length (env_items e') < length (env_items e)" by (metis lessI size_add_mset size_mset)
  then show "(e', e) \<in> measure (\<lambda>e. length (env_items e))" by simp
qed simp

declare take_metric_items.simps [simp del]

definition queue_envelope ::
  "relay_config \<Rightarrow> 'j handle_msg \<Rightarrow> 'j envelope_manager \<Rightarrow>
   (queue_envelope_error + event_id option) \<times> 'j envelope_manager \<times> 'j handle_msg list \<times> 'j effect list" where
  "queue_envelope c m mg =
     (if envelope_buffer_size c \<le> mg_active_envelopes mg then (Inl TooManyEnvelopes, mg, [], [])
      else
        let (metric_items, e1) = take_metric_items (he_envelope m);
            fx = (if metric_items \<noteq> []
                  then [E_ProcessMetrics \<lparr>pm_items = metric_items, pm_project_key = he_project_key m,
                          pm_start_time = he_start_time m, pm_sent_at = eh_sent_at (env_headers e1)\<rparr>]
                  else []);
            (event_envelope, e2) = split_by requires_event e1;
            msgs1 = (case event_envelope of Some e \<Rightarrow> [m\<lparr>he_envelope := e\<rparr>] | None \<Rightarrow> []);
            msgs2 = (if env_items e2 \<noteq> [] then [m\<lparr>he_envelope := e2\<rparr>] else [])
        in (Inr (eh_event_id (env_headers (he_envelope m))),
            mg\<lparr>mg_active_envelopes := mg_active_envelopes mg + word_of_nat (length msgs1 + length msgs2)\<rparr>,
            msgs1 @ msgs2, fx))"

section \<open>Tasks\<close>

text \<open>What a task waits for, with the envelope it holds.\<close>

datatype 'j stage =
    S_Check "'j proc_envelope" | S_Sample "'j proc_envelope" | S_State "'j proc_envelope"
  | S_Process "'j proc_envelope" project_state | S_Store | S_Upstream

record 'j task = handle_envelope_fields +
  tk_event_id :: "event_id option"
  tk_remote_addr :: "string option"
  tk_scoping :: scoping
  tk_is_received :: bool
  tk_summary :: envelope_summary
  tk_stage :: "'j stage"

definition handle_envelope :: "('ip, 'e) manager_ext \<Rightarrow> 'j handle_msg \<Rightarrow> 'j task" where
  "handle_envelope mx m =
     (let e = he_envelope m; meta = eh_meta (env_headers e)
      in \<lparr>he_project_key = he_project_key m, he_sampling_project_key = he_sampling_project_key m,
          he_start_time = he_start_time m, tk_event_id = eh_event_id (env_headers e),
          tk_remote_addr = map_option (mx_ip_to_string mx) (client_addr (mx_sampling mx) meta),
          tk_scoping = get_partial_scoping meta, tk_is_received = False, tk_summary = summary_compute e,
          tk_stage = S_Check e\<rparr>)"

text \<open>The replies of the other actors; \<open>Inl ()\<close> is an error of the mailbox.\<close>

datatype ('e, 'j) reply =
    R_Checked "unit + (project_error + (event_id, date_time, 'j, trace_ctx) check_envelope_response)"
  | R_Sampling "project_key \<Rightarrow> unit + (project_error + sampling_config option)"
  | R_State "unit + (project_error + project_state)"
  | R_Processed "unit + ('e process_error + 'j process_response)"
  | R_Stored "unit + ('e + unit)"
  | R_Upstream "unit + (upstream_request_error + unit)"
  | R_Timeout

text \<open>A task that has finished keeps its last state with its result.\<close>

datatype ('e, 'j) task_status = Running "'j task" | Finished "'j task" "'e process_error + unit"

definition failure_outcomes :: "instant \<Rightarrow> system_time \<Rightarrow> 'j task \<Rightarrow> outcome \<Rightarrow> event_id track_outcome list" where
  "failure_outcomes now system_now t oc =
     (let track = (\<lambda>category quantity.
            \<lparr>to_timestamp = instant_to_system_time now system_now (he_start_time t), to_scoping = tk_scoping t,
             to_outcome = oc, to_event_id = tk_event_id t, to_remote_addr = tk_remote_addr t,
             to_category = category, to_quantity = quantity\<rparr>)
      in (case sum_event_category (tk_summary t) of Some category \<Rightarrow> [track category 1] | None \<Rightarrow> []) @
         (if sum_attachment_quantity (tk_summary t) > 0
          then [track DC_Attachment (sum_attachment_quantity (tk_summary t))] else []))"

text \<open>The end of the chain: errors are captured and reported, and the envelope is no longer active.\<close>

definition task_finish ::
  "('ip, 'e) manager_ext \<Rightarrow> relay_config \<Rightarrow> instant \<Rightarrow> system_time \<Rightarrow> 'j task \<Rightarrow> 'e process_error + unit \<Rightarrow>
   'j envelope_manager \<Rightarrow> 'j envelope_manager \<times> 'j effect list \<times> ('e, 'j) task_status" where
  "task_finish mx c now system_now t result mg =
     (let mg1 = (case (result, tk_event_id t) of
                   (Inl err, Some i) \<Rightarrow>
                     if cfg_relay_mode c = RM_Capture
                     then mg\<lparr>mg_captures := (mg_captures mg)(i \<mapsto> Inl (mx_log_error mx err))\<rparr> else mg
                 | _ \<Rightarrow> mg);
          fx = (case result of
                  Inl err \<Rightarrow>
                    if tk_is_received t then []
                    else (case error_to_outcome err of
                            Some oc \<Rightarrow> map E_TrackOutcome (failure_outcomes now system_now t oc)
                          | None \<Rightarrow> [])
                | Inr _ \<Rightarrow> [])
      in (mg1\<lparr>mg_active_envelopes := mg_active_envelopes mg1 - 1\<rparr>, fx, Finished t result))"

definition task_wait ::
  "'j stage \<Rightarrow> 'j task \<Rightarrow> 'j envelope_manager \<Rightarrow> 'j envelope_manager \<times> 'j effect list \<times> ('e, 'j) task_status" where
  "task_wait stage t mg = (mg, [], Running (t\<lparr>tk_stage := stage\<rparr>))"

text \<open>Effects that come before the rest of a step.\<close>

definition after_effects :: "'j effect list \<Rightarrow> 'm \<times> 'j effect list \<times> 's \<Rightarrow> 'm \<times> 'j effect list \<times> 's" where
  "after_effects fx r = (case r of (mg, fx', s) \<Rightarrow> (mg, fx @ fx', s))"

definition on_checked ::
  "('ip, 'e) manager_ext \<Rightarrow> relay_config \<Rightarrow> instant \<Rightarrow> system_time \<Rightarrow>
   unit + (project_error + (event_id, date_time, 'j, trace_ctx) check_envelope_response) \<Rightarrow> 'j task \<Rightarrow>
   'j envelope_manager \<Rightarrow> 'j envelope_manager \<times> 'j effect list \<times> ('e, 'j) task_status" where
  "on_checked mx c now system_now reply t mg =
     (case reply of
        Inl _ \<Rightarrow> task_finish mx c now system_now t (Inl PE_ScheduleFailed) mg
      | Inr (Inl _) \<Rightarrow> task_finish mx c now system_now t (Inl PE_ProjectFailed) mg
      | Inr (Inr response) \<Rightarrow>
          let t1 = t\<lparr>tk_scoping := cer_scoping response\<rparr>
          in (case cer_result response of
                Inl reason \<Rightarrow> task_finish mx c now system_now t1 (Inl (PE_Rejected reason)) mg
              | Inr checked \<Rightarrow>
                  (case chk_envelope checked of
                     Some e \<Rightarrow> task_wait (S_Sample e) (t1\<lparr>tk_summary := summary_compute e\<rparr>) mg
                   | None \<Rightarrow> task_finish mx c now system_now t1 (Inl (PE_RateLimited (chk_rate_limits checked))) mg)))"

definition on_sampling ::
  "('ip, 'e) manager_ext \<Rightarrow> relay_config \<Rightarrow> instant \<Rightarrow> system_time \<Rightarrow>
   (project_key \<Rightarrow> unit + (project_error + sampling_config option)) \<Rightarrow> 'j proc_envelope \<Rightarrow> 'j task \<Rightarrow>
   'j envelope_manager \<Rightarrow> 'j envelope_manager \<times> 'j effect list \<times> ('e, 'j) task_status" where
  "on_sampling mx c now system_now get_state e t mg =
     (case sample_trace (mx_sampling mx) (\<lambda>_. Inl ()) get_state e (he_sampling_project_key t) False (processing_enabled c) of
        Inl rid \<Rightarrow> task_finish mx c now system_now t (Inl (PE_TraceSampled rid)) mg
      | Inr e' \<Rightarrow> task_wait (S_State e') t mg)"

definition on_state ::
  "('ip, 'e) manager_ext \<Rightarrow> relay_config \<Rightarrow> instant \<Rightarrow> system_time \<Rightarrow> unit + (project_error + project_state) \<Rightarrow>
   'j proc_envelope \<Rightarrow> 'j task \<Rightarrow>
   'j envelope_manager \<Rightarrow> 'j envelope_manager \<times> 'j effect list \<times> ('e, 'j) task_status" where
  "on_state mx c now system_now reply e t mg =
     (case reply of
        Inl _ \<Rightarrow> task_finish mx c now system_now t (Inl PE_ScheduleFailed) mg
      | Inr (Inl _) \<Rightarrow> task_finish mx c now system_now t (Inl PE_ProjectFailed) mg
      | Inr (Inr state) \<Rightarrow> task_wait (S_Process e state) t mg)"

text \<open>The end of \<open>send_envelope\<close> in the chain of the task.\<close>

definition on_sent ::
  "('ip, 'e) manager_ext \<Rightarrow> relay_config \<Rightarrow> instant \<Rightarrow> system_time \<Rightarrow> 'e send_envelope_error + unit \<Rightarrow> 'j task \<Rightarrow>
   'j envelope_manager \<Rightarrow> 'j envelope_manager \<times> 'j effect list \<times> ('e, 'j) task_status" where
  "on_sent mx c now system_now result t mg =
     task_finish mx c now system_now (t\<lparr>tk_is_received := send_received result\<rparr>) (map_err (send_error mx) result) mg"

definition on_processed ::
  "('ip, 'e) manager_ext \<Rightarrow> relay_config \<Rightarrow> instant \<Rightarrow> system_time \<Rightarrow> unit + ('e process_error + 'j process_response) \<Rightarrow>
   'j task \<Rightarrow> 'j envelope_manager \<Rightarrow> 'j envelope_manager \<times> 'j effect list \<times> ('e, 'j) task_status" where
  "on_processed mx c now system_now reply t mg =
     (case reply of
        Inl _ \<Rightarrow> task_finish mx c now system_now t (Inl PE_ScheduleFailed) mg
      | Inr (Inl err) \<Rightarrow> task_finish mx c now system_now t (Inl err) mg
      | Inr (Inr processed) \<Rightarrow>
          let limits = rsp_rate_limits processed;
              fx = (if is_limited now limits then [E_UpdateRateLimits (he_project_key t) limits] else []) @
                   (if rsp_metrics processed \<noteq> [] then [E_InsertMetrics (he_project_key t) (rsp_metrics processed)] else [])
          in after_effects fx
               (case rsp_envelope processed of
                  None \<Rightarrow> task_finish mx c now system_now t (Inl (PE_RateLimited limits)) mg
                | Some e \<Rightarrow>
                    let t1 = t\<lparr>tk_summary := summary_compute e\<rparr>
                    in (case send_envelope c e (tk_scoping t) (he_start_time t) mg of
                          (None, mg') \<Rightarrow> on_sent mx c now system_now (Inr ()) t1 mg'
                        | (Some fx', mg') \<Rightarrow>
                            after_effects [fx']
                              (task_wait (if mg_store_forwarder mg then S_Store else S_Upstream) t1 mg'))))"

text \<open>One reply to a task. A task only takes the reply it waits for, or a timeout.\<close>

definition task_step ::
  "('ip, 'e) manager_ext \<Rightarrow> relay_config \<Rightarrow> instant \<Rightarrow> system_time \<Rightarrow> ('e, 'j) reply \<Rightarrow> 'j task \<Rightarrow>
   'j envelope_manager \<Rightarrow> ('j envelope_manager \<times> 'j effect list \<times> ('e, 'j) task_status) option" where
  "task_step mx c now system_now reply t mg =
     (case (reply, tk_stage t) of
        (R_Timeout, _) \<Rightarrow> Some (task_finish mx c now system_now t (Inl PE_Timeout) mg)
      | (R_Checked r, S_Check _) \<Rightarrow> Some (on_checked mx c now system_now r t mg)
      | (R_Sampling r, S_Sample e) \<Rightarrow> Some (on_sampling mx c now system_now r e t mg)
      | (R_State r, S_State e) \<Rightarrow> Some (on_state mx c now system_now r e t mg)
      | (R_Processed r, S_Process _ _) \<Rightarrow> Some (on_processed mx c now system_now r t mg)
      | (R_Stored r, S_Store) \<Rightarrow> Some (on_sent mx c now system_now (store_result r) t mg)
      | (R_Upstream r, S_Upstream) \<Rightarrow>
          (case upstream_result now (he_project_key t) (tk_scoping t) r of
             (result, fx) \<Rightarrow> Some (after_effects fx (on_sent mx c now system_now result t mg)))
      | _ \<Rightarrow> None)"

section \<open>The system\<close>

text \<open>
  The manager with its mailbox of queued envelopes and the tasks under way. Requests, deliveries, replies and
  metric batches happen in any order.
\<close>

record 'j manager_system =
  sys_manager :: "'j envelope_manager"
  sys_mailbox :: "'j handle_msg list"
  sys_tasks :: "'j task list"

definition remove_nth :: "nat \<Rightarrow> 'a list \<Rightarrow> 'a list" where
  "remove_nth i xs = take i xs @ drop (Suc i) xs"

inductive manager_reachable :: "('ip, 'e) manager_ext \<Rightarrow> relay_config \<Rightarrow> 'j manager_system \<Rightarrow> bool"
  for mx :: "('ip, 'e) manager_ext" and c :: relay_config where
  start: "manager_reachable mx c \<lparr>sys_manager = manager_create c, sys_mailbox = [], sys_tasks = []\<rparr>"
| queue: "manager_reachable mx c s \<Longrightarrow> queue_envelope c m (sys_manager s) = (r, mg', msgs, fx) \<Longrightarrow>
    manager_reachable mx c (s\<lparr>sys_manager := mg', sys_mailbox := sys_mailbox s @ msgs\<rparr>)"
| deliver: "manager_reachable mx c s \<Longrightarrow> sys_mailbox s = m # ms \<Longrightarrow>
    manager_reachable mx c (s\<lparr>sys_mailbox := ms, sys_tasks := sys_tasks s @ [handle_envelope mx m]\<rparr>)"
| running: "manager_reachable mx c s \<Longrightarrow> i < length (sys_tasks s) \<Longrightarrow>
    task_step mx c now system_now reply (sys_tasks s ! i) (sys_manager s) = Some (mg', fx, Running t') \<Longrightarrow>
    manager_reachable mx c (s\<lparr>sys_manager := mg', sys_tasks := (sys_tasks s)[i := t']\<rparr>)"
| finished: "manager_reachable mx c s \<Longrightarrow> i < length (sys_tasks s) \<Longrightarrow>
    task_step mx c now system_now reply (sys_tasks s ! i) (sys_manager s) = Some (mg', fx, Finished t' result) \<Longrightarrow>
    manager_reachable mx c (s\<lparr>sys_manager := mg', sys_tasks := remove_nth i (sys_tasks s)\<rparr>)"
| metrics: "manager_reachable mx c s \<Longrightarrow> send_metrics mx c now sc buckets (sys_manager s) = Some (fx, mg') \<Longrightarrow>
    manager_reachable mx c (s\<lparr>sys_manager := mg'\<rparr>)"

section \<open>Counting active envelopes\<close>

lemma send_envelope_active [simp]:
  "send_envelope c e sc start mg = (fx, mg') \<Longrightarrow> mg_active_envelopes mg' = mg_active_envelopes mg"
  by (auto simp: send_envelope_def split: if_splits option.splits)

lemma task_finish_active:
  "task_finish mx c now system_now t result mg = (mg', fx, status) \<Longrightarrow>
   mg_active_envelopes mg' = mg_active_envelopes mg - 1 \<and> status = Finished t result"
  by (auto simp: task_finish_def Let_def split: sum.splits option.splits if_splits)

lemma after_effects_eq: "after_effects fx r = (mg, fx', s) \<longleftrightarrow> (\<exists>fx1. r = (mg, fx1, s) \<and> fx' = fx @ fx1)"
  by (cases r) (auto simp: after_effects_def)

definition status_active :: "('e, 'j) task_status \<Rightarrow> u32 \<Rightarrow> u32" where
  "status_active status n = (case status of Running _ \<Rightarrow> n | Finished _ _ \<Rightarrow> n - 1)"

lemma task_step_active:
  assumes "task_step mx c now system_now reply t mg = Some (mg', fx, status)"
  shows "mg_active_envelopes mg' = status_active status (mg_active_envelopes mg)"
  using assms
  by (auto simp: task_step_def on_checked_def on_sampling_def on_state_def on_processed_def on_sent_def task_wait_def
      after_effects_eq status_active_def Let_def
      split: reply.splits stage.splits sum.splits option.splits prod.splits dest!: task_finish_active send_envelope_active)

definition active_inv :: "relay_config \<Rightarrow> 'j manager_system \<Rightarrow> bool" where
  "active_inv c s \<longleftrightarrow>
     unat (mg_active_envelopes (sys_manager s)) = length (sys_mailbox s) + length (sys_tasks s) \<and>
     length (sys_mailbox s) + length (sys_tasks s) \<le> unat (envelope_buffer_size c) + 1"

lemma queue_envelope_active:
  assumes "queue_envelope c m mg = (r, mg', msgs, fx)" and "unat (envelope_buffer_size c) < 2 ^ 32 - 1"
  shows "unat (mg_active_envelopes mg') = unat (mg_active_envelopes mg) + length msgs \<and>
    (msgs \<noteq> [] \<longrightarrow> unat (mg_active_envelopes mg') \<le> unat (envelope_buffer_size c) + 1)"
proof (cases "envelope_buffer_size c \<le> mg_active_envelopes mg")
  case True
  then show ?thesis using assms(1) by (auto simp: queue_envelope_def)
next
  case False
  then have less: "unat (mg_active_envelopes mg) < unat (envelope_buffer_size c)" by (simp add: word_le_nat_alt)
  have msgs: "mg_active_envelopes mg' = mg_active_envelopes mg + word_of_nat (length msgs)" "length msgs \<le> 2"
    using assms(1) False by (auto simp: queue_envelope_def Let_def split: prod.splits option.splits if_splits)
  have "unat (word_of_nat (length msgs) :: u32) = length msgs"
    using msgs(2) by (simp add: unat_of_nat take_bit_nat_eq_self)
  then have "unat (mg_active_envelopes mg') = unat (mg_active_envelopes mg) + length msgs"
    using less assms(2) msgs by (subst msgs(1), subst unat_add_lem [THEN iffD1]) auto
  then show ?thesis using less msgs(2) by simp
qed

lemma remove_nth_length [simp]: "i < length xs \<Longrightarrow> length (remove_nth i xs) = length xs - 1"
  by (simp add: remove_nth_def)

text \<open>C5: the counter of active envelopes is exact. As long as the buffer is smaller than the largest counter
  value, in every reachable state of the manager, whatever the order of requests, deliveries, replies,
  timeouts and metric batches, the counter equals the number of queued envelopes and running tasks; it is
  positive whenever a task ends, so that it never underflows, and it exceeds the configured size of the
  buffer by at most one.\<close>

theorem active_envelopes_exact:
  assumes "manager_reachable mx c s" and "unat (envelope_buffer_size c) < 2 ^ 32 - 1"
  shows "unat (mg_active_envelopes (sys_manager s)) = length (sys_mailbox s) + length (sys_tasks s) \<and>
         length (sys_mailbox s) + length (sys_tasks s) \<le> unat (envelope_buffer_size c) + 1"
proof -
  have "active_inv c s" using assms(1)
  proof (induction rule: manager_reachable.induct)
    case start
    then show ?case by (simp add: active_inv_def manager_create_def)
  next
    case (queue s m r mg' msgs fx)
    then show ?case using queue_envelope_active [OF queue.hyps(2) assms(2)] by (cases "msgs = []") (auto simp: active_inv_def)
  next
    case (deliver s m ms)
    then show ?case by (simp add: active_inv_def)
  next
    case (running s i now system_now reply mg' fx t')
    then show ?case using task_step_active [OF running.hyps(3)] by (simp add: active_inv_def status_active_def)
  next
    case (finished s i now system_now reply mg' fx t' result)
    then have "0 < unat (mg_active_envelopes (sys_manager s))" by (auto simp: active_inv_def)
    then have "unat (mg_active_envelopes (sys_manager s) - 1) = unat (mg_active_envelopes (sys_manager s)) - 1"
      by (metis unat_gt_0 unat_minus_one)
    then show ?case
      using finished task_step_active [OF finished.hyps(3)] by (auto simp: active_inv_def status_active_def)
  next
    case (metrics s now sc buckets fx mg')
    then show ?case by (auto simp: active_inv_def send_metrics_def)
  qed
  then show ?thesis by (simp add: active_inv_def)
qed

section \<open>What queueing does with the items\<close>

lemma take_metric_items_spec:
  "take_metric_items e = (its, e') \<Longrightarrow>
   env_headers e' = env_headers e \<and> mset its = filter_mset is_metric (mset (env_items e)) \<and>
   mset (env_items e') = filter_mset (\<lambda>it. \<not> is_metric it) (mset (env_items e))"
proof (induction e arbitrary: its e' rule: take_metric_items.induct)
  case (1 e)
  obtain r e1 where r: "take_item_by is_metric e = (r, e1)" by fastforce
  note spec = take_item_by_removes_one [OF r]
  show ?case
  proof (cases r)
    case None
    then have "filter is_metric (env_items e) = []" "filter (\<lambda>it. \<not> is_metric it) (env_items e) = env_items e"
      using spec by (simp_all add: filter_empty_conv filter_id_conv)
    then have "filter_mset is_metric (mset (env_items e)) = {#}"
      "filter_mset (\<lambda>it. \<not> is_metric it) (mset (env_items e)) = mset (env_items e)"
      by (metis mset.simps(1) mset_filter, metis mset_filter)
    then show ?thesis using "1.prems" spec None r by (simp add: take_metric_items.simps [of e])
  next
    case (Some it)
    obtain its1 e2 where rest: "take_metric_items e1 = (its1, e2)" by fastforce
    have split: "mset (env_items e) = add_mset it (mset (env_items e1))" "is_metric it" "env_headers e1 = env_headers e"
      using spec Some by auto
    have "its = it # its1" "e' = e2"
      using "1.prems" r rest Some by (simp_all add: take_metric_items.simps [of e])
    then show ?thesis using "1.IH" [OF r [symmetric] Some rest] split by simp
  qed
qed

text \<open>C7: queueing loses and duplicates nothing. When a request is accepted, the metric items go to the processor
  in one message and all other items into at most two queued envelopes with the headers, key and
  time of the request, none of them empty; items that require an event and items that do not never share a
  queued envelope, so at most one of them can carry events.\<close>

theorem queue_envelope_partitions:
  assumes "queue_envelope c m mg = (Inr r, mg', msgs, fx)"
  shows "r = eh_event_id (env_headers (he_envelope m)) \<and>
    (\<exists>metric_items.
       mset metric_items = filter_mset is_metric (mset (env_items (he_envelope m))) \<and>
       fx = (if metric_items = [] then []
             else [E_ProcessMetrics \<lparr>pm_items = metric_items, pm_project_key = he_project_key m,
                     pm_start_time = he_start_time m, pm_sent_at = eh_sent_at (env_headers (he_envelope m))\<rparr>])) \<and>
    mset (concat (map (\<lambda>msg. env_items (he_envelope msg)) msgs)) =
      filter_mset (\<lambda>it. \<not> is_metric it) (mset (env_items (he_envelope m))) \<and>
    (\<forall>msg \<in> set msgs. env_items (he_envelope msg) \<noteq> [] \<and> env_headers (he_envelope msg) = env_headers (he_envelope m) \<and>
       handle_envelope_fields.truncate msg = handle_envelope_fields.truncate m \<and>
       (list_all requires_event (env_items (he_envelope msg)) \<or>
        list_all (\<lambda>it. \<not> requires_event it) (env_items (he_envelope msg)))) \<and>
    length (filter (\<lambda>msg. list_all requires_event (env_items (he_envelope msg))) msgs) \<le> 1"
proof -
  obtain metric_items e1 where take: "take_metric_items (he_envelope m) = (metric_items, e1)" by fastforce
  note spec = take_metric_items_spec [OF take]
  have ok: "\<not> envelope_buffer_size c \<le> mg_active_envelopes mg" using assms by (auto simp: queue_envelope_def)
  have fx: "r = eh_event_id (env_headers (he_envelope m))"
    "fx = (if metric_items = [] then []
           else [E_ProcessMetrics \<lparr>pm_items = metric_items, pm_project_key = he_project_key m,
                   pm_start_time = he_start_time m, pm_sent_at = eh_sent_at (env_headers (he_envelope m))\<rparr>])"
    using assms take ok spec by (auto simp: queue_envelope_def Let_def split: prod.splits)
  let ?all = "\<forall>it \<in> set (env_items e1). requires_event it" and ?none = "\<forall>it \<in> set (env_items e1). \<not> requires_event it"
  consider "env_items e1 = []" "msgs = []"
    | "env_items e1 \<noteq> []" "?all \<or> ?none" "msgs = [m\<lparr>he_envelope := e1\<rparr>]"
    | "\<not> ?all" "\<not> ?none" "msgs = [m\<lparr>he_envelope := \<lparr>env_headers = env_headers e1, env_items = filter requires_event (env_items e1)\<rparr>\<rparr>,
         m\<lparr>he_envelope := e1\<lparr>env_items := filter (\<lambda>it. \<not> requires_event it) (env_items e1)\<rparr>\<rparr>]"
    using assms take ok by (auto simp: queue_envelope_def Let_def split_by_partitions filter_empty_conv split: if_splits)
  then have "mset (concat (map (\<lambda>msg. env_items (he_envelope msg)) msgs)) = mset (env_items e1) \<and>
    (\<forall>msg \<in> set msgs. env_items (he_envelope msg) \<noteq> [] \<and> env_headers (he_envelope msg) = env_headers (he_envelope m) \<and>
       handle_envelope_fields.truncate msg = handle_envelope_fields.truncate m \<and>
       (list_all requires_event (env_items (he_envelope msg)) \<or>
        list_all (\<lambda>it. \<not> requires_event it) (env_items (he_envelope msg)))) \<and>
    length (filter (\<lambda>msg. list_all requires_event (env_items (he_envelope msg))) msgs) \<le> 1"
    by cases (use spec in \<open>auto simp: list_all_iff handle_envelope_fields.truncate_def filter_empty_conv\<close>)
  then show ?thesis using fx spec by auto
qed

section \<open>What tasks send\<close>

text \<open>
  The reply of the worker pool to a task is what the processor makes of the envelope and the project
  state that the task holds.
\<close>

definition worker_reply ::
  "('ip, 'e, 'r) process_ext \<Rightarrow> ('s, 'e) redis_env option \<Rightarrow> relay_config \<Rightarrow> ('e, 'j) reply \<Rightarrow> 'j task \<Rightarrow> bool" where
  "worker_reply px limiter c reply t \<longleftrightarrow>
     (\<forall>processed e project. reply = R_Processed (Inr (Inr processed)) \<longrightarrow> tk_stage t = S_Process e project \<longrightarrow>
        (\<exists>now system_now s s' outcomes.
           process px c limiter now system_now e project (he_start_time t) s = (Inr processed, s', outcomes)))"

text \<open>An envelope leaves the manager when it is stored, sent to the upstream or captured.\<close>

definition leaves :: "'j proc_envelope \<Rightarrow> 'j envelope_manager \<Rightarrow> 'j envelope_manager \<Rightarrow> 'j effect list \<Rightarrow> bool" where
  "leaves e mg mg' fx \<longleftrightarrow>
     (\<exists>start sc. E_StoreEnvelope e start sc \<in> set fx) \<or> (\<exists>path. E_SendRequest path e \<in> set fx) \<or>
     (\<exists>i. mg_captures mg' i = Some (Inr e) \<and> mg_captures mg i \<noteq> Some (Inr e))"

lemma task_finish_leaves:
  "task_finish mx c now system_now t result mg = (mg', fx, status) \<Longrightarrow> \<not> leaves e mg mg' fx"
  by (auto simp: task_finish_def leaves_def Let_def split: sum.splits option.splits if_splits)

lemma on_sent_leaves: "on_sent mx c now system_now result t mg = (mg', fx, status) \<Longrightarrow> \<not> leaves e mg mg' fx"
  by (auto simp: on_sent_def dest: task_finish_leaves)

lemma leaves_effects:
  "leaves e mg mg' (fx @ fx') \<longleftrightarrow> leaves e mg mg' fx' \<or>
     (\<exists>start sc. E_StoreEnvelope e start sc \<in> set fx) \<or> (\<exists>path. E_SendRequest path e \<in> set fx)"
  by (auto simp: leaves_def)

lemma send_envelope_leaves:
  assumes "send_envelope c e0 sc start mg = (fx, mg')" and "leaves e mg mg' (case fx of Some x \<Rightarrow> [x] | None \<Rightarrow> [])"
  shows "e = e0"
proof (cases "mg_store_forwarder mg \<or> cfg_relay_mode c \<noteq> RM_Capture")
  case True
  then have "mg' = mg" "fx = Some (if mg_store_forwarder mg then E_StoreEnvelope e0 start sc else E_SendRequest (envelope_path sc) e0)"
    using assms(1) unfolding send_envelope_def by (cases "mg_store_forwarder mg"; simp)+
  then show ?thesis using assms(2) by (auto simp: leaves_def split: if_splits)
next
  case False
  then have "fx = None" "mg' = (case eh_event_id (env_headers e0) of
      Some i \<Rightarrow> mg\<lparr>mg_captures := (mg_captures mg)(i \<mapsto> Inr e0)\<rparr> | None \<Rightarrow> mg)"
    using assms(1) unfolding send_envelope_def by simp_all
  then show ?thesis
    using assms(2) by (cases "eh_event_id (env_headers e0)") (auto simp: leaves_def split: if_splits)
qed

lemma on_sent_ok:
  "on_sent mx c now system_now (Inr ()) t mg = (mg', fx, status) \<Longrightarrow> mg_captures mg' = mg_captures mg \<and> fx = []"
  by (auto simp: on_sent_def task_finish_def Let_def)

lemma on_processed_leaves:
  assumes "on_processed mx c now system_now reply t mg = (mg', fx, status)" and "leaves e mg mg' fx"
  shows "\<exists>processed. reply = Inr (Inr processed) \<and> rsp_envelope processed = Some e"
proof -
  obtain processed where p: "reply = Inr (Inr processed)"
    using assms by (auto simp: on_processed_def dest: task_finish_leaves split: sum.splits)
  let ?limits = "rsp_rate_limits processed"
  define pre :: "'a effect list" where
    "pre = (if is_limited now ?limits then [E_UpdateRateLimits (he_project_key t) ?limits] else []) @
           (if rsp_metrics processed \<noteq> [] then [E_InsertMetrics (he_project_key t) (rsp_metrics processed)] else [])"
  have pre: "leaves e mg mg' (pre @ fx') \<longleftrightarrow> leaves e mg mg' fx'" for fx'
    by (auto simp: leaves_effects pre_def split: if_splits)
  show ?thesis
  proof (cases "rsp_envelope processed")
    case None
    then show ?thesis
      using assms pre by (auto simp: on_processed_def p Let_def after_effects_eq pre_def [symmetric] dest: task_finish_leaves)
  next
    case (Some e0)
    obtain fx1 mg1 where send: "send_envelope c e0 (tk_scoping t) (he_start_time t) mg = (fx1, mg1)" by fastforce
    have same: "mg_captures mg' = mg_captures mg1 \<and> fx = pre @ (case fx1 of Some x \<Rightarrow> [x] | None \<Rightarrow> [])"
      using assms(1) send
      by (auto simp: on_processed_def p Some Let_def after_effects_eq pre_def [symmetric] task_wait_def split: option.splits
          dest!: on_sent_ok)
    then have "leaves e mg mg' (case fx1 of Some x \<Rightarrow> [x] | None \<Rightarrow> [])" using assms(2) pre by metis
    then have "leaves e mg mg1 (case fx1 of Some x \<Rightarrow> [x] | None \<Rightarrow> [])" using same by (simp add: leaves_def)
    then show ?thesis using send_envelope_leaves [OF send] p Some by blast
  qed
qed

lemma task_wait_leaves: "task_wait stage t mg = (mg', fx, status) \<Longrightarrow> \<not> leaves e mg mg' fx"
  by (auto simp: task_wait_def leaves_def)

lemma waiting_leaves:
  "on_checked mx c now system_now r t mg = (mg', fx, status) \<Longrightarrow> \<not> leaves e mg mg' fx"
  "on_sampling mx c now system_now get_state e0 t mg = (mg', fx, status) \<Longrightarrow> \<not> leaves e mg mg' fx"
  "on_state mx c now system_now r' e0 t mg = (mg', fx, status) \<Longrightarrow> \<not> leaves e mg mg' fx"
  unfolding on_checked_def on_sampling_def on_state_def Let_def
  by (auto split: sum.splits option.splits dest: task_finish_leaves task_wait_leaves)

lemma upstream_result_leaves:
  assumes "upstream_result now key sc r = (result, fx1)" and "on_sent mx c now system_now result t mg = (mg', fx2, status)"
  shows "\<not> leaves e mg mg' (fx1 @ fx2)"
  using on_sent_leaves [OF assms(2)] assms(1)
  by (auto simp: leaves_effects upstream_result_def Let_def split: sum.splits upstream_request_error.splits)

lemma task_step_leaves:
  assumes "task_step mx c now system_now reply t mg = Some (mg', fx, status)" and "leaves e mg mg' fx"
  shows "\<exists>processed e0 project. reply = R_Processed (Inr (Inr processed)) \<and> tk_stage t = S_Process e0 project \<and>
    rsp_envelope processed = Some e"
proof (cases reply)
  case (R_Upstream r)
  then show ?thesis
    using assms by (auto simp: task_step_def after_effects_eq split: stage.splits prod.splits dest: upstream_result_leaves)
next
  case (R_Processed r)
  then show ?thesis
    using assms by (auto simp: task_step_def split: stage.splits dest: on_processed_leaves)
qed (use assms in \<open>auto simp: task_step_def split: stage.splits dest: waiting_leaves task_finish_leaves on_sent_leaves\<close>)

text \<open>C4: end to end, no event leaves the relay unscrubbed. Whatever reply a task of the envelope manager receives, an
  envelope that is stored, sent to the upstream or captured in that step is the processor's result for the
  envelope and the project state the task holds, and each of its items with an event payload is an event to
  which the PII rules and the data scrubbing settings of that project were applied.\<close>

theorem sent_events_scrubbed:
  assumes "task_step mx c now system_now reply t mg = Some (mg', fx, status)"
    and "worker_reply px limiter c reply t" and "leaves e mg mg' fx"
  shows "\<exists>e0 project. tk_stage t = S_Process e0 project \<and>
    (\<forall>it \<in> set (env_items e). item_ty it \<in> event_types \<longrightarrow> scrubbed_item px (st_config project) it)"
proof -
  obtain processed e0 project where p: "reply = R_Processed (Inr (Inr processed))" "tk_stage t = S_Process e0 project"
      "rsp_envelope processed = Some e"
    using task_step_leaves [OF assms(1,3)] by blast
  then obtain n sn s s' outcomes where "process px c limiter n sn e0 project (he_start_time t) s = (Inr processed, s', outcomes)"
    using assms(2) unfolding worker_reply_def by blast
  then show ?thesis using process_items_scrubbed [OF _ p(3)] p(2) by fastforce
qed

section \<open>The life of a task\<close>

text \<open>A task with the replies it receives; replies it does not wait for are not its own.\<close>

fun run_task ::
  "('ip, 'e) manager_ext \<Rightarrow> relay_config \<Rightarrow> (instant \<times> system_time \<times> ('e, 'j) reply) list \<Rightarrow> 'j task \<Rightarrow>
   'j envelope_manager \<Rightarrow> 'j envelope_manager \<times> 'j effect list \<times> ('e, 'j) task_status" where
  "run_task mx c [] t mg = (mg, [], Running t)"
| "run_task mx c ((now, system_now, reply) # replies) t mg =
     (case task_step mx c now system_now reply t mg of
        None \<Rightarrow> run_task mx c replies t mg
      | Some (mg', fx, Running t') \<Rightarrow> after_effects fx (run_task mx c replies t' mg')
      | Some (mg', fx, Finished t' result) \<Rightarrow> (mg', fx, Finished t' result))"

definition outcomes_of :: "'j effect list \<Rightarrow> event_id track_outcome list" where
  "outcomes_of fx = List.map_filter (\<lambda>x. case x of E_TrackOutcome t \<Rightarrow> Some t | _ \<Rightarrow> None) fx"

definition status_outcomes :: "instant \<Rightarrow> system_time \<Rightarrow> ('e, 'j) task_status \<Rightarrow> event_id track_outcome list" where
  "status_outcomes now system_now status =
     (case status of
        Finished t (Inl err) \<Rightarrow>
          if tk_is_received t then []
          else (case error_to_outcome err of Some oc \<Rightarrow> failure_outcomes now system_now t oc | None \<Rightarrow> [])
      | _ \<Rightarrow> [])"

fun status_task :: "('e, 'j) task_status \<Rightarrow> 'j task" where
  "status_task (Running t) = t"
| "status_task (Finished t result) = t"

lemma outcomes_of_simps [simp]:
  "outcomes_of [] = []" "outcomes_of (fx @ fx') = outcomes_of fx @ outcomes_of fx'"
  "outcomes_of (E_TrackOutcome t # fx) = t # outcomes_of fx" "outcomes_of (map E_TrackOutcome ts) = ts"
  by (induction ts; simp add: outcomes_of_def map_filter_def)+

lemma outcomes_of_other [simp]:
  "outcomes_of (E_UpdateRateLimits k ls # fx) = outcomes_of fx" "outcomes_of (E_InsertMetrics k ms # fx) = outcomes_of fx"
  "outcomes_of (E_StoreEnvelope e start sc # fx) = outcomes_of fx" "outcomes_of (E_SendRequest path e # fx) = outcomes_of fx"
  by (simp_all add: outcomes_of_def map_filter_def)

lemma task_finish_outcomes:
  "task_finish mx c now system_now t result mg = (mg', fx, status) \<Longrightarrow>
   outcomes_of fx = status_outcomes now system_now status \<and> status_task status = t"
  by (auto simp: task_finish_def status_outcomes_def Let_def split: sum.splits option.splits if_splits)

lemma task_wait_outcomes:
  "task_wait stage t mg = (mg', fx, status) \<Longrightarrow>
   fx = [] \<and> status_outcomes now system_now status = [] \<and> status_task status = t\<lparr>tk_stage := stage\<rparr>"
  by (auto simp: task_wait_def status_outcomes_def)

text \<open>What a step keeps of the task, and what it reports.\<close>

definition step_sound :: "instant \<Rightarrow> system_time \<Rightarrow> 'j task \<Rightarrow> 'm \<times> 'j effect list \<times> ('e, 'j) task_status \<Rightarrow> bool" where
  "step_sound now system_now t r =
     (case r of (mg', fx, status) \<Rightarrow>
        outcomes_of fx = status_outcomes now system_now status \<and>
        tk_event_id (status_task status) = tk_event_id t \<and> he_start_time (status_task status) = he_start_time t)"

lemma task_finish_sound:
  "tk_event_id t' = tk_event_id t \<Longrightarrow> he_start_time t' = he_start_time t \<Longrightarrow>
   step_sound now system_now t (task_finish mx c now system_now t' result mg)"
  using task_finish_outcomes by (fastforce simp: step_sound_def split: prod.splits)

lemma task_wait_sound:
  "tk_event_id t' = tk_event_id t \<Longrightarrow> he_start_time t' = he_start_time t \<Longrightarrow>
   step_sound now system_now t (task_wait stage t' mg)"
  by (simp add: step_sound_def task_wait_def status_outcomes_def)

lemma after_effects_sound:
  "step_sound now system_now t r \<Longrightarrow> outcomes_of fx = [] \<Longrightarrow> step_sound now system_now t (after_effects fx r)"
  by (auto simp: step_sound_def after_effects_def split: prod.splits)

lemmas sound_intros = task_finish_sound task_wait_sound after_effects_sound

lemma on_sent_sound:
  "tk_event_id t' = tk_event_id t \<Longrightarrow> he_start_time t' = he_start_time t \<Longrightarrow>
   step_sound now system_now t (on_sent mx c now system_now result t' mg)"
  unfolding on_sent_def by (rule task_finish_sound) simp_all

lemma waiting_sound:
  "step_sound now system_now t (on_checked mx c now system_now r t mg)"
  "step_sound now system_now t (on_sampling mx c now system_now get_state e0 t mg)"
  "step_sound now system_now t (on_state mx c now system_now r' e0 t mg)"
  unfolding on_checked_def on_sampling_def on_state_def Let_def
  by (auto split: sum.splits option.splits intro!: sound_intros)

lemma send_envelope_outcomes:
  assumes "send_envelope c e sc start mg = (Some x, mg')"
  shows "outcomes_of [x] = []"
proof -
  have "x = (if mg_store_forwarder mg then E_StoreEnvelope e start sc else E_SendRequest (envelope_path sc) e)"
    using assms unfolding send_envelope_def by (cases "mg_store_forwarder mg"; cases "cfg_relay_mode c = RM_Capture"; simp)
  then show ?thesis by simp
qed

lemma on_processed_sound: "step_sound now system_now t (on_processed mx c now system_now r t mg)"
  unfolding on_processed_def Let_def
  by (auto split: sum.splits option.splits prod.splits intro!: sound_intros on_sent_sound dest: send_envelope_outcomes)

lemma upstream_result_outcomes: "upstream_result now key sc r = (result, fx) \<Longrightarrow> outcomes_of fx = []"
  by (auto simp: upstream_result_def Let_def split: sum.splits upstream_request_error.splits)

lemma task_step_sound: "task_step mx c now system_now reply t mg = Some r \<Longrightarrow> step_sound now system_now t r"
  by (auto simp: task_step_def split: reply.splits stage.splits prod.splits
      intro!: sound_intros on_sent_sound waiting_sound on_processed_sound upstream_result_outcomes)


text \<open>Every task ends. Once its timeout has fired, a task has finished, whatever replies came before, and its
  envelope has left the count of active envelopes exactly once.\<close>

lemma timeout_ends_task:
  assumes "(now, system_now, R_Timeout) \<in> set replies"
  shows "\<exists>mg' fx t' result. run_task mx c replies t mg = (mg', fx, Finished t' result) \<and>
           mg_active_envelopes mg' = mg_active_envelopes mg - 1"
  using assms
proof (induction replies arbitrary: t mg)
  case (Cons r replies)
  obtain n sn reply where r: "r = (n, sn, reply)" by (cases r)
  show ?case
  proof (cases "task_step mx c n sn reply t mg")
    case None
    then have "reply \<noteq> R_Timeout" by (auto simp: task_step_def)
    then show ?thesis using Cons None r by auto
  next
    case (Some p)
    obtain mg1 fx1 status1 where p: "p = (mg1, fx1, status1)" by (cases p)
    note active = task_step_active [OF Some [unfolded p]]
    show ?thesis
    proof (cases status1)
      case (Running t1)
      then have "reply \<noteq> R_Timeout" using Some p task_finish_active by (fastforce simp: task_step_def)
      then show ?thesis
        using Cons.IH [of t1 mg1] Cons.prems Some p r Running active by (auto simp: after_effects_def status_active_def)
    next
      case (Finished t1 result)
      then show ?thesis using Some p r active by (simp add: status_active_def)
    qed
  qed
qed simp

section \<open>Examples\<close>

definition example_mx :: "(nat, nat) manager_ext" where
  "example_mx =
     \<lparr>mx_sampling = example_sx, mx_ip_to_string = (\<lambda>_. []), mx_hash = (\<lambda>_. 0), mx_parse_buckets = (\<lambda>_. Inl 0),
      mx_serialize_buckets = (\<lambda>_. Inl 0), mx_log_error = (\<lambda>_. []), mx_upstream_error = (\<lambda>_. 0), mx_default_version = 7,
      mx_client = ''relay'', mx_server = ''relay''\<rparr>"

definition example_msg :: "nat handle_msg" where
  "example_msg =
     \<lparr>he_project_key = ProjectKey [], he_sampling_project_key = None, he_start_time = 0,
      he_envelope = add_item (item_new IT_Session) example_process_envelope\<rparr>"

lemma example_types:
  "item_ty (item_new ty) = ty" "take_item_by is_metric (add_item (item_new IT_Session) example_process_envelope) =
     (None, add_item (item_new IT_Session) example_process_envelope)"
  by (simp_all add: is_metric_def extract_example_defs)

lemma example_queue:
  "\<exists>mg' msgs. queue_envelope (config_default [] 1) example_msg (manager_create (config_default [] 1)) =
     (Inr (Some 5), mg', msgs, []) \<and> length msgs = 2"
proof -
  have "envelope_buffer_size (config_default [] 1) = 1000"
    by (simp add: envelope_buffer_size_def config_default_def config_values_default_def cache_section_default_def)
  then show ?thesis
    by (simp add: queue_envelope_def example_msg_def take_metric_items.simps example_types manager_create_def split_by_def
        envelope_len_def requires_event_def is_metric_def extract_example_defs)
qed

theorem queue_envelope_partitions_witness:
  "\<exists>mg' msgs. queue_envelope (config_default [] 1) example_msg (manager_create (config_default [] 1)) =
     (Inr (Some 5), mg', msgs, []) \<and>
     mset (concat (map (\<lambda>msg. env_items (he_envelope msg)) msgs)) =
       {#item_new IT_Event, item_new IT_Attachment, item_new IT_Session#}"
proof -
  obtain mg' msgs where q: "queue_envelope (config_default [] 1) example_msg (manager_create (config_default [] 1)) =
     (Inr (Some 5), mg', msgs, [])" using example_queue by blast
  have "filter_mset (\<lambda>it. \<not> is_metric it) (mset (env_items (he_envelope example_msg))) =
      {#item_new IT_Event, item_new IT_Attachment, item_new IT_Session#}"
    by (simp add: example_msg_def example_process_envelope_def add_item_def from_request_def is_metric_def example_types(1))
  then show ?thesis using queue_envelope_partitions [OF q] q by auto
qed

theorem active_envelopes_exact_witness:
  "\<exists>s :: nat manager_system. manager_reachable example_mx (config_default [] 1) s \<and>
     length (sys_mailbox s) = 2 \<and> unat (mg_active_envelopes (sys_manager s)) = 2"
proof -
  obtain mg' msgs where q: "queue_envelope (config_default [] 1) example_msg (manager_create (config_default [] 1)) =
     (Inr (Some 5), mg', msgs, [])" "length msgs = 2" using example_queue by blast
  define s where "s = \<lparr>sys_manager = mg', sys_mailbox = msgs, sys_tasks = []\<rparr>"
  have reach: "manager_reachable example_mx (config_default [] 1) s"
    using manager_reachable.queue [OF manager_reachable.start, where mg' = mg' and msgs = msgs] q by (simp add: s_def)
  have "envelope_buffer_size (config_default [] 1) = 1000"
    by (simp add: envelope_buffer_size_def config_default_def config_values_default_def cache_section_default_def)
  then show ?thesis using active_envelopes_exact [OF reach] reach q(2) by (auto simp: s_def)
qed


theorem sent_events_scrubbed_witness:
  "\<exists>(t :: nat task) reply mg' fx status e it. task_step example_mx (config_default [] 1) 0 0 reply t (manager_create (config_default [] 1)) =
       Some (mg', fx, status) \<and> leaves e (manager_create (config_default [] 1)) mg' fx \<and> it \<in> set (env_items e) \<and>
     scrubbed_item example_px (st_config example_pii_project) it"
proof -
  obtain rsp e it where run: "process example_px (config_default [] 1) (None :: (unit, nat) redis_env option) 0 0
      example_process_envelope example_pii_project 0 () = (Inr rsp, (), [])"
      and e: "rsp_envelope rsp = Some e" "env_items e = [item_new IT_Attachment, it]" and it: "item_ty it \<in> event_types"
    by (rule example_run)
  let ?c = "config_default [] 1" and ?reply = "R_Processed (Inr (Inr rsp)) :: (nat, nat) reply"
  define t where "t = (handle_envelope example_mx example_msg)\<lparr>tk_stage := S_Process example_process_envelope example_pii_project\<rparr>"
  have worker: "worker_reply example_px (None :: (unit, nat) redis_env option) ?c ?reply t"
    using run by (auto simp: worker_reply_def t_def handle_envelope_def example_msg_def Let_def simp del: One_nat_def)
  have mode: "cfg_relay_mode ?c = RM_Managed" "\<not> mg_store_forwarder (manager_create ?c)"
    by (simp_all add: cfg_relay_mode_def config_default_def config_values_default_def relay_section_default_def manager_create_def
        processing_enabled_def processing_section_default_def)
  have sent: "send_envelope ?c e (tk_scoping t) (he_start_time t) (manager_create ?c) =
      (Some (E_SendRequest (envelope_path (tk_scoping t)) e), manager_create ?c)"
    using mode unfolding send_envelope_def by simp
  have stage: "tk_stage t = S_Process example_process_envelope example_pii_project" by (simp add: t_def)
  have "\<exists>mg' fx status. task_step example_mx ?c 0 0 ?reply t (manager_create ?c) = Some (mg', fx, status) \<and>
      E_SendRequest (envelope_path (tk_scoping t)) e \<in> set fx"
    unfolding task_step_def stage prod.case reply.case stage.case on_processed_def sum.case Let_def e(1) option.case sent
    by (simp add: after_effects_def task_wait_def del: One_nat_def)
  then obtain mg' fx status where step: "task_step example_mx ?c 0 0 ?reply t (manager_create ?c) = Some (mg', fx, status)"
      and send: "E_SendRequest (envelope_path (tk_scoping t)) e \<in> set fx"
    by blast
  then have leaves: "leaves e (manager_create ?c) mg' fx" by (auto simp: leaves_def)
  have "scrubbed_item example_px (st_config example_pii_project) it"
    using sent_events_scrubbed [OF step worker leaves] stage e(2) it by auto
  then show ?thesis using step leaves e(2) by fastforce
qed

end
