(* ===== verification/Outcome_Producer.thy ===== *)
theory Outcome_Producer
  imports Outcomes Relay_Config "HOL-Library.Multiset"
begin

text \<open>
  The outcome producers (\<open>relay-server/src/actors/outcome.rs\<close>): raw outcomes, the dispatch of
  the processing producer, and the HTTP producer that batches outcomes with a flush timer.
  The actor context is the set of its pending timers; what is sent upstream or to Kafka is
  recorded as a list.
\<close>

section \<open>Raw outcomes\<close>

record 'id track_raw_outcome =
  tr_timestamp :: string
  tr_org_id :: "u64 option"
  tr_project_id :: project_id
  tr_key_id :: "u64 option"
  tr_outcome :: u8
  tr_reason :: "string option"
  tr_event_id :: "'id option"
  tr_remote_addr :: "string option"
  tr_source :: "string option"
  tr_category :: "u8 option"
  tr_quantity :: "nat option"

text \<open>\<open>to_rfc3339_opts\<close> of the crate \<open>chrono\<close> is the argument \<open>rfc3339\<close>.\<close>

definition from_outcome ::
  "(system_time \<Rightarrow> string) \<Rightarrow> relay_config \<Rightarrow> 'id track_outcome \<Rightarrow> 'id track_raw_outcome" where
  "from_outcome rfc3339 c msg =
     \<lparr>tr_timestamp = rfc3339 (to_timestamp msg),
      tr_org_id = (if organization_id (to_scoping msg) = 0 then None
                   else Some (organization_id (to_scoping msg))),
      tr_project_id = project_id (to_scoping msg), tr_key_id = key_id (to_scoping msg),
      tr_outcome = to_outcome_id (to_outcome msg), tr_reason = to_reason (to_outcome msg),
      tr_event_id = to_event_id msg, tr_remote_addr = to_remote_addr msg,
      tr_source = outcome_source c, tr_category = data_category_value (to_category msg),
      tr_quantity = Some (to_quantity msg)\<rparr>"

definition tag_name :: "'id track_raw_outcome \<Rightarrow> string" where
  "tag_name o_msg =
     (let n = tr_outcome o_msg in
      if n = 0 then ''accepted'' else if n = 1 then ''filtered'' else if n = 2 then ''rate_limited''
      else if n = 3 then ''invalid'' else if n = 4 then ''abuse'' else ''<unknown>'')"

section \<open>The HTTP producer\<close>

record 'id http_producer =
  hp_unsent_outcomes :: "'id track_raw_outcome list"
  hp_pending_flush_handle :: "nat option"

text \<open>The context: timers by handle, the next handle, and the batches sent upstream.\<close>

record 'id producer_context =
  pc_timers :: "nat set"
  pc_next_handle :: nat
  pc_sent :: "'id track_raw_outcome list list"

type_synonym 'id producer_state = "'id http_producer \<times> 'id producer_context"

definition http_producer_create :: "'id http_producer" where
  "http_producer_create = \<lparr>hp_unsent_outcomes = [], hp_pending_flush_handle = None\<rparr>"

definition send_batch :: "'id producer_state \<Rightarrow> 'id producer_state" where
  "send_batch s =
     (case s of (p, ctx) \<Rightarrow>
        let p' = p\<lparr>hp_pending_flush_handle := None\<rparr> in
        if hp_unsent_outcomes p' = [] then (p', ctx)
        else (p'\<lparr>hp_unsent_outcomes := []\<rparr>, ctx\<lparr>pc_sent := pc_sent ctx @ [hp_unsent_outcomes p']\<rparr>))"

definition producer_send_http_message ::
  "relay_config \<Rightarrow> 'id track_raw_outcome \<Rightarrow> 'id producer_state \<Rightarrow> 'id producer_state" where
  "producer_send_http_message c msg s =
     (case s of (p, ctx) \<Rightarrow>
        let p' = p\<lparr>hp_unsent_outcomes := hp_unsent_outcomes p @ [msg]\<rparr> in
        if outcome_batch_size c \<le> length (hp_unsent_outcomes p') then
          let ctx' = (case hp_pending_flush_handle p' of
                        Some h \<Rightarrow> ctx\<lparr>pc_timers := pc_timers ctx - {h}\<rparr>
                      | None \<Rightarrow> ctx)
          in send_batch (p', ctx')
        else if hp_pending_flush_handle p' = None then
          (p'\<lparr>hp_pending_flush_handle := Some (pc_next_handle ctx)\<rparr>,
           ctx\<lparr>pc_timers := insert (pc_next_handle ctx) (pc_timers ctx),
               pc_next_handle := Suc (pc_next_handle ctx)\<rparr>)
        else (p', ctx))"

definition http_producer_handle ::
  "relay_config \<Rightarrow> 'id track_raw_outcome \<Rightarrow> 'id producer_state \<Rightarrow> 'id producer_state" where
  "http_producer_handle c msg s =
     (if emit_outcomes c then producer_send_http_message c msg s else s)"

section \<open>The processing producer\<close>

datatype ('k, 'j) outcome_error = SendFailed 'k | SerializationError 'j

text \<open>Messages handed over: to Kafka (key and payload), or to the HTTP producer.\<close>

datatype 'id outcome_action = OA_Kafka string 'id string | OA_Http "'id track_raw_outcome"

record ('id, 'k, 'j) processing_producer =
  pp_producer :: "(string \<Rightarrow> 'id \<Rightarrow> string \<Rightarrow> 'k option) option"
  pp_http :: bool
  pp_to_json :: "'id track_raw_outcome \<Rightarrow> 'j + string"
  pp_new_event_id :: 'id

definition send_kafka_message ::
  "relay_config \<Rightarrow> ('id, 'k, 'j) processing_producer \<Rightarrow> 'id track_raw_outcome \<Rightarrow>
   (('k, 'j) outcome_error + unit) \<times> 'id outcome_action list" where
  "send_kafka_message c p msg =
     (case pp_producer p of
        None \<Rightarrow> (Inr (), [])
      | Some send \<Rightarrow>
          (case pp_to_json p msg of
             Inl e \<Rightarrow> (Inl (SerializationError e), [])
           | Inr payload \<Rightarrow>
               let key = (case tr_event_id msg of Some i \<Rightarrow> i | None \<Rightarrow> pp_new_event_id p);
                   topic = kafka_topic_name c KT_Outcomes
               in (case send topic key payload of
                     None \<Rightarrow> (Inr (), [OA_Kafka topic key payload])
                   | Some e \<Rightarrow> (Inl (SendFailed e), []))))"

definition send_http_message ::
  "('id, 'k, 'j) processing_producer \<Rightarrow> 'id track_raw_outcome \<Rightarrow> 'id outcome_action list" where
  "send_http_message p msg = (if pp_http p then [OA_Http msg] else [])"

definition processing_producer_handle ::
  "relay_config \<Rightarrow> ('id, 'k, 'j) processing_producer \<Rightarrow> 'id track_raw_outcome \<Rightarrow>
   (('k, 'j) outcome_error + unit) \<times> 'id outcome_action list" where
  "processing_producer_handle c p msg =
     (if processing_enabled c then send_kafka_message c p msg
      else if emit_outcomes c then (Inr (), send_http_message p msg)
      else (Inr (), []))"

section \<open>Runs of the HTTP producer\<close>

text \<open>A run: messages arrive and pending timers fire, in any order.\<close>

inductive producer_run ::
  "relay_config \<Rightarrow> 'id track_raw_outcome list \<Rightarrow> 'id producer_state \<Rightarrow> bool" for c where
  start: "producer_run c [] (http_producer_create, \<lparr>pc_timers = {}, pc_next_handle = 0, pc_sent = []\<rparr>)"
| message: "producer_run c msgs s \<Longrightarrow> producer_run c (msgs @ [m]) (http_producer_handle c m s)"
| timer: "producer_run c msgs (p, ctx) \<Longrightarrow> h \<in> pc_timers ctx \<Longrightarrow>
    producer_run c msgs (send_batch (p, ctx\<lparr>pc_timers := pc_timers ctx - {h}\<rparr>))"

text \<open>
  The invariant: everything received is sent or waiting, in order; the one pending timer is
  the handle that the producer remembers, and exists exactly when something waits.
\<close>

definition producer_inv :: "relay_config \<Rightarrow> 'id track_raw_outcome list \<Rightarrow> 'id producer_state \<Rightarrow> bool" where
  "producer_inv c msgs s =
     (case s of (p, ctx) \<Rightarrow>
        concat (pc_sent ctx) @ hp_unsent_outcomes p = (if emit_outcomes c then msgs else []) \<and>
        pc_timers ctx = set_option (hp_pending_flush_handle p) \<and>
        (hp_pending_flush_handle p = None \<longleftrightarrow> hp_unsent_outcomes p = []) \<and>
        (hp_unsent_outcomes p \<noteq> [] \<longrightarrow> length (hp_unsent_outcomes p) < outcome_batch_size c) \<and>
        (\<forall>b \<in> set (pc_sent ctx). b \<noteq> [] \<and> length b \<le> max 1 (outcome_batch_size c)))"

lemma send_batch_unfold:
  "send_batch (p, ctx) =
     (\<lparr>hp_unsent_outcomes = [], hp_pending_flush_handle = None\<rparr>,
      if hp_unsent_outcomes p = [] then ctx else ctx\<lparr>pc_sent := pc_sent ctx @ [hp_unsent_outcomes p]\<rparr>)"
  by (simp add: send_batch_def Let_def)

lemma producer_inv_message:
  assumes "producer_inv c msgs s"
  shows "producer_inv c (msgs @ [m]) (http_producer_handle c m s)"
proof -
  obtain p ctx where s: "s = (p, ctx)" by fastforce
  have len: "length (hp_unsent_outcomes p) < max 1 (outcome_batch_size c)"
    using assms by (cases "hp_unsent_outcomes p") (auto simp: producer_inv_def s)
  show ?thesis
    using assms len
    by (cases "emit_outcomes c") (auto simp: producer_inv_def s http_producer_handle_def producer_send_http_message_def Let_def
        send_batch_unfold split: option.splits)
qed

lemma producer_inv_timer:
  assumes "producer_inv c msgs (p, ctx)" and "h \<in> pc_timers ctx"
  shows "producer_inv c msgs (send_batch (p, ctx\<lparr>pc_timers := pc_timers ctx - {h}\<rparr>))"
  using assms by (auto simp: producer_inv_def send_batch_unfold)

lemma producer_run_inv: "producer_run c msgs s \<Longrightarrow> producer_inv c msgs s"
proof (induction rule: producer_run.induct)
  case start
  show ?case by (simp add: producer_inv_def http_producer_create_def)
qed (simp_all add: producer_inv_message producer_inv_timer)

text \<open>C23: no outcome is lost, duplicated or reordered by batching. In every run, what was sent
  followed by what waits is exactly what was received, batches are non-empty and never
  larger than configured, and whenever an outcome waits a flush timer is pending whose
  firing sends everything.\<close>

theorem outcome_batching:
  assumes "producer_run c msgs (p, ctx)" and "emit_outcomes c"
  shows "concat (pc_sent ctx) @ hp_unsent_outcomes p = msgs \<and>
         (\<forall>b \<in> set (pc_sent ctx). b \<noteq> [] \<and> length b \<le> max 1 (outcome_batch_size c)) \<and>
         (hp_unsent_outcomes p \<noteq> [] \<longrightarrow>
            (\<exists>h. pc_timers ctx = {h} \<and>
                 concat (pc_sent (snd (send_batch (p, ctx\<lparr>pc_timers := pc_timers ctx - {h}\<rparr>)))) = msgs))"
  using producer_run_inv [OF assms(1)] assms(2)
  by (auto simp: producer_inv_def send_batch_unfold)
definition outcomes_config :: "bool \<Rightarrow> nat \<Rightarrow> relay_config" where
  "outcomes_config emit n =
     update_outcomes (\<lambda>os. os\<lparr>os_emit_outcomes := emit, os_batch_size := n\<rparr>) (config_default ''127.0.0.1'' 4)"

definition example_raw_outcome :: "u8 \<Rightarrow> nat track_raw_outcome" where
  "example_raw_outcome n =
     \<lparr>tr_timestamp = ''2021'', tr_org_id = None, tr_project_id = 1, tr_key_id = None, tr_outcome = n,
      tr_reason = None, tr_event_id = None, tr_remote_addr = None, tr_source = None,
      tr_category = None, tr_quantity = Some 1\<rparr>"

lemma outcomes_config_simps:
  "emit_outcomes (outcomes_config emit n) = emit" "outcome_batch_size (outcomes_config emit n) = n"
  by (simp_all add: emit_outcomes_def outcome_batch_size_def outcomes_config_def update_outcomes_def
      config_default_def config_values_default_def processing_section_default_def)

theorem outcome_batching_witness:
  "\<exists>p ctx. producer_run (outcomes_config True 2) (map example_raw_outcome [1, 2, 3]) (p, ctx) \<and>
     concat (pc_sent ctx) @ hp_unsent_outcomes p = map example_raw_outcome [1, 2, 3]"
proof -
  let ?c = "outcomes_config True 2"
  have "producer_run ?c ((([] @ [example_raw_outcome 1]) @ [example_raw_outcome 2]) @ [example_raw_outcome 3])
     (http_producer_handle ?c (example_raw_outcome 3) (http_producer_handle ?c (example_raw_outcome 2)
       (http_producer_handle ?c (example_raw_outcome 1)
         (http_producer_create, \<lparr>pc_timers = {}, pc_next_handle = 0, pc_sent = []\<rparr>))))"
    by (intro producer_run.message producer_run.start)
  then obtain p ctx where run: "producer_run ?c (map example_raw_outcome [1, 2, 3]) (p, ctx)"
    by (metis append_Cons append_Nil list.simps(8) list.simps(9) prod.exhaust)
  then show ?thesis
    using outcome_batching [OF run] by (auto simp: outcomes_config_simps)
qed

end
