(* ===== verification/Upstream_Projects.thy ===== *)
theory Upstream_Projects
  imports Batched_Fetch
begin

text \<open>
  The upstream project source (\<open>relay-server/src/actors/project_upstream.rs\<close>): project keys
  that wait for their state are fetched from the upstream in batches. The hash map of
  channels is an association list in any order. A channel is the list of its receivers;
  a channel that is dropped answers them with an error.
\<close>

section \<open>Channels\<close>

record get_project_states =
  gps_public_keys :: "project_key list"
  gps_full_config :: bool
  gps_no_cache :: bool

datatype 'e error_boundary = EB_Ok "project_state option" | EB_Err 'e

type_synonym 'e get_project_states_response = "project_key \<Rightarrow> 'e error_boundary option"

record project_state_channel =
  uc_receivers :: "nat list"
  uc_deadline :: instant
  uc_no_cache :: bool

definition project_state_channel_new :: "instant \<Rightarrow> duration \<Rightarrow> project_state_channel" where
  "project_state_channel_new now timeout =
     \<lparr>uc_receivers = [], uc_deadline = now + int timeout, uc_no_cache = False\<rparr>"

definition channel_no_cache :: "project_state_channel \<Rightarrow> project_state_channel" where
  "channel_no_cache ch = ch\<lparr>uc_no_cache := True\<rparr>"

type_synonym source_answer = "nat \<times> (unit + project_state)"

definition channel_send :: "project_state_channel \<Rightarrow> project_state \<Rightarrow> source_answer list" where
  "channel_send ch st = map (\<lambda>w. (w, Inr st)) (uc_receivers ch)"

definition channel_drop :: "project_state_channel \<Rightarrow> source_answer list" where
  "channel_drop ch = map (\<lambda>w. (w, Inl ())) (uc_receivers ch)"

definition channel_expired :: "instant \<Rightarrow> project_state_channel \<Rightarrow> bool" where
  "channel_expired now ch \<longleftrightarrow> now > uc_deadline ch"

section \<open>The source\<close>

type_synonym channels = "(project_key \<times> project_state_channel) list"

record 'b upstream_source =
  us_backoff :: "'b retry_backoff"
  us_state_channels :: channels

definition upstream_source_new :: "'b \<Rightarrow> 'b upstream_source" where
  "upstream_source_new backoff = \<lparr>us_backoff = retry_backoff_new backoff, us_state_channels = []\<rparr>"

definition source_next_backoff ::
  "'b backoff_ext \<Rightarrow> relay_config \<Rightarrow> 'b upstream_source \<Rightarrow> (duration \<times> 'b upstream_source) option" where
  "source_next_backoff bx c src =
     (case next_backoff bx (us_backoff src) of
        None \<Rightarrow> None
      | Some (d, b) \<Rightarrow> Some (query_batch_interval c + d, src\<lparr>us_backoff := b\<rparr>))"

definition schedule_fetch ::
  "'b backoff_ext \<Rightarrow> relay_config \<Rightarrow> 'b upstream_source \<Rightarrow> ('b upstream_source \<times> duration option) option" where
  "schedule_fetch bx c src =
     (case source_next_backoff bx c src of None \<Rightarrow> None | Some (d, src') \<Rightarrow> Some (src', Some d))"

text \<open>\<open>Itertools::chunks\<close>, which panics for the size zero.\<close>

function chunks :: "nat \<Rightarrow> 'a list \<Rightarrow> 'a list list" where
  "chunks n xs = (if n = 0 \<or> xs = [] then [] else take n xs # chunks n (drop n xs))"
  by pat_completeness auto
termination by (relation "measure (\<lambda>(n, xs). length xs)") auto

declare chunks.simps [simp del]

text \<open>A fetch in flight: the batches with their queries.\<close>

type_synonym fetch = "(channels \<times> get_project_states) list"

definition batch_query :: "relay_config \<Rightarrow> channels \<Rightarrow> get_project_states" where
  "batch_query c batch =
     \<lparr>gps_public_keys = map fst batch, gps_full_config = processing_enabled c,
      gps_no_cache = list_ex (\<lambda>(_, ch). uc_no_cache ch) batch\<rparr>"

definition actual_batch_size :: "nat \<Rightarrow> nat \<Rightarrow> nat" where
  "actual_batch_size batch_size num_batches =
     (let total_count = batch_size * num_batches
      in (total_count + total_count mod num_batches) div num_batches)"

text \<open>
  The outer \<open>None\<close> is a panic: the remainder for no concurrent queries, or empty chunks. The
  dropped channels are those that have expired.
\<close>

definition fetch_states ::
  "instant \<Rightarrow> relay_config \<Rightarrow> 'b upstream_source \<Rightarrow>
   ('b upstream_source \<times> fetch option \<times> source_answer list) option" where
  "fetch_states now c src =
     (if us_state_channels src = [] then Some (src, None, [])
      else
        let batch_size = query_batch_size c;
            num_batches = max_concurrent_queries c;
            total_count = batch_size * num_batches;
            popped = take total_count (us_state_channels src);
            live = filter (\<lambda>(_, ch). \<not> channel_expired now ch) popped;
            expired = filter (\<lambda>(_, ch). channel_expired now ch) popped
        in if num_batches = 0 \<or> actual_batch_size batch_size num_batches = 0 then None
           else
             Some (src\<lparr>us_state_channels := drop total_count (us_state_channels src)\<rparr>,
                   Some (map (\<lambda>batch. (batch, batch_query c batch))
                          (chunks (actual_batch_size batch_size num_batches) (sort_key (key_bytes \<circ> fst) live))),
                   concat (map (\<lambda>(_, ch). channel_drop ch) expired)))"

text \<open>The state for a key of a successful response, and the answers of the whole batch.\<close>

definition response_state ::
  "instant \<Rightarrow> 'e get_project_states_response \<Rightarrow> project_key \<Rightarrow> project_state" where
  "response_state now configs key =
     (case (case configs key of
              Some (EB_Ok st) \<Rightarrow> st
            | Some (EB_Err _) \<Rightarrow> Some (state_err now)
            | None \<Rightarrow> None) of
        Some st \<Rightarrow> sanitize st
      | None \<Rightarrow> sanitize (state_missing now))"

text \<open>\<open>HashMap::extend\<close>: a channel of the same key is replaced, and dropped.\<close>

definition replaced_channels :: "channels \<Rightarrow> channels \<Rightarrow> channels" where
  "replaced_channels new old = filter (\<lambda>(key, _). key \<in> fst ` set new) old"

definition extend_channels :: "channels \<Rightarrow> channels \<Rightarrow> channels" where
  "extend_channels old new = foldl (\<lambda>chs (key, ch). AList.update key ch chs) old new"

definition handle_response ::
  "'b backoff_ext \<Rightarrow> instant \<Rightarrow> channels \<Rightarrow> 'r + 'e get_project_states_response \<Rightarrow> 'b upstream_source \<Rightarrow>
   'b upstream_source \<times> source_answer list" where
  "handle_response bx now batch response src =
     (case response of
        Inr configs \<Rightarrow>
          (src\<lparr>us_backoff := backoff_reset bx (us_backoff src)\<rparr>,
           concat (map (\<lambda>(key, ch). channel_send ch (response_state now configs key)) batch))
      | Inl _ \<Rightarrow>
          (src\<lparr>us_state_channels := extend_channels (us_state_channels src) batch\<rparr>,
           concat (map (\<lambda>(_, ch). channel_drop ch) (replaced_channels batch (us_state_channels src)))))"

fun handle_responses ::
  "'b backoff_ext \<Rightarrow> instant \<Rightarrow> (channels \<times> ('r + 'e get_project_states_response)) list \<Rightarrow> 'b upstream_source \<Rightarrow>
   'b upstream_source \<times> source_answer list" where
  "handle_responses bx now [] src = (src, [])"
| "handle_responses bx now ((batch, response) # rest) src =
     (case handle_response bx now batch response src of
        (src1, answers1) \<Rightarrow>
          (case handle_responses bx now rest src1 of
             (src2, answers2) \<Rightarrow> (src2, answers1 @ answers2)))"

definition finish_fetch ::
  "'b backoff_ext \<Rightarrow> instant \<Rightarrow> relay_config \<Rightarrow> (channels \<times> ('r + 'e get_project_states_response)) list \<Rightarrow>
   'b upstream_source \<Rightarrow> ('b upstream_source \<times> duration option \<times> source_answer list) option" where
  "finish_fetch bx now c responses src =
     (case handle_responses bx now responses src of
        (src1, answers) \<Rightarrow>
          if us_state_channels src1 \<noteq> []
          then (case schedule_fetch bx c src1 of
                  None \<Rightarrow> None
                | Some (src2, timer) \<Rightarrow> Some (src2, timer, answers))
          else Some (src1\<lparr>us_backoff := backoff_reset bx (us_backoff src1)\<rparr>, None, answers))"

text \<open>
  If sending a query fails, \<open>join_all\<close> fails as a whole and its error is dropped: the channels
  of all batches are dropped, and nothing else happens.
\<close>

definition fail_fetch :: "fetch \<Rightarrow> 'b upstream_source \<Rightarrow> 'b upstream_source \<times> source_answer list" where
  "fail_fetch f src = (src, concat (map (\<lambda>(_, ch). channel_drop ch) (concat (map fst f))))"

definition handle_fetch_project_state ::
  "'b backoff_ext \<Rightarrow> instant \<Rightarrow> relay_config \<Rightarrow> nat \<Rightarrow> project_key \<Rightarrow> bool \<Rightarrow> 'b upstream_source \<Rightarrow>
   ('b upstream_source \<times> duration option) option" where
  "handle_fetch_project_state bx now c w key no_cache src =
     (case (if \<not> backoff_started (us_backoff src)
            then schedule_fetch bx c (src\<lparr>us_backoff := backoff_reset bx (us_backoff src)\<rparr>)
            else Some (src, None)) of
        None \<Rightarrow> None
      | Some (src1, timer) \<Rightarrow>
          let channel = (case map_of (us_state_channels src1) key of
                           Some ch \<Rightarrow> ch
                         | None \<Rightarrow> project_state_channel_new now (query_timeout c));
              channel1 = (if no_cache then channel_no_cache channel else channel);
              channel2 = channel1\<lparr>uc_receivers := uc_receivers channel1 @ [w]\<rparr>
          in Some (src1\<lparr>us_state_channels := AList.update key channel2 (us_state_channels src1)\<rparr>, timer))"

section \<open>The fetch protocol\<close>

definition source_request ::
  "'b backoff_ext \<Rightarrow> relay_config \<Rightarrow> instant \<times> nat \<times> project_key \<times> bool \<Rightarrow> 'b upstream_source \<Rightarrow>
   ('b upstream_source \<times> duration option) option" where
  "source_request bx c m src = (case m of (now, w, key, nc) \<Rightarrow> handle_fetch_project_state bx now c w key nc src)"

definition source_begin ::
  "relay_config \<Rightarrow> instant \<Rightarrow> 'b upstream_source \<Rightarrow> ('b upstream_source \<times> fetch option) option" where
  "source_begin c now src = map_option (\<lambda>(src', f, _). (src', f)) (fetch_states now c src)"

definition source_end ::
  "'b backoff_ext \<Rightarrow> relay_config \<Rightarrow> instant \<times> ('r + 'e get_project_states_response) list \<Rightarrow> fetch \<Rightarrow>
   'b upstream_source \<Rightarrow> ('b upstream_source \<times> duration option) option" where
  "source_end bx c r f src =
     map_option (\<lambda>(src', timer, _). (src', timer)) (finish_fetch bx (fst r) c (zip (map fst f) (snd r)) src)"

definition source_started :: "'b upstream_source \<Rightarrow> bool" where
  "source_started src = backoff_started (us_backoff src)"

definition source_waiting :: "'b upstream_source \<Rightarrow> bool" where
  "source_waiting src \<longleftrightarrow> us_state_channels src \<noteq> []"

lemmas source_simps = source_started_def source_waiting_def

lemma schedule_fetch_started:
  "schedule_fetch bx c src = Some (src', timer) \<Longrightarrow>
   timer \<noteq> None \<and> source_started src' \<and> us_state_channels src' = us_state_channels src"
  by (auto simp: schedule_fetch_def source_next_backoff_def source_simps split: option.splits
      dest: next_backoff_started)

lemma update_not_Nil [simp]: "AList.update k v xs \<noteq> []"
  by (cases xs) auto

lemma source_request_started:
  assumes "source_request bx c m src = Some (src', timer)" and "source_started src"
  shows "timer = None \<and> source_started src' \<and> source_waiting src'"
  using assms by (auto simp: source_request_def handle_fetch_project_state_def Let_def source_simps split: prod.splits)

lemma source_request_idle:
  assumes "source_request bx c m src = Some (src', timer)" and "\<not> source_started src"
  shows "timer \<noteq> None \<and> source_started src' \<and> source_waiting src'"
  using assms schedule_fetch_started [of bx c "src\<lparr>us_backoff := backoff_reset bx (us_backoff src)\<rparr>"]
  by (fastforce simp: source_request_def handle_fetch_project_state_def Let_def source_simps
      split: prod.splits option.splits)

interpretation source: batched_fetcher source_started source_waiting "\<lambda>_. True"
  "source_request bx c" "source_begin c" "source_end bx c" "upstream_source_new backoff"
  for bx c backoff
proof unfold_locales
  show "\<not> source_started (upstream_source_new backoff)" "\<not> source_waiting (upstream_source_new backoff)"
    by (simp_all add: source_simps upstream_source_new_def retry_backoff_new_def backoff_started_def)
next
  fix m a a' d
  assume "source_request bx c m a = Some (a', Some d)"
  then show "\<not> source_started a \<and> source_started a' \<and> source_waiting a'"
    using source_request_started [of bx c m a a' "Some d"] source_request_idle [of bx c m a a' "Some d"] by auto
next
  fix m a a'
  assume "source_request bx c m a = Some (a', None)"
  then show "source_started a' = source_started a"
    using source_request_started [of bx c m a a' None] source_request_idle [of bx c m a a' None] by auto
next
  fix m a a' timer
  assume "source_request bx c m a = Some (a', timer)"
  then show "source_waiting a'" "source_waiting a \<or> source_started a'"
    using source_request_started [of bx c m a a' timer] source_request_idle [of bx c m a a' timer] by auto
next
  fix x a a' and fetch :: "fetch option"
  assume "source_begin c x a = Some (a', fetch)" and "source_waiting a"
  then show "(\<exists>f. fetch = Some f \<and> True) \<and> source_started a' = source_started a"
    by (auto simp: source_begin_def fetch_states_def Let_def source_simps split: if_splits)
next
  fix r :: "instant \<times> ('r + 'e get_project_states_response) list" and f a a' timer
  assume "source_end bx c r f a = Some (a', timer)"
  then show "(timer \<noteq> None \<longleftrightarrow> source_waiting a') \<and> source_started a' = source_waiting a'"
    using schedule_fetch_started [of bx c]
    by (fastforce simp: source_end_def finish_fetch_def source_simps split: prod.splits if_splits option.splits)
qed

section \<open>Batches\<close>

lemma concat_chunks: "n > 0 \<Longrightarrow> concat (chunks n xs) = xs"
proof (induction n xs rule: chunks.induct)
  case (1 n xs)
  then show ?case by (subst chunks.simps) (auto simp del: chunks.simps)
qed

lemma chunks_length: "ys \<in> set (chunks n xs) \<Longrightarrow> ys \<noteq> [] \<and> length ys \<le> n"
proof (induction n xs rule: chunks.induct)
  case (1 n xs)
  show ?case
  proof (cases "n = 0 \<or> xs = []")
    case True
    then have "chunks n xs = []" by (subst chunks.simps) simp
    then show ?thesis using 1 by simp
  next
    case False
    then have "chunks n xs = take n xs # chunks n (drop n xs)" by (subst chunks.simps) simp
    then show ?thesis using 1 False by auto
  qed
qed

lemma length_chunks: "length xs \<le> n * k \<Longrightarrow> length (chunks n xs) \<le> k"
proof (induction n xs arbitrary: k rule: chunks.induct)
  case (1 n xs)
  show ?case
  proof (cases "n = 0 \<or> xs = []")
    case True
    then have "chunks n xs = []" by (subst chunks.simps) simp
    then show ?thesis by simp
  next
    case False
    then have c: "chunks n xs = take n xs # chunks n (drop n xs)" by (subst chunks.simps) simp
    obtain j where j: "k = Suc j" using 1(2) False by (cases k) auto
    have "length (chunks n (drop n xs)) \<le> j" using 1 False j by simp
    then show ?thesis by (simp add: c j)
  qed
qed

text \<open>The total is a multiple of the number of queries, so rounding up does nothing.\<close>

lemma actual_batch_size_eq: "num_batches > 0 \<Longrightarrow> actual_batch_size batch_size num_batches = batch_size"
  by (simp add: actual_batch_size_def Let_def)

lemma fetch_states_batches:
  assumes "fetch_states now c src = Some (src', Some f, answers)"
  shows "0 < query_batch_size c" and "0 < max_concurrent_queries c"
    and "f = map (\<lambda>batch. (batch, batch_query c batch))
           (chunks (query_batch_size c) (sort_key (key_bytes \<circ> fst)
             (filter (\<lambda>(_, ch). \<not> channel_expired now ch)
               (take (query_batch_size c * max_concurrent_queries c) (us_state_channels src)))))"
    and "answers = concat (map (\<lambda>(_, ch). channel_drop ch)
           (filter (\<lambda>(_, ch). channel_expired now ch)
             (take (query_batch_size c * max_concurrent_queries c) (us_state_channels src))))"
    and "us_state_channels src' = drop (query_batch_size c * max_concurrent_queries c) (us_state_channels src)"
proof -
  have pos: "0 < query_batch_size c \<and> 0 < max_concurrent_queries c"
    using assms actual_batch_size_eq [of "max_concurrent_queries c" "query_batch_size c"]
    by (simp add: fetch_states_def Let_def split: if_splits)
  then show "0 < query_batch_size c" "0 < max_concurrent_queries c" by simp_all
  show "f = map (\<lambda>batch. (batch, batch_query c batch))
           (chunks (query_batch_size c) (sort_key (key_bytes \<circ> fst)
             (filter (\<lambda>(_, ch). \<not> channel_expired now ch)
               (take (query_batch_size c * max_concurrent_queries c) (us_state_channels src)))))"
    "answers = concat (map (\<lambda>(_, ch). channel_drop ch)
           (filter (\<lambda>(_, ch). channel_expired now ch)
             (take (query_batch_size c * max_concurrent_queries c) (us_state_channels src))))"
    "us_state_channels src' = drop (query_batch_size c * max_concurrent_queries c) (us_state_channels src)"
    using assms pos by (auto simp: fetch_states_def Let_def actual_batch_size_eq split: if_splits)
qed

lemma mset_filter_take_drop:
  "mset (filter (\<lambda>x. \<not> P x) (take n xs)) + mset (filter P (take n xs)) + mset (drop n xs) = mset xs"
proof -
  have "mset (filter (\<lambda>x. \<not> P x) ys) + mset (filter P ys) = mset ys" for ys by (induction ys) auto
  then show ?thesis by (simp only: mset_append [symmetric] append_take_drop_id)
qed

section \<open>Receivers\<close>

definition channels_receivers :: "channels \<Rightarrow> nat multiset" where
  "channels_receivers chs = (\<Sum>(key, ch) \<in># mset chs. mset (uc_receivers ch))"

lemma channels_receivers_Nil [simp]: "channels_receivers [] = {#}"
  by (simp add: channels_receivers_def)

lemma channels_receivers_Cons [simp]:
  "channels_receivers (kc # chs) = mset (uc_receivers (snd kc)) + channels_receivers chs"
  by (cases kc) (simp add: channels_receivers_def)

lemma channels_receivers_append [simp]:
  "channels_receivers (xs @ ys) = channels_receivers xs + channels_receivers ys"
  by (simp add: channels_receivers_def)

lemma channels_receivers_mset: "mset xs = mset ys \<Longrightarrow> channels_receivers xs = channels_receivers ys"
  by (simp add: channels_receivers_def)

lemma channel_answers [simp]:
  "image_mset fst (mset (channel_drop ch)) = mset (uc_receivers ch)"
  "image_mset fst (mset (channel_send ch st)) = mset (uc_receivers ch)"
  by (simp_all add: channel_drop_def channel_send_def multiset.map_comp comp_def)

lemma dropped_receivers:
  "mset (map fst (concat (map (\<lambda>(_, ch). channel_drop ch) chs))) = channels_receivers chs"
  by (induction chs) auto

lemma sent_receivers:
  "mset (map fst (concat (map (\<lambda>(key, ch). channel_send ch (g key)) chs))) = channels_receivers chs"
  by (induction chs) auto

lemma update_receivers:
  assumes "distinct (map fst chs)"
  shows "channels_receivers (AList.update key ch chs) + channels_receivers (filter (\<lambda>(k, _). k = key) chs) =
         channels_receivers chs + mset (uc_receivers ch)"
  using assms
proof (induction chs)
  case (Cons kc chs)
  show ?case
  proof (cases "fst kc = key")
    case True
    then have "filter (\<lambda>(k, _). k = key) chs = []"
      using Cons.prems by (auto simp: filter_empty_conv) (metis fst_conv imageI)
    then show ?thesis using True by (cases kc) (simp add: ac_simps)
  next
    case False
    then show ?thesis using Cons by (cases kc) (simp add: ac_simps)
  qed
qed simp

lemma filter_update_other:
  assumes "\<forall>k \<in> K. k \<noteq> key"
  shows "filter (\<lambda>(k, _). k \<in> K) (AList.update key ch chs) = filter (\<lambda>(k, _). k \<in> K) chs"
  using assms by (induction chs) auto

lemma extend_receivers:
  assumes "distinct (map fst old)" and "distinct (map fst new)"
  shows "channels_receivers (extend_channels old new) + channels_receivers (replaced_channels new old) =
         channels_receivers old + channels_receivers new"
    and "distinct (map fst (extend_channels old new))"
    and "fst ` set (extend_channels old new) = fst ` set old \<union> fst ` set new"
proof -
  have "channels_receivers (extend_channels old new) + channels_receivers (replaced_channels new old) =
         channels_receivers old + channels_receivers new \<and>
        distinct (map fst (extend_channels old new)) \<and>
        fst ` set (extend_channels old new) = fst ` set old \<union> fst ` set new"
    using assms
  proof (induction new arbitrary: old)
    case Nil
    then show ?case by (simp add: extend_channels_def replaced_channels_def)
  next
    case (Cons kc new)
    obtain key ch where kc: "kc = (key, ch)" by fastforce
    let ?old = "AList.update key ch old"
    have dist: "distinct (map fst ?old)" using Cons.prems by (simp add: distinct_update)
    have IH: "channels_receivers (extend_channels ?old new) + channels_receivers (replaced_channels new ?old) =
         channels_receivers ?old + channels_receivers new"
      "distinct (map fst (extend_channels ?old new))"
      "fst ` set (extend_channels ?old new) = fst ` set ?old \<union> fst ` set new"
      using Cons.IH [OF dist] Cons.prems by simp_all
    have rest: "replaced_channels new ?old = replaced_channels new old"
      unfolding replaced_channels_def using Cons.prems kc by (intro filter_update_other) auto
    have "channels_receivers (replaced_channels (kc # new) old) =
        channels_receivers (filter (\<lambda>(k, _). k = key) old) + channels_receivers (replaced_channels new old)"
    proof -
      have "key \<notin> fst ` set new" using Cons.prems kc by auto
      then show ?thesis
        by (induction old) (auto simp: replaced_channels_def kc ac_simps)
    qed
    then have "channels_receivers (extend_channels ?old new) + channels_receivers (replaced_channels (kc # new) old) =
        channels_receivers ?old + channels_receivers (filter (\<lambda>(k, _). k = key) old) + channels_receivers new"
      using IH(1) rest by (simp add: ac_simps)
    also have "\<dots> = channels_receivers old + channels_receivers (kc # new)"
      using update_receivers [of old key ch] Cons.prems(1) by (simp add: kc ac_simps)
    finally show ?case
      using IH(2,3) by (auto simp: extend_channels_def kc dom_update)
  qed
  then show "channels_receivers (extend_channels old new) + channels_receivers (replaced_channels new old) =
         channels_receivers old + channels_receivers new"
    "distinct (map fst (extend_channels old new))"
    "fst ` set (extend_channels old new) = fst ` set old \<union> fst ` set new" by simp_all
qed

lemma extend_keys: "fst ` set old \<subseteq> fst ` set (extend_channels old new)"
proof (induction new arbitrary: old)
  case (Cons kc new)
  obtain key ch where kc: "kc = (key, ch)" by fastforce
  have "fst ` set old \<subseteq> fst ` set (AList.update key ch old)" by (auto simp: dom_update)
  also have "\<dots> \<subseteq> fst ` set (extend_channels (AList.update key ch old) new)" by (rule Cons.IH)
  finally show ?case by (simp add: extend_channels_def kc)
qed (simp add: extend_channels_def)

lemma handle_response_receivers:
  assumes "handle_response bx now batch response src = (src', answers)"
    and "distinct (map fst (us_state_channels src))" and "distinct (map fst batch)"
  shows "mset (map fst answers) + channels_receivers (us_state_channels src') =
         channels_receivers batch + channels_receivers (us_state_channels src)"
    and "distinct (map fst (us_state_channels src'))"
proof -
  have "mset (map fst answers) + channels_receivers (us_state_channels src') =
         channels_receivers batch + channels_receivers (us_state_channels src) \<and>
        distinct (map fst (us_state_channels src'))"
  proof (cases response)
    case (Inl err)
    then show ?thesis
      using assms extend_receivers [OF assms(2,3)]
      by (auto simp: handle_response_def dropped_receivers [unfolded mset_map] ac_simps)
  next
    case (Inr configs)
    then show ?thesis
      using assms by (auto simp: handle_response_def sent_receivers [unfolded mset_map])
  qed
  then show "mset (map fst answers) + channels_receivers (us_state_channels src') =
         channels_receivers batch + channels_receivers (us_state_channels src)"
    "distinct (map fst (us_state_channels src'))" by simp_all
qed

lemma handle_responses_receivers:
  assumes "handle_responses bx now rs src = (src', answers)"
    and "distinct (map fst (us_state_channels src))" and "\<forall>(batch, r) \<in> set rs. distinct (map fst batch)"
  shows "mset (map fst answers) + channels_receivers (us_state_channels src') =
         channels_receivers (concat (map fst rs)) + channels_receivers (us_state_channels src)"
  using assms
proof (induction rs arbitrary: src answers)
  case (Cons br rs)
  obtain batch r where br: "br = (batch, r)" by fastforce
  obtain src1 answers1 where h: "handle_response bx now batch r src = (src1, answers1)" by fastforce
  obtain src2 answers2 where hs: "handle_responses bx now rs src1 = (src2, answers2)" by fastforce
  have eq: "src' = src2" "answers = answers1 @ answers2" using Cons.prems(1) by (simp_all add: br h hs)
  note one = handle_response_receivers [OF h Cons.prems(2)]
  have "mset (map fst answers1) + channels_receivers (us_state_channels src1) =
        channels_receivers batch + channels_receivers (us_state_channels src)"
    "distinct (map fst (us_state_channels src1))"
    using one Cons.prems(3) by (simp_all add: br)
  moreover have "mset (map fst answers2) + channels_receivers (us_state_channels src2) =
        channels_receivers (concat (map fst rs)) + channels_receivers (us_state_channels src1)"
    using Cons.IH [of src1 answers2] calculation(2) Cons.prems(3) hs eq by auto
  ultimately show ?case
    by (simp add: eq br add.assoc)
qed simp

lemma schedule_fetch_channels:
  "schedule_fetch bx c src = Some (src', timer) \<Longrightarrow> us_state_channels src' = us_state_channels src"
  using schedule_fetch_started by blast

section \<open>Properties\<close>


text \<open>A fetch takes at most one full set of batches: every channel it takes that has not expired
  is in exactly one batch, expired channels are dropped, all others stay; there are at most
  as many queries as may run at once, none is empty or larger than the batch size, and each
  asks for exactly the keys of its batch, without caches if one of them asks for that.\<close>

lemma fetch_states_partition:
  assumes "fetch_states now c src = Some (src', Some f, answers)"
  shows "mset (concat (map fst f)) +
           mset (filter (\<lambda>(_, ch). channel_expired now ch)
             (take (query_batch_size c * max_concurrent_queries c) (us_state_channels src))) +
           mset (us_state_channels src') = mset (us_state_channels src) \<and>
         (\<forall>kc \<in> set (concat (map fst f)). \<not> channel_expired now (snd kc)) \<and>
         length f \<le> max_concurrent_queries c \<and>
         (\<forall>(batch, query) \<in> set f. batch \<noteq> [] \<and> length batch \<le> query_batch_size c \<and>
            gps_public_keys query = map fst batch \<and>
            (gps_no_cache query \<longleftrightarrow> (\<exists>kc \<in> set batch. uc_no_cache (snd kc))))"
proof -
  let ?n = "query_batch_size c * max_concurrent_queries c"
  let ?live = "filter (\<lambda>(_, ch). \<not> channel_expired now ch) (take ?n (us_state_channels src))"
  let ?sorted = "sort_key (key_bytes \<circ> fst) ?live"
  note fs = fetch_states_batches [OF assms]
  have batches: "concat (map fst f) = ?sorted" "map fst f = chunks (query_batch_size c) ?sorted"
    using concat_chunks [OF fs(1), of ?sorted] by (simp_all add: fs(3) comp_def)
  have part: "mset ?live + mset (filter (\<lambda>(_, ch). channel_expired now ch) (take ?n (us_state_channels src))) +
      mset (us_state_channels src') = mset (us_state_channels src)"
    using mset_filter_take_drop [of "\<lambda>(_, ch). channel_expired now ch" ?n "us_state_channels src"]
    by (simp add: fs(5) case_prod_unfold)
  have "length ?sorted \<le> ?n" by (simp add: le_trans [OF length_filter_le])
  from length_chunks [OF this] have len: "length f \<le> max_concurrent_queries c"
    using arg_cong [OF batches(2), of length] by simp
  have "batch \<noteq> [] \<and> length batch \<le> query_batch_size c \<and> gps_public_keys query = map fst batch \<and>
      (gps_no_cache query \<longleftrightarrow> (\<exists>kc \<in> set batch. uc_no_cache (snd kc)))" if "(batch, query) \<in> set f" for batch query
  proof -
    have "batch \<in> set (chunks (query_batch_size c) ?sorted)" "query = batch_query c batch"
      using that by (auto simp: fs(3))
    then show ?thesis
      using chunks_length by (auto simp: batch_query_def list_ex_iff case_prod_unfold)
  qed
  moreover have "\<forall>kc \<in> set (concat (map fst f)). \<not> channel_expired now (snd kc)"
    unfolding batches(1) by auto
  ultimately show ?thesis
    using part len by (auto simp: batches(1))
qed

text \<open>The end of a fetch loses no receiver: every receiver of the batches and every receiver that
  arrived in the meantime is answered exactly once or still waits in a channel.\<close>

lemma finish_fetch_keeps_receivers:
  assumes "finish_fetch bx now c responses src = Some (src', timer, answers)"
    and "distinct (map fst (us_state_channels src))" and "\<forall>(batch, r) \<in> set responses. distinct (map fst batch)"
  shows "mset (map fst answers) + channels_receivers (us_state_channels src') =
         channels_receivers (concat (map fst responses)) + channels_receivers (us_state_channels src)"
proof -
  obtain src1 answers1 where h: "handle_responses bx now responses src = (src1, answers1)" by fastforce
  have "answers = answers1 \<and> us_state_channels src' = us_state_channels src1"
    using assms(1) by (auto simp: finish_fetch_def h schedule_fetch_channels split: if_splits option.splits)
  with handle_responses_receivers [OF h assms(2,3)] show ?thesis by simp
qed


text \<open>When a batch fails, a channel that was opened for the same project in the meantime is replaced
  and not merged: all its receivers are answered with an error at once, though the project
  is fetched again.\<close>

lemma failed_batch_drops_newer:
  assumes "(key, ch) \<in> set (us_state_channels src)" and "key \<in> fst ` set batch" and "w \<in> set (uc_receivers ch)"
  shows "(w, Inl ()) \<in> set (snd (handle_response bx now batch (Inl err) src)) \<and>
         key \<in> fst ` set (us_state_channels (fst (handle_response bx now batch (Inl err) src)))"
proof -
  have "(key, ch) \<in> set (replaced_channels batch (us_state_channels src))"
    using assms(1,2) by (auto simp: replaced_channels_def)
  then have "(w, Inl ()) \<in> set (concat (map (\<lambda>(_, ch). channel_drop ch) (replaced_channels batch (us_state_channels src))))"
    using assms(3) by (auto simp: channel_drop_def)
  moreover have "fst ` set (us_state_channels src) \<subseteq> fst ` set (extend_channels (us_state_channels src) batch)"
    by (rule extend_keys)
  ultimately show ?thesis using assms(1) by (force simp: handle_response_def)
qed

section \<open>Witnesses\<close>

definition example_backoff :: "nat backoff_ext" where
  "example_backoff = \<lparr>be_reset = (\<lambda>_. 1000), be_next = (\<lambda>b. (Some b, 2 * b))\<rparr>"

definition example_project :: project_key where
  "example_project = ProjectKey ''a94ae32be2584e0bbd7a4cbb95971fee''"

lemma example_backoff_unlimited: "backoff_unlimited example_backoff"
  by (simp add: backoff_unlimited_def example_backoff_def)

lemma example_config_queries: "query_batch_size example_config = 500" "max_concurrent_queries example_config = 5"
  by (simp_all add: example_config_def config_default_def config_values_default_def query_batch_size_def
      max_concurrent_queries_def cache_section_default_def limits_section_default_def)

abbreviation example_end ::
  "instant \<times> (string + string get_project_states_response) list \<Rightarrow> fetch \<Rightarrow> nat upstream_source \<Rightarrow>
   (nat upstream_source \<times> duration option) option" where
  "example_end \<equiv> source_end example_backoff example_config"

definition example_waiting :: "nat upstream_source" where
  "example_waiting =
     \<lparr>us_backoff = \<lparr>rb_backoff = 1000, rb_attempt = 1\<rparr>,
      us_state_channels = [(example_project, \<lparr>uc_receivers = [0], uc_deadline = int (query_timeout example_config),
                            uc_no_cache = False\<rparr>)]\<rparr>"

lemma example_request:
  "source_request example_backoff example_config (0, 0, example_project, False) (upstream_source_new 7) =
     Some (example_waiting, Some (query_batch_interval example_config))"
  by (simp add: source_request_def handle_fetch_project_state_def upstream_source_new_def retry_backoff_new_def
      backoff_started_def schedule_fetch_def source_next_backoff_def project_state_channel_new_def Let_def
      example_waiting_def) (simp add: example_backoff_def)

lemma example_waiting_reachable:
  "fetcher_reachable (source_request example_backoff example_config) (source_begin example_config)
     example_end (upstream_source_new 7)
     \<lparr>ft_actor = example_waiting, ft_timers = [query_batch_interval example_config], ft_running = []\<rparr>"
proof -
  let ?s = "\<lparr>ft_actor = upstream_source_new 7, ft_timers = [], ft_running = []\<rparr> :: (nat upstream_source, fetch) fetcher"
  have "fetcher_reachable (source_request example_backoff example_config) (source_begin example_config)
     example_end (upstream_source_new 7) (?s\<lparr>ft_actor := example_waiting,
       ft_timers := ft_timers ?s @ (case Some (query_batch_interval example_config) of Some d \<Rightarrow> [d] | None \<Rightarrow> [])\<rparr>)"
    by (rule fetcher_reachable.request [OF fetcher_reachable.init, of "source_request example_backoff example_config"
        "(0, 0, example_project, False)"]) (simp add: example_request)
  then show ?thesis by simp
qed


definition example_fetched :: "fetch" where
  "example_fetched = [(us_state_channels example_waiting, batch_query example_config (us_state_channels example_waiting))]"

lemma example_fetch:
  "fetch_states 0 example_config example_waiting =
     Some (example_waiting\<lparr>us_state_channels := []\<rparr>, Some example_fetched, [])"
  by (simp add: fetch_states_def example_waiting_def example_fetched_def Let_def example_config_queries
      actual_batch_size_eq channel_expired_def chunks.simps [of 500 "_ # _"] chunks.simps [of 500 "[]"])


end
