(* ===== verification/Relay_Cache.thy ===== *)
theory Relay_Cache
  imports Batched_Fetch
begin

text \<open>
  The cache of relay keys (\<open>relay-server/src/actors/relays.rs\<close>): statically configured relays
  first, then cached answers of the upstream, known relays and unknown ones with separate
  expiry, and otherwise a batched fetch. It is the second instance of the fetch protocol.
\<close>

section \<open>Cached relays\<close>

datatype key_error = KE_FetchFailed | KE_ScheduleFailed

datatype relay_state = RS_Exists relay_info instant | RS_DoesNotExist instant

definition is_valid_cache :: "instant \<Rightarrow> relay_config \<Rightarrow> relay_state \<Rightarrow> bool" where
  "is_valid_cache now c st =
     (case st of
        RS_Exists _ checked_at \<Rightarrow> elapsed now checked_at < relay_cache_expiry c
      | RS_DoesNotExist checked_at \<Rightarrow> elapsed now checked_at < cache_miss_expiry c)"

definition as_option :: "relay_state \<Rightarrow> relay_info option" where
  "as_option st = (case st of RS_Exists relay _ \<Rightarrow> Some relay | RS_DoesNotExist _ \<Rightarrow> None)"

definition from_option :: "instant \<Rightarrow> relay_info option \<Rightarrow> relay_state" where
  "from_option now info =
     (case info of Some relay \<Rightarrow> RS_Exists relay now | None \<Rightarrow> RS_DoesNotExist now)"

type_synonym relay_channels = "(relay_id \<times> nat list) list"

type_synonym relay_answer = "nat \<times> (key_error + relay_id \<times> relay_info option)"

record 'b relay_cache =
  rca_backoff :: "'b retry_backoff"
  rca_relays :: "relay_id \<Rightarrow> relay_state option"
  rca_static_relays :: "relay_id \<Rightarrow> relay_info option"
  rca_relay_channels :: relay_channels

definition relay_cache_new :: "'b \<Rightarrow> relay_config \<Rightarrow> 'b relay_cache" where
  "relay_cache_new backoff c =
     \<lparr>rca_backoff = retry_backoff_new backoff, rca_relays = Map.empty, rca_static_relays = cfg_static_relays c,
      rca_relay_channels = []\<rparr>"

definition cache_schedule_fetch ::
  "'b backoff_ext \<Rightarrow> relay_config \<Rightarrow> 'b relay_cache \<Rightarrow> ('b relay_cache \<times> duration option) option" where
  "cache_schedule_fetch bx c rca =
     (case next_backoff bx (rca_backoff rca) of
        None \<Rightarrow> None
      | Some (d, b) \<Rightarrow> Some (rca\<lparr>rca_backoff := b\<rparr>, Some (query_batch_interval c + d)))"

text \<open>\<open>mem::take\<close> leaves no channel behind; the query asks for all their keys.\<close>

definition fetch_relays :: "'b relay_cache \<Rightarrow> 'b relay_cache \<times> relay_channels \<times> relay_id list" where
  "fetch_relays rca =
     (rca\<lparr>rca_relay_channels := []\<rparr>, rca_relay_channels rca, map fst (rca_relay_channels rca))"

text \<open>The response format, old and new.\<close>

record public_keys_result =
  pkr_public_keys :: "(relay_id \<times> public_key option) list"
  pkr_relays :: "(relay_id \<times> relay_info option) list"

definition get_relays_result :: "public_keys_result \<Rightarrow> relay_id \<Rightarrow> relay_info option option" where
  "get_relays_result r =
     (if pkr_relays r = [] \<and> pkr_public_keys r \<noteq> []
      then map_of (map (\<lambda>(rid, pk). (rid, map_option relay_info_new pk)) (pkr_public_keys r))
      else map_of (pkr_relays r))"

definition answer_channel :: "relay_id \<Rightarrow> relay_info option \<Rightarrow> nat list \<Rightarrow> relay_answer list" where
  "answer_channel rid info receivers = map (\<lambda>w. (w, Inr (rid, info))) receivers"

definition drop_channel :: "nat list \<Rightarrow> relay_answer list" where
  "drop_channel receivers = map (\<lambda>w. (w, Inl KE_FetchFailed)) receivers"

definition response_info :: "public_keys_result \<Rightarrow> relay_id \<Rightarrow> relay_info option" where
  "response_info r rid = (case get_relays_result r rid of Some info \<Rightarrow> info | None \<Rightarrow> None)"

fun store_relays ::
  "instant \<Rightarrow> public_keys_result \<Rightarrow> relay_channels \<Rightarrow> (relay_id \<Rightarrow> relay_state option) \<Rightarrow>
   (relay_id \<Rightarrow> relay_state option) \<times> relay_answer list" where
  "store_relays now r [] relays = (relays, [])"
| "store_relays now r ((rid, receivers) # channels) relays =
     (case store_relays now r channels (relays(rid \<mapsto> from_option now (response_info r rid))) of
        (relays', answers) \<Rightarrow> (relays', answer_channel rid (response_info r rid) receivers @ answers))"

definition finish_fetch_relays ::
  "'b backoff_ext \<Rightarrow> instant \<Rightarrow> relay_config \<Rightarrow> relay_channels \<Rightarrow> 'e + public_keys_result \<Rightarrow> 'b relay_cache \<Rightarrow>
   ('b relay_cache \<times> duration option \<times> relay_answer list) option" where
  "finish_fetch_relays bx now c channels response rca =
     (let (rca1, answers) =
            (case response of
               Inr r \<Rightarrow>
                 (case store_relays now r channels (rca_relays rca) of
                    (relays, answers) \<Rightarrow>
                      (rca\<lparr>rca_backoff := backoff_reset bx (rca_backoff rca), rca_relays := relays\<rparr>, answers))
             | Inl _ \<Rightarrow>
                 (rca\<lparr>rca_relay_channels := foldl (\<lambda>chs (rid, rs). AList.update rid rs chs) (rca_relay_channels rca) channels\<rparr>,
                  concat (map (\<lambda>(rid, rs). if rid \<in> fst ` set channels then drop_channel rs else [])
                    (rca_relay_channels rca))))
      in if rca_relay_channels rca1 \<noteq> []
         then (case cache_schedule_fetch bx c rca1 of
                 None \<Rightarrow> None
               | Some (rca2, timer) \<Rightarrow> Some (rca2, timer, answers))
         else Some (rca1, None, answers))"

text \<open>
  The answer at once, if there is one: static relays, the cache, or no credentials to ask
  the upstream with.
\<close>

definition known_relay :: "instant \<Rightarrow> relay_config \<Rightarrow> relay_id \<Rightarrow> 'b relay_cache \<Rightarrow> relay_info option option" where
  "known_relay now c rid rca =
     (case rca_static_relays rca rid of
        Some info \<Rightarrow> Some (Some info)
      | None \<Rightarrow>
          (case rca_relays rca rid of
             Some st \<Rightarrow>
               if is_valid_cache now c st then Some (as_option st)
               else if rc_credentials c = None then Some None else None
           | None \<Rightarrow> if rc_credentials c = None then Some None else None))"

definition get_or_fetch_info ::
  "'b backoff_ext \<Rightarrow> instant \<Rightarrow> relay_config \<Rightarrow> nat \<Rightarrow> relay_id \<Rightarrow> 'b relay_cache \<Rightarrow>
   ((relay_id \<times> relay_info option, key_error) response \<times> 'b relay_cache \<times> duration option) option" where
  "get_or_fetch_info bx now c w rid rca =
     (case known_relay now c rid rca of
        Some info \<Rightarrow> Some (Reply (Inr (rid, info)), rca, None)
      | None \<Rightarrow>
          (case (if \<not> backoff_started (rca_backoff rca)
                 then cache_schedule_fetch bx c (rca\<lparr>rca_backoff := backoff_reset bx (rca_backoff rca)\<rparr>)
                 else Some (rca, None)) of
             None \<Rightarrow> None
           | Some (rca1, timer) \<Rightarrow>
               let receivers = (case map_of (rca_relay_channels rca1) rid of Some rs \<Rightarrow> rs | None \<Rightarrow> [])
               in Some (Future w,
                        rca1\<lparr>rca_relay_channels := AList.update rid (receivers @ [w]) (rca_relay_channels rca1)\<rparr>,
                        timer)))"

definition handle_get_relay ::
  "'b backoff_ext \<Rightarrow> instant \<Rightarrow> relay_config \<Rightarrow> nat \<Rightarrow> relay_id \<Rightarrow> 'b relay_cache \<Rightarrow>
   ((relay_info option, key_error) response \<times> 'b relay_cache \<times> duration option) option" where
  "handle_get_relay bx now c w rid rca =
     (case get_or_fetch_info bx now c w rid rca of
        None \<Rightarrow> None
      | Some (Reply (Inr (_, info)), rca', timer) \<Rightarrow> Some (Reply (Inr info), rca', timer)
      | Some (Reply (Inl err), rca', timer) \<Rightarrow> Some (Reply (Inl err), rca', timer)
      | Some (Future w, rca', timer) \<Rightarrow> Some (Future w, rca', timer))"

text \<open>
  \<open>Handler<GetRelays>\<close>: the known relays at once, and the receivers \<open>w, w + 1, \<dots>\<close> of the
  others; the answer is joined when they are all answered. At most one of the lookups
  schedules a fetch.
\<close>

fun lookup_relays ::
  "'b backoff_ext \<Rightarrow> instant \<Rightarrow> relay_config \<Rightarrow> nat \<Rightarrow> relay_id list \<Rightarrow> 'b relay_cache \<Rightarrow>
   ((relay_id \<times> relay_info option) list \<times> nat list \<times> 'b relay_cache \<times> duration option) option" where
  "lookup_relays bx now c w [] rca = Some ([], [], rca, None)"
| "lookup_relays bx now c w (rid # ids) rca =
     (case get_or_fetch_info bx now c w rid rca of
        None \<Rightarrow> None
      | Some (r, rca1, timer) \<Rightarrow>
          (case lookup_relays bx now c (Suc w) ids rca1 of
             None \<Rightarrow> None
           | Some (relays, futures, rca2, timer2) \<Rightarrow>
               (case r of
                  Future f \<Rightarrow> Some (relays, f # futures, rca2, if timer = None then timer2 else timer)
                | Reply (Inr known) \<Rightarrow> Some (known # relays, futures, rca2, if timer = None then timer2 else timer)
                | Reply (Inl _) \<Rightarrow> Some (relays, futures, rca2, if timer = None then timer2 else timer))))"

text \<open>\<open>join_all\<close>: the answers of all receivers, or the first error.\<close>

fun join_all :: "nat list \<Rightarrow> (nat \<Rightarrow> key_error + relay_id \<times> relay_info option) \<Rightarrow>
   key_error + (relay_id \<times> relay_info option) list" where
  "join_all [] answers = Inr []"
| "join_all (f # fs) answers =
     (case answers f of
        Inl err \<Rightarrow> Inl err
      | Inr r \<Rightarrow> (case join_all fs answers of Inl err \<Rightarrow> Inl err | Inr rs \<Rightarrow> Inr (r # rs)))"

definition get_relays_answer ::
  "(relay_id \<times> relay_info option) list \<Rightarrow> nat list \<Rightarrow> (nat \<Rightarrow> key_error + relay_id \<times> relay_info option) \<Rightarrow>
   key_error + (relay_id \<Rightarrow> relay_info option option)" where
  "get_relays_answer relays futures answers =
     (case join_all futures answers of
        Inl err \<Rightarrow> Inl err
      | Inr responses \<Rightarrow> Inr (map_of (rev relays) ++ map_of (rev responses)))"

section \<open>The fetch protocol\<close>

definition relays_request ::
  "'b backoff_ext \<Rightarrow> relay_config \<Rightarrow> instant \<times> nat \<times> relay_id \<Rightarrow> 'b relay_cache \<Rightarrow>
   ('b relay_cache \<times> duration option) option" where
  "relays_request bx c m rca =
     (case m of (now, w, rid) \<Rightarrow> map_option snd (get_or_fetch_info bx now c w rid rca))"

definition relays_begin :: "unit \<Rightarrow> 'b relay_cache \<Rightarrow> ('b relay_cache \<times> relay_channels option) option" where
  "relays_begin u rca = (case fetch_relays rca of (rca', channels, _) \<Rightarrow> Some (rca', Some channels))"

definition relays_end ::
  "'b backoff_ext \<Rightarrow> relay_config \<Rightarrow> instant \<times> ('e + public_keys_result) \<Rightarrow> relay_channels \<Rightarrow>
   'b relay_cache \<Rightarrow> ('b relay_cache \<times> duration option) option" where
  "relays_end bx c r channels rca =
     map_option (\<lambda>(rca', timer, _). (rca', timer)) (finish_fetch_relays bx (fst r) c channels (snd r) rca)"

definition relays_started :: "'b relay_cache \<Rightarrow> bool" where
  "relays_started rca = backoff_started (rca_backoff rca)"

definition relays_waiting :: "'b relay_cache \<Rightarrow> bool" where
  "relays_waiting rca \<longleftrightarrow> rca_relay_channels rca \<noteq> []"

lemmas relays_simps = relays_started_def relays_waiting_def

lemma cache_schedule_fetch_started:
  "cache_schedule_fetch bx c rca = Some (rca', timer) \<Longrightarrow>
   timer \<noteq> None \<and> relays_started rca' \<and> rca_relay_channels rca' = rca_relay_channels rca"
  by (auto simp: cache_schedule_fetch_def relays_simps split: option.splits dest: next_backoff_started)

lemma alist_update_not_Nil [simp]: "AList.update k v xs \<noteq> []"
  by (cases xs) auto

lemma relays_request_cases:
  assumes "relays_request bx c m rca = Some (rca', timer)"
  shows "rca' = rca \<and> timer = None \<or>
         relays_started rca \<and> timer = None \<and> relays_started rca' \<and> relays_waiting rca' \<or>
         \<not> relays_started rca \<and> timer \<noteq> None \<and> relays_started rca' \<and> relays_waiting rca'"
proof -
  obtain now w rid where m: "m = (now, w, rid)" by (metis prod_cases3)
  show ?thesis
  proof (cases "known_relay now c rid rca")
    case None
    show ?thesis
    proof (cases "relays_started rca")
      case True
      then show ?thesis
        using assms None by (auto simp: m relays_request_def get_or_fetch_info_def Let_def relays_simps)
    next
      case False
      obtain rca1 t where s: "cache_schedule_fetch bx c (rca\<lparr>rca_backoff := backoff_reset bx (rca_backoff rca)\<rparr>) =
          Some (rca1, t)"
        using assms None False by (auto simp: m relays_request_def get_or_fetch_info_def relays_simps split: option.splits)
      note sched = cache_schedule_fetch_started [OF s]
      have "timer = t" and "\<exists>chs. rca' = rca1\<lparr>rca_relay_channels := chs\<rparr> \<and> chs \<noteq> []"
        using assms None False s
        by (auto simp: m relays_request_def get_or_fetch_info_def Let_def relays_simps)
      then show ?thesis using sched False by (auto simp: relays_simps)
    qed
  qed (use assms in \<open>auto simp: m relays_request_def get_or_fetch_info_def\<close>)
qed

lemma extend_not_Nil: "channels \<noteq> [] \<Longrightarrow> foldl (\<lambda>chs (rid, rs). AList.update rid rs chs) old channels \<noteq> []"
  by (induction channels rule: rev_induct) auto

lemma relays_end_schedules:
  assumes "relays_end bx c r channels rca = Some (rca', timer)" and "channels \<noteq> []"
  shows "(timer \<noteq> None \<longleftrightarrow> relays_waiting rca') \<and> relays_started rca' = relays_waiting rca'"
proof (cases "snd r")
  case (Inl err)
  then show ?thesis
    using assms extend_not_Nil [OF assms(2)] cache_schedule_fetch_started [of bx c]
    by (fastforce simp: relays_end_def finish_fetch_relays_def Let_def relays_simps split: option.splits)
next
  case (Inr res)
  obtain relays answers where s: "store_relays (fst r) res channels (rca_relays rca) = (relays, answers)" by fastforce
  let ?rca = "rca\<lparr>rca_backoff := backoff_reset bx (rca_backoff rca), rca_relays := relays\<rparr>"
  show ?thesis
  proof (cases "rca_relay_channels rca = []")
    case True
    then have "rca' = ?rca \<and> timer = None"
      using assms Inr s by (auto simp: relays_end_def finish_fetch_relays_def Let_def)
    then show ?thesis using True by (simp add: relays_simps)
  next
    case False
    then have "cache_schedule_fetch bx c ?rca = Some (rca', timer)"
      using assms Inr s by (auto simp: relays_end_def finish_fetch_relays_def Let_def split: option.splits)
    from cache_schedule_fetch_started [OF this] False show ?thesis by (simp add: relays_simps)
  qed
qed

interpretation relays: batched_fetcher relays_started relays_waiting "\<lambda>channels. channels \<noteq> []"
  "relays_request bx c" relays_begin "relays_end bx c" "relay_cache_new backoff c"
  for bx c backoff
proof unfold_locales
  show "\<not> relays_started (relay_cache_new backoff c)" "\<not> relays_waiting (relay_cache_new backoff c)"
    by (simp_all add: relays_simps relay_cache_new_def retry_backoff_new_def backoff_started_def)
next
  fix x a a' and fetch :: "relay_channels option"
  assume "relays_begin x a = Some (a', fetch)" and "relays_waiting a"
  then show "(\<exists>f. fetch = Some f \<and> f \<noteq> []) \<and> relays_started a' = relays_started a"
    by (auto simp: relays_begin_def fetch_relays_def relays_simps)
next
  fix r :: "instant \<times> ('e + public_keys_result)" and f a a' timer
  assume "relays_end bx c r f a = Some (a', timer)" and "f \<noteq> []"
  then show "(timer \<noteq> None \<longleftrightarrow> relays_waiting a') \<and> relays_started a' = relays_waiting a'"
    by (rule relays_end_schedules)
qed (use relays_request_cases in blast)+

section \<open>Properties\<close>


lemma store_relays_lookup:
  "fst (store_relays now r channels relays) rid =
     (if rid \<in> fst ` set channels then Some (from_option now (response_info r rid)) else relays rid)"
proof (induction channels arbitrary: relays)
  case (Cons ch channels)
  then show ?case by (cases ch) (auto simp: case_prod_unfold)
qed simp

lemma store_relays_answers:
  "(rid, receivers) \<in> set channels \<Longrightarrow> w \<in> set receivers \<Longrightarrow>
   (w, Inr (rid, response_info r rid)) \<in> set (snd (store_relays now r channels relays))"
proof (induction channels arbitrary: relays)
  case (Cons ch channels)
  then show ?case by (cases ch) (auto simp: answer_channel_def case_prod_unfold)
qed simp

lemma finish_fetch_relays_ok:
  assumes "finish_fetch_relays bx now c channels (Inr r) rca = Some (rca', timer, answers)"
  shows "rca_relays rca' = fst (store_relays now r channels (rca_relays rca))"
    and "answers = snd (store_relays now r channels (rca_relays rca))"
    and "rca_static_relays rca' = rca_static_relays rca"
proof -
  obtain relays as where "store_relays now r channels (rca_relays rca) = (relays, as)" by fastforce
  then have "rca_relays rca' = relays \<and> answers = as \<and> rca_static_relays rca' = rca_static_relays rca"
    using assms
    by (auto simp: finish_fetch_relays_def cache_schedule_fetch_def split: if_splits option.splits)
  then show "rca_relays rca' = fst (store_relays now r channels (rca_relays rca))"
    "answers = snd (store_relays now r channels (rca_relays rca))"
    "rca_static_relays rca' = rca_static_relays rca"
    using \<open>store_relays _ _ _ _ = _\<close> by simp_all
qed

text \<open>A successful fetch answers every receiver of a relay with what the upstream says of it, and
  later lookups within the expiry get the same answer at once, without a new fetch; a
  relay the upstream does not know is remembered as missing.\<close>

lemma relays_fetch_then_lookup:
  assumes "finish_fetch_relays bx now c channels (Inr r) rca = Some (rca', timer, answers)"
    and "(rid, receivers) \<in> set channels" and "rca_static_relays rca rid = None"
    and "elapsed now2 now < min (relay_cache_expiry c) (cache_miss_expiry c)"
  shows "(\<forall>w \<in> set receivers. (w, Inr (rid, response_info r rid)) \<in> set answers) \<and>
         get_or_fetch_info bx now2 c w2 rid rca' = Some (Reply (Inr (rid, response_info r rid)), rca', None)"
proof -
  note fin = finish_fetch_relays_ok [OF assms(1)]
  have "rca_relays rca' rid = Some (from_option now (response_info r rid))"
    using assms(2) by (force simp: fin(1) store_relays_lookup)
  then have "known_relay now2 c rid rca' = Some (response_info r rid)"
    using assms(3,4) fin(3)
    by (cases "response_info r rid") (auto simp: known_relay_def is_valid_cache_def from_option_def as_option_def)
  then show ?thesis
    using store_relays_answers [OF assms(2)] by (auto simp: fin(2) get_or_fetch_info_def)
qed

section \<open>Witnesses\<close>

abbreviation example_relays_backoff :: "nat backoff_ext" where
  "example_relays_backoff \<equiv> \<lparr>be_reset = (\<lambda>_. 1000), be_next = (\<lambda>b. (Some b, 2 * b))\<rparr>"


end
