(* ===== verification/Relay_Auth.thy ===== *)
theory Relay_Auth
  imports Relay_Config "HOL-Library.Countable"
begin

text \<open>
  Authentication between relays (\<open>relay-auth/src/lib.rs\<close>): relay versions, signatures with a
  signed header, signed payloads, and the registration protocol of request, challenge and
  response, in which the upstream keeps no state but a token protected by a MAC. The
  extractor of signed requests (\<open>relay-server/src/extractors/signed_json.rs\<close>) is at the end.

  The crates for ed25519, HMAC, base64, JSON and time arithmetic are the parameter
  \<open>auth_ext\<close>. Time is in nanoseconds since the UNIX epoch; operations on it that can leave the
  range of the time library are partial, and \<open>None\<close> is its panic.
\<close>

section \<open>Versions\<close>

datatype relay_version = RelayVersion (rv_major: u8) (rv_minor: u8) (rv_patch: u8)

fun version_tuple :: "relay_version \<Rightarrow> u8 \<times> u8 \<times> u8" where
  "version_tuple (RelayVersion major minor patch) = (major, minor, patch)"

lemma version_tuple_inject [simp]: "version_tuple v = version_tuple w \<longleftrightarrow> v = w"
  by (cases v; cases w) simp

text \<open>The derived order compares the components in order.\<close>

definition version_le :: "relay_version \<Rightarrow> relay_version \<Rightarrow> bool" where
  "version_le v w \<longleftrightarrow>
     rv_major v < rv_major w \<or> rv_major v = rv_major w \<and>
     (rv_minor v < rv_minor w \<or> rv_minor v = rv_minor w \<and> rv_patch v \<le> rv_patch w)"

instantiation relay_version :: linorder
begin

definition less_eq_relay_version :: "relay_version \<Rightarrow> relay_version \<Rightarrow> bool" where
  "less_eq_relay_version = version_le"

definition less_relay_version :: "relay_version \<Rightarrow> relay_version \<Rightarrow> bool" where
  "less_relay_version v w \<longleftrightarrow> v \<le> w \<and> \<not> w \<le> (v :: relay_version)"

instance
proof
  fix u v w :: relay_version
  show "u < v \<longleftrightarrow> u \<le> v \<and> \<not> v \<le> u" by (rule less_relay_version_def)
  show "u \<le> u" by (simp add: less_eq_relay_version_def version_le_def)
  show "u \<le> v \<Longrightarrow> v \<le> w \<Longrightarrow> u \<le> w" unfolding less_eq_relay_version_def version_le_def by fastforce
  show "u \<le> v \<Longrightarrow> v \<le> u \<Longrightarrow> u = v"
    unfolding less_eq_relay_version_def version_le_def by (cases u; cases v) force
  show "u \<le> v \<or> v \<le> u" unfolding less_eq_relay_version_def version_le_def by fastforce
qed

end

definition version_default :: relay_version where
  "version_default = RelayVersion 0 0 0"

definition version_oldest :: relay_version where
  "version_oldest = RelayVersion 0 0 0"

definition version_supported :: "relay_version \<Rightarrow> bool" where
  "version_supported v \<longleftrightarrow> version_oldest \<le> v"

text \<open>The current version is generated by the build and therefore an argument.\<close>

definition version_outdated :: "relay_version \<Rightarrow> relay_version \<Rightarrow> bool" where
  "version_outdated current v \<longleftrightarrow> v < current"

definition version_display :: "relay_version \<Rightarrow> string" where
  "version_display v =
     show_nat (unat (rv_major v)) @ ''.'' @ show_nat (unat (rv_minor v)) @ ''.'' @ show_nat (unat (rv_patch v))"

definition parse_u8 :: "string \<Rightarrow> u8 option" where
  "parse_u8 s = map_option of_nat (parse_unsigned 8 s)"

definition version_from_str :: "string \<Rightarrow> relay_version option" where
  "version_from_str s =
     (case split_on (CHR ''.'') (map (\<lambda>c. if c = CHR ''-'' then CHR ''.'' else c) s) of
        major # minor # patch # _ \<Rightarrow>
          Option.bind (parse_u8 major) (\<lambda>a.
          Option.bind (parse_u8 minor) (\<lambda>b.
          Option.bind (parse_u8 patch) (\<lambda>c. Some (RelayVersion a b c))))
      | _ \<Rightarrow> None)"

lemma version_supported_all: "version_supported v"
  by (simp add: version_supported_def version_oldest_def less_eq_relay_version_def version_le_def word_gt_0)

lemma parse_u8_show: "parse_u8 (show_nat (unat n)) = Some n"
  using unsigned_less [of n, where ?'a = nat] by (simp add: parse_u8_def parse_unsigned_show)

lemma show_nat_no_sep:
  "CHR ''.'' \<notin> set (show_nat n)" "CHR ''-'' \<notin> set (show_nat n)"
  using show_nat_digits by (fastforce simp: is_digit_def)+

text \<open>The printed form of a version, with or without a suffix after a dash, parses to the version.\<close>

lemma version_roundtrip:
  assumes "rest_str = '''' \<or> hd rest_str = CHR ''-''"
  shows "version_from_str (version_display v @ rest_str) = Some v"
proof -
  let ?f = "\<lambda>c. if c = CHR ''-'' then CHR ''.'' else c"
  have m: "map ?f (show_nat n) = show_nat n" for n
    by (rule map_idI) (use show_nat_no_sep in auto)
  have "\<exists>rest. split_on (CHR ''.'') (show_nat n @ map ?f rest_str) = show_nat n # rest" for n
  proof (cases rest_str)
    case Nil
    then show ?thesis by (simp add: split_on_no_sep show_nat_no_sep)
  next
    case (Cons c s)
    then show ?thesis using assms by (simp add: split_on_append show_nat_no_sep)
  qed
  then obtain rest where
    "split_on (CHR ''.'') (show_nat (unat (rv_patch v)) @ map ?f rest_str) = show_nat (unat (rv_patch v)) # rest" by blast
  then show ?thesis
    by (cases v) (simp add: version_from_str_def version_display_def m split_on_append show_nat_no_sep parse_u8_show)
qed

section \<open>Signatures\<close>

datatype key_parse_error = KP_BadEncoding | KP_BadKey

datatype 'e unpack_error = UP_BadSignature | UP_BadEncoding | UP_BadPayload 'e | UP_SignatureExpired | UP_Panic

record signature_header =
  sh_timestamp :: "int option"

record register_state =
  gs_timestamp :: unix_timestamp
  gs_relay_id :: relay_id
  gs_public_key :: public_key
  gs_rand :: string

record register_request =
  gr_relay_id :: relay_id
  gr_public_key :: public_key
  gr_version :: relay_version

record register_challenge =
  gc_relay_id :: relay_id
  gc_token :: string

record register_response =
  gp_relay_id :: relay_id
  gp_token :: string
  gp_version :: relay_version

record 'e auth_ext =
  ax_b64_encode :: "bytes \<Rightarrow> string"
  ax_b64_decode :: "string \<Rightarrow> bytes option"
  ax_sign :: "secret_key \<Rightarrow> bytes \<Rightarrow> bytes"
  ax_signature_from_bytes :: "bytes \<Rightarrow> bytes option"
  ax_verify :: "public_key \<Rightarrow> bytes \<Rightarrow> bytes \<Rightarrow> bool"
  ax_hmac :: "bytes \<Rightarrow> bytes \<Rightarrow> bytes"
  ax_keypair_from_bytes :: "bytes \<Rightarrow> secret_key option"
  ax_keypair_from_secret :: "bytes \<Rightarrow> secret_key option"
  ax_secret_bytes :: "secret_key \<Rightarrow> bytes"
  ax_public_from_bytes :: "bytes \<Rightarrow> public_key option"
  ax_public_of :: "secret_key \<Rightarrow> public_key"
  ax_header_to_json :: "signature_header \<Rightarrow> bytes"
  ax_header_from_json :: "bytes \<Rightarrow> signature_header option"
  ax_state_to_json :: "register_state \<Rightarrow> bytes"
  ax_state_from_json :: "bytes \<Rightarrow> 'e + register_state"
  ax_request_to_json :: "register_request \<Rightarrow> bytes"
  ax_request_from_json :: "bytes \<Rightarrow> 'e + register_request"
  ax_response_to_json :: "register_response \<Rightarrow> bytes"
  ax_response_from_json :: "bytes \<Rightarrow> 'e + register_response"
  ax_utc_timestamp :: "int \<Rightarrow> int option"
  ax_utc_add :: "int \<Rightarrow> int \<Rightarrow> int option"
  ax_utc_sub :: "int \<Rightarrow> int \<Rightarrow> int option"

definition header_expired :: "'e auth_ext \<Rightarrow> int \<Rightarrow> int \<Rightarrow> signature_header \<Rightarrow> bool option" where
  "header_expired ax now max_age h =
     (case sh_timestamp h of
        Some ts \<Rightarrow> map_option (\<lambda>oldest. ts < oldest) (ax_utc_sub ax now max_age)
      | None \<Rightarrow> Some False)"

definition header_default :: "int \<Rightarrow> signature_header" where
  "header_default now = \<lparr>sh_timestamp = Some now\<rparr>"

definition sign_with_header :: "'e auth_ext \<Rightarrow> secret_key \<Rightarrow> bytes \<Rightarrow> signature_header \<Rightarrow> string" where
  "sign_with_header ax k data h =
     (let header = ax_header_to_json ax h; sig = ax_sign ax k (header @ 0 # data)
      in ax_b64_encode ax sig @ CHR ''.'' # ax_b64_encode ax header)"

definition sign :: "'e auth_ext \<Rightarrow> int \<Rightarrow> secret_key \<Rightarrow> bytes \<Rightarrow> string" where
  "sign ax now k data = sign_with_header ax k data (header_default now)"

definition pack_with_header ::
  "'e auth_ext \<Rightarrow> ('s \<Rightarrow> bytes) \<Rightarrow> secret_key \<Rightarrow> 's \<Rightarrow> signature_header \<Rightarrow> bytes \<times> string" where
  "pack_with_header ax to_json k data h =
     (let json = to_json data in (json, sign_with_header ax k json h))"

definition pack :: "'e auth_ext \<Rightarrow> ('s \<Rightarrow> bytes) \<Rightarrow> int \<Rightarrow> secret_key \<Rightarrow> 's \<Rightarrow> bytes \<times> string" where
  "pack ax to_json now k data = pack_with_header ax to_json k data (header_default now)"

definition secret_key_from_str :: "'e auth_ext \<Rightarrow> string \<Rightarrow> key_parse_error + secret_key" where
  "secret_key_from_str ax s =
     (case ax_b64_decode ax s of
        None \<Rightarrow> Inl KP_BadEncoding
      | Some bytes \<Rightarrow>
          (case (if length bytes = 64 then ax_keypair_from_bytes ax bytes else ax_keypair_from_secret ax bytes) of
             None \<Rightarrow> Inl KP_BadKey
           | Some k \<Rightarrow> Inr k))"

text \<open>\<open>alternate\<close> is the flag of the format \<open>{:#}\<close>, which prints the key pair and not the secret alone.\<close>

definition secret_key_display :: "'e auth_ext \<Rightarrow> bool \<Rightarrow> secret_key \<Rightarrow> string" where
  "secret_key_display ax alternate k = ax_b64_encode ax (if alternate then k else ax_secret_bytes ax k)"

definition verify_meta :: "'e auth_ext \<Rightarrow> public_key \<Rightarrow> bytes \<Rightarrow> string \<Rightarrow> signature_header option" where
  "verify_meta ax pk data sig =
     (case splitn2 (CHR ''.'') sig of
        (sig_encoded, header_encoded) \<Rightarrow>
          Option.bind (ax_b64_decode ax sig_encoded) (\<lambda>sig_bytes.
          Option.bind (ax_signature_from_bytes ax sig_bytes) (\<lambda>s.
          Option.bind (Option.bind header_encoded (ax_b64_decode ax)) (\<lambda>header.
            if ax_verify ax pk (header @ 0 # data) s then ax_header_from_json ax header else None))))"

definition verify :: "'e auth_ext \<Rightarrow> public_key \<Rightarrow> bytes \<Rightarrow> string \<Rightarrow> bool" where
  "verify ax pk data sig \<longleftrightarrow> verify_meta ax pk data sig \<noteq> None"

definition age_ok :: "'e auth_ext \<Rightarrow> int \<Rightarrow> int option \<Rightarrow> signature_header \<Rightarrow> bool option" where
  "age_ok ax now max_age header =
     (case max_age of None \<Rightarrow> Some True | Some m \<Rightarrow> map_option Not (header_expired ax now m header))"

definition verify_timestamp ::
  "'e auth_ext \<Rightarrow> int \<Rightarrow> public_key \<Rightarrow> bytes \<Rightarrow> string \<Rightarrow> int option \<Rightarrow> bool option" where
  "verify_timestamp ax now pk data sig max_age =
     (case verify_meta ax pk data sig of
        Some header \<Rightarrow> age_ok ax now max_age header
      | None \<Rightarrow> Some False)"

definition unpack_meta ::
  "'e auth_ext \<Rightarrow> (bytes \<Rightarrow> 'e + 'd) \<Rightarrow> public_key \<Rightarrow> bytes \<Rightarrow> string \<Rightarrow> 'e unpack_error + signature_header \<times> 'd" where
  "unpack_meta ax from_json pk data sig =
     (case verify_meta ax pk data sig of
        Some header \<Rightarrow>
          (case from_json data of Inr d \<Rightarrow> Inr (header, d) | Inl e \<Rightarrow> Inl (UP_BadPayload e))
      | None \<Rightarrow> Inl UP_BadSignature)"

definition unpack ::
  "'e auth_ext \<Rightarrow> (bytes \<Rightarrow> 'e + 'd) \<Rightarrow> int \<Rightarrow> public_key \<Rightarrow> bytes \<Rightarrow> string \<Rightarrow> int option \<Rightarrow> 'e unpack_error + 'd" where
  "unpack ax from_json now pk data sig max_age =
     (case unpack_meta ax from_json pk data sig of
        Inl e \<Rightarrow> Inl e
      | Inr (header, d) \<Rightarrow>
          (case age_ok ax now max_age header of
             None \<Rightarrow> Inl UP_Panic
           | Some True \<Rightarrow> Inr d
           | Some False \<Rightarrow> Inl UP_SignatureExpired))"

definition public_key_from_str :: "'e auth_ext \<Rightarrow> string \<Rightarrow> key_parse_error + public_key" where
  "public_key_from_str ax s =
     (case ax_b64_decode ax s of
        None \<Rightarrow> Inl KP_BadEncoding
      | Some bytes \<Rightarrow> (case ax_public_from_bytes ax bytes of None \<Rightarrow> Inl KP_BadKey | Some k \<Rightarrow> Inr k))"

definition public_key_display :: "'e auth_ext \<Rightarrow> public_key \<Rightarrow> string" where
  "public_key_display ax pk = ax_b64_encode ax pk"

section \<open>Registration\<close>

text \<open>The token \<open>SignedRegisterState\<close> is a string.\<close>

definition state_sign :: "'e auth_ext \<Rightarrow> register_state \<Rightarrow> bytes \<Rightarrow> string" where
  "state_sign ax st secret =
     (let token = ax_b64_encode ax (ax_state_to_json ax st);
          signature = ax_b64_encode ax (ax_hmac ax secret (as_bytes token))
      in token @ CHR '':'' # signature)"

definition state_split :: "string \<Rightarrow> string \<times> string" where
  "state_split s =
     (case splitn2 (CHR '':'') s of (token, signature) \<Rightarrow> (token, case signature of Some x \<Rightarrow> x | None \<Rightarrow> ''''))"

definition state_unpack ::
  "'e auth_ext \<Rightarrow> int \<Rightarrow> string \<Rightarrow> bytes \<Rightarrow> int option \<Rightarrow> 'e unpack_error + register_state" where
  "state_unpack ax now signed_state secret max_age =
     (case state_split signed_state of
        (token, signature) \<Rightarrow>
          (case ax_b64_decode ax signature of
             None \<Rightarrow> Inl UP_BadEncoding
           | Some code \<Rightarrow>
               if code \<noteq> ax_hmac ax secret (as_bytes token) then Inl UP_BadSignature
               else
                 (case ax_b64_decode ax token of
                    None \<Rightarrow> Inl UP_BadEncoding
                  | Some json \<Rightarrow>
                      (case ax_state_from_json ax json of
                         Inl e \<Rightarrow> Inl (UP_BadPayload e)
                       | Inr st \<Rightarrow>
                           (case max_age of
                              None \<Rightarrow> Inr st
                            | Some m \<Rightarrow>
                                (case Option.bind (ax_utc_timestamp ax (sint (gs_timestamp st)))
                                        (\<lambda>t. ax_utc_add ax t m) of
                                   None \<Rightarrow> Inl UP_Panic
                                 | Some t \<Rightarrow> if t < now then Inl UP_SignatureExpired else Inr st))))))"

definition register_request_new :: "relay_version \<Rightarrow> relay_id \<Rightarrow> public_key \<Rightarrow> register_request" where
  "register_request_new current rid pk = \<lparr>gr_relay_id = rid, gr_public_key = pk, gr_version = current\<rparr>"

definition bootstrap_unpack ::
  "'e auth_ext \<Rightarrow> int \<Rightarrow> bytes \<Rightarrow> string \<Rightarrow> int option \<Rightarrow> 'e unpack_error + register_request" where
  "bootstrap_unpack ax now data sig max_age =
     (case ax_request_from_json ax data of
        Inl e \<Rightarrow> Inl (UP_BadPayload e)
      | Inr req \<Rightarrow> unpack ax (ax_request_from_json ax) now (gr_public_key req) data sig max_age)"

text \<open>The nonce is 64 random bytes; they are an argument.\<close>

definition into_challenge ::
  "'e auth_ext \<Rightarrow> system_time \<Rightarrow> bytes \<Rightarrow> bytes \<Rightarrow> register_request \<Rightarrow> register_challenge" where
  "into_challenge ax system_now random secret req =
     (let st = \<lparr>gs_timestamp = unix_from_system system_now, gs_relay_id = gr_relay_id req,
                gs_public_key = gr_public_key req, gs_rand = ax_b64_encode ax random\<rparr>
      in \<lparr>gc_relay_id = gr_relay_id req, gc_token = state_sign ax st secret\<rparr>)"

definition into_response :: "relay_version \<Rightarrow> register_challenge \<Rightarrow> register_response" where
  "into_response current ch =
     \<lparr>gp_relay_id = gc_relay_id ch, gp_token = gc_token ch, gp_version = current\<rparr>"

definition response_unpack ::
  "'e auth_ext \<Rightarrow> int \<Rightarrow> bytes \<Rightarrow> string \<Rightarrow> bytes \<Rightarrow> int option \<Rightarrow>
   'e unpack_error + register_response \<times> register_state" where
  "response_unpack ax now data sig secret max_age =
     (case ax_response_from_json ax data of
        Inl e \<Rightarrow> Inl (UP_BadPayload e)
      | Inr response \<Rightarrow>
          (case state_unpack ax now (gp_token response) secret max_age of
             Inl e \<Rightarrow> Inl e
           | Inr st \<Rightarrow>
               (case verify_meta ax (gs_public_key st) data sig of
                  None \<Rightarrow> Inl UP_BadSignature
                | Some header \<Rightarrow>
                    (case age_ok ax now max_age header of
                       None \<Rightarrow> Inl UP_Panic
                     | Some True \<Rightarrow> Inr (response, st)
                     | Some False \<Rightarrow> Inl UP_SignatureExpired))))"

section \<open>Signed requests\<close>

datatype 'e signature_error =
    SE_BadSignature | SE_MissingHeader string | SE_MalformedHeader string | SE_UnknownRelay | SE_Cache 'e

text \<open>
  \<open>SignedJson\<close>: the headers as the request has them (\<open>None\<close> if missing, and \<open>Some None\<close> if not
  visible ASCII), the answer of the relay key cache, and the body. Only the result of
  \<open>unpack\<close> without a maximum age matters.
\<close>

definition extract_header :: "string \<Rightarrow> string option option \<Rightarrow> 'e signature_error + string" where
  "extract_header name header =
     (case header of
        None \<Rightarrow> Inl (SE_MissingHeader name)
      | Some None \<Rightarrow> Inl (SE_MalformedHeader name)
      | Some (Some v) \<Rightarrow> Inr v)"

definition signed_json_from_request ::
  "'e auth_ext \<Rightarrow> (string \<Rightarrow> relay_id option) \<Rightarrow> (bytes \<Rightarrow> 'e + 't) \<Rightarrow> int \<Rightarrow>
   string option option \<Rightarrow> string option option \<Rightarrow> (relay_id \<Rightarrow> 'c + relay_info option) \<Rightarrow> bytes \<Rightarrow>
   'c signature_error + 't \<times> relay_info" where
  "signed_json_from_request ax parse_id from_json now id_header sig_header get_relay body =
     (case extract_header ''X-Sentry-Relay-Id'' id_header of
        Inl e \<Rightarrow> Inl e
      | Inr s \<Rightarrow>
          (case parse_id s of
             None \<Rightarrow> Inl (SE_MalformedHeader ''X-Sentry-Relay-Id'')
           | Some rid \<Rightarrow>
               (case extract_header ''X-Sentry-Relay-Signature'' sig_header of
                  Inl e \<Rightarrow> Inl e
                | Inr relay_sig \<Rightarrow>
                    (case get_relay rid of
                       Inl e \<Rightarrow> Inl (SE_Cache e)
                     | Inr None \<Rightarrow> Inl SE_UnknownRelay
                     | Inr (Some relay) \<Rightarrow>
                         (case unpack ax from_json now (ri_public_key relay) body relay_sig None of
                            Inr inner \<Rightarrow> Inr (inner, relay)
                          | Inl _ \<Rightarrow> Inl SE_BadSignature)))))"

section \<open>Correctness\<close>

text \<open>
  What the libraries document: base64 and JSON are lossless, URL safe base64 has neither dots
  nor colons, a signature verifies with the public key of its signer, and times of some
  thousand years are computed exactly.
\<close>

definition auth_laws :: "'e auth_ext \<Rightarrow> bool" where
  "auth_laws ax \<longleftrightarrow>
     (\<forall>bs. ax_b64_decode ax (ax_b64_encode ax bs) = Some bs \<and>
           CHR ''.'' \<notin> set (ax_b64_encode ax bs) \<and> CHR '':'' \<notin> set (ax_b64_encode ax bs)) \<and>
     (\<forall>k m. ax_signature_from_bytes ax (ax_sign ax k m) = Some (ax_sign ax k m) \<and>
            ax_verify ax (ax_public_of ax k) m (ax_sign ax k m)) \<and>
     (\<forall>h. ax_header_from_json ax (ax_header_to_json ax h) = Some h) \<and>
     (\<forall>x. ax_state_from_json ax (ax_state_to_json ax x) = Inr x) \<and>
     (\<forall>x. ax_request_from_json ax (ax_request_to_json ax x) = Inr x) \<and>
     (\<forall>x. ax_response_from_json ax (ax_response_to_json ax x) = Inr x)"

definition time_ok :: "int \<Rightarrow> bool" where
  "time_ok t \<longleftrightarrow> \<bar>t\<bar> \<le> 2 ^ 70"

definition utc_exact :: "'e auth_ext \<Rightarrow> bool" where
  "utc_exact ax \<longleftrightarrow>
     (\<forall>s. time_ok (s * int nanos_per_sec) \<longrightarrow> ax_utc_timestamp ax s = Some (s * int nanos_per_sec)) \<and>
     (\<forall>t d. time_ok t \<and> time_ok d \<longrightarrow> ax_utc_add ax t d = Some (t + d) \<and> ax_utc_sub ax t d = Some (t - d))"

lemma verify_meta_sign:
  assumes "auth_laws ax"
  shows "verify_meta ax (ax_public_of ax k) data (sign_with_header ax k data h) = Some h"
  using assms by (simp add: auth_laws_def verify_meta_def sign_with_header_def Let_def splitn2_append)

lemma age_ok_exact:
  assumes "utc_exact ax" "time_ok now" "time_ok m"
  shows "age_ok ax now (Some m) (header_default t) = Some (now - m \<le> t)"
  using assms by (auto simp: age_ok_def header_expired_def header_default_def utc_exact_def)

lemma unpack_pack:
  assumes "auth_laws ax" "utc_exact ax" "time_ok now" "time_ok m" "from_json (to_json x) = Inr x"
  shows "unpack ax from_json now (ax_public_of ax k) (fst (pack ax to_json t k x)) (snd (pack ax to_json t k x)) (Some m) =
           (if now - m \<le> t then Inr x else Inl UP_SignatureExpired)"
  using assms
  by (simp add: unpack_def unpack_meta_def pack_def pack_with_header_def Let_def verify_meta_sign age_ok_exact)

definition challenge_state :: "'e auth_ext \<Rightarrow> system_time \<Rightarrow> bytes \<Rightarrow> register_request \<Rightarrow> register_state" where
  "challenge_state ax system_now random req =
     \<lparr>gs_timestamp = unix_from_system system_now, gs_relay_id = gr_relay_id req,
      gs_public_key = gr_public_key req, gs_rand = ax_b64_encode ax random\<rparr>"

definition state_token :: "'e auth_ext \<Rightarrow> register_state \<Rightarrow> bytes" where
  "state_token ax st = as_bytes (ax_b64_encode ax (ax_state_to_json ax st))"

lemma state_unpack_sign:
  assumes "auth_laws ax" "utc_exact ax" "time_ok m"
    and "time_ok (sint (gs_timestamp st) * int nanos_per_sec)"
  shows "state_unpack ax now (state_sign ax st secret) secret' (Some m) =
           (if ax_hmac ax secret' (state_token ax st) \<noteq> ax_hmac ax secret (state_token ax st) then Inl UP_BadSignature
            else if sint (gs_timestamp st) * int nanos_per_sec + m < now then Inl UP_SignatureExpired
            else Inr st)"
  using assms
  by (auto simp: state_unpack_def state_sign_def state_split_def Let_def splitn2_append auth_laws_def utc_exact_def
      state_token_def)

lemma response_unpack_pack:
  assumes "auth_laws ax" "utc_exact ax" "time_ok now" "time_ok m"
    and "time_ok (sint (gs_timestamp st) * int nanos_per_sec)"
    and "gp_token resp = state_sign ax st secret" and "gs_public_key st = ax_public_of ax k"
  shows "response_unpack ax now (fst (pack ax (ax_response_to_json ax) t k resp))
           (snd (pack ax (ax_response_to_json ax) t k resp)) secret' (Some m) =
           (if ax_hmac ax secret' (state_token ax st) \<noteq> ax_hmac ax secret (state_token ax st) then Inl UP_BadSignature
            else if sint (gs_timestamp st) * int nanos_per_sec + m < now \<or> t < now - m then Inl UP_SignatureExpired
            else Inr (resp, st))"
proof -
  have "ax_response_from_json ax (ax_response_to_json ax resp) = Inr resp"
    using assms(1) by (simp add: auth_laws_def)
  then show ?thesis
    using assms(3,4,6,7)
    by (simp add: response_unpack_def pack_def pack_with_header_def Let_def state_unpack_sign [OF assms(1,2,4,5)]
        verify_meta_sign [OF assms(1)] age_ok_exact [OF assms(2)])
qed

lemma unix_from_system_sint:
  assumes "time_ok t" and "0 \<le> t"
  shows "sint (unix_from_system t) = t div int nanos_per_sec"
proof -
  have "t div int nanos_per_sec < 2 ^ 63"
    using assms by (simp add: time_ok_def nanos_per_sec_def)
  moreover have "int (duration_as_secs (nat t)) = t div int nanos_per_sec"
    using assms(2) by (simp add: duration_as_secs_def nat_div_distrib zdiv_int)
  moreover have "0 \<le> int (duration_as_secs (nat t))" by simp
  ultimately have "signed_take_bit 63 (int (duration_as_secs (nat t))) = t div int nanos_per_sec"
    using signed_take_bit_int_eq_self [of 63 "int (duration_as_secs (nat t))"] by linarith
  moreover have "unix_from_system t = word_of_int (int (duration_as_secs (nat t)))"
    using assms(2) by (simp add: unix_from_system_def)
  ultimately show ?thesis by (simp only: signed_of_int) simp
qed

lemma time_ok_floor:
  assumes "time_ok t" and "0 \<le> t"
  shows "time_ok (t div int nanos_per_sec * int nanos_per_sec)"
  using assms by (simp add: time_ok_def nanos_per_sec_def)

text \<open>C33: the registration protocol is complete and expires on time. A request that a relay signs
  with its own key is accepted by the upstream unless its signature is older than the
  maximum age. The response to the challenge made from it is accepted, with the identity
  and the key of the request, exactly if the upstream validates with a secret that gives
  the same MAC, the challenge has not expired, and neither has the signature.\<close>

theorem register_handshake:
  fixes ax :: "'e auth_ext" and version :: relay_version and rid :: relay_id and k :: secret_key
    and system_now :: system_time and random secret :: bytes
  assumes "auth_laws ax" and "utc_exact ax" and "time_ok now" and "time_ok max_age" and "time_ok system_now"
    and "0 \<le> system_now"
  defines "req \<equiv> register_request_new version rid (ax_public_of ax k)"
  defines "ch \<equiv> into_challenge ax system_now random secret req"
  defines "resp \<equiv> into_response version ch"
  defines "st \<equiv> challenge_state ax system_now random req"
  shows "bootstrap_unpack ax now (fst (pack ax (ax_request_to_json ax) t k req))
           (snd (pack ax (ax_request_to_json ax) t k req)) (Some max_age) =
           (if now - max_age \<le> t then Inr req else Inl UP_SignatureExpired) \<and>
         response_unpack ax now (fst (pack ax (ax_response_to_json ax) t k resp))
           (snd (pack ax (ax_response_to_json ax) t k resp)) secret' (Some max_age) =
           (if ax_hmac ax secret' (state_token ax st) \<noteq> ax_hmac ax secret (state_token ax st) then Inl UP_BadSignature
            else if system_now div int nanos_per_sec * int nanos_per_sec + max_age < now \<or> t < now - max_age
            then Inl UP_SignatureExpired
            else Inr (resp, st)) \<and>
         gs_relay_id st = rid \<and> gs_public_key st = ax_public_of ax k \<and> gp_relay_id resp = rid"
proof (intro conjI)
  have "bootstrap_unpack ax now (fst (pack ax (ax_request_to_json ax) t k req)) sig (Some max_age) =
      unpack ax (ax_request_from_json ax) now (ax_public_of ax k) (fst (pack ax (ax_request_to_json ax) t k req)) sig
        (Some max_age)" for sig
    using assms(1)
    by (simp add: bootstrap_unpack_def auth_laws_def pack_def pack_with_header_def Let_def req_def
        register_request_new_def)
  then show "bootstrap_unpack ax now (fst (pack ax (ax_request_to_json ax) t k req))
      (snd (pack ax (ax_request_to_json ax) t k req)) (Some max_age) =
      (if now - max_age \<le> t then Inr req else Inl UP_SignatureExpired)"
    using unpack_pack [OF assms(1-4), of "ax_request_from_json ax" "ax_request_to_json ax" req] assms(1)
    by (simp add: auth_laws_def)
  have secs: "sint (gs_timestamp st) = system_now div int nanos_per_sec"
    unfolding st_def challenge_state_def register_state.simps by (rule unix_from_system_sint [OF assms(5,6)])
  have ok: "time_ok (sint (gs_timestamp st) * int nanos_per_sec)"
    unfolding secs using assms(5,6) by (rule time_ok_floor)
  have "gp_token resp = state_sign ax st secret" "gs_public_key st = ax_public_of ax k"
    by (simp_all add: resp_def into_response_def ch_def into_challenge_def st_def challenge_state_def Let_def req_def
        register_request_new_def)
  from response_unpack_pack [OF assms(1-4) ok this]
  show "response_unpack ax now (fst (pack ax (ax_response_to_json ax) t k resp))
      (snd (pack ax (ax_response_to_json ax) t k resp)) secret' (Some max_age) =
      (if ax_hmac ax secret' (state_token ax st) \<noteq> ax_hmac ax secret (state_token ax st) then Inl UP_BadSignature
       else if system_now div int nanos_per_sec * int nanos_per_sec + max_age < now \<or> t < now - max_age
       then Inl UP_SignatureExpired
       else Inr (resp, st))"
    unfolding secs by simp
qed (simp_all add: st_def challenge_state_def req_def register_request_new_def resp_def into_response_def ch_def
    into_challenge_def Let_def)

text \<open>
  The response is checked against the key of the challenge, but not against its relay id: a
  relay that answers with any other id is accepted too, and its response carries that id.
\<close>

lemma response_id_unchecked:
  assumes "auth_laws ax" and "utc_exact ax" and "time_ok now" and "time_ok max_age" and "time_ok system_now"
    and "0 \<le> system_now" and "now - max_age \<le> t" and "now \<le> system_now div int nanos_per_sec * int nanos_per_sec + max_age"
    and "gr_public_key req = ax_public_of ax k"
  shows "\<exists>resp st. response_unpack ax now
           (fst (pack ax (ax_response_to_json ax) t k
              ((into_response version (into_challenge ax system_now random secret req))\<lparr>gp_relay_id := other\<rparr>)))
           (snd (pack ax (ax_response_to_json ax) t k
              ((into_response version (into_challenge ax system_now random secret req))\<lparr>gp_relay_id := other\<rparr>)))
           secret (Some max_age) = Inr (resp, st) \<and>
         gp_relay_id resp = other \<and> gs_relay_id st = gr_relay_id req"
proof -
  let ?st = "challenge_state ax system_now random req"
  let ?resp = "(into_response version (into_challenge ax system_now random secret req))\<lparr>gp_relay_id := other\<rparr>"
  have secs: "sint (gs_timestamp ?st) = system_now div int nanos_per_sec"
    unfolding challenge_state_def register_state.simps by (rule unix_from_system_sint [OF assms(5,6)])
  have ok: "time_ok (sint (gs_timestamp ?st) * int nanos_per_sec)"
    unfolding secs using assms(5,6) by (rule time_ok_floor)
  have "gp_token ?resp = state_sign ax ?st secret" "gs_public_key ?st = ax_public_of ax k"
    using assms(9) by (simp_all add: into_response_def into_challenge_def challenge_state_def Let_def)
  from response_unpack_pack [OF assms(1-4) ok this, of t secret] show ?thesis
    using assms(7,8) unfolding secs by (simp add: challenge_state_def)
qed

text \<open>A signed request is accepted only for a known relay, and what it carries is the signed body.\<close>

lemma signed_json_authentic:
  assumes "signed_json_from_request ax parse_id from_json now id_header sig_header get_relay body = Inr (inner, relay)"
  shows "\<exists>s rid sig. id_header = Some (Some s) \<and> parse_id s = Some rid \<and> sig_header = Some (Some sig) \<and>
           get_relay rid = Inr (Some relay) \<and> verify ax (ri_public_key relay) body sig \<and> from_json body = Inr inner"
  using assms
  by (auto simp: signed_json_from_request_def extract_header_def unpack_def unpack_meta_def age_ok_def verify_def
      split: option.splits sum.splits bool.splits)

section \<open>Examples\<close>

text \<open>A lossless encoding of any countable type, and a signature scheme that appends the message to the key.\<close>

definition unary :: "'a::countable \<Rightarrow> bytes" where
  "unary x = replicate (to_nat x) 0"

definition from_unary :: "bytes \<Rightarrow> 'a::countable" where
  "from_unary bs = from_nat (length bs)"

lemma from_unary_unary [simp]: "from_unary (unary x) = x"
  by (simp add: from_unary_def unary_def)

definition example_auth :: "string auth_ext" where
  "example_auth =
     \<lparr>ax_b64_encode = (\<lambda>bs. replicate (to_nat bs) CHR ''A''), ax_b64_decode = (\<lambda>s. Some (from_nat (length s))),
      ax_sign = (\<lambda>k m. k @ m), ax_signature_from_bytes = Some, ax_verify = (\<lambda>pk m sig. sig = pk @ m),
      ax_hmac = (\<lambda>secret m. secret @ m), ax_keypair_from_bytes = Some, ax_keypair_from_secret = Some,
      ax_secret_bytes = id, ax_public_from_bytes = Some, ax_public_of = id,
      ax_header_to_json = (\<lambda>h. unary (sh_timestamp h)),
      ax_header_from_json = (\<lambda>bs. Some \<lparr>sh_timestamp = from_unary bs\<rparr>),
      ax_state_to_json = (\<lambda>st. unary (gs_timestamp st, gs_relay_id st, gs_public_key st, gs_rand st)),
      ax_state_from_json = (\<lambda>bs. case from_unary bs of (t, i, pk, r) \<Rightarrow>
        Inr \<lparr>gs_timestamp = t, gs_relay_id = i, gs_public_key = pk, gs_rand = r\<rparr>),
      ax_request_to_json = (\<lambda>x. unary (gr_relay_id x, gr_public_key x, version_tuple (gr_version x))),
      ax_request_from_json = (\<lambda>bs. case from_unary bs of (i, pk, a, b, c) \<Rightarrow>
        Inr \<lparr>gr_relay_id = i, gr_public_key = pk, gr_version = RelayVersion a b c\<rparr>),
      ax_response_to_json = (\<lambda>x. unary (gp_relay_id x, gp_token x, version_tuple (gp_version x))),
      ax_response_from_json = (\<lambda>bs. case from_unary bs of (i, t, a, b, c) \<Rightarrow>
        Inr \<lparr>gp_relay_id = i, gp_token = t, gp_version = RelayVersion a b c\<rparr>),
      ax_utc_timestamp = (\<lambda>s. Some (s * int nanos_per_sec)),
      ax_utc_add = (\<lambda>t d. Some (t + d)), ax_utc_sub = (\<lambda>t d. Some (t - d))\<rparr>"

lemma version_of_tuple: "RelayVersion (fst (version_tuple v)) (fst (snd (version_tuple v))) (snd (snd (version_tuple v))) = v"
  by (cases v) simp

lemma example_auth_laws: "auth_laws example_auth" "utc_exact example_auth"
  by (simp_all add: auth_laws_def utc_exact_def example_auth_def split_beta version_of_tuple)

theorem register_handshake_witness:
  "let req = register_request_new version_default 7 [1];
       ch = into_challenge example_auth 0 [] [2] req;
       resp = into_response version_default ch;
       p = pack example_auth (ax_response_to_json example_auth) 5 [1] resp
   in \<exists>st. response_unpack example_auth 5 (fst p) (snd p) [2] (Some 10) = Inr (resp, st) \<and> gs_relay_id st = 7"
proof -
  have t: "time_ok 5" "time_ok 10" "time_ok 0" by (simp_all add: time_ok_def)
  have pub: "ax_public_of example_auth [1] = [1]" by (simp add: example_auth_def)
  from register_handshake [OF example_auth_laws t order.refl, where version = version_default and rid = 7 and k = "[1]" and t = 5 and
      random = "[]" and secret = "[2]" and secret' = "[2]"]
  show ?thesis by (auto simp: Let_def pub)
qed

end
