(* ===== verification/Annotated_Values.thy ===== *)
theory Annotated_Values
  imports Relay_Common Float64 Ordered_Map "HOL-Library.AList"
begin

text \<open>
  Values with metadata (\<open>relay-general/src/types/\<close>): dynamic values (\<open>value.rs\<close>), remarks, errors and
  metadata of a field (\<open>meta.rs\<close>), annotated values and trees of metadata (\<open>annotated.rs\<close>), and the
  estimation of the size of a value (\<open>relay-general/src/processor/size.rs\<close>). Objects are
  association lists in key order. Equality of floating point numbers inside error data is
  taken as identity, since JSON has no NaN.
\<close>

section \<open>Remarks and errors\<close>

datatype remark_type = RMT_Annotated | RMT_Removed | RMT_Substituted | RMT_Masked | RMT_Pseudonymized | RMT_Encrypted

definition remark_type_name :: "remark_type \<Rightarrow> string" where
  "remark_type_name ty =
     (case ty of RMT_Annotated \<Rightarrow> ''a'' | RMT_Removed \<Rightarrow> ''x'' | RMT_Substituted \<Rightarrow> ''s'' | RMT_Masked \<Rightarrow> ''m''
      | RMT_Pseudonymized \<Rightarrow> ''p'' | RMT_Encrypted \<Rightarrow> ''e'')"

definition remark_type_from_name :: "string \<Rightarrow> remark_type option" where
  "remark_type_from_name s =
     (if s = ''a'' then Some RMT_Annotated else if s = ''x'' then Some RMT_Removed
      else if s = ''s'' then Some RMT_Substituted else if s = ''m'' then Some RMT_Masked
      else if s = ''p'' then Some RMT_Pseudonymized else if s = ''e'' then Some RMT_Encrypted else None)"

datatype remark =
  Remark (rem_ty: remark_type) (rem_rule_id: string) (rem_range: "(nat \<times> nat) option")

definition remark_new :: "remark_type \<Rightarrow> string \<Rightarrow> remark" where
  "remark_new ty rule_id = Remark ty rule_id None"

definition remark_with_range :: "remark_type \<Rightarrow> string \<Rightarrow> nat \<times> nat \<Rightarrow> remark" where
  "remark_with_range ty rule_id rng = Remark ty rule_id (Some rng)"

text \<open>\<open>None\<close> inside is the overflow of \<open>end - start\<close>, a panic in debug builds.\<close>

definition remark_len :: "remark \<Rightarrow> nat option option" where
  "remark_len r =
     (case rem_range r of
        None \<Rightarrow> Some None
      | Some (start, stop) \<Rightarrow> if start \<le> stop then Some (Some (stop - start)) else None)"

text \<open>
  A remark is serialized as a sequence; its elements, where the numbers are in range by the
  type.
\<close>

datatype json_atom = JA_Str string | JA_Num nat

definition remark_serialize :: "remark \<Rightarrow> json_atom list" where
  "remark_serialize r =
     [JA_Str (rem_rule_id r), JA_Str (remark_type_name (rem_ty r))] @
     (case rem_range r of Some (start, stop) \<Rightarrow> [JA_Num start, JA_Num stop] | None \<Rightarrow> [])"

definition remark_deserialize :: "json_atom list \<Rightarrow> remark option" where
  "remark_deserialize seq =
     (case seq of
        JA_Str rule_id # JA_Str ty # rest \<Rightarrow>
          Option.bind (remark_type_from_name ty) (\<lambda>t.
            (case rest of
               JA_Num start # JA_Num stop # _ \<Rightarrow> Some (Remark t rule_id (Some (start, stop)))
             | [] \<Rightarrow> Some (Remark t rule_id None)
             | [JA_Num _] \<Rightarrow> Some (Remark t rule_id None)
             | _ \<Rightarrow> None))
      | _ \<Rightarrow> None)"

lemma remark_roundtrip: "remark_deserialize (remark_serialize r) = Some r"
proof -
  have "remark_type_from_name (remark_type_name ty) = Some ty" for ty
    by (cases ty) (simp_all add: remark_type_from_name_def remark_type_name_def)
  then show ?thesis
    by (cases r) (auto simp: remark_deserialize_def remark_serialize_def split: option.splits)
qed

datatype error_kind =
    EK_InvalidData | EK_MissingAttribute | EK_InvalidAttribute | EK_ValueTooLong | EK_ClockDrift
  | EK_PastTimestamp | EK_FutureTimestamp | EK_Unknown string

definition error_kind_parse :: "string \<Rightarrow> error_kind" where
  "error_kind_parse s =
     (if s = ''invalid_data'' then EK_InvalidData else if s = ''missing_attribute'' then EK_MissingAttribute
      else if s = ''invalid_attribute'' then EK_InvalidAttribute else if s = ''value_too_long'' then EK_ValueTooLong
      else if s = ''past_timestamp'' then EK_PastTimestamp else if s = ''future_timestamp'' then EK_FutureTimestamp
      else EK_Unknown s)"

fun error_kind_as_str :: "error_kind \<Rightarrow> string" where
  "error_kind_as_str EK_InvalidData = ''invalid_data''"
| "error_kind_as_str EK_MissingAttribute = ''missing_attribute''"
| "error_kind_as_str EK_InvalidAttribute = ''invalid_attribute''"
| "error_kind_as_str EK_ValueTooLong = ''value_too_long''"
| "error_kind_as_str EK_PastTimestamp = ''past_timestamp''"
| "error_kind_as_str EK_FutureTimestamp = ''future_timestamp''"
| "error_kind_as_str EK_ClockDrift = ''clock_drift''"
| "error_kind_as_str (EK_Unknown s) = s"

text \<open>Printing an error kind and parsing it again loses the kind of clock drift errors.\<close>

lemma clock_drift_not_parsed: "error_kind_parse (error_kind_as_str EK_ClockDrift) = EK_Unknown ''clock_drift''"
  by (simp add: error_kind_parse_def)

lemma error_kind_as_str_parse: "error_kind_as_str (error_kind_parse s) = s"
  by (simp add: error_kind_parse_def)

section \<open>Values and metadata\<close>

datatype 'v error = Error (err_kind: error_kind) (err_data: "(string \<times> 'v) list")

datatype 'v meta_inner =
  MetaInner (mi_remarks: "remark list") (mi_errors: "'v error list") (mi_original_length: "u32 option")
    (mi_original_value: "'v option")

datatype ('v, 'a) annotated = Annotated (an_value: "'a option") (an_meta: "'v meta_inner option")

datatype val =
    V_Bool bool | V_I64 "64 word" | V_U64 u64 | V_F64 f64 | V_String string
  | V_Array "(val, val) annotated list"
  | V_Object "(string \<times> (val, val) annotated) list"

type_synonym meta = "val meta_inner option"
type_synonym 'a ann = "(val, 'a) annotated"

definition error_new :: "error_kind \<Rightarrow> val error" where
  "error_new kind = Error kind []"

definition error_insert :: "string \<Rightarrow> val \<Rightarrow> val error \<Rightarrow> val error" where
  "error_insert key v e = Error (err_kind e) (bt_insert str_le key v (err_data e))"

definition error_get :: "string \<Rightarrow> val error \<Rightarrow> val option" where
  "error_get key e = bt_get (err_data e) key"

definition error_invalid :: "string \<Rightarrow> val error" where
  "error_invalid reason = error_insert ''reason'' (V_String reason) (error_new EK_InvalidData)"

definition error_expected :: "string \<Rightarrow> val error" where
  "error_expected expectation =
     error_insert ''reason'' (V_String (''expected '' @ expectation)) (error_new EK_InvalidData)"

definition error_nonempty :: "val error" where
  "error_nonempty = error_invalid ''expected a non-empty value''"

definition meta_inner_default :: "val meta_inner" where
  "meta_inner_default = MetaInner [] [] None None"

definition meta_inner_is_empty :: "val meta_inner \<Rightarrow> bool" where
  "meta_inner_is_empty m \<longleftrightarrow>
     mi_original_length m = None \<and> mi_remarks m = [] \<and> mi_errors m = [] \<and> mi_original_value m = None"

definition meta_default :: meta where
  "meta_default = None"

definition upsert :: "meta \<Rightarrow> val meta_inner" where
  "upsert m = (case m of Some inner \<Rightarrow> inner | None \<Rightarrow> meta_inner_default)"

definition original_length :: "meta \<Rightarrow> nat option" where
  "original_length m = Option.bind m (\<lambda>x. map_option unat (mi_original_length x))"

definition set_original_length :: "nat option \<Rightarrow> meta \<Rightarrow> meta" where
  "set_original_length n m =
     (case upsert m of
        MetaInner rs es len v \<Rightarrow> Some (MetaInner rs es (if len = None then map_option of_nat n else len) v))"

definition meta_remarks :: "meta \<Rightarrow> remark list" where
  "meta_remarks m = (case m of Some inner \<Rightarrow> mi_remarks inner | None \<Rightarrow> [])"

definition has_remarks :: "meta \<Rightarrow> bool" where
  "has_remarks m = (case m of Some inner \<Rightarrow> mi_remarks inner = [] | None \<Rightarrow> False)"

definition clear_remarks :: "meta \<Rightarrow> meta" where
  "clear_remarks m = map_option (\<lambda>inner. case inner of MetaInner rs es len v \<Rightarrow> MetaInner [] es len v) m"

definition add_remark :: "remark \<Rightarrow> meta \<Rightarrow> meta" where
  "add_remark r m = (case upsert m of MetaInner rs es len v \<Rightarrow> Some (MetaInner (rs @ [r]) es len v))"

definition meta_errors :: "meta \<Rightarrow> val error list" where
  "meta_errors m = (case m of Some inner \<Rightarrow> mi_errors inner | None \<Rightarrow> [])"

definition add_error :: "val error \<Rightarrow> meta \<Rightarrow> meta" where
  "add_error e m =
     (case upsert m of
        MetaInner rs es len v \<Rightarrow> Some (MetaInner rs (if e \<in> set es then es else es @ [e]) len v))"

definition original_value :: "meta \<Rightarrow> val option" where
  "original_value m = Option.bind m mi_original_value"

definition take_original_value :: "meta \<Rightarrow> val option \<times> meta" where
  "take_original_value m =
     (original_value m, map_option (\<lambda>inner. case inner of MetaInner rs es len v \<Rightarrow> MetaInner rs es len None) m)"

definition has_errors :: "meta \<Rightarrow> bool" where
  "has_errors m = (case m of Some inner \<Rightarrow> mi_errors inner \<noteq> [] | None \<Rightarrow> False)"

definition meta_is_empty :: "meta \<Rightarrow> bool" where
  "meta_is_empty m = (case m of Some inner \<Rightarrow> meta_inner_is_empty inner | None \<Rightarrow> True)"

definition meta_merge :: "meta \<Rightarrow> meta \<Rightarrow> meta" where
  "meta_merge m other =
     (case other of
        None \<Rightarrow> m
      | Some (MetaInner rs2 es2 len2 v2) \<Rightarrow>
          (case upsert m of
             MetaInner rs es len v \<Rightarrow>
               Some (MetaInner (rs @ rs2) (es @ es2) (if len = None then len2 else len) (if v = None then v2 else v))))"

definition meta_from_error :: "val error \<Rightarrow> meta" where
  "meta_from_error e = add_error e meta_default"

definition meta_eq :: "meta \<Rightarrow> meta \<Rightarrow> bool" where
  "meta_eq a b \<longleftrightarrow>
     meta_is_empty a \<and> meta_is_empty b \<or> (case (a, b) of (Some x, Some y) \<Rightarrow> x = y | _ \<Rightarrow> False)"

text \<open>Deserializing metadata normalizes an empty record to nothing.\<close>

definition meta_normalize :: "val meta_inner option \<Rightarrow> meta" where
  "meta_normalize m = (case m of Some inner \<Rightarrow> if meta_inner_is_empty inner then None else Some inner | None \<Rightarrow> None)"

lemma has_remarks_inverted: "has_remarks m \<longleftrightarrow> m \<noteq> None \<and> meta_remarks m = []"
  by (auto simp: has_remarks_def meta_remarks_def split: option.splits)

lemma upsert_cases: "\<exists>rs es len v. upsert m = MetaInner rs es len v"
  by (cases "upsert m") simp

lemma add_remark_remarks [simp]: "meta_remarks (add_remark r m) = meta_remarks m @ [r]"
  by (auto simp: add_remark_def meta_remarks_def upsert_def meta_inner_default_def split: option.splits meta_inner.splits)

lemma clear_remarks_remarks [simp]: "meta_remarks (clear_remarks m) = []"
  by (auto simp: clear_remarks_def meta_remarks_def split: option.splits meta_inner.splits)

lemma set_original_length_remarks [simp]: "meta_remarks (set_original_length n m) = meta_remarks m"
  by (auto simp: set_original_length_def meta_remarks_def upsert_def meta_inner_default_def
      split: option.splits meta_inner.splits)

lemma set_original_length_keeps:
  "original_length m = Some n \<Longrightarrow> original_length (set_original_length k m) = Some n"
  by (cases m) (auto simp: set_original_length_def original_length_def upsert_def split: meta_inner.splits)

lemma meta_eq_normalize: "meta_eq (meta_normalize m) m"
  by (auto simp: meta_eq_def meta_normalize_def meta_is_empty_def split: option.splits)

text \<open>Merging is associative with the default as unit, up to the equality of metadata.\<close>

lemma meta_merge_assoc: "meta_merge (meta_merge a b) c = meta_merge a (meta_merge b c)"
  by (auto simp: meta_merge_def upsert_def meta_inner_default_def split: option.splits meta_inner.splits)

lemma meta_merge_default: "meta_merge a meta_default = a" "meta_merge meta_default a = a"
  by (auto simp: meta_merge_def meta_default_def upsert_def meta_inner_default_def split: option.splits meta_inner.splits)

section \<open>Dynamic values\<close>

definition val_as_str :: "val \<Rightarrow> string option" where
  "val_as_str v = (case v of V_String s \<Rightarrow> Some s | _ \<Rightarrow> None)"

text \<open>\<open>i64\<close> is printed in decimal; the Display format of \<open>f64\<close> is the argument \<open>show_f64\<close>.\<close>

definition show_int :: "int \<Rightarrow> string" where
  "show_int i = (if i < 0 then CHR ''-'' # show_nat (nat (- i)) else show_nat (nat i))"

definition val_describe :: "(f64 \<Rightarrow> string) \<Rightarrow> val \<Rightarrow> string" where
  "val_describe show_f64 v =
     (case v of
        V_Bool True \<Rightarrow> ''true''
      | V_Bool False \<Rightarrow> ''false''
      | V_I64 n \<Rightarrow> ''integer '' @ show_int (sint n)
      | V_U64 n \<Rightarrow> ''integer '' @ show_nat (unat n)
      | V_F64 x \<Rightarrow> ''float '' @ show_f64 x
      | V_String s \<Rightarrow> s
      | V_Array _ \<Rightarrow> ''an array''
      | V_Object _ \<Rightarrow> ''an object'')"

text \<open>
  Deserialization of a number: the deserializer reports integers that fit \<open>u64\<close> as such and
  negative ones as \<open>i64\<close>. The cast to \<open>i64\<close> and back is the identity on 64 bits.
\<close>

definition visit_i64 :: "64 word \<Rightarrow> val" where
  "visit_i64 n = V_I64 n"

definition visit_u64 :: "u64 \<Rightarrow> val" where
  "visit_u64 n =
     (let signed_value = (word_of_int (sint n) :: 64 word)
      in if (word_of_int (sint signed_value) :: u64) = n then V_I64 signed_value else V_U64 n)"

text \<open>So no \<open>U64\<close> value is ever made, and numbers from \<open>2 ^ 63\<close> on become negative.\<close>

lemma visit_u64_signed: "visit_u64 n = V_I64 n"
  by (simp add: visit_u64_def Let_def)

lemma visit_u64_negative:
  assumes "2 ^ 63 \<le> unat n"
  shows "\<exists>m. visit_u64 n = V_I64 m \<and> sint m = int (unat n) - 2 ^ 64"
proof -
  define x where "x = int (unat n)"
  have x: "2 ^ 63 \<le> x" "x < 2 ^ 64"
    using assms unsigned_less [of n, where ?'a = nat] by (simp_all add: x_def del: of_nat_unat)
  have "(word_of_int x :: 64 word) = n" by (simp add: x_def)
  then have "sint n = (x + 2 ^ 63) mod 2 ^ 64 - 2 ^ 63"
    using int_word_sint [of x, where ?'a = 64] by simp
  moreover have "(x + 2 ^ 63) mod 2 ^ 64 = x + 2 ^ 63 - 2 ^ 64"
    using x mod_pos_pos_trivial [of "x + 2 ^ 63 - 2 ^ 64" "2 ^ 64"]
      mod_add_self2 [of "x + 2 ^ 63 - 2 ^ 64" "2 ^ 64"] by (simp add: add.commute)
  ultimately have "sint n = int (unat n) - 2 ^ 64" by (simp add: x_def)
  then show ?thesis by (simp add: visit_u64_signed)
qed

section \<open>Size estimation\<close>

text \<open>
  \<open>SizeEstimatingSerializer\<close>, driven by the serialization of a value. The stack has a flag for
  every open container: whether it already has an item.
\<close>

record size_serializer =
  sz_size :: nat
  sz_item_stack :: "bool list"
  sz_flat :: bool

definition size_serializer_new :: size_serializer where
  "size_serializer_new = \<lparr>sz_size = 0, sz_item_stack = [], sz_flat = False\<rparr>"

definition count_size :: "nat \<Rightarrow> size_serializer \<Rightarrow> size_serializer" where
  "count_size incr ser =
     (if sz_flat ser \<and> sz_item_stack ser \<noteq> [] then ser else ser\<lparr>sz_size := sz_size ser + incr\<rparr>)"

definition size_push :: "size_serializer \<Rightarrow> size_serializer" where
  "size_push ser = ser\<lparr>sz_item_stack := False # sz_item_stack ser\<rparr>"

definition size_pop :: "size_serializer \<Rightarrow> size_serializer" where
  "size_pop ser = ser\<lparr>sz_item_stack := tl (sz_item_stack ser)\<rparr>"

definition count_comma_sep :: "size_serializer \<Rightarrow> size_serializer" where
  "count_comma_sep ser =
     (case sz_item_stack ser of
        [] \<Rightarrow> ser
      | state # rest \<Rightarrow> if \<not> state then ser\<lparr>sz_item_stack := True # rest\<rparr> else count_size 1 ser)"

definition serialize_bool :: "bool \<Rightarrow> size_serializer \<Rightarrow> size_serializer" where
  "serialize_bool v = count_size (if v then 4 else 5)"

definition serialize_i64 :: "64 word \<Rightarrow> size_serializer \<Rightarrow> size_serializer" where
  "serialize_i64 v ser = ser\<lparr>sz_size := sz_size ser + length (show_int (sint v))\<rparr>"

definition serialize_u64 :: "u64 \<Rightarrow> size_serializer \<Rightarrow> size_serializer" where
  "serialize_u64 v = count_size (length (show_nat (unat v)))"

definition serialize_f64 :: "(f64 \<Rightarrow> string) \<Rightarrow> f64 \<Rightarrow> size_serializer \<Rightarrow> size_serializer" where
  "serialize_f64 show_f64 v = count_size (length (show_f64 v))"

definition serialize_str :: "string \<Rightarrow> size_serializer \<Rightarrow> size_serializer" where
  "serialize_str v = count_size (length v + 2)"

definition serialize_unit :: "size_serializer \<Rightarrow> size_serializer" where
  "serialize_unit = count_size 4"

definition open_container :: "size_serializer \<Rightarrow> size_serializer" where
  "open_container ser = size_push (count_size 1 ser)"

definition close_container :: "size_serializer \<Rightarrow> size_serializer" where
  "close_container ser = count_size 1 (size_pop ser)"

abbreviation ann_size :: "val ann \<Rightarrow> nat" where
  "ann_size \<equiv> size_annotated size size"

abbreviation entry_size :: "string \<times> val ann \<Rightarrow> nat" where
  "entry_size \<equiv> size_prod (\<lambda>_. 0) ann_size"

function (sequential) serialize_value :: "(f64 \<Rightarrow> string) \<Rightarrow> val \<Rightarrow> size_serializer \<Rightarrow> size_serializer"
  and serialize_items :: "(f64 \<Rightarrow> string) \<Rightarrow> val ann list \<Rightarrow> size_serializer \<Rightarrow> size_serializer"
  and serialize_entries :: "(f64 \<Rightarrow> string) \<Rightarrow> (string \<times> val ann) list \<Rightarrow> size_serializer \<Rightarrow> size_serializer"
  and serialize_item :: "(f64 \<Rightarrow> string) \<Rightarrow> val ann \<Rightarrow> size_serializer \<Rightarrow> size_serializer" where
  "serialize_value sf (V_Bool v) ser = serialize_bool v ser"
| "serialize_value sf (V_I64 v) ser = serialize_i64 v ser"
| "serialize_value sf (V_U64 v) ser = serialize_u64 v ser"
| "serialize_value sf (V_F64 v) ser = serialize_f64 sf v ser"
| "serialize_value sf (V_String v) ser = serialize_str v ser"
| "serialize_value sf (V_Array items) ser = close_container (serialize_items sf items (open_container ser))"
| "serialize_value sf (V_Object items) ser = close_container (serialize_entries sf items (open_container ser))"
| "serialize_items sf [] ser = ser"
| "serialize_items sf (x # xs) ser = serialize_items sf xs (serialize_item sf x (count_comma_sep ser))"
| "serialize_entries sf [] ser = ser"
| "serialize_entries sf ((k, x) # xs) ser =
     serialize_entries sf xs (serialize_item sf x (count_size 1 (serialize_str k (count_comma_sep ser))))"
| "serialize_item sf (Annotated (Some v) m) ser = serialize_value sf v ser"
| "serialize_item sf (Annotated None m) ser = serialize_unit ser"
  by pat_completeness auto
termination
  by (relation "measure (case_sum (case_sum (\<lambda>(_, v, _). size v) (\<lambda>(_, xs, _). size_list ann_size xs))
      (case_sum (\<lambda>(_, xs, _). size_list entry_size xs) (\<lambda>(_, x, _). ann_size x)))") auto

definition estimate_size :: "(f64 \<Rightarrow> string) \<Rightarrow> val option \<Rightarrow> nat" where
  "estimate_size sf v =
     sz_size (case v of Some x \<Rightarrow> serialize_value sf x size_serializer_new | None \<Rightarrow> size_serializer_new)"

definition estimate_size_flat :: "(f64 \<Rightarrow> string) \<Rightarrow> val option \<Rightarrow> nat" where
  "estimate_size_flat sf v =
     (let ser = size_serializer_new\<lparr>sz_flat := True\<rparr>
      in sz_size (case v of Some x \<Rightarrow> serialize_value sf x ser | None \<Rightarrow> ser))"

text \<open>
  The JSON text of a value. The JSON library's format of strings and floating point numbers is an
  argument.
\<close>

record json_ext =
  jx_string :: "string \<Rightarrow> string"
  jx_f64 :: "f64 \<Rightarrow> string"

definition separated :: "string list \<Rightarrow> string" where
  "separated = join_with '',''"

function (sequential) to_json :: "json_ext \<Rightarrow> val \<Rightarrow> string"
  and json_items :: "json_ext \<Rightarrow> val ann list \<Rightarrow> string list"
  and json_entries :: "json_ext \<Rightarrow> (string \<times> val ann) list \<Rightarrow> string list"
  and json_item :: "json_ext \<Rightarrow> val ann \<Rightarrow> string" where
  "to_json jx (V_Bool v) = (if v then ''true'' else ''false'')"
| "to_json jx (V_I64 v) = show_int (sint v)"
| "to_json jx (V_U64 v) = show_nat (unat v)"
| "to_json jx (V_F64 v) = jx_f64 jx v"
| "to_json jx (V_String v) = jx_string jx v"
| "to_json jx (V_Array items) = ''['' @ separated (json_items jx items) @ '']''"
| "to_json jx (V_Object items) = ''{'' @ separated (json_entries jx items) @ ''}''"
| "json_items jx [] = []"
| "json_items jx (x # xs) = json_item jx x # json_items jx xs"
| "json_entries jx [] = []"
| "json_entries jx ((k, x) # xs) = (jx_string jx k @ '':'' @ json_item jx x) # json_entries jx xs"
| "json_item jx (Annotated (Some v) m) = to_json jx v"
| "json_item jx (Annotated None m) = ''null''"
  by pat_completeness auto
termination
  by (relation "measure (case_sum (case_sum (\<lambda>(_, v). size v) (\<lambda>(_, xs). size_list ann_size xs))
      (case_sum (\<lambda>(_, xs). size_list entry_size xs) (\<lambda>(_, x). ann_size x)))") auto

text \<open>All strings and keys of a value satisfy \<open>P\<close>, and all its floating point numbers \<open>Q\<close>.\<close>

function (sequential) val_all :: "(string \<Rightarrow> bool) \<Rightarrow> (f64 \<Rightarrow> bool) \<Rightarrow> val \<Rightarrow> bool"
  and items_all :: "(string \<Rightarrow> bool) \<Rightarrow> (f64 \<Rightarrow> bool) \<Rightarrow> val ann list \<Rightarrow> bool"
  and entries_all :: "(string \<Rightarrow> bool) \<Rightarrow> (f64 \<Rightarrow> bool) \<Rightarrow> (string \<times> val ann) list \<Rightarrow> bool"
  and item_all :: "(string \<Rightarrow> bool) \<Rightarrow> (f64 \<Rightarrow> bool) \<Rightarrow> val ann \<Rightarrow> bool" where
  "val_all P Q (V_F64 x) = Q x"
| "val_all P Q (V_String s) = P s"
| "val_all P Q (V_Array items) = items_all P Q items"
| "val_all P Q (V_Object items) = entries_all P Q items"
| "val_all P Q _ = True"
| "items_all P Q [] = True"
| "items_all P Q (x # xs) = (item_all P Q x \<and> items_all P Q xs)"
| "entries_all P Q [] = True"
| "entries_all P Q ((k, x) # xs) = (P k \<and> item_all P Q x \<and> entries_all P Q xs)"
| "item_all P Q (Annotated (Some v) m) = val_all P Q v"
| "item_all P Q (Annotated None m) = True"
  by pat_completeness auto
termination
  by (relation "measure (case_sum (case_sum (\<lambda>(_, _, v). size v) (\<lambda>(_, _, xs). size_list ann_size xs))
      (case_sum (\<lambda>(_, _, xs). size_list entry_size xs) (\<lambda>(_, _, x). ann_size x)))") auto

lemma length_join_with:
  "length (join_with sep ps) = sum_list (map length ps) + (length ps - 1) * length sep"
  by (induction sep ps rule: join_with.induct) auto

text \<open>Strings without escapes and numbers that the JSON library prints with the estimated length.\<close>

definition plain_for :: "json_ext \<Rightarrow> (f64 \<Rightarrow> string) \<Rightarrow> val \<Rightarrow> bool" where
  "plain_for jx sf = val_all (\<lambda>s. length (jx_string jx s) = length s + 2) (\<lambda>x. length (jx_f64 jx x) = length (sf x))"

abbreviation counting :: "nat \<Rightarrow> bool list \<Rightarrow> size_serializer" where
  "counting n st \<equiv> \<lparr>sz_size = n, sz_item_stack = st, sz_flat = False\<rparr>"

lemmas size_step_defs = serialize_bool_def serialize_i64_def serialize_u64_def serialize_f64_def serialize_str_def
  serialize_unit_def count_size_def open_container_def close_container_def size_push_def size_pop_def
  count_comma_sep_def

lemma json_lists_length [simp]:
  "length (json_items jx xs) = length xs" "length (json_entries jx es) = length es"
  by (induction xs, simp_all) (induction es, auto)

lemma serialize_exact:
  fixes jx :: json_ext and sf :: "f64 \<Rightarrow> string"
  defines "p P \<equiv> \<forall>s. P s \<longrightarrow> length (jx_string jx s) = length s + 2"
    and "q Q \<equiv> \<forall>x. Q x \<longrightarrow> length (jx_f64 jx x) = length (sf x)"
  shows "val_all P Q v \<Longrightarrow> p P \<Longrightarrow> q Q \<Longrightarrow> serialize_value sf v (counting n st) = counting (n + length (to_json jx v)) st"
    and "items_all P Q xs \<Longrightarrow> p P \<Longrightarrow> q Q \<Longrightarrow>
           serialize_items sf xs (counting n (b # st)) =
             counting (n + sum_list (map length (json_items jx xs)) + (length xs - (if b then 0 else 1)))
               ((b \<or> xs \<noteq> []) # st)"
    and "entries_all P Q es \<Longrightarrow> p P \<Longrightarrow> q Q \<Longrightarrow>
           serialize_entries sf es (counting n (b # st)) =
             counting (n + sum_list (map length (json_entries jx es)) + (length es - (if b then 0 else 1)))
               ((b \<or> es \<noteq> []) # st)"
    and "item_all P Q x \<Longrightarrow> p P \<Longrightarrow> q Q \<Longrightarrow> serialize_item sf x (counting n st) = counting (n + length (json_item jx x)) st"
proof (induction P Q v and P Q xs and P Q es and P Q x arbitrary: n st and n b st and n b st and n st
    rule: val_all_items_all_entries_all_item_all.induct)
qed (simp_all add: assms size_step_defs separated_def length_join_with)

text \<open>C37: the estimated size of a value is the length of its JSON text, if no string needs an escape and
  floating point numbers are printed with the same length.\<close>

theorem estimate_size_exact:
  assumes "plain_for jx sf v"
  shows "estimate_size sf (Some v) = length (to_json jx v)"
  using serialize_exact(1) [of _ _ v jx sf 0 "[]"] assms
  by (simp add: estimate_size_def plain_for_def size_serializer_new_def)

text \<open>
  The flat estimate is meant to ignore what containers hold, but integers are counted at any
  depth.
\<close>

lemma flat_counts_integers:
  "estimate_size_flat sf (Some (V_Array [Annotated (Some (V_I64 42)) None])) = 4"
  "estimate_size_flat sf (Some (V_Array [Annotated (Some (V_U64 42)) None])) = 2"
  by (simp_all add: estimate_size_flat_def size_serializer_new_def size_step_defs show_int_def
      show_nat.simps [of 42] show_nat.simps [of 4])

definition example_json :: json_ext where
  "example_json = \<lparr>jx_string = (\<lambda>s. CHR 0x22 # s @ [CHR 0x22]), jx_f64 = (\<lambda>_. ''1.5'')\<rparr>"

theorem estimate_size_exact_witness:
  "estimate_size (\<lambda>_. ''1.5'') (Some (V_Object [(''a'', Annotated (Some (V_Array [Annotated (Some (V_Bool True)) None,
       Annotated None None, Annotated (Some (V_String ''xyz'')) None])) None)])) = 23"
  using estimate_size_exact [of example_json "\<lambda>_. ''1.5''"
      "V_Object [(''a'', Annotated (Some (V_Array [Annotated (Some (V_Bool True)) None,
         Annotated None None, Annotated (Some (V_String ''xyz'')) None])) None)]"]
  by (simp add: plain_for_def example_json_def separated_def)

section \<open>Annotated values\<close>

datatype processing_action = DeleteValueHard | DeleteValueSoft | InvalidTransaction string

type_synonym processing_result = "processing_action + unit"

text \<open>
  The original value is kept only if its estimated size is below 500 bytes; \<open>into_value\<close> converts the
  typed value to a dynamic one.
\<close>

definition set_original_value :: "(f64 \<Rightarrow> string) \<Rightarrow> val option \<Rightarrow> meta \<Rightarrow> meta" where
  "set_original_value sf v m =
     (if estimate_size sf v < 500
      then (case upsert m of MetaInner rs es len _ \<Rightarrow> Some (MetaInner rs es len v))
      else m)"

definition annotated_new :: "'a \<Rightarrow> 'a ann" where
  "annotated_new v = Annotated (Some v) meta_default"

definition annotated_empty :: "'a ann" where
  "annotated_empty = Annotated None meta_default"

definition annotated_from_error :: "(f64 \<Rightarrow> string) \<Rightarrow> val error \<Rightarrow> val option \<Rightarrow> 'a ann" where
  "annotated_from_error sf e v = Annotated None (set_original_value sf v (meta_from_error e))"

definition annotated_and_then :: "('a \<Rightarrow> 'b ann) \<Rightarrow> 'a ann \<Rightarrow> 'b ann" where
  "annotated_and_then f a =
     (case an_value a of
        Some v \<Rightarrow> (case f v of Annotated v' m' \<Rightarrow> Annotated v' (meta_merge (an_meta a) m'))
      | None \<Rightarrow> Annotated None (an_meta a))"

definition annotated_map_value :: "('a \<Rightarrow> 'b) \<Rightarrow> 'a ann \<Rightarrow> 'b ann" where
  "annotated_map_value f a = Annotated (map_option f (an_value a)) (an_meta a)"

text \<open>\<open>apply\<close>: the callback changes value and metadata and returns an action.\<close>

definition apply_action ::
  "(f64 \<Rightarrow> string) \<Rightarrow> ('a \<Rightarrow> val) \<Rightarrow> processing_result \<Rightarrow> 'a ann \<Rightarrow> processing_result \<times> 'a ann" where
  "apply_action sf into_value result a =
     (case result of
        Inr () \<Rightarrow> (Inr (), a)
      | Inl DeleteValueHard \<Rightarrow> (Inr (), Annotated None (an_meta a))
      | Inl DeleteValueSoft \<Rightarrow>
          (Inr (), Annotated None (set_original_value sf (map_option into_value (an_value a)) (an_meta a)))
      | Inl (InvalidTransaction e) \<Rightarrow> (Inl (InvalidTransaction e), a))"

definition annotated_apply ::
  "(f64 \<Rightarrow> string) \<Rightarrow> ('a \<Rightarrow> val) \<Rightarrow> ('a \<Rightarrow> meta \<Rightarrow> processing_result \<times> 'a \<times> meta) \<Rightarrow> 'a ann \<Rightarrow>
   processing_result \<times> 'a ann" where
  "annotated_apply sf into_value f a =
     (case an_value a of
        None \<Rightarrow> (Inr (), a)
      | Some v \<Rightarrow>
          (case f v (an_meta a) of
             (result, v', m') \<Rightarrow> apply_action sf into_value result (Annotated (Some v') m')))"

text \<open>A callback only fails with an invalid transaction; other actions are resolved.\<close>

lemma annotated_apply_error:
  "annotated_apply sf into_value f a = (Inl e, a') \<Longrightarrow> \<exists>s. e = InvalidTransaction s"
  by (cases "an_value a")
    (simp_all add: annotated_apply_def apply_action_def split: prod.splits sum.splits unit.splits processing_action.splits,
      auto)

datatype skip_serialization = SS_Never | SS_Null bool | SS_Empty bool

fun skip_descend :: "skip_serialization \<Rightarrow> skip_serialization" where
  "skip_descend (SS_Null False) = SS_Never"
| "skip_descend (SS_Empty False) = SS_Never"
| "skip_descend other = other"

definition skip_default :: skip_serialization where
  "skip_default = SS_Null True"

definition skips ::
  "('a \<Rightarrow> bool) \<Rightarrow> ('a \<Rightarrow> bool) \<Rightarrow> skip_serialization \<Rightarrow> 'a ann \<Rightarrow> bool" where
  "skips is_empty is_deep_empty behavior a =
     (if \<not> meta_is_empty (an_meta a) then False
      else
        (case behavior of
           SS_Never \<Rightarrow> False
         | SS_Null _ \<Rightarrow> an_value a = None
         | SS_Empty False \<Rightarrow> (case an_value a of None \<Rightarrow> True | Some v \<Rightarrow> is_empty v)
         | SS_Empty True \<Rightarrow> (case an_value a of None \<Rightarrow> True | Some v \<Rightarrow> is_deep_empty v)))"

section \<open>Metadata trees\<close>

datatype meta_tree = MetaTree (mt_meta: meta) (mt_children: "(string \<times> meta_tree) list")

definition meta_tree_default :: meta_tree where
  "meta_tree_default = MetaTree meta_default []"

primrec tree_has_errors :: "meta_tree \<Rightarrow> bool" where
  "tree_has_errors (MetaTree m children) \<longleftrightarrow> has_errors m \<or> list_ex snd (map (map_prod id tree_has_errors) children)"

primrec tree_is_empty :: "meta_tree \<Rightarrow> bool" where
  "tree_is_empty (MetaTree m children) \<longleftrightarrow> meta_is_empty m \<and> list_all snd (map (map_prod id tree_is_empty) children)"

definition insert_tree :: "string \<Rightarrow> meta_tree \<Rightarrow> (string \<times> meta_tree) list \<Rightarrow> (string \<times> meta_tree) list" where
  "insert_tree key tree children = (if tree_is_empty tree then children else bt_insert str_le key tree children)"

text \<open>\<open>extract_meta_tree\<close> and \<open>extract_child_meta\<close> for dynamic values.\<close>

function (sequential) extract_meta_tree :: "val ann \<Rightarrow> meta_tree"
  and extract_child_meta :: "val \<Rightarrow> (string \<times> meta_tree) list"
  and extract_items :: "nat \<Rightarrow> val ann list \<Rightarrow> (string \<times> meta_tree) list \<Rightarrow> (string \<times> meta_tree) list"
  and extract_entries :: "(string \<times> val ann) list \<Rightarrow> (string \<times> meta_tree) list \<Rightarrow> (string \<times> meta_tree) list" where
  "extract_meta_tree (Annotated v m) =
     MetaTree m (case v of Some x \<Rightarrow> extract_child_meta x | None \<Rightarrow> [])"
| "extract_child_meta (V_Object items) = extract_entries items []"
| "extract_child_meta (V_Array items) = extract_items 0 items []"
| "extract_child_meta _ = []"
| "extract_items i [] children = children"
| "extract_items i (x # xs) children =
     extract_items (Suc i) xs (insert_tree (show_nat i) (extract_meta_tree x) children)"
| "extract_entries [] children = children"
| "extract_entries ((k, x) # xs) children = extract_entries xs (insert_tree k (extract_meta_tree x) children)"
  by pat_completeness auto
termination
  by (relation "measure (case_sum (case_sum ann_size size)
      (case_sum (\<lambda>(_, xs, _). size_list ann_size xs) (\<lambda>(xs, _). size_list entry_size xs)))") auto

text \<open>\<open>attach_meta_tree\<close>: children are removed from the tree as they are used; keys occur once.\<close>

function (sequential) attach_meta_tree :: "meta_tree \<Rightarrow> val ann \<Rightarrow> val ann"
  and attach_children :: "(string \<times> meta_tree) list \<Rightarrow> val \<Rightarrow> val"
  and attach_items :: "(string \<times> meta_tree) list \<Rightarrow> nat \<Rightarrow> val ann list \<Rightarrow> val ann list"
  and attach_entries :: "(string \<times> meta_tree) list \<Rightarrow> (string \<times> val ann) list \<Rightarrow> (string \<times> val ann) list" where
  "attach_meta_tree (MetaTree m children) (Annotated v _) =
     Annotated (case v of Some x \<Rightarrow> Some (attach_children children x) | None \<Rightarrow> None) m"
| "attach_children children (V_Array items) = V_Array (attach_items children 0 items)"
| "attach_children children (V_Object items) = V_Object (attach_entries children items)"
| "attach_children children v = v"
| "attach_items children i [] = []"
| "attach_items children i (x # xs) =
     (case bt_get children (show_nat i) of
        Some tree \<Rightarrow> attach_meta_tree tree x # attach_items (AList.delete (show_nat i) children) (Suc i) xs
      | None \<Rightarrow> x # attach_items children (Suc i) xs)"
| "attach_entries children [] = []"
| "attach_entries children ((k, x) # xs) =
     (case bt_get children k of
        Some tree \<Rightarrow> (k, attach_meta_tree tree x) # attach_entries (AList.delete k children) xs
      | None \<Rightarrow> (k, x) # attach_entries children xs)"
  by pat_completeness auto
termination
  by (relation "measure (case_sum (case_sum (\<lambda>(_, x). ann_size x) (\<lambda>(_, v). size v))
      (case_sum (\<lambda>(_, _, xs). size_list ann_size xs) (\<lambda>(_, xs). size_list entry_size xs)))") auto

text \<open>The same value without metadata, as the payload of an event carries it.\<close>

function (sequential) strip_meta :: "val ann \<Rightarrow> val ann"
  and strip_value :: "val \<Rightarrow> val"
  and strip_items :: "val ann list \<Rightarrow> val ann list"
  and strip_entries :: "(string \<times> val ann) list \<Rightarrow> (string \<times> val ann) list" where
  "strip_meta (Annotated v m) = Annotated (case v of Some x \<Rightarrow> Some (strip_value x) | None \<Rightarrow> None) None"
| "strip_value (V_Array items) = V_Array (strip_items items)"
| "strip_value (V_Object items) = V_Object (strip_entries items)"
| "strip_value v = v"
| "strip_items [] = []"
| "strip_items (x # xs) = strip_meta x # strip_items xs"
| "strip_entries [] = []"
| "strip_entries ((k, x) # xs) = (k, strip_meta x) # strip_entries xs"
  by pat_completeness auto
termination
  by (relation "measure (case_sum (case_sum ann_size size)
      (case_sum (\<lambda>xs. size_list ann_size xs) (\<lambda>xs. size_list entry_size xs)))") auto

text \<open>Objects have distinct keys, and no metadata is an empty record.\<close>

function (sequential) wf_ann :: "val ann \<Rightarrow> bool"
  and wf_val :: "val \<Rightarrow> bool"
  and wf_items :: "val ann list \<Rightarrow> bool"
  and wf_entries :: "(string \<times> val ann) list \<Rightarrow> bool" where
  "wf_ann (Annotated v m) \<longleftrightarrow> (m = None \<or> \<not> meta_is_empty m) \<and> (case v of Some x \<Rightarrow> wf_val x | None \<Rightarrow> True)"
| "wf_val (V_Array items) \<longleftrightarrow> wf_items items"
| "wf_val (V_Object items) \<longleftrightarrow> distinct (map fst items) \<and> wf_entries items"
| "wf_val _ \<longleftrightarrow> True"
| "wf_items [] \<longleftrightarrow> True"
| "wf_items (x # xs) \<longleftrightarrow> wf_ann x \<and> wf_items xs"
| "wf_entries [] \<longleftrightarrow> True"
| "wf_entries ((k, x) # xs) \<longleftrightarrow> wf_ann x \<and> wf_entries xs"
  by pat_completeness auto
termination
  by (relation "measure (case_sum (case_sum ann_size size)
      (case_sum (\<lambda>xs. size_list ann_size xs) (\<lambda>xs. size_list entry_size xs)))") auto

text \<open>An array is treated like an object with its indices as keys.\<close>

definition indexed :: "nat \<Rightarrow> 'a list \<Rightarrow> (string \<times> 'a) list" where
  "indexed i xs = zip (map show_nat [i..<i + length xs]) xs"

lemma indexed_simps [simp]: "indexed i [] = []" "indexed i (x # xs) = (show_nat i, x) # indexed (Suc i) xs"
  by (simp_all add: indexed_def upt_conv_Cons del: upt_Suc)

lemma indexed_keys: "distinct (map fst (indexed i xs))" "snd ` set (indexed i xs) = set xs"
  by (auto simp: indexed_def distinct_map inj_on_def set_zip in_set_conv_nth image_iff)

lemma extract_items_indexed: "extract_items i xs acc = extract_entries (indexed i xs) acc"
  by (induction xs arbitrary: i acc) simp_all

lemma attach_items_indexed: "attach_items ch i xs = map snd (attach_entries ch (indexed i xs))"
  by (induction xs arbitrary: i ch) (simp_all split: option.splits)

lemma strip_maps:
  "strip_items xs = map strip_meta xs" "strip_entries es = map (\<lambda>(k, x). (k, strip_meta x)) es"
  by (induction xs, simp_all) (induction es, auto)

lemma indexed_strip: "indexed i (map f xs) = map (\<lambda>(k, x). (k, f x)) (indexed i xs)"
  by (induction xs arbitrary: i) simp_all

lemma insert_tree_inv: "bt_inv str_le acc \<Longrightarrow> bt_inv str_le (insert_tree k t acc)"
  by (simp add: insert_tree_def str_keys.bt_insert_inv)

lemma extract_entries_get:
  assumes "bt_inv str_le acc" and "distinct (map fst es)"
  shows "bt_get (extract_entries es acc) k =
           (case map_of es k of
              Some x \<Rightarrow> if tree_is_empty (extract_meta_tree x) then bt_get acc k else Some (extract_meta_tree x)
            | None \<Rightarrow> bt_get acc k)"
  using assms
proof (induction es arbitrary: acc)
  case (Cons e es)
  obtain k' x where e: "e = (k', x)" by (cases e)
  have new: "k' \<notin> fst ` set es" using Cons.prems(2) by (simp add: e)
  then have none: "map_of es k' = None" by (simp add: map_of_eq_None_iff)
  show ?case
    using Cons.IH [OF insert_tree_inv [OF Cons.prems(1)], of k' "extract_meta_tree x"] Cons.prems none
    by (auto simp: e insert_tree_def str_keys.bt_insert_get split: option.splits)
qed simp

lemma attach_entries_strip:
  assumes "distinct (map fst es)"
    and "\<And>k x. (k, x) \<in> set es \<Longrightarrow>
           bt_get ch k = (if tree_is_empty (extract_meta_tree x) then None else Some (extract_meta_tree x))"
    and "\<And>k x. (k, x) \<in> set es \<Longrightarrow>
           attach_meta_tree (extract_meta_tree x) (strip_meta x) = x \<and>
           (tree_is_empty (extract_meta_tree x) \<longrightarrow> strip_meta x = x)"
  shows "attach_entries ch (map (\<lambda>(k, x). (k, strip_meta x)) es) = es"
  using assms
proof (induction es arbitrary: ch)
  case (Cons e es)
  obtain k x where e: "e = (k, x)" by (cases e)
  have other: "bt_get (AList.delete k ch) k' = bt_get ch k'" if "(k', x') \<in> set es" for k' x'
    using that Cons.prems(1) by (force simp: e bt_get_def delete_conv)
  have "attach_entries (if tree_is_empty (extract_meta_tree x) then ch else AList.delete k ch)
      (map (\<lambda>(k, x). (k, strip_meta x)) es) = es"
  proof (rule Cons.IH)
    fix k' x' assume es: "(k', x') \<in> set es"
    then show "bt_get (if tree_is_empty (extract_meta_tree x) then ch else AList.delete k ch) k' =
        (if tree_is_empty (extract_meta_tree x') then None else Some (extract_meta_tree x'))"
      using Cons.prems(2) [of k' x'] other [OF es] by simp
    show "attach_meta_tree (extract_meta_tree x') (strip_meta x') = x' \<and>
        (tree_is_empty (extract_meta_tree x') \<longrightarrow> strip_meta x' = x')"
      using Cons.prems(3) [of k' x'] es by simp
  qed (use Cons.prems(1) in simp)
  then show ?case using Cons.prems(2,3) [of k x] by (auto simp: e)
qed simp

lemma attach_extract_entries:
  assumes "distinct (map fst es)"
    and "\<forall>x \<in> snd ` set es. attach_meta_tree (extract_meta_tree x) (strip_meta x) = x \<and>
           (tree_is_empty (extract_meta_tree x) \<longrightarrow> strip_meta x = x)"
  shows "attach_entries (extract_entries es []) (map (\<lambda>(k, x). (k, strip_meta x)) es) = es"
    and "list_all (\<lambda>c. tree_is_empty (snd c)) (extract_entries es []) \<Longrightarrow>
           map (\<lambda>(k, x). (k, strip_meta x)) es = es"
proof -
  have get: "bt_get (extract_entries es []) k =
      (if tree_is_empty (extract_meta_tree x) then None else Some (extract_meta_tree x))" if "(k, x) \<in> set es" for k x
    using that assms(1) extract_entries_get [OF bt_inv_Nil assms(1), of k] by (simp add: bt_get_def)
  show "attach_entries (extract_entries es []) (map (\<lambda>(k, x). (k, strip_meta x)) es) = es"
    by (rule attach_entries_strip [OF assms(1)]) (use get assms(2) in \<open>auto simp del: split_paired_All\<close>)
  assume all: "list_all (\<lambda>c. tree_is_empty (snd c)) (extract_entries es [])"
  have "strip_meta x = x" if "(k, x) \<in> set es" for k x
  proof -
    have "tree_is_empty (extract_meta_tree x)"
      using get [OF that] all by (force simp: bt_get_def list_all_iff dest: map_of_SomeD split: if_splits)
    with assms(2) that show ?thesis by force
  qed
  then show "map (\<lambda>(k, x). (k, strip_meta x)) es = es" by (auto intro: map_idI)
qed

lemma attach_extract:
  "wf_ann a \<Longrightarrow> attach_meta_tree (extract_meta_tree a) (strip_meta a) = a \<and>
     (tree_is_empty (extract_meta_tree a) \<longrightarrow> strip_meta a = a)"
  "wf_val v \<Longrightarrow> attach_children (extract_child_meta v) (strip_value v) = v \<and>
     (list_all (\<lambda>c. tree_is_empty (snd c)) (extract_child_meta v) \<longrightarrow> strip_value v = v)"
  "wf_items xs \<Longrightarrow> \<forall>x \<in> set xs. attach_meta_tree (extract_meta_tree x) (strip_meta x) = x \<and>
     (tree_is_empty (extract_meta_tree x) \<longrightarrow> strip_meta x = x)"
  "wf_entries es \<Longrightarrow> \<forall>x \<in> snd ` set es. attach_meta_tree (extract_meta_tree x) (strip_meta x) = x \<and>
     (tree_is_empty (extract_meta_tree x) \<longrightarrow> strip_meta x = x)"
proof (induction a and v and xs and es rule: wf_ann_wf_val_wf_items_wf_entries.induct)
  case (1 v m)
  then show ?case by (auto split: option.splits simp: list.pred_map comp_def)
next
  case (2 items)
  note entries = attach_extract_entries [OF indexed_keys(1), of 0 items]
  have m: "map snd (map (\<lambda>(k, x). (k, strip_meta x)) (indexed 0 items)) = map strip_meta items"
      "map snd (indexed 0 items) = items"
    by (simp flip: indexed_strip) (simp_all add: indexed_def)
  have keep: "map strip_meta items = items" if "map (\<lambda>(k, x). (k, strip_meta x)) (indexed 0 items) = indexed 0 items"
    using arg_cong [OF that, of "map snd"] by (simp only: m)
  show ?case
    using 2 entries keep m(2)
    by (auto simp: extract_items_indexed attach_items_indexed strip_maps indexed_strip indexed_keys(2))
next
  case (3 items)
  then show ?case
    using attach_extract_entries [of items] by (auto simp: strip_maps)
qed simp_all

text \<open>C34: extracting the metadata of a value into a tree and attaching the tree to the bare payload
  restores the value with all its metadata, for arrays and objects of any depth.\<close>

theorem meta_tree_roundtrip:
  assumes "wf_ann a"
  shows "attach_meta_tree (extract_meta_tree a) (strip_meta a) = a"
  using attach_extract(1) [OF assms] by blast

theorem meta_tree_roundtrip_witness:
  "let a = Annotated (Some (V_Object [(''k'', Annotated (Some (V_Array [Annotated (Some (V_Bool True)) None,
             Annotated None (meta_from_error error_nonempty)])) None)])) None
   in attach_meta_tree (extract_meta_tree a) (strip_meta a) = a"
  unfolding Let_def
  by (rule meta_tree_roundtrip)
    (simp add: meta_from_error_def add_error_def upsert_def meta_default_def meta_inner_default_def meta_is_empty_def
      meta_inner_is_empty_def)

end
