(* ===== verification/Text_Trimming.thy ===== *)
theory Text_Trimming
  imports Annotated_Values
begin

text \<open>
  Annotated strings and their trimming: chunks of text and redactions
  (\<open>relay-general/src/processor/chunks.rs\<close>), length limits of fields (\<open>processor/attrs.rs\<close>), and the
  trimming of strings and of stack traces (\<open>relay-general/src/store/trimming.rs\<close>). Strings are
  UTF-8 bytes; characters are counted by their first bytes.
\<close>

section \<open>Characters of a string\<close>

definition continuation :: "char \<Rightarrow> bool" where
  "continuation c \<longleftrightarrow> 0x80 \<le> (of_char c :: nat) \<and> (of_char c :: nat) < 0xC0"

definition num_chars :: "string \<Rightarrow> nat" where
  "num_chars s = length (filter (\<lambda>c. \<not> continuation c) s)"

function chars_of :: "string \<Rightarrow> string list" where
  "chars_of [] = []"
| "chars_of (c # cs) = (c # takeWhile continuation cs) # chars_of (dropWhile continuation cs)"
  by pat_completeness auto
termination
  by (relation "measure length") (auto simp: less_Suc_eq_le length_dropWhile_le)

definition is_char_boundary :: "string \<Rightarrow> nat \<Rightarrow> bool" where
  "is_char_boundary s i \<longleftrightarrow> i = 0 \<or> i = length s \<or> i < length s \<and> \<not> continuation (s ! i)"

definition str_get :: "string \<Rightarrow> nat \<Rightarrow> nat \<Rightarrow> string option" where
  "str_get s a b =
     (if a \<le> b \<and> b \<le> length s \<and> is_char_boundary s a \<and> is_char_boundary s b then Some (take (b - a) (drop a s)) else None)"

lemma num_chars_append [simp]: "num_chars (a @ b) = num_chars a + num_chars b"
  by (simp add: num_chars_def)

lemma num_chars_Nil [simp]: "num_chars [] = 0"
  by (simp add: num_chars_def)

lemma num_chars_Cons [simp]: "num_chars (c # s) = (if continuation c then 0 else 1) + num_chars s"
  by (simp add: num_chars_def)

lemma concat_chars_of [simp]: "concat (chars_of s) = s"
  by (induction s rule: chars_of.induct) simp_all

lemma num_chars_cont: "\<forall>c \<in> set s. continuation c \<Longrightarrow> num_chars s = 0"
  by (simp add: num_chars_def)

lemma num_chars_take: "num_chars (concat (take n (chars_of s))) \<le> n"
proof (induction s arbitrary: n rule: chars_of.induct)
  case (2 c cs)
  have "num_chars (takeWhile continuation cs) = 0"
    by (rule num_chars_cont) (auto dest: set_takeWhileD)
  then show ?case using 2 [of "n - 1"] by (cases n) auto
qed simp

section \<open>Chunks\<close>

datatype chunk = Chunk_Text string | Chunk_Redaction string string remark_type

fun chunk_as_str :: "chunk \<Rightarrow> string" where
  "chunk_as_str (Chunk_Text text) = text"
| "chunk_as_str (Chunk_Redaction text rule_id ty) = text"

definition chunk_len :: "chunk \<Rightarrow> nat" where
  "chunk_len c = length (chunk_as_str c)"

definition chunk_count :: "chunk \<Rightarrow> nat" where
  "chunk_count c = num_chars (chunk_as_str c)"

definition chunk_is_empty :: "chunk \<Rightarrow> bool" where
  "chunk_is_empty c \<longleftrightarrow> chunk_len c = 0"

text \<open>The loop over the remarks returns the chunks it pushed and the position it reached.\<close>

fun split_loop :: "string \<Rightarrow> remark list \<Rightarrow> nat \<Rightarrow> chunk list \<times> nat" where
  "split_loop text [] pos = ([], pos)"
| "split_loop text (remark # remarks) pos =
     (case rem_range remark of
        None \<Rightarrow> split_loop text remarks pos
      | Some (start, stop) \<Rightarrow>
          (case (if start > pos then map_option (\<lambda>piece. [Chunk_Text piece]) (str_get text pos start) else Some []) of
             None \<Rightarrow> ([], pos)
           | Some pre \<Rightarrow>
               (case str_get text start stop of
                  None \<Rightarrow> (pre, pos)
                | Some piece \<Rightarrow>
                    (case split_loop text remarks stop of
                       (rest, final) \<Rightarrow>
                         (pre @ Chunk_Redaction piece (rem_rule_id remark) (rem_ty remark) # rest, final)))))"

definition split_chunks :: "string \<Rightarrow> remark list \<Rightarrow> chunk list" where
  "split_chunks text remarks =
     (case split_loop text remarks 0 of
        (rv, pos) \<Rightarrow>
          if pos < length text
          then (case str_get text pos (length text) of Some piece \<Rightarrow> rv @ [Chunk_Text piece] | None \<Rightarrow> rv)
          else rv)"

fun join_loop :: "chunk list \<Rightarrow> nat \<Rightarrow> string \<times> remark list" where
  "join_loop [] pos = ([], [])"
| "join_loop (c # cs) pos =
     (let new_pos = pos + chunk_len c in
      case join_loop cs new_pos of
        (rv, remarks) \<Rightarrow>
          (chunk_as_str c @ rv,
           (case c of
              Chunk_Redaction _ rule_id ty \<Rightarrow> remark_with_range ty rule_id (pos, new_pos) # remarks
            | Chunk_Text _ \<Rightarrow> remarks)))"

definition join_chunks :: "chunk list \<Rightarrow> string \<times> remark list" where
  "join_chunks cs = join_loop cs 0"

definition process_chunked_value :: "string \<Rightarrow> meta \<Rightarrow> (chunk list \<Rightarrow> chunk list) \<Rightarrow> string \<times> meta" where
  "process_chunked_value s m f =
     (let chunks = split_chunks s (meta_remarks m) in
      case join_chunks (f chunks) of
        (new_value, remarks) \<Rightarrow>
          if new_value \<noteq> s
          then (new_value, set_original_length (Some (num_chars s)) (foldl (\<lambda>m r. add_remark r m) (clear_remarks m) remarks))
          else (s, m))"

text \<open>Ranges that lie in the text, in order, at character boundaries.\<close>

fun ranges_ok :: "string \<Rightarrow> remark list \<Rightarrow> nat \<Rightarrow> bool" where
  "ranges_ok text [] pos \<longleftrightarrow> pos \<le> length text \<and> is_char_boundary text pos"
| "ranges_ok text (r # rs) pos \<longleftrightarrow>
     pos \<le> length text \<and> is_char_boundary text pos \<and>
     (case rem_range r of
        None \<Rightarrow> ranges_ok text rs pos
      | Some (start, stop) \<Rightarrow> pos \<le> start \<and> start \<le> stop \<and> is_char_boundary text start \<and> ranges_ok text rs stop)"

lemma ranges_ok_pos: "ranges_ok text rs pos \<Longrightarrow> pos \<le> length text \<and> is_char_boundary text pos"
  by (cases rs) auto

lemma join_loop_append:
  "join_loop (a @ b) pos =
     (fst (join_loop a pos) @ fst (join_loop b (pos + length (fst (join_loop a pos)))),
      snd (join_loop a pos) @ snd (join_loop b (pos + length (fst (join_loop a pos)))))"
  by (induction a arbitrary: pos) (auto simp: Let_def chunk_len_def add.assoc split: prod.splits chunk.splits)

lemma split_loop_join:
  assumes "ranges_ok text remarks pos"
  shows "case split_loop text remarks pos of
           (rv, final) \<Rightarrow>
             pos \<le> final \<and> final \<le> length text \<and> is_char_boundary text final \<and>
             join_loop rv pos = (take (final - pos) (drop pos text), filter (\<lambda>r. rem_range r \<noteq> None) remarks)"
  using assms
proof (induction remarks arbitrary: pos)
  case (Cons r rs)
  show ?case
  proof (cases "rem_range r")
    case None
    then show ?thesis using Cons by simp
  next
    case (Some range)
    obtain start stop where rng: "range = (start, stop)" by (cases range)
    have ok: "pos \<le> start" "start \<le> stop" "is_char_boundary text start" "is_char_boundary text pos" "ranges_ok text rs stop"
      using Cons.prems Some by (auto simp: rng)
    have stop: "stop \<le> length text" "is_char_boundary text stop" using ranges_ok_pos [OF ok(5)] by simp_all
    obtain rest final where loop: "split_loop text rs stop = (rest, final)" by fastforce
    have IH: "stop \<le> final" "final \<le> length text" "is_char_boundary text final"
        "join_loop rest stop = (take (final - stop) (drop stop text), filter (\<lambda>r. rem_range r \<noteq> None) rs)"
      using Cons.IH [OF ok(5)] by (simp_all add: loop)
    have split2: "take (final - start) (drop start text) =
        take (stop - start) (drop start text) @ take (final - stop) (drop stop text)"
      using ok IH(1) take_add [of "stop - start" "final - stop" "drop start text"] by simp
    have split3: "take (final - pos) (drop pos text) =
        take (start - pos) (drop pos text) @ take (stop - start) (drop start text) @ take (final - stop) (drop stop text)"
      using ok IH(1) take_add [of "start - pos" "final - start" "drop pos text"] split2 by simp
    have "Remark (rem_ty r) (rem_rule_id r) (Some (start, stop)) = r"
      using Some rng by (cases r) simp
    then show ?thesis
      using ok stop IH Some rng
      by (cases "pos = start")
        (auto simp: str_get_def loop Let_def chunk_len_def remark_with_range_def split2 split3)
  qed
qed simp

text \<open>C38: splitting an annotated string and joining the chunks restores the string and its text remarks,
  if the ranges of the remarks lie in the string in order.\<close>

theorem split_join_chunks:
  assumes "ranges_ok text remarks 0"
  shows "join_chunks (split_chunks text remarks) = (text, filter (\<lambda>r. rem_range r \<noteq> None) remarks)"
proof -
  obtain rv final where loop: "split_loop text remarks 0 = (rv, final)" by fastforce
  have f: "final \<le> length text" "is_char_boundary text final"
      "join_loop rv 0 = (take final text, filter (\<lambda>r. rem_range r \<noteq> None) remarks)"
    using split_loop_join [OF assms] by (simp_all add: loop)
  have "is_char_boundary text (length text)" by (simp add: is_char_boundary_def)
  with f show ?thesis
    by (auto simp: split_chunks_def join_chunks_def loop str_get_def join_loop_append Let_def)
qed

text \<open>
  A range that exceeds the string makes the text before it appear twice: the loop has
  pushed it when it stops, but not advanced.
\<close>

lemma split_chunks_duplicates:
  "fst (join_chunks (split_chunks ''abc'' [remark_with_range RMT_Masked ''rule'' (1, 10)])) = ''aabc''"
  by code_simp

theorem split_join_chunks_witness:
  "join_chunks (split_chunks ''Hello, [redacted]!'' [remark_with_range RMT_Substituted ''myrule'' (7, 17)]) =
     (''Hello, [redacted]!'', [remark_with_range RMT_Substituted ''myrule'' (7, 17)])"
  using split_join_chunks [of "''Hello, [redacted]!''" "[remark_with_range RMT_Substituted ''myrule'' (7, 17)]"]
  by (simp add: remark_with_range_def is_char_boundary_def continuation_def nth_Cons' of_char_Char)

section \<open>Length limits\<close>

datatype max_chars =
    MC_Hash | MC_EnumLike | MC_Summary | MC_Message | MC_Symbol | MC_Path | MC_ShortPath | MC_Logger | MC_Email
  | MC_Culprit | MC_TagKey | MC_TagValue | MC_Environment | MC_Hard nat | MC_Soft nat

fun max_chars_limit :: "max_chars \<Rightarrow> nat" where
  "max_chars_limit MC_Hash = 128"
| "max_chars_limit MC_EnumLike = 128"
| "max_chars_limit MC_Summary = 1024"
| "max_chars_limit MC_Message = 8192"
| "max_chars_limit MC_Symbol = 256"
| "max_chars_limit MC_Path = 256"
| "max_chars_limit MC_ShortPath = 128"
| "max_chars_limit MC_Logger = 64"
| "max_chars_limit MC_Email = 75"
| "max_chars_limit MC_Culprit = 200"
| "max_chars_limit MC_TagKey = 32"
| "max_chars_limit MC_TagValue = 200"
| "max_chars_limit MC_Environment = 64"
| "max_chars_limit (MC_Soft len) = len"
| "max_chars_limit (MC_Hard len) = len"

fun max_chars_allowance :: "max_chars \<Rightarrow> nat" where
  "max_chars_allowance MC_Summary = 100"
| "max_chars_allowance MC_Message = 200"
| "max_chars_allowance MC_Symbol = 20"
| "max_chars_allowance MC_Path = 40"
| "max_chars_allowance MC_ShortPath = 20"
| "max_chars_allowance (MC_Soft _) = 10"
| "max_chars_allowance _ = 0"

datatype bag_size = BS_Small | BS_Medium | BS_Large | BS_Larger | BS_Massive

fun bag_max_depth :: "bag_size \<Rightarrow> nat" where
  "bag_max_depth BS_Small = 3"
| "bag_max_depth BS_Medium = 5"
| "bag_max_depth _ = 7"

fun bag_max_size :: "bag_size \<Rightarrow> nat" where
  "bag_max_size BS_Small = 1024"
| "bag_max_size BS_Medium = 2048"
| "bag_max_size BS_Large = 8192"
| "bag_max_size BS_Larger = 16384"
| "bag_max_size BS_Massive = 262144"

section \<open>Trimming of strings\<close>

definition ellipsis :: chunk where
  "ellipsis = Chunk_Redaction ''...'' ''!limit'' RMT_Substituted"

text \<open>The characters of a text chunk that still fit, with room for the ellipsis.\<close>

fun take_fitting :: "nat \<Rightarrow> nat \<Rightarrow> string list \<Rightarrow> string" where
  "take_fitting soft_limit len [] = []"
| "take_fitting soft_limit len (c # cs) =
     (if len + 3 < soft_limit then c @ take_fitting soft_limit (len + 1) cs else [])"

fun trim_chunks :: "nat \<Rightarrow> nat \<Rightarrow> nat \<Rightarrow> chunk list \<Rightarrow> chunk list" where
  "trim_chunks soft_limit hard_limit len [] = []"
| "trim_chunks soft_limit hard_limit len (chunk # chunks) =
     (let chunk_chars = chunk_count chunk in
      if len + chunk_chars < soft_limit then chunk # trim_chunks soft_limit hard_limit (len + chunk_chars) chunks
      else
        (case chunk of
           Chunk_Redaction _ _ _ \<Rightarrow> if len + chunk_chars + 3 < hard_limit then [chunk] else []
         | Chunk_Text text \<Rightarrow> [Chunk_Text (take_fitting soft_limit len (chars_of text))]) @ [ellipsis])"

definition trim_string :: "string \<Rightarrow> meta \<Rightarrow> max_chars \<Rightarrow> string \<times> meta" where
  "trim_string s m mc =
     (let soft_limit = max_chars_limit mc; hard_limit = soft_limit + max_chars_allowance mc in
      if num_chars s \<le> hard_limit then (s, m)
      else process_chunked_value s m (trim_chunks soft_limit hard_limit 0))"

lemma take_fitting_eq: "take_fitting soft len cs = concat (take (soft - 3 - len) cs)"
proof (induction soft len cs rule: take_fitting.induct)
  case (2 soft len c cs)
  have "len + 3 < soft \<Longrightarrow> soft - 3 - len = Suc (soft - 3 - (len + 1))" by simp
  with 2 show ?case by (cases "len + 3 < soft") (simp_all del: diff_diff_left)
qed simp

lemma join_fst: "fst (join_loop cs pos) = concat (map chunk_as_str cs)"
  by (induction cs arbitrary: pos) (simp_all add: Let_def split_beta)

lemma num_chars_concat: "num_chars (concat ss) = sum_list (map num_chars ss)"
  by (induction ss) simp_all

lemma dots_chars: "num_chars ''...'' = 3"
  by (simp add: continuation_def of_char_Char)

lemma trim_chunks_bound:
  "len + num_chars (concat (map chunk_as_str (trim_chunks soft hard len chunks))) \<le> max hard (max soft len + 3)"
proof (induction soft hard len chunks rule: trim_chunks.induct)
  case (2 soft hard len chunk chunks)
  show ?case
  proof (cases "len + chunk_count chunk < soft")
    case True
    then show ?thesis using 2 by (simp add: Let_def chunk_count_def)
  next
    case False
    have "num_chars (concat (take (soft - 3 - len) (chars_of str))) \<le> soft - 3 - len" for str
      by (rule num_chars_take)
    moreover have "len + (soft - 3 - len) + 3 \<le> max soft len + 3" by simp
    ultimately have t: "len + num_chars (concat (take (soft - 3 - len) (chars_of str))) + 3 \<le> max soft len + 3" for str
      by (meson add_le_mono order_refl order_trans)
    show ?thesis
      using False t
      by (cases chunk) (auto simp: Let_def ellipsis_def dots_chars chunk_count_def take_fitting_eq le_max_iff_disj
          simp del: num_chars_Cons)
  qed
qed simp


text \<open>The hard limit is exceeded when a redaction does not fit behind a text of almost full length.\<close>

lemma hard_limit_exceeded:
  "num_chars (fst (trim_string ''aaaaaaaaa[redacted]'' (add_remark (remark_with_range RMT_Masked ''rule'' (9, 19)) None)
      (MC_Hard 10))) = 12"
  by code_simp

text \<open>
  What trimming does to a string without remarks: it keeps as many characters as leave room
  for the ellipsis, notes where it is and the original length.
\<close>

definition trimmed :: "nat \<Rightarrow> string \<Rightarrow> string" where
  "trimmed soft s = concat (take (soft - 3) (chars_of s))"

lemma add_remark_length:
  "original_length (set_original_length n (add_remark r m)) = original_length (set_original_length n m)"
  by (cases "upsert m")
    (simp add: add_remark_def set_original_length_def original_length_def upsert_def)

lemma clear_remarks_length:
  "original_length (set_original_length n (clear_remarks m)) = original_length (set_original_length n m)"
  by (auto simp: clear_remarks_def set_original_length_def original_length_def upsert_def meta_inner_default_def
      split: option.splits meta_inner.splits)

lemma split_chunks_plain: "s \<noteq> [] \<Longrightarrow> split_chunks s [] = [Chunk_Text s]"
  by (simp add: split_chunks_def str_get_def is_char_boundary_def)

text \<open>C35: a string without remarks that exceeds its hard limit becomes its longest prefix of whole
  characters that leaves room for the ellipsis, followed by the ellipsis. One remark covers
  the ellipsis, and the number of characters is kept as the original length unless one is
  already known. Shorter strings are left alone.\<close>

theorem trim_string_exact:
  fixes mc :: max_chars and s :: string and m :: meta
  assumes "meta_remarks m = []"
  defines "soft \<equiv> max_chars_limit mc" and "hard \<equiv> max_chars_limit mc + max_chars_allowance mc"
  shows "fst (trim_string s m mc) = (if num_chars s \<le> hard then s else trimmed soft s @ ''...'') \<and>
         (case trim_string s m mc of
            (s', m') \<Rightarrow>
              if s' = s then m' = m
              else meta_remarks m' =
                     [remark_with_range RMT_Substituted ''!limit'' (length (trimmed soft s), length (trimmed soft s) + 3)] \<and>
                   original_length m' = original_length (set_original_length (Some (num_chars s)) m))"
proof (cases "num_chars s \<le> hard")
  case True
  then show ?thesis by (simp add: trim_string_def hard_def Let_def)
next
  case False
  then have "s \<noteq> []" by auto
  have chunks: "trim_chunks soft hard 0 [Chunk_Text s] = [Chunk_Text (trimmed soft s), ellipsis]"
    using False by (simp add: Let_def chunk_count_def hard_def soft_def trimmed_def take_fitting_eq)
  have join: "join_chunks [Chunk_Text (trimmed soft s), ellipsis] =
      (trimmed soft s @ ''...'',
       [remark_with_range RMT_Substituted ''!limit'' (length (trimmed soft s), length (trimmed soft s) + 3)])"
    by (simp add: join_chunks_def Let_def ellipsis_def chunk_len_def numeral_3_eq_3)
  have "trim_string s m mc = process_chunked_value s m (trim_chunks soft hard 0)"
    using False by (simp add: trim_string_def hard_def soft_def Let_def)
  moreover have "split_chunks s (meta_remarks m) = [Chunk_Text s]"
    using split_chunks_plain [OF \<open>s \<noteq> []\<close>] assms(1) by simp
  ultimately have "trim_string s m mc =
      (if trimmed soft s @ ''...'' \<noteq> s
       then (trimmed soft s @ ''...'', set_original_length (Some (num_chars s)) (foldl (\<lambda>m r. add_remark r m) (clear_remarks m)
               [remark_with_range RMT_Substituted ''!limit'' (length (trimmed soft s), length (trimmed soft s) + 3)]))
       else (s, m))"
    by (simp only: process_chunked_value_def Let_def chunks join prod.case)
  then show ?thesis using False by (simp add: add_remark_length clear_remarks_length)
qed

theorem trim_string_exact_witness:
  "fst (trim_string ''This is my long string I want to have trimmed!'' None (MC_Hard 20)) = ''This is my long s...''"
  using trim_string_exact [where m = None and mc = "MC_Hard 20" and
      s = "''This is my long string I want to have trimmed!''"]
  by (simp add: meta_remarks_def trimmed_def continuation_def of_char_Char)

section \<open>Trimming of stack traces\<close>

definition enforce_frame_hard_limit :: "nat \<Rightarrow> 'f ann list \<Rightarrow> meta \<Rightarrow> 'f ann list \<times> meta" where
  "enforce_frame_hard_limit limit frames m =
     (if length frames \<ge> limit
      then (case frames of
              [] \<Rightarrow> (take (limit - 1) [], set_original_length (Some (length frames)) m)
            | _ \<Rightarrow> (take (limit - 1) (butlast frames) @ [last frames],
                   set_original_length (Some (length frames)) m))
      else (frames, m))"

text \<open>The fields of a frame that slimming reads or clears; the others are the extension.\<close>

record frame =
  fr_in_app :: "bool ann"
  fr_vars :: "val ann"
  fr_pre_context :: "val ann"
  fr_post_context :: "val ann"

text \<open>
  \<open>slice::get\<close> of the middle of the indices. Where the subtraction \<open>len - half\<close> underflows, the
  wrapped end is out of range and nothing is removed.
\<close>

definition middle :: "nat \<Rightarrow> nat list \<Rightarrow> nat list" where
  "middle half xs = (if half \<le> length xs \<and> half \<le> length xs - half then take (length xs - half - half) (drop half xs) else [])"

definition frame_indices :: "(bool \<Rightarrow> bool) \<Rightarrow> 'z frame_scheme ann list \<Rightarrow> nat list" where
  "frame_indices P frames =
     filter (\<lambda>i. case an_value (frames ! i) of
                   Some frame \<Rightarrow> P (an_value (fr_in_app frame) = Some True)
                 | None \<Rightarrow> False) [0..<length frames]"

definition slim_frame :: "'z frame_scheme ann \<Rightarrow> 'z frame_scheme ann" where
  "slim_frame a =
     Annotated (map_option (\<lambda>f. f\<lparr>fr_vars := annotated_empty, fr_pre_context := annotated_empty,
                                 fr_post_context := annotated_empty\<rparr>) (an_value a)) (an_meta a)"

definition frames_to_remove :: "nat \<Rightarrow> 'z frame_scheme ann list \<Rightarrow> nat list \<times> nat list" where
  "frames_to_remove frame_allowance frames =
     (let app = frame_indices id frames; sys = frame_indices Not frames;
          app_count = length app;
          system_frames_to_remove = middle ((frame_allowance - app_count) div 2) sys;
          remaining = length frames - frame_allowance - length system_frames_to_remove;
          app_frames_to_remove = middle ((app_count - remaining) div 2) app
      in (system_frames_to_remove, app_frames_to_remove))"

definition slim_frame_data :: "nat \<Rightarrow> 'z frame_scheme ann list \<Rightarrow> 'z frame_scheme ann list" where
  "slim_frame_data frame_allowance frames =
     (if length frames \<le> frame_allowance then frames
      else (case frames_to_remove frame_allowance frames of
              (sys, app) \<Rightarrow> foldl (\<lambda>fs i. fs[i := slim_frame (fs ! i)]) frames (sys @ app)))"

lemma frame_limit_bound:
  assumes "0 < limit"
  shows "length (fst (enforce_frame_hard_limit limit frames m)) = min limit (length frames)"
    and "frames \<noteq> [] \<Longrightarrow> last (fst (enforce_frame_hard_limit limit frames m)) = last frames"
  using assms by (auto simp: enforce_frame_hard_limit_def split: list.splits)

lemma frame_indices_props:
  "distinct (frame_indices P frames)" "i \<in> set (frame_indices P frames) \<Longrightarrow> i < length frames"
  by (auto simp: frame_indices_def)

lemma middle_subset: "set (middle half xs) \<subseteq> set xs"
  using set_take_subset set_drop_subset by (force simp: middle_def)

lemma middle_distinct: "distinct xs \<Longrightarrow> distinct (middle half xs)"
  by (simp add: middle_def)

lemma length_middle: "half + half \<le> length xs \<Longrightarrow> length (middle half xs) = length xs - 2 * half"
  by (auto simp: middle_def mult_2)

lemma slim_fold:
  assumes "distinct is" and "\<forall>i \<in> set is. i < length frames"
  shows "length (foldl (\<lambda>fs i. fs[i := slim_frame (fs ! i)]) frames is) = length frames"
    and "j < length frames \<Longrightarrow>
           foldl (\<lambda>fs i. fs[i := slim_frame (fs ! i)]) frames is ! j = (if j \<in> set is then slim_frame (frames ! j) else frames ! j)"
  using assms by (induction "is" arbitrary: frames) (auto simp: nth_list_update)

lemma indices_partition:
  assumes "\<forall>x \<in> set frames. an_value x \<noteq> None"
  shows "set (frame_indices id frames) \<inter> set (frame_indices Not frames) = {}"
    and "length (frame_indices id frames) + length (frame_indices Not frames) = length frames"
proof -
  have eq: "frame_indices Not frames = filter (\<lambda>i. \<not> (case an_value (frames ! i) of
      Some frame \<Rightarrow> an_value (fr_in_app frame) = Some True | None \<Rightarrow> False)) [0..<length frames]"
    unfolding frame_indices_def by (rule filter_cong) (use assms in \<open>auto split: option.splits\<close>)
  show "set (frame_indices id frames) \<inter> set (frame_indices Not frames) = {}"
    unfolding eq by (auto simp: frame_indices_def split: option.splits)
  show "length (frame_indices id frames) + length (frame_indices Not frames) = length frames"
    unfolding eq unfolding frame_indices_def id_apply by (simp only: sum_length_filter_compl) simp
qed

lemma removed_enough:
  assumes "\<forall>x \<in> set frames. an_value x \<noteq> None" and "allowance < length frames"
    and "frames_to_remove allowance frames = (sys, app)"
  shows "length frames \<le> allowance + length sys + length app"
proof -
  define a s where "a = length (frame_indices id frames)" and "s = length (frame_indices Not frames)"
  have n: "a + s = length frames" using indices_partition(2) [OF assms(1)] by (simp add: a_def s_def)
  have sys: "length sys = s - 2 * ((allowance - a) div 2)"
    using assms(2,3) n length_middle [of "(allowance - a) div 2" "frame_indices Not frames"]
    by (auto simp: frames_to_remove_def Let_def a_def s_def)
  define r where "r = length frames - allowance - length sys"
  have app: "length app = a - 2 * ((a - r) div 2)"
  proof -
    have "app = middle ((a - r) div 2) (frame_indices id frames)"
      using assms(3) by (auto simp: frames_to_remove_def Let_def a_def r_def)
    moreover have "(a - r) div 2 + (a - r) div 2 \<le> length (frame_indices id frames)"
      unfolding a_def by linarith
    ultimately show ?thesis by (simp add: length_middle a_def)
  qed
  show ?thesis
  proof (cases "a \<le> allowance")
    case True
    then show ?thesis using sys n assms(2) by linarith
  next
    case False
    then have "length sys = s" "r = a - allowance" using sys n by (simp_all add: r_def)
    then show ?thesis using app n False by simp
  qed
qed

text \<open>Slimming a stack trace keeps every frame in its place and changes a frame only by clearing its
  data, and at most the allowed number of frames keeps its data.\<close>

lemma slim_frame_data_bound:
  fixes frames :: "frame ann list"
  assumes "\<forall>x \<in> set frames. an_value x \<noteq> None"
  shows "length (slim_frame_data allowance frames) = length frames \<and>
         (\<exists>slimmed. (\<forall>i < length frames.
              slim_frame_data allowance frames ! i = (if i \<in> slimmed then slim_frame (frames ! i) else frames ! i)) \<and>
            card ({0..<length frames} - slimmed) \<le> allowance)"
proof (cases "length frames \<le> allowance")
  case True
  then show ?thesis by (auto simp: slim_frame_data_def intro!: exI [of _ "{}"])
next
  case False
  obtain sys app where r: "frames_to_remove allowance frames = (sys, app)" by fastforce
  have sub: "set sys \<subseteq> set (frame_indices Not frames)" "set app \<subseteq> set (frame_indices id frames)"
    using r middle_subset by (auto simp: frames_to_remove_def Let_def)
  have "distinct sys" "distinct app"
    using r by (auto simp: frames_to_remove_def Let_def frame_indices_props middle_distinct)
  then have d: "distinct (sys @ app)" using sub indices_partition(1) [OF assms] by auto
  have lt: "\<forall>i \<in> set (sys @ app). i < length frames" using sub frame_indices_props(2) by fastforce
  have "card (set (sys @ app)) = length (sys @ app)" using d by (rule distinct_card)
  moreover have "set (sys @ app) \<subseteq> {0..<length frames}" using lt by auto
  ultimately have "card ({0..<length frames} - set (sys @ app)) \<le> allowance"
    using removed_enough [OF assms _ r] False by (simp add: card_Diff_subset)
  then show ?thesis
    using slim_fold [OF d lt] False by (auto simp: slim_frame_data_def r intro!: exI [of _ "set (sys @ app)"])
qed

definition example_frame :: "bool \<Rightarrow> frame ann" where
  "example_frame in_app =
     annotated_new \<lparr>fr_in_app = annotated_new in_app, fr_vars = annotated_new (V_Bool True),
                    fr_pre_context = annotated_empty, fr_post_context = annotated_empty\<rparr>"

text \<open>
  If there is an odd number of application frames that all fit, the middle one is slimmed
  nevertheless: here it is the only one.
\<close>

lemma only_app_frame_slimmed:
  "slim_frame_data 50 (example_frame True # replicate 50 (example_frame False)) ! 0 = slim_frame (example_frame True)"
  by code_simp

end
