(* ===== verification/Selectors.thy ===== *)
theory Selectors
  imports Text_Trimming
begin

text \<open>
  Selectors of fields for data scrubbing: the types of values, attributes of fields and the stack
  of processing states (\<open>relay-general/src/processor/attrs.rs\<close>), and selectors with their match
  against a path (\<open>processor/selector.rs\<close>). A processing state with its parents is the list of its
  states, the current one first. Unicode lower casing is an argument; the parser generated
  from the grammar is not part of the model.
\<close>

section \<open>Value types and attributes\<close>

datatype value_type =
    VT_String | VT_Binary | VT_Number | VT_Boolean | VT_DateTime | VT_Array | VT_Object
  | VT_Event | VT_Attachments
  | VT_Exception | VT_Stacktrace | VT_Frame | VT_Request | VT_User | VT_LogEntry | VT_Message | VT_Thread
  | VT_Breadcrumb | VT_Span | VT_ClientSdkInfo
  | VT_Minidump | VT_HeapMemory | VT_StackMemory

fun value_type_display :: "value_type \<Rightarrow> string" where
  "value_type_display VT_String = ''string''"
| "value_type_display VT_Binary = ''binary''"
| "value_type_display VT_Number = ''number''"
| "value_type_display VT_Boolean = ''boolean''"
| "value_type_display VT_DateTime = ''datetime''"
| "value_type_display VT_Array = ''array''"
| "value_type_display VT_Object = ''object''"
| "value_type_display VT_Event = ''event''"
| "value_type_display VT_Attachments = ''attachments''"
| "value_type_display VT_Exception = ''error''"
| "value_type_display VT_Stacktrace = ''stack''"
| "value_type_display VT_Frame = ''frame''"
| "value_type_display VT_Request = ''http''"
| "value_type_display VT_User = ''user''"
| "value_type_display VT_LogEntry = ''logentry''"
| "value_type_display VT_Message = ''message''"
| "value_type_display VT_Thread = ''thread''"
| "value_type_display VT_Breadcrumb = ''breadcrumb''"
| "value_type_display VT_Span = ''span''"
| "value_type_display VT_ClientSdkInfo = ''sdk''"
| "value_type_display VT_Minidump = ''minidump''"
| "value_type_display VT_HeapMemory = ''heap_memory''"
| "value_type_display VT_StackMemory = ''stack_memory''"

definition value_type_names :: "(string \<times> value_type) list" where
  "value_type_names =
     [(''string'', VT_String), (''binary'', VT_Binary), (''number'', VT_Number), (''boolean'', VT_Boolean),
      (''bool'', VT_Boolean), (''datetime'', VT_DateTime), (''array'', VT_Array), (''list'', VT_Array),
      (''object'', VT_Object), (''event'', VT_Event), (''attachments'', VT_Attachments), (''error'', VT_Exception),
      (''exception'', VT_Exception), (''stack'', VT_Stacktrace), (''stacktrace'', VT_Stacktrace), (''frame'', VT_Frame),
      (''http'', VT_Request), (''request'', VT_Request), (''user'', VT_User), (''logentry'', VT_LogEntry),
      (''message'', VT_Message), (''thread'', VT_Thread), (''breadcrumb'', VT_Breadcrumb), (''span'', VT_Span),
      (''sdk'', VT_ClientSdkInfo), (''minidump'', VT_Minidump), (''heap_memory'', VT_HeapMemory),
      (''stack_memory'', VT_StackMemory)]"

definition value_type_from_str :: "string \<Rightarrow> value_type option" where
  "value_type_from_str s = map_of value_type_names s"

interpretation value_types: str_enum value_type_display value_type_from_str
proof
  fix x show "value_type_from_str (value_type_display x) = Some x"
    by (cases x) (simp_all add: value_type_from_str_def value_type_names_def)
qed

datatype pii = PII_True | PII_False | PII_Maybe

record field_attrs =
  fa_name :: "string option"
  fa_required :: bool
  fa_nonempty :: bool
  fa_trim_whitespace :: bool
  fa_max_chars :: "max_chars option"
  fa_bag_size :: "bag_size option"
  fa_pii :: pii
  fa_retain :: bool

definition field_attrs_new :: field_attrs where
  "field_attrs_new =
     \<lparr>fa_name = None, fa_required = False, fa_nonempty = False, fa_trim_whitespace = False, fa_max_chars = None,
      fa_bag_size = None, fa_pii = PII_False, fa_retain = False\<rparr>"

section \<open>Processing states\<close>

datatype path_item = StaticKey string | PathIndex nat

definition path_item_key :: "path_item \<Rightarrow> string option" where
  "path_item_key p = (case p of StaticKey s \<Rightarrow> Some s | PathIndex _ \<Rightarrow> None)"

definition path_item_index :: "path_item \<Rightarrow> nat option" where
  "path_item_index p = (case p of StaticKey _ \<Rightarrow> None | PathIndex i \<Rightarrow> Some i)"

definition path_item_display :: "path_item \<Rightarrow> string" where
  "path_item_display p = (case p of StaticKey s \<Rightarrow> s | PathIndex i \<Rightarrow> show_nat i)"

record state_node =
  sn_path_item :: "path_item option"
  sn_attrs :: "field_attrs option"
  sn_value_type :: "value_type set"
  sn_depth :: nat

type_synonym processing_state = "state_node list"

definition root_state :: processing_state where
  "root_state = [\<lparr>sn_path_item = None, sn_attrs = None, sn_value_type = {}, sn_depth = 0\<rparr>]"

definition new_root :: "field_attrs option \<Rightarrow> value_type set \<Rightarrow> processing_state" where
  "new_root attrs tys = [\<lparr>sn_path_item = None, sn_attrs = attrs, sn_value_type = tys, sn_depth = 0\<rparr>]"

definition state_depth :: "processing_state \<Rightarrow> nat" where
  "state_depth st = sn_depth (hd st)"

definition enter_item :: "path_item \<Rightarrow> field_attrs option \<Rightarrow> value_type set \<Rightarrow> processing_state \<Rightarrow> processing_state" where
  "enter_item item attrs tys st =
     \<lparr>sn_path_item = Some item, sn_attrs = attrs, sn_value_type = tys, sn_depth = state_depth st + 1\<rparr> # st"

definition enter_key :: "string \<Rightarrow> field_attrs option \<Rightarrow> value_type set \<Rightarrow> processing_state \<Rightarrow> processing_state" where
  "enter_key key = enter_item (StaticKey key)"

definition enter_index :: "nat \<Rightarrow> field_attrs option \<Rightarrow> value_type set \<Rightarrow> processing_state \<Rightarrow> processing_state" where
  "enter_index i = enter_item (PathIndex i)"

definition enter_nothing :: "field_attrs option \<Rightarrow> processing_state \<Rightarrow> processing_state" where
  "enter_nothing attrs st = (hd st)\<lparr>sn_path_item := None, sn_attrs := attrs\<rparr> # st"

definition state_attrs :: "processing_state \<Rightarrow> field_attrs" where
  "state_attrs st = (case sn_attrs (hd st) of Some a \<Rightarrow> a | None \<Rightarrow> field_attrs_new)"

definition inner_attrs :: "processing_state \<Rightarrow> field_attrs option" where
  "inner_attrs st =
     (case fa_pii (state_attrs st) of
        PII_True \<Rightarrow> Some (field_attrs_new\<lparr>fa_pii := PII_True\<rparr>)
      | PII_False \<Rightarrow> None
      | PII_Maybe \<Rightarrow> Some (field_attrs_new\<lparr>fa_pii := PII_Maybe\<rparr>))"

definition entered_anything :: "processing_state \<Rightarrow> bool" where
  "entered_anything st = (case st of s # parent # _ \<Rightarrow> sn_depth parent \<noteq> sn_depth s | _ \<Rightarrow> True)"

text \<open>\<open>ProcessingState::iter\<close>: the state and all its ancestors.\<close>

fun state_iter :: "processing_state \<Rightarrow> processing_state list" where
  "state_iter [] = []"
| "state_iter (s # st) = (s # st) # state_iter st"

fun state_path_item :: "processing_state \<Rightarrow> path_item option" where
  "state_path_item [] = None"
| "state_path_item (s # st) = (case sn_path_item s of Some p \<Rightarrow> Some p | None \<Rightarrow> state_path_item st)"

definition path_key :: "processing_state \<Rightarrow> string option" where
  "path_key st = Option.bind (state_path_item st) path_item_key"

definition path_index :: "processing_state \<Rightarrow> nat option" where
  "path_index st = Option.bind (state_path_item st) path_item_index"

definition path_display :: "processing_state \<Rightarrow> string" where
  "path_display st = join_with ''.'' (map path_item_display (rev (List.map_filter sn_path_item st)))"

section \<open>Selectors\<close>

datatype selector_path_item = SP_Type value_type | SP_Index nat | SP_Key string | SP_Wildcard | SP_DeepWildcard

datatype selector_spec =
    Sel_And "selector_spec list" | Sel_Or "selector_spec list" | Sel_Not selector_spec
  | Sel_Path "selector_path_item list"

definition basic_value_type :: "value_type \<Rightarrow> bool" where
  "basic_value_type ty \<longleftrightarrow>
     ty \<in> {VT_String, VT_Binary, VT_Number, VT_Boolean, VT_DateTime, VT_Array, VT_Object}"

definition matches_state ::
  "(string \<Rightarrow> string) \<Rightarrow> selector_path_item \<Rightarrow> pii \<Rightarrow> nat \<Rightarrow> processing_state \<Rightarrow> bool" where
  "matches_state lower item pii i st =
     (case (item, pii) of
        (_, PII_False) \<Rightarrow> False
      | (SP_Wildcard, _) \<Rightarrow> True
      | (SP_DeepWildcard, PII_True) \<Rightarrow> True
      | (SP_DeepWildcard, PII_Maybe) \<Rightarrow> False
      | (SP_Type ty, PII_True) \<Rightarrow> ty \<in> sn_value_type (hd st)
      | (SP_Type ty, PII_Maybe) \<Rightarrow> ty \<in> sn_value_type (hd st) \<and> \<not> basic_value_type ty \<and> i = 0
      | (SP_Index idx, _) \<Rightarrow> path_index st = Some idx
      | (SP_Key key, _) \<Rightarrow> (case path_key st of Some k \<Rightarrow> lower k = lower key | None \<Rightarrow> False))"

text \<open>
  The loop from the current state towards the root: it fails, it ends with a match, or it reaches a deep
  wildcard with the states and selector items that remain.
\<close>

datatype fast_result = Fast_Done bool | Fast_Deep "processing_state list" "(nat \<times> selector_path_item) list"

fun fast_path ::
  "(string \<Rightarrow> string) \<Rightarrow> pii \<Rightarrow> processing_state list \<Rightarrow> (nat \<times> selector_path_item) list \<Rightarrow> fast_result" where
  "fast_path lower pii [] items = Fast_Done True"
| "fast_path lower pii (st # states) [] = Fast_Done True"
| "fast_path lower pii (st # states) ((i, item) # items) =
     (if \<not> matches_state lower item pii i st then Fast_Done False
      else if item = SP_DeepWildcard then Fast_Deep states items
      else fast_path lower pii states items)"

text \<open>
  The slow path, from the root: skip to the first state that matches the first item; then the
  items that remain must match the following states and be used up.
\<close>

fun match_all ::
  "(string \<Rightarrow> string) \<Rightarrow> pii \<Rightarrow> processing_state list \<Rightarrow> (nat \<times> selector_path_item) list \<Rightarrow> bool" where
  "match_all lower pii states [] = True"
| "match_all lower pii [] (item # items) = False"
| "match_all lower pii (st # states) ((i, item) # items) =
     (matches_state lower item pii i st \<and> match_all lower pii states items)"

definition slow_path ::
  "(string \<Rightarrow> string) \<Rightarrow> pii \<Rightarrow> processing_state list \<Rightarrow> (nat \<times> selector_path_item) list \<Rightarrow> bool" where
  "slow_path lower pii remaining_states items =
     (case rev items of
        [] \<Rightarrow> remaining_states \<noteq> []
      | (i, item) # rest \<Rightarrow>
          (case dropWhile (\<lambda>st. \<not> matches_state lower item pii i st) (rev remaining_states) of
             [] \<Rightarrow> False
           | _ # states \<Rightarrow> match_all lower pii states rest))"

definition matches_path :: "(string \<Rightarrow> string) \<Rightarrow> pii \<Rightarrow> selector_path_item list \<Rightarrow> processing_state \<Rightarrow> bool" where
  "matches_path lower pii path st =
     (if length path > state_depth st then False
      else
        (case fast_path lower pii (filter entered_anything (state_iter st)) (rev (enumerate 0 path)) of
           Fast_Done b \<Rightarrow> b
         | Fast_Deep states items \<Rightarrow> slow_path lower pii states items))"

fun matches_selector :: "(string \<Rightarrow> string) \<Rightarrow> processing_state \<Rightarrow> selector_spec \<Rightarrow> bool" where
  "matches_selector lower st (Sel_Path path) =
     (if fa_pii (state_attrs st) = PII_False then False else matches_path lower (fa_pii (state_attrs st)) path st)"
| "matches_selector lower st (Sel_And xs) =
     (if fa_pii (state_attrs st) = PII_False then False else list_all (matches_selector lower st) xs)"
| "matches_selector lower st (Sel_Or xs) =
     (if fa_pii (state_attrs st) = PII_False then False else list_ex (matches_selector lower st) xs)"
| "matches_selector lower st (Sel_Not x) =
     (if fa_pii (state_attrs st) = PII_False then False else \<not> matches_selector lower st x)"

section \<open>What a match means\<close>

text \<open>States as they arise: from a root by entering fields, items and newtypes.\<close>

inductive wf_state :: "processing_state \<Rightarrow> bool" where
  root: "wf_state (new_root attrs tys)"
| item: "wf_state st \<Longrightarrow> wf_state (enter_item p attrs tys st)"
| nothing: "wf_state st \<Longrightarrow> wf_state (enter_nothing attrs st)"

text \<open>The entered states from the root to the current one.\<close>

definition entered :: "processing_state \<Rightarrow> processing_state list" where
  "entered st = rev (filter entered_anything (state_iter st))"

lemma wf_state_entered:
  assumes "wf_state st"
  shows "st \<noteq> [] \<and> length (entered st) = state_depth st + 1"
  using assms
proof induction
  case (item st p attrs tys)
  then show ?case
    by (cases st rule: list.exhaust) (auto simp: entered_def enter_item_def entered_anything_def state_depth_def)
next
  case (nothing st attrs)
  then show ?case
    by (cases st rule: list.exhaust) (auto simp: entered_def enter_nothing_def entered_anything_def state_depth_def)
qed (simp add: entered_def new_root_def entered_anything_def state_depth_def)

abbreviation item_matches ::
  "(string \<Rightarrow> string) \<Rightarrow> pii \<Rightarrow> processing_state \<Rightarrow> nat \<times> selector_path_item \<Rightarrow> bool" where
  "item_matches lower pii st p \<equiv> matches_state lower (snd p) pii (fst p) st"

definition run_matches ::
  "(string \<Rightarrow> string) \<Rightarrow> pii \<Rightarrow> processing_state list \<Rightarrow> (nat \<times> selector_path_item) list \<Rightarrow> bool" where
  "run_matches lower pii = list_all2 (item_matches lower pii)"

lemma match_all_iff:
  "match_all lower pii states items \<longleftrightarrow> (\<exists>a post. states = a @ post \<and> run_matches lower pii a items)"
proof (induction lower pii states items rule: match_all.induct)
  case (1 lower pii states)
  then show ?case by (auto simp: run_matches_def intro: exI [of _ "[]"])
next
  case (2 lower pii item items)
  then show ?case by (auto simp: run_matches_def)
next
  case (3 lower pii st states i item items)
  have "(\<exists>a post. st # states = a @ post \<and> run_matches lower pii a ((i, item) # items)) \<longleftrightarrow>
      matches_state lower item pii i st \<and> (\<exists>a post. states = a @ post \<and> run_matches lower pii a items)"
    by (auto simp: run_matches_def list_all2_Cons2 Cons_eq_append_conv)
  then show ?case using 3 by simp
qed

lemma fast_done:
  assumes "length items \<le> length states"
  shows "fast_path lower pii states items = Fast_Done True \<longleftrightarrow>
           SP_DeepWildcard \<notin> snd ` set items \<and> run_matches lower pii (take (length items) states) items"
  using assms
  by (induction lower pii states items rule: fast_path.induct) (auto simp: run_matches_def)

lemma fast_deep:
  assumes "fast_path lower pii states items = Fast_Deep ss its"
  shows "\<exists>sb s ib i. states = sb @ s # ss \<and> items = ib @ (i, SP_DeepWildcard) # its \<and>
           SP_DeepWildcard \<notin> snd ` set ib \<and> run_matches lower pii sb ib"
  using assms
proof (induction lower pii states items rule: fast_path.induct)
  case (3 lower pii st states i item items)
  show ?case
  proof (cases "item = SP_DeepWildcard")
    case True
    then have "states = ss" "items = its" using 3(2) by (auto split: if_splits)
    with True show ?thesis by (auto simp: run_matches_def intro!: exI [of _ "[]"])
  next
    case False
    then obtain sb s ib j where "states = sb @ s # ss" "items = ib @ (j, SP_DeepWildcard) # its"
        "SP_DeepWildcard \<notin> snd ` set ib" "run_matches lower pii sb ib" "matches_state lower item pii i st"
      using 3 by (auto split: if_splits)
    with False show ?thesis
      by (intro exI [of _ "st # sb"] exI [of _ s] exI [of _ "(i, item) # ib"] exI [of _ j]) (auto simp: run_matches_def)
  qed
qed auto

lemma slow_path_sound:
  assumes "slow_path lower pii ss items"
  shows "\<exists>pre a post. rev ss = pre @ a @ post \<and> run_matches lower pii a (rev items)"
proof (cases "rev items")
  case Nil
  then show ?thesis by (auto simp: run_matches_def intro: exI [of _ "[]"])
next
  case (Cons p rest)
  obtain i item where p: "p = (i, item)" by (cases p)
  let ?P = "\<lambda>st. \<not> matches_state lower item pii i st"
  obtain s states where d: "dropWhile ?P (rev ss) = s # states" "match_all lower pii states rest"
  proof -
    have "case dropWhile ?P (rev ss) of [] \<Rightarrow> False | _ # states \<Rightarrow> match_all lower pii states rest"
      using assms by (simp add: slow_path_def Cons p)
    then show ?thesis using that by (cases "dropWhile ?P (rev ss)") auto
  qed
  have "matches_state lower item pii i s" using d(1) by (auto simp: dropWhile_eq_Cons_conv)
  moreover obtain a post where "states = a @ post" "run_matches lower pii a rest"
    using d(2) by (auto simp: match_all_iff)
  moreover have "rev ss = takeWhile ?P (rev ss) @ s # states"
    using takeWhile_dropWhile_id [of ?P "rev ss"] by (simp add: d(1))
  ultimately have "rev ss = takeWhile ?P (rev ss) @ (s # a) @ post \<and> run_matches lower pii (s # a) (rev items)"
    using Cons p by (auto simp: run_matches_def)
  then show ?thesis by blast
qed

text \<open>
  The meaning of a path: without a deep wildcard its items match the last states of the path; with one,
  the items behind it match the last states and those before it a run of states further up.
\<close>

definition path_meaning ::
  "(string \<Rightarrow> string) \<Rightarrow> pii \<Rightarrow> selector_path_item list \<Rightarrow> processing_state list \<Rightarrow> bool" where
  "path_meaning lower pii path states \<longleftrightarrow>
     (let items = enumerate 0 path in
      if SP_DeepWildcard \<notin> set path then \<exists>pre a. states = pre @ a \<and> run_matches lower pii a items
      else \<exists>pre a mid b above below i.
             items = above @ (i, SP_DeepWildcard) # below \<and> SP_DeepWildcard \<notin> snd ` set below \<and>
             states = pre @ a @ mid @ b \<and> mid \<noteq> [] \<and>
             run_matches lower pii a above \<and> run_matches lower pii b below)"

lemma snd_enumerate: "snd ` set (enumerate n xs) = set xs"
  by (induction xs arbitrary: n) auto

lemma run_matches_rev: "run_matches lower pii (rev a) (rev b) \<longleftrightarrow> run_matches lower pii a b"
  by (simp add: run_matches_def)


definition example_state :: "(string \<times> value_type set) list \<Rightarrow> processing_state" where
  "example_state path =
     foldl (\<lambda>st (key, tys). enter_key key (Some (field_attrs_new\<lparr>fa_pii := PII_True\<rparr>)) tys st)
       (new_root None {VT_Event}) path"

lemma example_state_wf: "wf_state (example_state path)"
proof -
  have "wf_state st \<Longrightarrow> wf_state (foldl (\<lambda>st (key, tys). enter_key key attrs tys st) st path)" for st attrs
    by (induction path arbitrary: st) (auto simp: enter_key_def intro: wf_state.item)
  then show ?thesis unfolding example_state_def by (blast intro: wf_state.root)
qed


text \<open>
  With a deep wildcard a field can be missed: only the first state that matches the first item of
  the path is tried.
\<close>

lemma deep_wildcard_misses:
  defines "st \<equiv> example_state [(''a'', {VT_Object}), (''b'', {VT_Object}), (''foo'', {}), (''y'', {}), (''x'', {})]"
    and "path \<equiv> [SP_Type VT_Object, SP_Key ''foo'', SP_DeepWildcard, SP_Key ''x'']"
  shows "path_meaning id PII_True path (entered st) \<and> \<not> matches_path id PII_True path st"
proof
  note evals = st_def path_def example_state_def enter_key_def enter_item_def new_root_def state_depth_def
    entered_anything_def matches_state_def path_key_def path_item_key_def
  show "\<not> matches_path id PII_True path st"
    by (simp add: matches_path_def evals slow_path_def)
  let ?E = "entered st"
  have "enumerate 0 path = take 2 (enumerate 0 path) @ (2, SP_DeepWildcard) # drop 3 (enumerate 0 path)"
    by (simp add: path_def numeral_2_eq_2 numeral_3_eq_3)
  moreover have "?E = take 2 ?E @ take 2 (drop 2 ?E) @ [?E ! 4] @ drop 5 ?E"
    by (simp add: entered_def evals eval_nat_numeral)
  moreover have "run_matches id PII_True (take 2 (drop 2 ?E)) (take 2 (enumerate 0 path))"
      "run_matches id PII_True (drop 5 ?E) (drop 3 (enumerate 0 path))"
    by (simp_all add: entered_def run_matches_def evals eval_nat_numeral)
  moreover have "SP_DeepWildcard \<notin> snd ` set (drop 3 (enumerate 0 path))" "SP_DeepWildcard \<in> set path"
    by (simp_all add: path_def numeral_3_eq_3)
  ultimately show "path_meaning id PII_True path (entered st)"
    unfolding path_meaning_def Let_def by (metis not_Cons_self2)
qed

text \<open>A field that is not to be scrubbed matches no selector, not even a negated one.\<close>

lemma pii_false_never_matches: "fa_pii (state_attrs st) = PII_False \<Longrightarrow> \<not> matches_selector lower st sel"
  by (cases sel) simp_all

end
