(* ===== verification/Transactions.thy ===== *)
theory Transactions
  imports Event_Extraction Annotated_Values
begin

text \<open>
  Transactions in the store normalization of \<open>relay-general\<close>: the validation of
  \<open>store/transactions.rs\<close> and the breakdowns of \<open>store/normalize/breakdowns.rs\<close>, with the fields of
  spans (\<open>protocol/span.rs\<close>), trace contexts and breakdowns that they use. The iteration order of a
  \<open>HashMap\<close> is an argument; the unstable sort is represented by a stable one.
\<close>

section \<open>The data\<close>

record 'r span =
  sp_timestamp :: "date_time option"
  sp_start_timestamp :: "date_time option"
  sp_op :: "string option"
  sp_span_id :: "string option"
  sp_trace_id :: "string option"
  sp_other :: 'r

record 'r trace_info =
  tri_trace_id :: "string option"
  tri_span_id :: "string option"
  tri_op :: "string option"
  tri_other :: 'r

datatype 'r event_context = Ctx_Trace "'r trace_info" | Ctx_Other 'r

record 'r tx_event = "'r full_event" +
  te_transaction :: "string option"
  te_start_timestamp :: "date_time option"
  te_contexts :: "(string, 'r event_context option) btree_map option"
  te_spans :: "'r span option list option"

section \<open>Validation\<close>

definition or_default :: "string option \<Rightarrow> string option" where
  "or_default op = Some (case op of Some s \<Rightarrow> s | None \<Rightarrow> ''default'')"

definition process_span :: "'r span \<Rightarrow> processing_action + 'r span" where
  "process_span s =
     (case (sp_start_timestamp s, sp_timestamp s) of
        (_, None) \<Rightarrow> Inl (InvalidTransaction ''span is missing timestamp'')
      | (None, Some _) \<Rightarrow> Inl (InvalidTransaction ''span is missing start_timestamp'')
      | (Some start, Some end) \<Rightarrow>
          if end < start then Inl (InvalidTransaction ''end timestamp in span is smaller than start timestamp'')
          else if sp_trace_id s = None then Inl (InvalidTransaction ''span is missing trace_id'')
          else if sp_span_id s = None then Inl (InvalidTransaction ''span is missing span_id'')
          else Inr (s\<lparr>sp_op := or_default (sp_op s)\<rparr>))"

fun process_spans :: "'r span option list \<Rightarrow> processing_action + 'r span option list" where
  "process_spans [] = Inr []"
| "process_spans (None # spans) = try_op (process_spans spans) (\<lambda>spans'. Inr (None # spans'))"
| "process_spans (Some s # spans) =
     try_op (process_span s) (\<lambda>s'. try_op (process_spans spans) (\<lambda>spans'. Inr (Some s' # spans')))"

definition check_trace_context ::
  "('r event_context option) option \<Rightarrow> processing_action + 'r trace_info" where
  "check_trace_context ctx =
     (case ctx of
        Some (Some (Ctx_Trace tc)) \<Rightarrow>
          if tri_trace_id tc = None then Inl (InvalidTransaction ''trace context is missing trace_id'')
          else if tri_span_id tc = None then Inl (InvalidTransaction ''trace context is missing span_id'')
          else Inr (tc\<lparr>tri_op := or_default (tri_op tc)\<rparr>)
      | Some (Some (Ctx_Other _)) \<Rightarrow> Inl (InvalidTransaction ''context at event.contexts.trace must be of type trace.'')
      | _ \<Rightarrow> Inl (InvalidTransaction ''trace context hard-required for transaction events''))"

definition check_timestamps :: "date_time option \<Rightarrow> date_time option \<Rightarrow> processing_action + unit" where
  "check_timestamps start timestamp =
     (case (start, timestamp) of
        (_, None) \<Rightarrow> Inl (InvalidTransaction ''timestamp hard-required for transaction events'')
      | (None, Some _) \<Rightarrow> Inl (InvalidTransaction ''start_timestamp hard-required for transaction events'')
      | (Some s, Some e) \<Rightarrow>
          if e < s then Inl (InvalidTransaction ''end timestamp is smaller than start timestamp'') else Inr ())"

definition unlabeled :: "string option \<Rightarrow> string option" where
  "unlabeled name = (case name of Some (c # cs) \<Rightarrow> Some (c # cs) | _ \<Rightarrow> Some ''<unlabeled transaction>'')"

definition process_transaction :: "'r tx_event \<Rightarrow> processing_action + 'r tx_event" where
  "process_transaction ev =
     (if ev_ty ev \<noteq> Some ET_Transaction then Inr ev
      else
        try_op (check_timestamps (te_start_timestamp ev) (fe_timestamp ev)) (\<lambda>_.
        try_op (check_trace_context (Option.bind (te_contexts ev) (\<lambda>cs. bt_get cs ''trace''))) (\<lambda>tc.
          let contexts = map_option (map (\<lambda>(k, v). (k, if k = ''trace'' then Some (Ctx_Trace tc) else v))) (te_contexts ev);
              spans = (case te_spans ev of Some spans \<Rightarrow> spans | None \<Rightarrow> [])
          in if None \<in> set spans then Inl (InvalidTransaction ''spans must be valid in transaction event'')
             else try_op (process_spans spans) (\<lambda>spans'.
               Inr (ev\<lparr>te_transaction := unlabeled (te_transaction ev), te_contexts := contexts, te_spans := Some spans'\<rparr>)))))"

section \<open>What is accepted\<close>

definition valid_span :: "'r span \<Rightarrow> bool" where
  "valid_span s \<longleftrightarrow>
     (case (sp_start_timestamp s, sp_timestamp s) of (Some start, Some end) \<Rightarrow> start \<le> end | _ \<Rightarrow> False) \<and>
     sp_trace_id s \<noteq> None \<and> sp_span_id s \<noteq> None"

definition valid_transaction :: "'r tx_event \<Rightarrow> bool" where
  "valid_transaction ev \<longleftrightarrow>
     (case (te_start_timestamp ev, fe_timestamp ev) of (Some start, Some end) \<Rightarrow> start \<le> end | _ \<Rightarrow> False) \<and>
     (\<exists>tc. Option.bind (te_contexts ev) (\<lambda>cs. bt_get cs ''trace'') = Some (Some (Ctx_Trace tc)) \<and>
        tri_trace_id tc \<noteq> None \<and> tri_span_id tc \<noteq> None) \<and>
     (\<forall>s \<in> set (case te_spans ev of Some spans \<Rightarrow> spans | None \<Rightarrow> []). \<exists>s'. s = Some s' \<and> valid_span s')"

lemma process_span_exact:
  "process_span s = Inr s' \<longleftrightarrow> valid_span s \<and> s' = s\<lparr>sp_op := or_default (sp_op s)\<rparr>"
  by (auto simp: process_span_def valid_span_def split: option.splits if_splits)

lemma process_spans_exact:
  "None \<notin> set spans \<Longrightarrow>
   process_spans spans = Inr spans' \<longleftrightarrow>
     (\<forall>s \<in> set spans. valid_span (the s)) \<and> spans' = map (map_option (\<lambda>s. s\<lparr>sp_op := or_default (sp_op s)\<rparr>)) spans"
  by (induction spans arbitrary: spans' rule: process_spans.induct) (auto simp: try_op_Inr process_span_exact)

lemma process_span_rejects: "process_span s = Inl err \<Longrightarrow> \<exists>reason. err = InvalidTransaction reason"
  by (auto simp: process_span_def split: option.splits if_splits)

lemma process_spans_rejects: "process_spans spans = Inl err \<Longrightarrow> \<exists>reason. err = InvalidTransaction reason"
  by (induction spans rule: process_spans.induct) (auto simp: try_op_def split: sum.splits dest: process_span_rejects)

lemma checks_reject:
  "check_timestamps start timestamp = Inl err \<Longrightarrow> \<exists>reason. err = InvalidTransaction reason"
  "check_trace_context ctx = Inl err \<Longrightarrow> \<exists>reason. err = InvalidTransaction reason"
  by (auto simp: check_timestamps_def check_trace_context_def split: option.splits event_context.splits if_splits)

lemma check_timestamps_exact:
  "check_timestamps start timestamp = Inr u \<longleftrightarrow>
     (case (start, timestamp) of (Some s, Some e) \<Rightarrow> s \<le> e | _ \<Rightarrow> False)"
  by (auto simp: check_timestamps_def split: option.splits)

lemma check_trace_context_exact:
  "check_trace_context ctx = Inr tc' \<longleftrightarrow>
     (\<exists>tc. ctx = Some (Some (Ctx_Trace tc)) \<and> tri_trace_id tc \<noteq> None \<and> tri_span_id tc \<noteq> None \<and>
        tc' = tc\<lparr>tri_op := or_default (tri_op tc)\<rparr>)"
  by (auto simp: check_trace_context_def split: option.splits event_context.splits if_splits)


section \<open>Time windows\<close>

record time_window =
  tw_start :: date_time
  tw_end :: date_time

definition time_window_new :: "date_time \<Rightarrow> date_time \<Rightarrow> time_window" where
  "time_window_new start end =
     (if end < start then \<lparr>tw_start = end, tw_end = start\<rparr> else \<lparr>tw_start = start, tw_end = end\<rparr>)"

fun f64_abs :: "f64 \<Rightarrow> f64" where
  "f64_abs (F64_Fin s m e) = F64_Fin False m e"
| "f64_abs (F64_Inf s) = F64_Inf False"
| "f64_abs F64_NaN = F64_NaN"

text \<open>Nanoseconds since the epoch are 64 bits wide, and the release build wraps.\<close>

definition timestamp_nanos :: "date_time \<Rightarrow> 64 word" where
  "timestamp_nanos t = word_of_int t"

definition f64_of_i64 :: "64 word \<Rightarrow> f64" where
  "f64_of_i64 n = f64_round (sint n < 0) (nat \<bar>sint n\<bar>) 0"

definition get_duration :: "time_window \<Rightarrow> f64" where
  "get_duration w =
     f64_abs (f64_div (f64_of_i64 (timestamp_nanos (tw_end w) - timestamp_nanos (tw_start w))) (f64_of_nat 1000000))"

fun time_spent_loop :: "time_window option \<Rightarrow> f64 \<Rightarrow> time_window list \<Rightarrow> time_window option \<times> f64" where
  "time_spent_loop previous spent [] = (previous, spent)"
| "time_spent_loop None spent (current # rest) = time_spent_loop (Some current) spent rest"
| "time_spent_loop (Some prev) spent (current # rest) =
     (if tw_end prev < tw_start current
      then time_spent_loop (Some current) (f64_add spent (get_duration prev)) rest
      else time_spent_loop (Some (prev\<lparr>tw_end := max (tw_end prev) (tw_end current)\<rparr>)) spent rest)"

definition get_op_time_spent :: "time_window list \<Rightarrow> f64 option" where
  "get_op_time_spent intervals =
     (if intervals = [] then None
      else
        Some (case time_spent_loop None f64_zero (sort_key tw_start intervals) of
                (Some prev, spent) \<Rightarrow> f64_add spent (get_duration prev)
              | (None, spent) \<Rightarrow> spent))"

section \<open>Breakdowns\<close>

datatype operation_breakdown = Emit string | DoNotEmit string

definition span_cover :: "string list \<Rightarrow> 'r span option \<Rightarrow> (operation_breakdown \<times> time_window) option" where
  "span_cover matches span =
     (case span of
        None \<Rightarrow> None
      | Some s \<Rightarrow>
          (case (sp_op s, sp_start_timestamp s, sp_timestamp s) of
             (Some op, Some start, Some end) \<Rightarrow>
               Some (case List.find (\<lambda>maybe. starts_with maybe op) matches of
                       None \<Rightarrow> DoNotEmit op
                     | Some name \<Rightarrow> Emit name,
                     time_window_new start end)
           | _ \<Rightarrow> None))"

text \<open>The windows per operation, in order of the spans.\<close>

definition span_intervals :: "string list \<Rightarrow> 'r span option list \<Rightarrow> operation_breakdown \<Rightarrow> time_window list" where
  "span_intervals matches spans op =
     map snd (filter (\<lambda>(op', w). op' = op) (List.map_filter (span_cover matches) spans))"

definition op_breakdown_name :: "string \<Rightarrow> string" where
  "op_breakdown_name name = ''ops.'' @ name"

text \<open>
  \<open>order\<close> is the order in which the map of intervals is traversed; it holds each operation of the
  map once.
\<close>

definition breakdown_step ::
  "(operation_breakdown \<Rightarrow> time_window list) \<Rightarrow> operation_breakdown \<Rightarrow>
   (string, f64 option) btree_map \<times> f64 \<Rightarrow> (string, f64 option) btree_map \<times> f64" where
  "breakdown_step intervals op acc =
     (case acc of (breakdown, time_spent) \<Rightarrow>
        (case get_op_time_spent (intervals op) of
           None \<Rightarrow> (breakdown, time_spent)
         | Some spent \<Rightarrow>
             (case op of
                DoNotEmit _ \<Rightarrow> (breakdown, f64_add time_spent spent)
              | Emit name \<Rightarrow> (bt_insert str_le (op_breakdown_name name) (Some spent) breakdown, f64_add time_spent spent))))"

definition emit_breakdowns ::
  "(operation_breakdown list \<Rightarrow> operation_breakdown list) \<Rightarrow> string list \<Rightarrow> 'r tx_event \<Rightarrow>
   (string, f64 option) btree_map option" where
  "emit_breakdowns order matches ev =
     (case te_spans ev of
        None \<Rightarrow> None
      | Some spans \<Rightarrow>
          let ops = remdups (map fst (List.map_filter (span_cover matches) spans))
          in if matches = [] \<or> ops = [] then None
             else
               (case fold (breakdown_step (span_intervals matches spans)) (order ops) ([], f64_zero) of
                  (breakdown, time_spent) \<Rightarrow> Some (bt_insert str_le ''total.time'' (Some time_spent) breakdown)))"

datatype breakdown_config = SpanOperations "string list" | Unsupported

definition config_emit_breakdowns ::
  "(operation_breakdown list \<Rightarrow> operation_breakdown list) \<Rightarrow> breakdown_config \<Rightarrow> 'r tx_event \<Rightarrow>
   (string, f64 option) btree_map option" where
  "config_emit_breakdowns order c ev =
     (case c of SpanOperations matches \<Rightarrow> emit_breakdowns order matches ev | Unsupported \<Rightarrow> None)"

definition is_valid_breakdown_name :: "string \<Rightarrow> bool" where
  "is_valid_breakdown_name name \<longleftrightarrow>
     name \<noteq> [] \<and> is_ascii_alphabetic (hd name) \<and>
     list_all (\<lambda>c. is_ascii_alphabetic c \<or> is_digit c \<or> c = CHR ''-'' \<or> c = CHR ''_'' \<or> c = CHR ''.'') name"

text \<open>The configuration is given in the order in which its map is traversed.\<close>

definition normalize_breakdowns ::
  "(operation_breakdown list \<Rightarrow> operation_breakdown list) \<Rightarrow> (string \<times> breakdown_config) list \<Rightarrow> 'r tx_event \<Rightarrow> 'r tx_event" where
  "normalize_breakdowns order c ev =
     fold (\<lambda>(name, bc) ev.
       if \<not> is_valid_breakdown_name name then ev
       else
         (case config_emit_breakdowns order bc ev of
            None \<Rightarrow> ev
          | Some breakdown \<Rightarrow>
              if breakdown = [] then ev
              else
                let extend = (\<lambda>ms. fold (\<lambda>(k, v). bt_insert str_le k v) breakdown ms);
                    breakdowns = (case fe_breakdowns ev of Some bds \<Rightarrow> bds | None \<Rightarrow> [])
                in ev\<lparr>fe_breakdowns := Some (bt_upsert str_le name
                        (\<lambda>old. Some (extend (case old of Some ms \<Rightarrow> ms | None \<Rightarrow> []))) (Some (extend [])) breakdowns)\<rparr>)) c ev"

section \<open>Time spent\<close>

text \<open>The windows of the loop, with those that touch merged.\<close>

fun merge_windows :: "time_window \<Rightarrow> time_window list \<Rightarrow> time_window list" where
  "merge_windows prev [] = [prev]"
| "merge_windows prev (current # rest) =
     (if tw_end prev < tw_start current then prev # merge_windows current rest
      else merge_windows (prev\<lparr>tw_end := max (tw_end prev) (tw_end current)\<rparr>) rest)"

definition window_set :: "time_window \<Rightarrow> date_time set" where
  "window_set w = {tw_start w..<tw_end w}"

definition window_ok :: "time_window \<Rightarrow> bool" where
  "window_ok w \<longleftrightarrow> tw_start w \<le> tw_end w"

definition total_duration :: "f64 \<Rightarrow> time_window list \<Rightarrow> f64" where
  "total_duration spent ws = foldl (\<lambda>spent w. f64_add spent (get_duration w)) spent ws"

lemma time_spent_loop_merge:
  "\<exists>prev' spent'. time_spent_loop (Some prev) spent ws = (Some prev', spent') \<and>
     f64_add spent' (get_duration prev') = total_duration spent (merge_windows prev ws)"
  by (induction prev ws arbitrary: spent rule: merge_windows.induct) (simp_all add: total_duration_def)

lemma merge_windows_props:
  assumes "sorted (map tw_start (prev # ws))" and "\<forall>w \<in> set (prev # ws). window_ok w"
  shows "sorted_wrt (\<lambda>a b. tw_end a < tw_start b) (merge_windows prev ws) \<and>
    (\<forall>w \<in> set (merge_windows prev ws). window_ok w \<and> tw_start prev \<le> tw_start w) \<and>
    (\<Union>w \<in> set (merge_windows prev ws). window_set w) = (\<Union>w \<in> set (prev # ws). window_set w)"
  using assms
proof (induction prev ws rule: merge_windows.induct)
  case (2 prev current rest)
  show ?case
  proof (cases "tw_end prev < tw_start current")
    case True
    have "sorted (map tw_start (current # rest))" "\<forall>w \<in> set (current # rest). window_ok w" using "2.prems" by auto
    note IH = "2.IH"(1) [OF True this]
    have "tw_end prev < tw_start w" if "w \<in> set (merge_windows current rest)" for w using IH True that by fastforce
    then show ?thesis using IH True "2.prems" by auto
  next
    case False
    let ?p = "prev\<lparr>tw_end := max (tw_end prev) (tw_end current)\<rparr>"
    have "sorted (map tw_start (?p # rest))" "\<forall>w \<in> set (?p # rest). window_ok w"
      using "2.prems" by (auto simp: window_ok_def)
    note IH = "2.IH"(2) [OF False this]
    have "window_set ?p = window_set prev \<union> window_set current"
      using False "2.prems" by (auto simp: window_set_def window_ok_def)
    then show ?thesis using IH False by auto
  qed
qed (simp add: window_ok_def)

lemma separated_card:
  "sorted_wrt (\<lambda>a b. tw_end a < tw_start b) ws \<Longrightarrow> \<forall>w \<in> set ws. window_ok w \<Longrightarrow>
   (\<Sum>w \<leftarrow> ws. tw_end w - tw_start w) = int (card (\<Union>w \<in> set ws. window_set w))"
proof (induction ws)
  case (Cons w ws)
  have disj: "window_set w \<inter> (\<Union>w \<in> set ws. window_set w) = {}"
    using Cons.prems by (auto simp: window_set_def)
  have "card (\<Union>w \<in> set (w # ws). window_set w) = card (window_set w) + card (\<Union>w \<in> set ws. window_set w)"
    using disj by (simp add: card_Un_disjoint window_set_def)
  then show ?case using Cons by (simp add: window_set_def window_ok_def)
qed simp

lemma op_time_spent_windows:
  assumes "intervals \<noteq> []" and "\<forall>w \<in> set intervals. window_ok w"
  shows "\<exists>ws. get_op_time_spent intervals = Some (total_duration f64_zero ws) \<and>
    sorted_wrt (\<lambda>a b. tw_end a < tw_start b) ws \<and> (\<Union>w \<in> set ws. window_set w) = (\<Union>w \<in> set intervals. window_set w) \<and>
    (\<Sum>w \<leftarrow> ws. tw_end w - tw_start w) = int (card (\<Union>w \<in> set intervals. window_set w))"
proof -
  obtain prev rest where s: "sort_key tw_start intervals = prev # rest"
    using assms(1) by (cases "sort_key tw_start intervals") (auto dest: arg_cong [where f = length])
  let ?ws = "merge_windows prev rest"
  have set: "set (prev # rest) = set intervals" by (metis s set_sort)
  have "sorted (map tw_start (prev # rest))" by (metis s sorted_sort_key)
  then have props: "sorted_wrt (\<lambda>a b. tw_end a < tw_start b) ?ws" "\<forall>w \<in> set ?ws. window_ok w"
      "(\<Union>w \<in> set ?ws. window_set w) = (\<Union>w \<in> set intervals. window_set w)"
    using merge_windows_props [of prev rest] assms(2) unfolding set by blast+
  have "get_op_time_spent intervals = Some (total_duration f64_zero ?ws)"
    using time_spent_loop_merge [of prev f64_zero rest] assms(1) by (auto simp: get_op_time_spent_def s)
  then show ?thesis using props separated_card [OF props(1,2)] by (intro exI [of _ ?ws]) simp
qed

lemma span_cover_ok: "span_cover matches s = Some (op, w) \<Longrightarrow> window_ok w"
  by (auto simp: span_cover_def time_window_new_def window_ok_def split: option.splits if_splits)

lemma span_intervals_ok:
  assumes "w \<in> set (span_intervals matches spans op)"
  shows "window_ok w"
proof -
  have "(op, w) \<in> set (List.map_filter (span_cover matches) spans)" using assms by (auto simp: span_intervals_def)
  then have "\<exists>s \<in> set spans. span_cover matches s = Some (op, w)"
    by (induction spans) (auto simp: map_filter_simps split: option.splits)
  then show ?thesis using span_cover_ok by blast
qed

lemma span_intervals_op:
  "op \<in> set (map fst (List.map_filter (span_cover matches) spans)) \<longleftrightarrow> span_intervals matches spans op \<noteq> []"
  by (force simp: span_intervals_def filter_empty_conv)

lemma breakdown_fold:
  assumes "distinct ops" and "bt_inv str_le b" and "\<forall>op \<in> set ops. intervals op \<noteq> []"
  shows "bt_inv str_le (fst (fold (breakdown_step intervals) ops (b, t))) \<and>
    bt_get (fst (fold (breakdown_step intervals) ops (b, t))) (op_breakdown_name name) =
      (if Emit name \<in> set ops then Some (get_op_time_spent (intervals (Emit name))) else bt_get b (op_breakdown_name name))"
  using assms
proof (induction ops arbitrary: b t)
  case (Cons op ops)
  obtain spent where spent: "get_op_time_spent (intervals op) = Some spent"
    using Cons.prems(3) by (auto simp: get_op_time_spent_def)
  show ?case
  proof (cases op)
    case (Emit n)
    have "bt_inv str_le (bt_insert str_le (op_breakdown_name n) (Some spent) b)"
      using Cons.prems(2) by (rule str_keys.bt_insert_inv)
    note IH = Cons.IH [OF _ this, of "f64_add t spent"]
    have step: "breakdown_step intervals (Emit n) (b, t) = (bt_insert str_le (op_breakdown_name n) (Some spent) b, f64_add t spent)"
      using spent by (simp add: breakdown_step_def Emit)
    have get: "bt_get (bt_insert str_le (op_breakdown_name n) (Some spent) b) (op_breakdown_name name) =
        (if name = n then Some (Some spent) else bt_get b (op_breakdown_name name))"
      by (subst str_keys.bt_insert_get [OF Cons.prems(2)]) (auto simp: op_breakdown_name_def)
    have "Emit n \<notin> set ops" "distinct ops" "\<forall>op \<in> set ops. intervals op \<noteq> []" using Cons.prems Emit by auto
    then show ?thesis using IH get spent Emit by (cases "name = n") (simp_all add: step)
  next
    case (DoNotEmit n)
    then show ?thesis using Cons.IH [OF _ Cons.prems(2), of "f64_add t spent"] Cons.prems spent by (simp add: breakdown_step_def)
  qed
qed simp

text \<open>C27: operation breakdowns measure the time covered by spans. The entry of a configured operation exists exactly if
  some complete span has it as its first matching prefix; its value adds up the durations of pairwise separated
  time windows whose union is the time covered by those spans, so that overlapping spans count once: in
  nanoseconds, the windows add up to the size of the union. The order in which maps are traversed does not
  matter.\<close>

theorem span_breakdowns_exact:
  assumes "emit_breakdowns order matches ev = Some b" and "te_spans ev = Some spans"
    and "\<And>ops. distinct ops \<Longrightarrow> distinct (order ops) \<and> set (order ops) = set ops"
  shows "if span_intervals matches spans (Emit name) = [] then bt_get b (op_breakdown_name name) = None
    else \<exists>ws. bt_get b (op_breakdown_name name) = Some (Some (total_duration f64_zero ws)) \<and>
      sorted_wrt (\<lambda>a b. tw_end a < tw_start b) ws \<and>
      (\<Union>w \<in> set ws. window_set w) = (\<Union>w \<in> set (span_intervals matches spans (Emit name)). window_set w) \<and>
      (\<Sum>w \<leftarrow> ws. tw_end w - tw_start w) =
        int (card (\<Union>w \<in> set (span_intervals matches spans (Emit name)). window_set w))"
proof -
  let ?ops = "remdups (map fst (List.map_filter (span_cover matches) spans))"
  let ?iv = "span_intervals matches spans"
  define os where "os = order ?ops"
  define r where "r = fold (breakdown_step ?iv) os ([], f64_zero)"
  have b: "b = bt_insert str_le ''total.time'' (Some (snd r)) (fst r)"
    using assms(1,2) by (auto simp: emit_breakdowns_def r_def os_def Let_def split: if_splits prod.splits)
  have "distinct os" "set os = set (map fst (List.map_filter (span_cover matches) spans))"
    using assms(3) [of ?ops] by (simp_all add: os_def)
  then have os: "distinct os" "op \<in> set os \<longleftrightarrow> ?iv op \<noteq> []" for op using span_intervals_op by metis+
  have "\<forall>op \<in> set os. ?iv op \<noteq> []" using os(2) by blast
  note fold = breakdown_fold [OF os(1) bt_inv_Nil this, where t = f64_zero and name = name, folded r_def, unfolded os(2)]
  have get: "bt_get b (op_breakdown_name name) = bt_get (fst r) (op_breakdown_name name)"
    unfolding b by (subst str_keys.bt_insert_get [OF conjunct1 [OF fold]]) (simp add: op_breakdown_name_def)
  show ?thesis
  proof (cases "?iv (Emit name) = []")
    case True
    then show ?thesis using get conjunct2 [OF fold] by (simp add: bt_get_def)
  next
    case False
    obtain ws where ws: "get_op_time_spent (?iv (Emit name)) = Some (total_duration f64_zero ws)"
        "sorted_wrt (\<lambda>a b. tw_end a < tw_start b) ws"
        "(\<Union>w \<in> set ws. window_set w) = (\<Union>w \<in> set (?iv (Emit name)). window_set w)"
        "(\<Sum>w \<leftarrow> ws. tw_end w - tw_start w) = int (card (\<Union>w \<in> set (?iv (Emit name)). window_set w))"
      using op_time_spent_windows [OF False] span_intervals_ok by blast
    have "bt_get b (op_breakdown_name name) = Some (Some (total_duration f64_zero ws))"
      using get conjunct2 [OF fold] False ws(1) by simp
    then show ?thesis using False ws(2-4) by (simp only: if_False) blast
  qed
qed

section \<open>Examples\<close>

definition example_span :: "date_time \<Rightarrow> date_time \<Rightarrow> unit span" where
  "example_span start end =
     \<lparr>sp_timestamp = Some end, sp_start_timestamp = Some start, sp_op = Some ''db.query'', sp_span_id = Some ''a'',
      sp_trace_id = Some ''b'', sp_other = ()\<rparr>"

definition example_tx_event :: "unit tx_event" where
  "example_tx_event =
     full_event.extend (event.extend (event.truncate (event_default ())) (full_event.fields (Some 9) [] None None None None None ()))
       (tx_event.fields None (Some 0) None (Some [Some (example_span 0 5), None, Some (example_span 3 8)]))"

theorem span_breakdowns_exact_witness:
  "\<exists>b ws. emit_breakdowns (\<lambda>ops. ops) [''db''] example_tx_event = Some b \<and>
     bt_get b (op_breakdown_name ''db'') = Some (Some (total_duration f64_zero ws)) \<and> (\<Sum>w \<leftarrow> ws. tw_end w - tw_start w) = 8"
proof -
  let ?spans = "[Some (example_span 0 5), None, Some (example_span 3 8)]"
  have spans: "te_spans example_tx_event = Some ?spans"
    by (simp add: example_tx_event_def tx_event.defs full_event.defs)
  have cover: "List.map_filter (span_cover [''db'']) ?spans =
      [(Emit ''db'', \<lparr>tw_start = 0, tw_end = 5\<rparr>), (Emit ''db'', \<lparr>tw_start = 3, tw_end = 8\<rparr>)]"
    by (simp add: span_cover_def example_span_def starts_with_def time_window_new_def map_filter_simps)
  then have iv: "span_intervals [''db''] ?spans (Emit ''db'') = [\<lparr>tw_start = 0, tw_end = 5\<rparr>, \<lparr>tw_start = 3, tw_end = 8\<rparr>]"
    by (simp add: span_intervals_def)
  have "emit_breakdowns (\<lambda>ops. ops) [''db''] example_tx_event \<noteq> None"
    unfolding emit_breakdowns_def spans option.case cover by (simp split: prod.split)
  then obtain b where b: "emit_breakdowns (\<lambda>ops. ops) [''db''] example_tx_event = Some b" by blast
  have "{0..<5} \<union> {3..<8} = {0..<8 :: int}" by auto
  then have "card (\<Union>w \<in> set (span_intervals [''db''] ?spans (Emit ''db'')). window_set w) = 8"
    by (simp add: iv window_set_def)
  then show ?thesis using span_breakdowns_exact [OF b spans, of "''db''"] b by (auto simp: iv)
qed

end
