(* ===== verification/Spec2Isabelle.thy ===== *)
theory Spec2Isabelle
  imports Envelope_Manager Outcome_Producer Upstream_Projects Relay_Cache Relay_Auth Selectors
    Transactions
begin

text \<open>
  A verification library for Relay, Sentry's ingestion proxy.

  \<^bold>\<open>The program.\<close> Relay receives envelopes of items (events, transactions, attachments,
  sessions, metrics) over HTTP, checks them against the configuration of their project and
  forwards them. An envelope is parsed and bound to the authenticated project. The envelope
  manager queues it, asks the project cache to check it against the project state and cached
  rate limits, samples traces, and hands it to the processor, which extracts the event,
  validates sessions and reports, samples and filters, enforces quotas against Redis,
  scrubs personal data and serializes the event again. The result goes to the upstream actor,
  which authenticates this relay, queues requests and detects outages, or to the store.
  What is lost is reported through the outcome producer. Project states and keys of other
  relays are fetched in batches from the upstream and cached. Metrics are parsed, grouped
  into buckets and flushed on a schedule.

  \<^bold>\<open>Theories and sources\<close> (paths under \<open>src/\<close>).
  \<^item> \<open>Relay_Prelude\<close>: machine integers, UTF-8 strings as byte lists, and the parts of the Rust
    standard library that are used: splitting, trimming, integer printing and parsing,
    \<open>Vec::swap_remove\<close>, \<open>Iterator::position\<close>.
  \<^item> \<open>Float64\<close>: \<open>f64\<close> as exact binary64 arithmetic with correct rounding, and its order.
  \<^item> \<open>Ordered_Map\<close>: \<open>BTreeMap\<close> as a sorted association list over a key order (locale
    \<open>key_order\<close>).
  \<^item> \<open>Relay_Common\<close>: \<open>relay-common/src/constants.rs\<close>, \<open>project.rs\<close>, \<open>time.rs\<close>. The locale
    \<open>str_enum\<close> is the contract between \<open>Display\<close> and \<open>FromStr\<close> of the enumerations.
  \<^item> \<open>Quotas\<close> and \<open>Rate_Limits\<close>: \<open>relay-quotas/src/quota.rs\<close> and \<open>rate_limit.rs\<close>.
  \<^item> \<open>Redis_Limiter\<close>: \<open>relay-quotas/src/redis.rs\<close> and \<open>is_rate_limited.lua\<close>.
  \<^item> \<open>Envelope\<close>: \<open>relay-server/src/envelope.rs\<close> and the request metadata of
    \<open>relay-server/src/extractors/request_meta.rs\<close>.
  \<^item> \<open>Envelope_Limiter\<close>: \<open>relay-server/src/utils/rate_limits.rs\<close>. The locale
    \<open>rate_limit_checker\<close> is the contract of the function passed to \<open>EnvelopeLimiter::new\<close>;
    it is interpreted on the check of cached limits (\<open>relay-server/src/actors/project.rs\<close>)
    and on the Redis limiter.
  \<^item> \<open>Metrics_Protocol\<close>: \<open>relay-metrics/src/protocol.rs\<close>.
  \<^item> \<open>Metrics_Values\<close> and \<open>Metrics_Aggregator\<close>: \<open>relay-metrics/src/aggregation.rs\<close>. The locale
    \<open>merge_value\<close> is the trait \<open>MergeValue\<close>, \<open>min_heap\<close> the priority queue; the actor is the
    step relation \<open>agg_step\<close> with its reachable states.
  \<^item> \<open>Event_Filters\<close>: the crate \<open>relay-filter\<close> and \<open>relay-general/src/user_agent.rs\<close>.
  \<^item> \<open>Sampling\<close>: \<open>relay-sampling/src/lib.rs\<close>, \<open>relay-server/src/utils/dynamic_sampling.rs\<close> and
    \<open>sample_event\<close> of \<open>relay-server/src/actors/envelopes.rs\<close>. The locale
    \<open>condition_evaluator\<close> is what the evaluators for events and traces share.
  \<^item> \<open>Relay_Config\<close>: \<open>relay-config/src/byte_size.rs\<close>, \<open>upstream.rs\<close> and \<open>config.rs\<close>.
  \<^item> \<open>Outcomes\<close> and \<open>Outcome_Producer\<close>: \<open>relay-server/src/actors/outcome.rs\<close>.
  \<^item> \<open>Project_State\<close> and \<open>Project_Cache\<close>: \<open>relay-server/src/actors/project.rs\<close> and
    \<open>project_cache.rs\<close>; project actors, their channels and the cache are one reachable system.
  \<^item> \<open>Batched_Fetch\<close>: the locale \<open>batched_fetcher\<close>, the contract of an actor that collects
    requests and fetches them in batches with a backoff; it is interpreted in
    \<open>Upstream_Projects\<close> (\<open>relay-server/src/actors/project_upstream.rs\<close>,
    \<open>relay-common/src/retry.rs\<close>) and \<open>Relay_Cache\<close> (\<open>relay-server/src/actors/relays.rs\<close>).
  \<^item> \<open>Upstream_Relay\<close>: \<open>relay-server/src/actors/upstream.rs\<close> with the errors of
    \<open>relay-server/src/http.rs\<close>.
  \<^item> \<open>Relay_Auth\<close>: \<open>relay-auth/src/lib.rs\<close> and \<open>relay-server/src/extractors/signed_json.rs\<close>.
  \<^item> \<open>Annotated_Values\<close>: \<open>relay-general/src/types\<close> and \<open>processor/size.rs\<close>;
    \<open>Text_Trimming\<close>: \<open>processor/chunks.rs\<close> and \<open>store/trimming.rs\<close>;
    \<open>Selectors\<close>: \<open>processor/attrs.rs\<close> and \<open>processor/selector.rs\<close>.
  \<^item> \<open>Form_Data\<close> and \<open>Form_Merge\<close>: \<open>relay-server/src/utils/multipart.rs\<close>, \<open>param_parser.rs\<close> and
    \<open>merge_formdata\<close> of \<open>envelopes.rs\<close>.
  \<^item> \<open>Sessions\<close>: \<open>relay-general/src/protocol/session.rs\<close>, \<open>user_report.rs\<close>,
    \<open>relay-general/src/store/clock_drift.rs\<close> and the session stages of \<open>envelopes.rs\<close>.
  \<^item> \<open>Event_Extraction\<close>, \<open>Envelope_Processor\<close> and \<open>Envelope_Manager\<close>:
    \<open>relay-server/src/actors/envelopes.rs\<close> (\<open>ProcessEnvelopeState\<close> with its errors, the stages
    of \<open>EnvelopeProcessor\<close>, and the actor \<open>EnvelopeManager\<close>) and
    \<open>relay-server/src/utils/unreal.rs\<close>. A future of the manager is a task that waits for one
    reply at a time; \<open>task_step\<close> is what a reply does, \<open>manager_reachable\<close> all interleavings.
  \<^item> \<open>Transactions\<close>: \<open>relay-general/src/store/transactions.rs\<close> and
    \<open>store/normalize/breakdowns.rs\<close>.

  \<^bold>\<open>What is shown.\<close>
  \<^item> Envelopes: serializing and parsing are inverse on framed items, whatever the parser accepts
    can be serialized again, an accepted request is bound to its project and carries an
    event id when an item needs one, and splitting and taking lose no item.
  \<^item> Rate limits: merging refines the pointwise maximum of expiry times; checks are limited
    exactly when a running limit or a reject-all quota matches; announced seconds round up.
    The Redis script consumes all quotas or none and keeps accepted counters within their
    limits; windows, expiry times and keys of counters are exact.
  \<^item> Envelope rate limiting: which items go and which stay for every combination of limits,
    that nothing else changes, that only limits of contained categories are reported, and
    that the header codec is a round trip.
  \<^item> Metrics: the parser is sound and complete for the documented format, merging is a
    commutative multiset union of distributions, and in every reachable state of the
    aggregator its queue and its buckets agree, so that a flush cannot panic, sends exactly
    the due buckets and can be undone by merging them back.
  \<^item> Filters and sampling: the first applicable filter or rule decides, wildcard origins match
    exactly the domain and its subdomains, trace decisions are the same for all services
    of a trace, and dropping a transaction removes exactly its dependents.
  \<^item> Project states: every receiver handed out by the project cache is answered exactly once and
    deliveries end; an envelope is refused exactly when its project refuses it. The batching
    sources never get stuck while a receiver waits, and lose no receiver.
  \<^item> Upstream: every request is in exactly one place and answered at most once, queues are
    served in order of priority and arrival, exactly one authentication loop runs, and an outage
    always has a connection check under way. The registration handshake accepts what a relay
    signs and nothing older than the limit.
  \<^item> Event data: metadata trees, chunks of annotated strings and size estimates are exact; trimming
    keeps its bounds; path selectors mean what they say.
  \<^item> Transactions: exactly the valid transactions are accepted and they leave with all required
    fields; operation breakdowns measure the union of the time of their spans.
  \<^item> Requests of crash reporters: files and fields of a multipart request survive the trip through
    the form data item, and merged fields never overwrite each other.
  \<^item> Processing: sessions that pass are valid; extraction takes exactly one event and leaves none
    behind; a limited event disappears with its dependents. Composed with the manager: no
    event leaves the relay that was not scrubbed, the counter of active envelopes is exact under
    every interleaving, queueing loses and duplicates no item, a task always ends with its
    timeout, and each loss is reported exactly once.

  \<^bold>\<open>Conventions.\<close> A struct is a record, an enum a datatype, \<open>Result\<close> a sum with the error on the
  left. A panic is an explicit value (\<open>None\<close> or an error constructor). Integers of the
  source are words of their width, except \<open>usize\<close> counters of items in memory, which are
  natural numbers, and \<open>i32\<close> version numbers, which are integers parsed with their range
  check. The clock is an argument: every operation that calls \<open>Instant::now\<close> or
  \<open>SystemTime::now\<close> takes the time it reads. A \<open>HashMap\<close> whose order is not observed is a
  map. All functions terminate and no fuel is needed: the recursions that are not structural
  (the item loop of the parser, the metric line iterator, the flush loop, the pump of the
  upstream queues, the form data and breadcrumb iterators, taking metrics out of an envelope)
  are justified by the bytes, queue entries, items or counts that remain. Actors are functions
  from a state and a message to a state and the messages sent; where the order of messages
  matters they are closed under all interleavings by an inductive predicate of reachable states.
  The model is the build with the feature \<open>processing\<close>, in release mode: arithmetic wraps.

  \<^bold>\<open>Parameters.\<close> Code outside the repository is an argument of the definitions that call it: the
  JSON library (a streaming deserializer and a serializer), the Redis client, the FNV
  hash of metric sets, the regular expression, glob, URL, network and user agent engines,
  Unicode lower casing, the Pcg32 generator, the exponential backoff, signatures and base64, the
  multipart parser, MessagePack, the readers of Unreal and native crash files and the mailboxes
  between actors. What a theorem needs of them is a named hypothesis (for example
  \<open>uniform_unit\<close>) with a witness at a concrete instance. The records \<open>extract_ext\<close>,
  \<open>session_ext\<close>, \<open>process_ext\<close> and \<open>manager_ext\<close> collect these arguments for the processor;
  its theorems assume nothing about them.

  \<^bold>\<open>Not modelled.\<close> The event schema of \<open>relay-general/src/protocol\<close> beyond the fields that the
  modelled code reads, the rest of its normalization for storage (\<open>StoreProcessor\<close>) and the PII processors
  are code of the repository that the pipeline calls through \<open>process_ext\<close>: they are derives
  over large structs around regular expression engines, and the statements about the pipeline
  hold for any of their results. HTTP endpoints and extractors, the Kafka producers, loading
  configuration files, logging, the Redis pool, the C ABI and the command line are I/O of
  third-party frameworks. Serde derives are not part of the model. Metrics and logs that the
  program records about itself are left out.
\<close>

end
